(* ===== verification/JsPrelude.thy ===== *)
theory JsPrelude
  imports Main "HOL-Library.AList" "HOL-Library.Word" "HOL-Library.List_Lexorder"
    "HOL-Library.Sublist"
begin

text \<open>
  The part of JavaScript the daemon uses, shared by every component theory: strings as
  lists of UTF-16 code units, the string methods the source calls, insertion-ordered
  \<open>Map\<close> and \<open>Set\<close> values as lists, decimal rendering, and errors as values.

  A JavaScript string is a list of 16-bit code units, so that lengths, slices and byte
  counts are those of the language; a source literal \<^verbatim>\<open>'abc'\<close> is written
  \<open>js ''abc''\<close>. Two literals are compared by \<open>js_eq_iff\<close>, which brings the
  comparison back to character lists.
\<close>

named_theorems inv_intros \<open>one operation keeps a component's invariant\<close>
named_theorems field_simps_js \<open>what an operation leaves in a field of its state\<close>

section \<open>Strings\<close>

type_synonym jchar = "16 word"
type_synonym jstring = "jchar list"

abbreviation ch :: "char \<Rightarrow> jchar" where
  "ch c \<equiv> of_char c"

definition js :: "string \<Rightarrow> jstring" where
  "js s = map of_char s"

lemma unat_of_char: "unat (of_char c :: jchar) = of_char c"
proof -
  have "(of_char c :: nat) < 256"
    by (metis of_char_mod_256 mod_less_divisor zero_less_numeral)
  then have lt: "(of_char c :: nat) < 2 ^ 16" by (rule less_trans) simp
  have "(of_char c :: jchar) = of_nat (of_char c)"
    by (simp add: of_nat_of_char)
  then show ?thesis using lt by (simp add: unat_of_nat take_bit_nat_eq_self)
qed

lemma of_char_jchar_iff: "(of_char c :: jchar) = of_char d \<longleftrightarrow> c = d"
  by (metis unat_of_char of_char_eq_iff)

lemma js_Nil [simp]: "js [] = []"
  and js_Cons: "js (c # s) = ch c # js s"
  by (simp_all add: js_def)

lemma length_js [simp]: "length (js s) = length s"
  by (simp add: js_def)

lemma js_append: "js (s @ t) = js s @ js t"
  by (simp add: js_def)

lemma js_eq_iff [simp]: "js s = js t \<longleftrightarrow> s = t"
  unfolding js_def by (rule inj_map_eq_map) (simp add: inj_def of_char_jchar_iff)

lemma js_eq_Nil [simp]: "js s = [] \<longleftrightarrow> s = []" "[] = js s \<longleftrightarrow> s = []"
  by (auto simp: js_def)

lemma prefix_js [simp]: "prefix (js s) (js t) \<longleftrightarrow> prefix s t"
proof (induction s arbitrary: t)
  case (Cons c s)
  then show ?case
    by (cases t) (simp_all add: js_Cons of_char_jchar_iff)
qed simp

lemma unat_jchar_less [simp]: "unat (u :: jchar) < 65536"
  using unsigned_less [of u, where ?'a = nat] by simp

text \<open>
  \<open>is_space\<close> is the set \<open>WhiteSpace\<close> and \<open>LineTerminator\<close> of the language, what
  \<^verbatim>\<open>trim\<close> strips and \<^verbatim>\<open>\s\<close> matches.
\<close>

definition is_space :: "jchar \<Rightarrow> bool" where
  "is_space u \<longleftrightarrow> u \<in> set [9, 10, 11, 12, 13, 32, 0xA0, 0x1680, 0x2000, 0x2001, 0x2002, 0x2003,
     0x2004, 0x2005, 0x2006, 0x2007, 0x2008, 0x2009, 0x200A, 0x2028, 0x2029, 0x202F, 0x205F,
     0x3000, 0xFEFF]"

definition trim :: "jstring \<Rightarrow> jstring" where
  "trim s = rev (dropWhile is_space (rev (dropWhile is_space s)))"

text \<open>\<^verbatim>\<open>s.startsWith(p)\<close>, \<^verbatim>\<open>s.endsWith(p)\<close> and \<^verbatim>\<open>s.includes(t)\<close>.\<close>

definition starts_with :: "jstring \<Rightarrow> jstring \<Rightarrow> bool" where
  "starts_with s p \<longleftrightarrow> take (length p) s = p"

definition ends_with :: "jstring \<Rightarrow> jstring \<Rightarrow> bool" where
  "ends_with s p \<longleftrightarrow> length p \<le> length s \<and> drop (length s - length p) s = p"

fun str_includes :: "jstring \<Rightarrow> jstring \<Rightarrow> bool" where
  "str_includes [] t \<longleftrightarrow> t = []"
| "str_includes (u # s) t \<longleftrightarrow> starts_with (u # s) t \<or> str_includes s t"

text \<open>\<^verbatim>\<open>s.split(c)\<close> for a one-unit separator, and \<^verbatim>\<open>xs.join(sep)\<close>.\<close>

fun split_on :: "jchar \<Rightarrow> jstring \<Rightarrow> jstring list" where
  "split_on c [] = [[]]"
| "split_on c (u # s) =
     (if u = c then [] # split_on c s
      else case split_on c s of [] \<Rightarrow> [[u]] | w # ws \<Rightarrow> (u # w) # ws)"

fun join :: "jstring \<Rightarrow> jstring list \<Rightarrow> jstring" where
  "join sep [] = []"
| "join sep [w] = w"
| "join sep (w # ws) = w @ sep @ join sep ws"

text \<open>
  \<^verbatim>\<open>toLowerCase\<close>, exact wherever the source compares the result with an ASCII word: the
  units that lower to an ASCII letter are the capitals and the Kelvin sign U+212A. Other
  letters of Unicode are left alone.
\<close>

definition lower_unit :: "jchar \<Rightarrow> jchar" where
  "lower_unit u = (if 65 \<le> u \<and> u \<le> 90 then u + 32 else if u = 0x212A then 0x6B else u)"

definition to_lower :: "jstring \<Rightarrow> jstring" where
  "to_lower s = map lower_unit s"

definition is_digit :: "jchar \<Rightarrow> bool" where
  "is_digit u \<longleftrightarrow> 48 \<le> u \<and> u \<le> 57"

definition is_alnum :: "jchar \<Rightarrow> bool" where
  "is_alnum u \<longleftrightarrow> is_digit u \<or> 65 \<le> u \<and> u \<le> 90 \<or> 97 \<le> u \<and> u \<le> 122"

definition is_lower_alnum :: "jchar \<Rightarrow> bool" where
  "is_lower_alnum u \<longleftrightarrow> is_digit u \<or> 97 \<le> u \<and> u \<le> 122"

text \<open>Decimal rendering of integers, as in a template literal.\<close>

fun dec :: "nat \<Rightarrow> jstring" where
  "dec n = (if n < 10 then [of_nat (48 + n)] else dec (n div 10) @ [of_nat (48 + n mod 10)])"

declare dec.simps [simp del]

definition int_text :: "int \<Rightarrow> jstring" where
  "int_text i = (if i < 0 then ch CHR ''-'' # dec (nat (- i)) else dec (nat i))"

text \<open>The value of a string of digits, \<^verbatim>\<open>Number(s)\<close> where \<^verbatim>\<open>/^\d+$/\<close> holds.\<close>

definition dec_value :: "jstring \<Rightarrow> nat" where
  "dec_value s = foldl (\<lambda>n u. 10 * n + (unat u - 48)) 0 s"

lemma starts_with_prefix: "starts_with s p \<longleftrightarrow> prefix p s"
  by (auto simp: starts_with_def prefix_def) (metis append_take_drop_id)

lemma starts_with_js [simp]: "starts_with (js s) (js p) \<longleftrightarrow> prefix p s"
  by (simp add: starts_with_prefix)

lemma starts_with_append [simp]: "starts_with (p @ s) p"
  by (simp add: starts_with_def)

lemma starts_with_Nil [simp]: "starts_with s []"
  by (simp add: starts_with_def)

lemma trim_Nil [simp]: "trim [] = []"
  by (simp add: trim_def)

lemma trim_ends:
  assumes "trim s \<noteq> []"
  shows "\<not> is_space (hd (trim s))" and "\<not> is_space (last (trim s))"
proof -
  let ?a = "dropWhile is_space s"
  have ne: "dropWhile is_space (rev ?a) \<noteq> []"
    using assms unfolding trim_def by (simp only: rev_is_Nil_conv) simp
  then have "?a \<noteq> []" by (metis dropWhile.simps(1) rev.simps(1))
  then have hd: "\<not> is_space (hd ?a)" by (rule hd_dropWhile)
  show "\<not> is_space (last (trim s))"
    using ne hd_dropWhile [OF ne] by (simp add: trim_def last_rev)
  obtain k where k: "rev ?a = k @ dropWhile is_space (rev ?a)" "\<forall>u\<in>set k. is_space u"
    by (metis takeWhile_dropWhile_id set_takeWhileD)
  then have "?a = rev (dropWhile is_space (rev ?a)) @ rev k"
    by (metis rev_append rev_rev_ident)
  then have "hd ?a = hd (rev (dropWhile is_space (rev ?a)))"
    using ne by (metis hd_append2 rev_is_Nil_conv)
  then show "\<not> is_space (hd (trim s))" using hd by (simp add: trim_def)
qed

lemma trim_no_space: "\<forall>u \<in> set s. \<not> is_space u \<Longrightarrow> trim s = s"
proof -
  assume "\<forall>u \<in> set s. \<not> is_space u"
  then have "dropWhile is_space s = s" "dropWhile is_space (rev s) = rev s"
    by (auto simp: dropWhile_eq_self_iff hd_rev)
  then show ?thesis by (simp add: trim_def)
qed

lemma trim_subset: "set (trim s) \<subseteq> set s"
  unfolding trim_def by (auto dest!: set_dropWhileD)

lemma trim_trim [simp]: "trim (trim s) = trim s"
proof (cases "trim s = []")
  case False
  then have "dropWhile is_space (trim s) = trim s" "dropWhile is_space (rev (trim s)) = rev (trim s)"
    using trim_ends by (simp_all add: dropWhile_eq_self_iff hd_rev)
  then show ?thesis by (simp only: trim_def [of "trim s"] rev_rev_ident)
qed simp

lemma split_on_not_Nil [simp]: "split_on c s \<noteq> []"
  by (induction s) (auto split: list.splits)

lemma join_split_on: "join [c] (split_on c s) = s"
proof (induction s)
  case (Cons u s)
  obtain w ws where w: "split_on c s = w # ws"
    by (cases "split_on c s") auto
  with Cons show ?case by (cases ws) auto
qed simp

lemma split_on_no_sep: "w \<in> set (split_on c s) \<Longrightarrow> c \<notin> set w"
proof (induction s arbitrary: w)
  case (Cons u s)
  obtain v ws where "split_on c s = v # ws"
    by (cases "split_on c s") auto
  with Cons show ?case by (auto split: if_splits)
qed simp

lemma dec_not_Nil [simp]: "dec n \<noteq> []"
  by (subst dec.simps) simp

lemma mult_div_le: "0 < b \<Longrightarrow> b * (a div b) \<le> (a :: int)"
  using pos_mod_sign [of b a] minus_mult_div_eq_mod [of a b] by linarith

section \<open>Insertion-ordered maps and sets\<close>

text \<open>
  A \<open>Map\<close> is an association list in insertion order: \<open>set\<close> on a key that is there
  keeps its place, \<open>delete\<close> removes it (\<open>AList.update\<close> and \<open>AList.delete\<close> of the
  library). A \<open>Set\<close> is a list without duplicates, a new element last.
\<close>

type_synonym ('k, 'v) jmap = "('k \<times> 'v) list"

definition set_add :: "'a \<Rightarrow> 'a list \<Rightarrow> 'a list" where
  "set_add x xs = (if x \<in> set xs then xs else xs @ [x])"

definition set_del :: "'a \<Rightarrow> 'a list \<Rightarrow> 'a list" where
  "set_del x xs = filter (\<lambda>y. y \<noteq> x) xs"

lemma set_set_add [simp]: "set (set_add x xs) = insert x (set xs)"
  by (auto simp: set_add_def)

lemma set_set_del [simp]: "set (set_del x xs) = set xs - {x}"
  by (auto simp: set_del_def)

lemma distinct_set_add [simp]: "distinct (set_add x xs) \<longleftrightarrow> distinct xs"
  by (auto simp: set_add_def)

lemma distinct_set_del: "distinct xs \<Longrightarrow> distinct (set_del x xs)"
  by (simp add: set_del_def)

section \<open>Errors as values\<close>

text \<open>
  What a handler throws: an HTTP status and a message. Code that throws has a result of type
  \<open>http_error + 'a\<close>, with \<open>Inl\<close> the throw.
\<close>

record http_error =
  he_status :: nat
  he_message :: jstring

definition http_err :: "nat \<Rightarrow> jstring \<Rightarrow> http_error" where
  "http_err c m = \<lparr>he_status = c, he_message = m\<rparr>"

definition bad_request :: "jstring \<Rightarrow> http_error" where
  "bad_request m = http_err 400 m"

lemma status_http_err [simp]: "he_status (http_err c m) = c" "he_message (http_err c m) = m"
  by (simp_all add: http_err_def)

lemma status_bad_request [simp]: "he_status (bad_request m) = 400" "he_message (bad_request m) = m"
  by (simp_all add: bad_request_def)

end
