(* ===== verification/JsJson.thy ===== *)
theory JsJson
  imports JsPrelude
begin

text \<open>
  JSON values, their text and its size in UTF-8: \<^verbatim>\<open>JSON.stringify\<close>,
  \<^verbatim>\<open>Buffer.byteLength\<close> and \<^verbatim>\<open>Buffer.from(s, 'utf8')\<close> as the daemon uses them.

  \<open>JInt\<close> is a number with an integer value, \<open>JFrac\<close> any other finite number, kept as its
  JSON text since the code only copies those, and \<open>JBig\<close> a BigInt, the value
  \<^verbatim>\<open>JSON.stringify\<close> throws on. An object lists its properties in
  \<^verbatim>\<open>Object.keys\<close> order.
\<close>

section \<open>Values\<close>

datatype json =
    JUndef
  | JNull
  | JBool bool
  | JInt int
  | JFrac jstring
  | JBig int
  | JStr jstring
  | JArr "json list"
  | JObj "(jstring \<times> json) list"

type_synonym json_obj = "(jstring \<times> json) list"

text \<open>\<open>jget v k\<close> is \<^verbatim>\<open>v?.k\<close>, and \<open>jprop o k\<close> the property of an object.\<close>

definition jprop :: "json_obj \<Rightarrow> jstring \<Rightarrow> json" where
  "jprop kvs k = (case map_of kvs k of None \<Rightarrow> JUndef | Some v \<Rightarrow> v)"

fun jget :: "json \<Rightarrow> jstring \<Rightarrow> json" where
  "jget (JObj kvs) k = jprop kvs k"
| "jget _ k = JUndef"

text \<open>\<open>jput\<close> is \<^verbatim>\<open>{ ...o, k: v }\<close>.\<close>

definition jput :: "jstring \<Rightarrow> json \<Rightarrow> json_obj \<Rightarrow> json_obj" where
  "jput k v kvs = AList.update k v kvs"

fun truthy :: "json \<Rightarrow> bool" where
  "truthy JUndef = False"
| "truthy JNull = False"
| "truthy (JBool b) = b"
| "truthy (JInt i) = (i \<noteq> 0)"
| "truthy (JFrac _) = True"
| "truthy (JBig i) = (i \<noteq> 0)"
| "truthy (JStr s) = (s \<noteq> [])"
| "truthy (JArr _) = True"
| "truthy (JObj _) = True"

definition nullish :: "json \<Rightarrow> bool" where
  "nullish v \<longleftrightarrow> v = JUndef \<or> v = JNull"

fun is_str :: "json \<Rightarrow> bool" where
  "is_str (JStr _) = True"
| "is_str _ = False"

fun is_arr :: "json \<Rightarrow> bool" where
  "is_arr (JArr _) = True"
| "is_arr _ = False"

fun is_obj :: "json \<Rightarrow> bool" where
  "is_obj (JObj _) = True"
| "is_obj _ = False"

text \<open>\<^verbatim>\<open>v && typeof v === 'object'\<close>: an object or an array, not null.\<close>

definition is_object_type :: "json \<Rightarrow> bool" where
  "is_object_type v \<longleftrightarrow> is_arr v \<or> is_obj v"

text \<open>\<^verbatim>\<open>typeof v === 'string' ? v : ''\<close> and \<^verbatim>\<open>Array.isArray(v) ? v : []\<close>.\<close>

fun str_or :: "jstring \<Rightarrow> json \<Rightarrow> jstring" where
  "str_or d (JStr s) = s"
| "str_or d _ = d"

fun arr_or_nil :: "json \<Rightarrow> json list" where
  "arr_or_nil (JArr xs) = xs"
| "arr_or_nil _ = []"

fun str_option :: "json \<Rightarrow> jstring option" where
  "str_option (JStr s) = Some s"
| "str_option _ = None"

fun strings_of :: "json list \<Rightarrow> jstring list" where
  "strings_of [] = []"
| "strings_of (JStr s # vs) = s # strings_of vs"
| "strings_of (_ # vs) = strings_of vs"

text \<open>\<^verbatim>\<open>String(v)\<close>; an array joins its items, \<open>null\<close> and \<open>undefined\<close> as nothing.\<close>

fun js_String :: "json \<Rightarrow> jstring"
  and item_Strings :: "json list \<Rightarrow> jstring list" where
  "js_String JUndef = js ''undefined''"
| "js_String JNull = js ''null''"
| "js_String (JBool b) = (if b then js ''true'' else js ''false'')"
| "js_String (JInt i) = int_text i"
| "js_String (JFrac t) = t"
| "js_String (JBig i) = int_text i"
| "js_String (JStr s) = s"
| "js_String (JArr xs) = join [0x2C] (item_Strings xs)"
| "js_String (JObj _) = js ''[object Object]''"
| "item_Strings [] = []"
| "item_Strings (x # xs) = (if x = JUndef \<or> x = JNull then [] else js_String x) # item_Strings xs"

text \<open>\<^verbatim>\<open>String(v || '')\<close> and \<^verbatim>\<open>a ?? b\<close>.\<close>

definition string_or_empty :: "json \<Rightarrow> jstring" where
  "string_or_empty v = (if truthy v then js_String v else [])"

definition or_nullish :: "json \<Rightarrow> json \<Rightarrow> json" where
  "or_nullish a b = (if nullish a then b else a)"

lemma is_str_iff: "is_str v \<longleftrightarrow> (\<exists>s. v = JStr s)"
  by (cases v) auto

lemma is_arr_iff: "is_arr v \<longleftrightarrow> (\<exists>xs. v = JArr xs)"
  by (cases v) auto

lemma is_obj_iff: "is_obj v \<longleftrightarrow> (\<exists>kvs. v = JObj kvs)"
  by (cases v) auto

lemma jprop_jput [simp]: "jprop (jput k v kvs) k' = (if k' = k then v else jprop kvs k')"
  by (simp add: jprop_def jput_def update_conv')

lemma jget_JObj_Cons [simp]: "jprop ((k, v) # kvs) k' = (if k' = k then v else jprop kvs k')"
  by (simp add: jprop_def)

lemma jprop_Nil [simp]: "jprop [] k = JUndef"
  by (simp add: jprop_def)

lemma jput_simps [simp]:
  "jput k v [] = [(k, v)]"
  "jput k v ((k', v') # kvs) = (if k' = k then (k, v) # kvs else (k', v') # jput k v kvs)"
  by (simp_all add: jput_def)

section \<open>UTF-8\<close>

definition high_surrogate :: "jchar \<Rightarrow> bool" where
  "high_surrogate u \<longleftrightarrow> 0xD800 \<le> u \<and> u < 0xDC00"

definition low_surrogate :: "jchar \<Rightarrow> bool" where
  "low_surrogate u \<longleftrightarrow> 0xDC00 \<le> u \<and> u < 0xE000"

text \<open>
  The code points of a string, a lone surrogate replaced by U+FFFD as
  \<^verbatim>\<open>Buffer.from\<close> does.
\<close>

fun code_points :: "jstring \<Rightarrow> nat list" where
  "code_points [] = []"
| "code_points [u] =
     [if high_surrogate u \<or> low_surrogate u then 0xFFFD else unat u]"
| "code_points (u # v # s) =
     (if high_surrogate u \<and> low_surrogate v
      then (0x10000 + (unat u - 0xD800) * 1024 + (unat v - 0xDC00)) # code_points s
      else (if high_surrogate u \<or> low_surrogate u then 0xFFFD else unat u) # code_points (v # s))"

text \<open>A code point's bytes and its UTF-16 units.\<close>

definition encode_cp :: "nat \<Rightarrow> nat list" where
  "encode_cp c =
     (if c < 0x80 then [c]
      else if c < 0x800 then [0xC0 + c div 64, 0x80 + c mod 64]
      else if c < 0x10000 then [0xE0 + c div 4096, 0x80 + (c div 64) mod 64, 0x80 + c mod 64]
      else [0xF0 + c div 262144, 0x80 + (c div 4096) mod 64, 0x80 + (c div 64) mod 64,
            0x80 + c mod 64])"

definition units_cp :: "nat \<Rightarrow> jstring" where
  "units_cp c =
     (if c < 0x10000 then [of_nat c]
      else [of_nat (0xD800 + (c - 0x10000) div 1024), of_nat (0xDC00 + (c - 0x10000) mod 1024)])"

definition utf8 :: "jstring \<Rightarrow> nat list" where
  "utf8 s = concat (map encode_cp (code_points s))"

definition byte_length :: "jstring \<Rightarrow> nat" where
  "byte_length s = length (utf8 s)"

text \<open>
  Decoding, \<^verbatim>\<open>buf.toString('utf8')\<close>: an ill-formed byte becomes U+FFFD.
\<close>

definition cont :: "nat \<Rightarrow> bool" where
  "cont b \<longleftrightarrow> 0x80 \<le> b \<and> b < 0xC0"

fun decode_cps :: "nat list \<Rightarrow> nat list" where
  "decode_cps [] = []"
| "decode_cps (a # bs) =
     (if a < 0x80 then a # decode_cps bs
      else case bs of
        b # bs1 \<Rightarrow>
          if 0xC0 \<le> a \<and> a < 0xE0 \<and> cont b
          then ((a - 0xC0) * 64 + (b - 0x80)) # decode_cps bs1
          else (case bs1 of
            c # bs2 \<Rightarrow>
              if 0xE0 \<le> a \<and> a < 0xF0 \<and> cont b \<and> cont c
              then ((a - 0xE0) * 4096 + (b - 0x80) * 64 + (c - 0x80)) # decode_cps bs2
              else (case bs2 of
                d # bs3 \<Rightarrow>
                  if 0xF0 \<le> a \<and> a < 0xF8 \<and> cont b \<and> cont c \<and> cont d
                  then ((a - 0xF0) * 262144 + (b - 0x80) * 4096 + (c - 0x80) * 64 + (d - 0x80))
                    # decode_cps bs3
                  else 0xFFFD # decode_cps bs
              | [] \<Rightarrow> 0xFFFD # decode_cps bs)
          | [] \<Rightarrow> 0xFFFD # decode_cps bs)
      | [] \<Rightarrow> [0xFFFD])"

definition utf8_decode :: "nat list \<Rightarrow> jstring" where
  "utf8_decode bs = concat (map units_cp (decode_cps bs))"

lemma code_points_bound: "c \<in> set (code_points s) \<Longrightarrow> c < 0x110000"
proof (induction s arbitrary: c rule: code_points.induct)
  case (2 u)
  have "unat u < 1114112" by (rule less_trans [OF unat_jchar_less]) simp
  with 2 show ?case by (auto split: if_splits)
next
  case (3 u v s)
  have lt: "unat u < 1114112" by (rule less_trans [OF unat_jchar_less]) simp
  show ?case
  proof (cases "high_surrogate u \<and> low_surrogate v")
    case True
    then have "unat u < 0xDC00" "unat v < 0xE000"
      by (auto simp: high_surrogate_def low_surrogate_def word_less_nat_alt)
    then have "0x10000 + (unat u - 0xD800) * 1024 + (unat v - 0xDC00) < 0x110000"
      by linarith
    with True 3 show ?thesis by auto
  next
    case False
    with 3 lt show ?thesis by (auto split: if_splits)
  qed
qed simp

lemma encode_cp_length: "length (encode_cp c) \<in> {1, 2, 3, 4}"
  by (simp add: encode_cp_def)

lemma encode_cp_not_Nil [simp]: "encode_cp c \<noteq> []"
  by (simp add: encode_cp_def)

lemma encode_cp_head: "\<not> cont (hd (encode_cp c))"
  by (auto simp: encode_cp_def cont_def)

lemma encode_cp_tail: "b \<in> set (tl (encode_cp c)) \<Longrightarrow> cont b"
proof -
  have "n mod 64 < 64" for n :: nat by simp
  then have "cont (0x80 + n mod 64)" for n by (simp add: cont_def)
  moreover assume "b \<in> set (tl (encode_cp c))"
  ultimately show ?thesis by (auto simp: encode_cp_def split: if_splits)
qed

lemma decode_encode_cp: "c < 0x110000 \<Longrightarrow> decode_cps (encode_cp c @ bs) = c # decode_cps bs"
proof -
  assume c: "c < 0x110000"
  have cont: "cont (128 + n mod 64)" for n by (simp add: cont_def)
  have digits: "n div 64 * 64 + n mod 64 = n" for n :: nat by simp
  have div64: "n div 262144 = n div 4096 div 64" "n div 4096 = n div 64 div 64" for n :: nat
    by (simp_all flip: div_mult2_eq)
  consider "c < 0x80" | "0x80 \<le> c" "c < 0x800" | "0x800 \<le> c" "c < 0x10000" | "0x10000 \<le> c"
    by linarith
  then show ?thesis
  proof cases
    case 2
    then have "c div 64 < 32" by auto
    then show ?thesis using 2 cont [of c] by (simp add: encode_cp_def)
  next
    case 3
    then have "c div 4096 < 16" by auto
    moreover have "c div 4096 * 4096 + (c div 64) mod 64 * 64 + c mod 64 = c"
      using digits [of c] digits [of "c div 64"] unfolding div64 by linarith
    ultimately show ?thesis using 3 cont [of c] cont [of "c div 64"]
      by (simp add: encode_cp_def)
  next
    case 4
    have "c div 262144 < 5" using c by auto
    moreover have
      "c div 262144 * 262144 + (c div 4096) mod 64 * 4096 + (c div 64) mod 64 * 64 + c mod 64 = c"
      using digits [of c] digits [of "c div 64"] digits [of "c div 4096"] unfolding div64 by linarith
    ultimately show ?thesis using 4 cont [of c] cont [of "c div 64"] cont [of "c div 4096"]
      by (simp add: encode_cp_def)
  qed (simp add: encode_cp_def)
qed

lemma decode_encode:
  "\<forall>c \<in> set cs. c < 0x110000 \<Longrightarrow> decode_cps (concat (map encode_cp cs)) = cs"
  by (induction cs) (simp_all add: decode_encode_cp)

lemma byte_length_Nil [simp]: "byte_length [] = 0"
  by (simp add: byte_length_def utf8_def)

lemma byte_length_le: "byte_length s \<le> 3 * length s"
proof (induction s rule: code_points.induct)
  case (2 u)
  have "unat u < 65536" by simp
  then show ?case by (auto simp: byte_length_def utf8_def encode_cp_def)
next
  case (3 u v s)
  have lt: "unat u < 65536" by simp
  show ?case
  proof (cases "high_surrogate u \<and> low_surrogate v")
    case True
    with 3(1) encode_cp_length [of "0x10000 + (unat u - 0xD800) * 1024 + (unat v - 0xDC00)"]
    show ?thesis by (auto simp: byte_length_def utf8_def)
  next
    case False
    with 3(2) lt show ?thesis by (auto simp: byte_length_def utf8_def encode_cp_def)
  qed
qed simp

text \<open>
  The size of a concatenation is the sum of the sizes unless the boundary joins a surrogate
  pair; JSON text ends in a quote, a digit, a letter or a bracket, so it never does there.
\<close>

lemma code_points_append:
  "s = [] \<or> t = [] \<or> \<not> high_surrogate (last s) \<or> \<not> low_surrogate (hd t) \<Longrightarrow>
    code_points (s @ t) = code_points s @ code_points t"
proof (induction s rule: code_points.induct)
  case (2 u)
  then show ?case by (cases t) auto
qed (auto split: if_splits)

lemma byte_length_append:
  "s = [] \<or> t = [] \<or> \<not> high_surrogate (last s) \<or> \<not> low_surrogate (hd t) \<Longrightarrow>
    byte_length (s @ t) = byte_length s + byte_length t"
  by (simp add: byte_length_def utf8_def code_points_append)

definition ascii :: "jstring \<Rightarrow> bool" where
  "ascii s \<longleftrightarrow> (\<forall>u \<in> set s. u < 0x80)"

lemma ascii_simps [simp]:
  "ascii []" "ascii (u # s) \<longleftrightarrow> u < 0x80 \<and> ascii s" "ascii (s @ t) \<longleftrightarrow> ascii s \<and> ascii t"
  by (auto simp: ascii_def)

lemma not_surrogate: "u < 0x80 \<Longrightarrow> \<not> high_surrogate u \<and> \<not> low_surrogate u"
  by (auto simp: high_surrogate_def low_surrogate_def word_less_nat_alt word_le_nat_alt)

lemma byte_length_ascii: "ascii s \<Longrightarrow> byte_length s = length s"
proof (induction s)
  case (Cons u s)
  then have "u < 0x80" "byte_length s = length s" by auto
  then have "byte_length [u] = 1"
    using not_surrogate [of u]
    by (simp add: byte_length_def utf8_def encode_cp_def word_less_nat_alt)
  with Cons \<open>u < 0x80\<close> byte_length_append [of "[u]" s] not_surrogate [of u] show ?case by simp
qed simp

section \<open>JSON.stringify\<close>

definition hex_digit :: "nat \<Rightarrow> jchar" where
  "hex_digit n = of_nat (if n < 10 then 48 + n else 87 + n)"

definition unicode_escape :: "jchar \<Rightarrow> jstring" where
  "unicode_escape u = [0x5C, 0x75, hex_digit (unat u div 4096 mod 16), hex_digit (unat u div 256 mod 16),
     hex_digit (unat u div 16 mod 16), hex_digit (unat u mod 16)]"

definition escape_unit :: "jchar \<Rightarrow> jstring" where
  "escape_unit u =
     (if u = 0x22 then [0x5C, 0x22]
      else if u = 0x5C then [0x5C, 0x5C]
      else if u = 8 then [0x5C, 0x62]
      else if u = 12 then [0x5C, 0x66]
      else if u = 10 then [0x5C, 0x6E]
      else if u = 13 then [0x5C, 0x72]
      else if u = 9 then [0x5C, 0x74]
      else if u < 32 then unicode_escape u
      else [u])"

text \<open>A surrogate pair is kept, a lone surrogate escaped.\<close>

fun escape :: "jstring \<Rightarrow> jstring" where
  "escape [] = []"
| "escape [u] = (if high_surrogate u \<or> low_surrogate u then unicode_escape u else escape_unit u)"
| "escape (u # v # s) =
     (if high_surrogate u \<and> low_surrogate v then u # v # escape s
      else if high_surrogate u \<or> low_surrogate u then unicode_escape u @ escape (v # s)
      else escape_unit u @ escape (v # s))"

definition quote :: "jstring \<Rightarrow> jstring" where
  "quote s = [0x22] @ escape s @ [0x22]"

fun serializable :: "json \<Rightarrow> bool"
  and serializable_list :: "json list \<Rightarrow> bool"
  and serializable_props :: "json_obj \<Rightarrow> bool" where
  "serializable (JBig _) = False"
| "serializable (JArr xs) = serializable_list xs"
| "serializable (JObj kvs) = serializable_props kvs"
| "serializable _ = True"
| "serializable_list [] = True"
| "serializable_list (x # xs) = (serializable x \<and> serializable_list xs)"
| "serializable_props [] = True"
| "serializable_props ((k, v) # kvs) = (serializable v \<and> serializable_props kvs)"

text \<open>
  The text of a serializable value: \<open>undefined\<close> is \<open>null\<close> in an array and left out of an
  object.
\<close>

fun json_text :: "json \<Rightarrow> jstring"
  and item_texts :: "json list \<Rightarrow> jstring list"
  and prop_texts :: "json_obj \<Rightarrow> jstring list" where
  "json_text JUndef = js ''null''"
| "json_text JNull = js ''null''"
| "json_text (JBool b) = (if b then js ''true'' else js ''false'')"
| "json_text (JInt i) = int_text i"
| "json_text (JFrac t) = t"
| "json_text (JBig i) = []"
| "json_text (JStr s) = quote s"
| "json_text (JArr xs) = [0x5B] @ join [0x2C] (item_texts xs) @ [0x5D]"
| "json_text (JObj kvs) = [0x7B] @ join [0x2C] (prop_texts kvs) @ [0x7D]"
| "item_texts [] = []"
| "item_texts (x # xs) = json_text x # item_texts xs"
| "prop_texts [] = []"
| "prop_texts ((k, v) # kvs) =
     (if v = JUndef then prop_texts kvs
      else (quote k @ [0x3A] @ json_text v) # prop_texts kvs)"

text \<open>
  \<open>stringify\<close> is \<open>Inl ()\<close> where \<^verbatim>\<open>JSON.stringify\<close> throws, and \<open>Inr None\<close> where it
  returns \<open>undefined\<close>.
\<close>

definition stringify :: "json \<Rightarrow> unit + jstring option" where
  "stringify v =
     (if \<not> serializable v then Inl ()
      else if v = JUndef then Inr None
      else Inr (Some (json_text v)))"

definition to_well_formed :: "jstring \<Rightarrow> jstring" where
  "to_well_formed s = concat (map units_cp (code_points s))"

lemma utf8_decode_utf8: "utf8_decode (utf8 s) = to_well_formed s"
  using decode_encode [of "code_points s"] code_points_bound
  by (auto simp: utf8_decode_def utf8_def to_well_formed_def)

lemma serializable_jput:
  "serializable_props kvs \<Longrightarrow> serializable v \<Longrightarrow> serializable_props (jput k v kvs)"
  by (induction kvs) (auto split: if_splits)

lemma serializable_props_iff: "serializable_props kvs \<longleftrightarrow> (\<forall>(k, v) \<in> set kvs. serializable v)"
  by (induction kvs) auto

lemma serializable_list_iff: "serializable_list xs \<longleftrightarrow> (\<forall>v \<in> set xs. serializable v)"
  by (induction xs) auto

lemma ascii_dec: "ascii (dec n)"
proof (induction n rule: dec.induct)
  case (1 n)
  have digit: "(of_nat (48 + d) :: jchar) < 0x80" if "d < 10" for d :: nat
  proof -
    have "unat (of_nat (48 + d) :: jchar) = 48 + d"
      using that unfolding unat_of_nat by (simp add: take_bit_nat_eq_self)
    with that show ?thesis unfolding word_less_nat_alt by simp
  qed
  show ?case
  proof (cases "n < 10")
    case True
    then show ?thesis by (subst dec.simps) (use digit in simp)
  next
    case False
    with 1 have "ascii (dec (n div 10))" by simp
    with False digit [of "n mod 10"] show ?thesis by (subst dec.simps) simp
  qed
qed

lemma length_dec: "n < 10 ^ k \<Longrightarrow> 0 < k \<Longrightarrow> length (dec n) \<le> k"
proof (induction n arbitrary: k rule: dec.induct)
  case (1 n)
  show ?case
  proof (cases "n < 10")
    case True
    with 1(3) show ?thesis by (subst dec.simps) simp
  next
    case False
    then obtain k' where k: "k = Suc k'" "0 < k'"
      using 1(2,3) by (cases k; cases "k - 1") auto
    with 1(2) have "n div 10 < 10 ^ k'" by auto
    with 1(1) [OF False this k(2)] False k show ?thesis by (subst dec.simps) simp
  qed
qed

end
