(* ===== verification/TurnEvents.thy ===== *)
theory TurnEvents
  imports JsJson
begin

text \<open>
  The canonical turn identity, \<^verbatim>\<open>turn-events.mjs\<close>: one open turn at most, and one turn
  that an interrupt closed while its harness still drains. \<open>fresh\<close> is what
  \<^verbatim>\<open>randomUUID()\<close> returns, never the empty string, so \<open>None\<close> is the only falsy id.
\<close>

record turn_ctx =
  activeTurnId :: "jstring option"
  drainingTurnId :: "jstring option"

definition turn_ctx_init :: turn_ctx where
  "turn_ctx_init = \<lparr>activeTurnId = None, drainingTurnId = None\<rparr>"

text \<open>A boundary event: the turn it is stamped with and its payload.\<close>

type_synonym boundary = "jstring \<times> json"

definition turn_begin :: "jstring \<Rightarrow> jstring \<Rightarrow> turn_ctx \<Rightarrow> turn_ctx \<times> boundary option" where
  "turn_begin fresh harness c =
     (if activeTurnId c \<noteq> None then (c, None)
      else (c\<lparr>activeTurnId := Some fresh\<rparr>,
            Some (fresh, JObj [(js ''turn_id'', JStr fresh), (js ''harness'', JStr harness)])))"

definition turn_complete :: "jstring \<Rightarrow> turn_ctx \<Rightarrow> turn_ctx \<times> boundary option" where
  "turn_complete status c =
     (case activeTurnId c of
       None \<Rightarrow> (c, None)
     | Some t \<Rightarrow> (c\<lparr>activeTurnId := None\<rparr>,
         Some (t, JObj [(js ''turn_id'', JStr t), (js ''status'', JStr status)])))"

definition turn_rotate ::
  "jstring \<Rightarrow> jstring \<Rightarrow> jstring \<Rightarrow> turn_ctx \<Rightarrow> turn_ctx \<times> boundary option \<times> boundary option" where
  "turn_rotate fresh harness status c =
     (let (c1, completed) = turn_complete status c;
          (c2, started) = turn_begin fresh harness c1
      in (c2, completed, started))"

definition turn_startDraining :: "jstring \<Rightarrow> turn_ctx \<Rightarrow> turn_ctx \<times> boundary option" where
  "turn_startDraining status c =
     (let (c1, completed) = turn_complete status c
      in (case completed of
            None \<Rightarrow> (c1, None)
          | Some (t, p) \<Rightarrow> (c1\<lparr>drainingTurnId := Some t\<rparr>, Some (t, p))))"

definition turn_finishDraining :: "jstring option \<Rightarrow> turn_ctx \<Rightarrow> turn_ctx" where
  "turn_finishDraining t c =
     (if drainingTurnId c = t then c\<lparr>drainingTurnId := None\<rparr> else c)"

definition implicitEventTurnId :: "jstring \<Rightarrow> turn_ctx \<Rightarrow> jstring option" where
  "implicitEventTurnId type c =
     (if (starts_with type (js ''sdk.'') \<or> type = js ''todo.updated'') \<and> drainingTurnId c \<noteq> None
      then drainingTurnId c else activeTurnId c)"

lemmas turn_defs = turn_begin_def turn_complete_def turn_rotate_def turn_startDraining_def
  turn_finishDraining_def

section \<open>Runs of turn operations\<close>

text \<open>
  The calls a session makes on its turn context, and the boundaries they announce, in
  order: the \<open>turn.started\<close> and \<open>turn.completed\<close> events of the timeline.
\<close>

datatype turn_op =
    OpBegin jstring
  | OpComplete jstring
  | OpRotate jstring jstring
  | OpStartDraining jstring
  | OpFinishDraining "jstring option"

datatype turn_mark = Started jstring | Completed jstring

definition started_mark :: "boundary option \<Rightarrow> turn_mark list" where
  "started_mark b = (case b of None \<Rightarrow> [] | Some (t, _) \<Rightarrow> [Started t])"

definition completed_mark :: "boundary option \<Rightarrow> turn_mark list" where
  "completed_mark b = (case b of None \<Rightarrow> [] | Some (t, _) \<Rightarrow> [Completed t])"

fun turn_step :: "jstring \<Rightarrow> turn_op \<Rightarrow> turn_ctx \<Rightarrow> turn_ctx \<times> turn_mark list" where
  "turn_step h (OpBegin t) c = (let (c', b) = turn_begin t h c in (c', started_mark b))"
| "turn_step h (OpComplete st) c = (let (c', b) = turn_complete st c in (c', completed_mark b))"
| "turn_step h (OpRotate t st) c =
     (let (c', b, b') = turn_rotate t h st c in (c', completed_mark b @ started_mark b'))"
| "turn_step h (OpStartDraining st) c =
     (let (c', b) = turn_startDraining st c in (c', completed_mark b))"
| "turn_step h (OpFinishDraining t) c = (turn_finishDraining t c, [])"

fun turn_run :: "jstring \<Rightarrow> turn_op list \<Rightarrow> turn_ctx \<Rightarrow> turn_ctx \<times> turn_mark list" where
  "turn_run h [] c = (c, [])"
| "turn_run h (x # xs) c =
     (let (c1, ms) = turn_step h x c; (c2, ms') = turn_run h xs c1 in (c2, ms @ ms'))"

text \<open>
  \<open>bracketed open ms\<close> says the marks are well bracketed after a timeline whose open turn is
  \<open>open\<close>, and returns the turn left open: a turn starts only when none is open, and only the
  open turn completes.
\<close>

fun bracketed :: "jstring option \<Rightarrow> turn_mark list \<Rightarrow> jstring option option" where
  "bracketed open [] = Some open"
| "bracketed None (Started t # ms) = bracketed (Some t) ms"
| "bracketed (Some u) (Completed t # ms) = (if u = t then bracketed None ms else None)"
| "bracketed _ _ = None"

lemma bracketed_append:
  "bracketed a ms = Some b \<Longrightarrow> bracketed a (ms @ ms') = bracketed b ms'"
  by (induction a ms rule: bracketed.induct) (auto split: if_splits)

lemma turn_step_bracketed:
  "turn_step h x c = (c', ms) \<Longrightarrow> bracketed (activeTurnId c) ms = Some (activeTurnId c')"
  by (cases x)
    (auto simp: turn_defs started_mark_def completed_mark_def Let_def
      split: option.splits if_splits prod.splits)

lemma turn_run_bracketed:
  "turn_run h xs c = (c', ms) \<Longrightarrow> bracketed (activeTurnId c) ms = Some (activeTurnId c')"
proof (induction xs arbitrary: c c' ms)
  case (Cons x xs)
  obtain c1 ms1 where s: "turn_step h x c = (c1, ms1)" by fastforce
  obtain c2 ms2 where r: "turn_run h xs c1 = (c2, ms2)" by fastforce
  from Cons.prems s r have "c' = c2" "ms = ms1 @ ms2" by auto
  with Cons.IH [OF r] bracketed_append [OF turn_step_bracketed [OF s]] show ?case by simp
qed simp

text \<open>
  over any sequence of turn operations on a fresh session, the \<open>turn.started\<close> and
  \<open>turn.completed\<close> boundaries are well bracketed: no turn starts while another is open, only
  the open turn completes, and the turn left open is the context's active one.
\<close>

theorem turn_timeline_bracketed:
  "bracketed None (snd (turn_run h xs turn_ctx_init)) =
     Some (activeTurnId (fst (turn_run h xs turn_ctx_init)))"
proof -
  obtain c ms where r: "turn_run h xs turn_ctx_init = (c, ms)" by fastforce
  have "activeTurnId turn_ctx_init = None" by (simp add: turn_ctx_init_def)
  with turn_run_bracketed [OF r] r show ?thesis by simp
qed

section \<open>Attribution of late events\<close>

definition sdk_event :: "jstring \<Rightarrow> bool" where
  "sdk_event type \<longleftrightarrow> starts_with type (js ''sdk.'') \<or> type = js ''todo.updated''"

lemma implicit_draining:
  "sdk_event type \<Longrightarrow> drainingTurnId c = Some t \<Longrightarrow> implicitEventTurnId type c = Some t"
  by (simp add: implicitEventTurnId_def sdk_event_def)

lemma turn_begin_draining [simp]:
  "drainingTurnId (fst (turn_begin t h c)) = drainingTurnId c"
  by (simp add: turn_begin_def)

lemma turn_complete_draining [simp]:
  "drainingTurnId (fst (turn_complete st c)) = drainingTurnId c"
  by (auto simp: turn_complete_def split: option.splits)

lemma turn_rotate_draining [simp]:
  "drainingTurnId (fst (turn_rotate t h st c)) = drainingTurnId c"
  using turn_complete_draining [of st c] turn_begin_draining [of t h "fst (turn_complete st c)"]
  by (simp add: turn_rotate_def Let_def split_beta)

text \<open>Operations that neither start nor finish a drain.\<close>

fun keeps_drain :: "turn_op \<Rightarrow> bool" where
  "keeps_drain (OpStartDraining _) = False"
| "keeps_drain (OpFinishDraining _) = False"
| "keeps_drain _ = True"

lemma turn_run_draining:
  "\<forall>x \<in> set xs. keeps_drain x \<Longrightarrow>
    drainingTurnId (fst (turn_run h xs c)) = drainingTurnId c"
proof (induction xs arbitrary: c)
  case (Cons x xs)
  then have "drainingTurnId (fst (turn_step h x c)) = drainingTurnId c"
    by (cases x) (simp_all add: Let_def split_beta)
  with Cons show ?case by (simp add: Let_def split_beta)
qed simp

text \<open>
  once an interrupt closes turn \<open>t\<close>, every \<open>sdk.*\<close> and \<open>todo.updated\<close> event keeps being
  stamped with \<open>t\<close>, whatever turns are begun, completed or rotated meanwhile, until the drain
  is finished or a later interrupt closes another turn.
\<close>

theorem draining_owns_late_events:
  assumes "activeTurnId c = Some t" and "sdk_event type" and "\<forall>x \<in> set xs. keeps_drain x"
  shows "implicitEventTurnId type
           (fst (turn_run h xs (fst (turn_startDraining st c)))) = Some t"
  using assms
  by (intro implicit_draining)
    (simp_all add: turn_run_draining turn_startDraining_def turn_complete_def)

theorem draining_owns_late_events_witness:
  "implicitEventTurnId (js ''sdk.assistant'')
     (fst (turn_run (js ''pi'') [OpBegin (js ''t2''), OpRotate (js ''t3'') (js ''completed'')]
       (fst (turn_startDraining (js ''interrupted'')
         \<lparr>activeTurnId = Some (js ''t1''), drainingTurnId = None\<rparr>)))) = Some (js ''t1'')"
  by (rule draining_owns_late_events) (simp_all add: sdk_event_def)

end
