(* ===== verification/EventBounds.thy ===== *)
theory EventBounds
  imports JsJson
begin

text \<open>
  The size bounds of pushed events, \<^verbatim>\<open>event-bounds.mjs\<close>: the copy-on-write rewriter and
  its visitors, the removal of screenshots and of base64 data, the cutting of strings and
  arrays, the skeleton of a payload, \<open>boundEventPayload\<close> and the stub of a refused event.
  A payload is a \<open>json\<close> value; an object of another prototype than a plain one does not
  occur in it. Rewriting in place is invisible to the caller, since the source clones every
  container it changes, so the model returns the new value.
\<close>

section \<open>Constants\<close>

definition MAX_EVENT_PAYLOAD_BYTES :: nat where "MAX_EVENT_PAYLOAD_BYTES = 2097152"
definition MAX_ARRAY_ITEMS :: nat where "MAX_ARRAY_ITEMS = 100"
definition MIN_STRING_BYTES :: nat where "MIN_STRING_BYTES = 256"
definition MARKER_BYTES :: nat where "MARKER_BYTES = 32"
definition IDENTITY_STRING_BYTES :: nat where "IDENTITY_STRING_BYTES = 256"

definition IDENTITY_KEYS :: "jstring list" where
  "IDENTITY_KEYS = [js ''type'', js ''subtype'', js ''uuid'', js ''session_id'', js ''request_id'',
     js ''tool_name'', js ''tool_use_id'', js ''kind'', js ''state'', js ''parent_tool_use_id'',
     js ''id'', js ''name'']"

definition MESSAGE_KEYS :: "jstring list" where
  "MESSAGE_KEYS = [js ''id'', js ''type'', js ''role'', js ''model'']"

definition BLOCK_KEYS :: "jstring list" where
  "BLOCK_KEYS = [js ''type'', js ''id'', js ''tool_use_id'', js ''name'', js ''is_error'']"

section \<open>Sizes\<close>

definition jsonBytes :: "json \<Rightarrow> nat option" where
  "jsonBytes v = (case stringify v of
      Inl _ \<Rightarrow> None
    | Inr None \<Rightarrow> None
    | Inr (Some t) \<Rightarrow> Some (byte_length t))"

text \<open>A comparison of \<open>jsonBytes\<close> with a number reads \<open>null\<close> as 0.\<close>

definition bytes_or_0 :: "json \<Rightarrow> nat" where
  "bytes_or_0 v = (case jsonBytes v of None \<Rightarrow> 0 | Some n \<Rightarrow> n)"

section \<open>The rewriter\<close>

text \<open>
  The visitors of a rewrite: what is done to a string, whether an array is shortened before
  its items are walked (\<open>shortenArray\<close> is the only array visitor of the source), and what is
  done to a plain object once its values are rewritten. An absent visitor is the identity.
\<close>

record visitor =
  v_string :: "jstring \<Rightarrow> jstring"
  v_shorten :: bool
  v_object :: "json_obj \<Rightarrow> json_obj"

definition no_visit :: visitor where
  "no_visit = \<lparr>v_string = id, v_shorten = False, v_object = id\<rparr>"

definition omitted_marker :: "nat \<Rightarrow> json" where
  "omitted_marker n = JObj [(js ''type'', JStr (js ''zwrm_omitted'')), (js ''omitted_items'', JInt (int n))]"

definition shortenArray :: "json list \<Rightarrow> json list" where
  "shortenArray xs =
     (if length xs \<le> MAX_ARRAY_ITEMS then xs
      else take MAX_ARRAY_ITEMS xs @ [omitted_marker (length xs - MAX_ARRAY_ITEMS)])"

definition visit_array :: "visitor \<Rightarrow> json list \<Rightarrow> json list" where
  "visit_array v xs = (if v_shorten v then shortenArray xs else xs)"

lemma visit_array_smaller:
  assumes "x \<in> set (visit_array v xs)"
  shows "size x < Suc (size_list size xs)"
proof (cases "x \<in> set xs")
  case True
  then show ?thesis by (simp add: less_Suc_eq_le size_list_estimation')
next
  case False
  with assms have "100 < length xs" and x: "x = omitted_marker (length xs - MAX_ARRAY_ITEMS)"
    by (auto simp: visit_array_def shortenArray_def MAX_ARRAY_ITEMS_def split: if_splits dest: in_set_takeD)
  moreover have "length xs \<le> size_list size xs" by (induction xs) auto
  moreover have "size x < 100" by (simp add: x omitted_marker_def)
  ultimately show ?thesis by simp
qed

function (sequential) rewrite :: "visitor \<Rightarrow> json \<Rightarrow> json" where
  "rewrite v (JStr s) = JStr (v_string v s)"
| "rewrite v (JArr xs) = JArr (map (rewrite v) (visit_array v xs))"
| "rewrite v (JObj kvs) = JObj (v_object v (map (\<lambda>(k, x). (k, rewrite v x)) kvs))"
| "rewrite v x = x"
  by pat_completeness auto

lemma prop_smaller: "(k, x) \<in> set kvs \<Longrightarrow> size x < Suc (size_list (size_prod (\<lambda>_. 0) size) kvs)"
  by (induction kvs) auto

termination rewrite
  by (relation "measure (\<lambda>(v, x). size x)") (auto simp: visit_array_smaller prop_smaller)

section \<open>Base64 data and screenshots\<close>

definition stripBase64Node :: "json_obj \<Rightarrow> json_obj" where
  "stripBase64Node obj =
     (let (om1, out1) =
        (case jprop obj (js ''data'') of
          JStr s \<Rightarrow>
            if jprop obj (js ''type'') = JStr (js ''base64'') \<and> s \<noteq> []
            then (byte_length s, jput (js ''data'') (JStr []) obj) else (0, obj)
        | _ \<Rightarrow> (0, obj));
        (om2, out2) =
        (case jprop obj (js ''base64'') of
          JStr s \<Rightarrow>
            if s \<noteq> [] then (om1 + byte_length s, jput (js ''base64'') (JStr []) out1) else (om1, out1)
        | _ \<Rightarrow> (om1, out1))
      in if om2 > 0 then jput (js ''omitted_bytes'') (JInt (int om2)) out2 else obj)"

definition DEVICE_SCREEN_PLACEHOLDER :: jstring where
  "DEVICE_SCREEN_PLACEHOLDER =
     js ''[A screenshot of the person'' @ [0x27] @ js ''s screen: shown to the agent, not stored.]''"

definition dropScreenNode :: "json_obj \<Rightarrow> json_obj" where
  "dropScreenNode obj =
     (if jprop obj (js ''type'') \<noteq> JStr (js ''image'') then obj
      else [(js ''type'', JStr (js ''text'')), (js ''text'', JStr DEVICE_SCREEN_PLACEHOLDER)])"

definition drop_screens :: visitor where
  "drop_screens = no_visit\<lparr>v_object := dropScreenNode\<rparr>"

text \<open>
  \<open>DeviceScreens\<close>: \<open>ids\<close> is its set of tool-call ids. An id that is itself an object is
  a new object in every message, so it is never found again.
\<close>

definition id_known :: "json list \<Rightarrow> json \<Rightarrow> bool" where
  "id_known ids v \<longleftrightarrow> v \<in> set ids \<and> \<not> is_object_type v"

definition device_use :: "json \<Rightarrow> bool" where
  "device_use b \<longleftrightarrow> jget b (js ''type'') = JStr (js ''tool_use'') \<and>
     (case jget b (js ''name'') of JStr n \<Rightarrow> starts_with n (js ''mcp__device__'') | _ \<Rightarrow> False)"

fun strip_blocks :: "json list \<Rightarrow> json list \<Rightarrow> json list \<times> bool \<times> json list" where
  "strip_blocks ids [] = (ids, False, [])"
| "strip_blocks ids (b # bs) =
     (let ids1 = (if device_use b then set_add (jget b (js ''id'')) ids else ids);
          drop = (jget b (js ''type'') = JStr (js ''tool_result'') \<and>
                  id_known ids1 (jget b (js ''tool_use_id'')));
          (ids2, hit, rest) = strip_blocks ids1 bs
      in (ids2, drop \<or> hit, (if drop then rewrite drop_screens b else b) # rest))"

definition device_strip :: "json list \<Rightarrow> json \<Rightarrow> json list \<times> json" where
  "device_strip ids payload =
     (case jget (jget payload (js ''message'')) (js ''content'') of
       JArr blocks \<Rightarrow>
         (let (ids', hit, content) = strip_blocks ids blocks
          in if \<not> hit then (ids', payload)
             else (case (payload, jget payload (js ''message'')) of
               (JObj p, JObj m) \<Rightarrow>
                 (let out = jput (js ''message'') (JObj (jput (js ''content'') (JArr content) m)) p;
                      dup = jprop out (js ''tool_use_result'')
                  in (ids', JObj (if dup = JUndef then out
                       else jput (js ''tool_use_result'') (rewrite drop_screens dup) out)))
             | _ \<Rightarrow> (ids', payload)))
     | _ \<Rightarrow> (ids, payload))"

section \<open>Cutting strings\<close>

text \<open>
  The walk back to a character boundary: \<open>end\<close> moves down while it stands on a UTF-8
  continuation byte.
\<close>

fun back_off :: "nat list \<Rightarrow> nat \<Rightarrow> nat" where
  "back_off buf 0 = 0"
| "back_off buf (Suc e) = (if cont (buf ! Suc e) then back_off buf e else Suc e)"

definition truncated_marker :: "nat \<Rightarrow> jstring" where
  "truncated_marker n = [0x2026] @ js ''[truncated '' @ dec n @ js '' bytes]''"

definition truncateString :: "jstring \<Rightarrow> nat \<Rightarrow> jstring" where
  "truncateString s limit =
     (if length s * 3 \<le> limit then s
      else (let buf = utf8 s
            in if length buf \<le> limit then s
               else (let e = back_off buf limit
                     in utf8_decode (take e buf) @ truncated_marker (length buf - e))))"

definition jsonStringBytes :: "jstring \<Rightarrow> nat" where
  "jsonStringBytes s = byte_length (quote s) - 2"

definition cutString :: "jstring \<Rightarrow> nat \<Rightarrow> jstring" where
  "cutString s level =
     (if length s * 6 \<le> level then s
      else (let json = jsonStringBytes s
            in if json \<le> level then s
               else truncateString s (level * byte_length s div json)))"

function (sequential) strings_in :: "json \<Rightarrow> jstring list" where
  "strings_in (JStr s) = [s]"
| "strings_in (JArr xs) = concat (map strings_in xs)"
| "strings_in (JObj kvs) = concat (map (\<lambda>(k, x). strings_in x) kvs)"
| "strings_in x = []"
  by pat_completeness auto

lemma item_smaller: "x \<in> set xs \<Longrightarrow> size x < Suc (size_list size xs)"
  by (simp add: less_Suc_eq_le size_list_estimation')

termination strings_in
  by (relation "measure size") (auto simp: item_smaller prop_smaller)

definition stringSizes :: "json \<Rightarrow> nat \<Rightarrow> nat list" where
  "stringSizes value mn =
     filter (\<lambda>n. mn < n) (map jsonStringBytes (filter (\<lambda>s. mn < length s * 6) (strings_in value)))"

text \<open>\<open>k\<close> counts the sizes summed so far; the division rounds down, as \<^verbatim>\<open>Math.floor\<close>.\<close>

fun cut_level_from :: "int \<Rightarrow> nat \<Rightarrow> int \<Rightarrow> nat list \<Rightarrow> int" where
  "cut_level_from acc k need [] = 0"
| "cut_level_from acc k need (n # sizes) =
     (let acc' = acc + int n;
          level = (acc' - need - int k * int MARKER_BYTES) div int k
      in if level \<ge> (case sizes of [] \<Rightarrow> 0 | m # _ \<Rightarrow> int m) then level
         else cut_level_from acc' (Suc k) need sizes)"

definition cutLevel :: "nat list \<Rightarrow> int \<Rightarrow> int" where
  "cutLevel sizes need = cut_level_from 0 1 need sizes"

section \<open>Skeletons\<close>

definition identity :: "json_obj \<Rightarrow> jstring list \<Rightarrow> json_obj" where
  "identity obj keys = concat (map (\<lambda>key. case jprop obj key of
      JStr s \<Rightarrow> [(key, JStr (truncateString s IDENTITY_STRING_BYTES))]
    | JNull \<Rightarrow> [(key, JNull)]
    | JInt i \<Rightarrow> [(key, JInt i)]
    | JFrac t \<Rightarrow> [(key, JFrac t)]
    | JBool b \<Rightarrow> [(key, JBool b)]
    | _ \<Rightarrow> []) keys)"

definition skeleton_block :: "json \<Rightarrow> json list" where
  "skeleton_block b = (case b of JObj kvs \<Rightarrow> [JObj (identity kvs BLOCK_KEYS)] | _ \<Rightarrow> [])"

definition skeleton_message :: "json_obj \<Rightarrow> json_obj" where
  "skeleton_message message =
     (let m = identity message MESSAGE_KEYS
      in case jprop message (js ''content'') of
          JArr content \<Rightarrow>
            m @ [(js ''content'', JArr
              (concat (map skeleton_block (take MAX_ARRAY_ITEMS content)) @
               (if MAX_ARRAY_ITEMS < length content
                then [omitted_marker (length content - MAX_ARRAY_ITEMS)] else [])))]
        | _ \<Rightarrow> m)"

definition skeleton :: "json \<Rightarrow> json_obj" where
  "skeleton payload =
     (case payload of
       JObj p \<Rightarrow>
         identity p IDENTITY_KEYS @
         (case jprop p (js ''message'') of
           JObj message \<Rightarrow> [(js ''message'', JObj (skeleton_message message))]
         | _ \<Rightarrow> [])
     | _ \<Rightarrow> [])"

section \<open>boundEventPayload\<close>

definition zwrm_truncated :: jstring where "zwrm_truncated = js ''zwrm_truncated''"
definition original_bytes :: jstring where "original_bytes = js ''original_bytes''"

definition minimal_payload :: "nat \<Rightarrow> json" where
  "minimal_payload ob = JObj [(zwrm_truncated, JBool True), (original_bytes, JInt (int ob))]"

definition marked :: "json \<Rightarrow> nat \<Rightarrow> json" where
  "marked value ob =
     (case value of JObj kvs \<Rightarrow> JObj (jput zwrm_truncated (JBool True) kvs)
      | _ \<Rightarrow> minimal_payload ob)"

text \<open>The payload so far, unmarked and marked, with the marked one's size.\<close>

record shrink =
  sh_base :: json
  sh_out :: json
  sh_bytes :: nat

definition shrink_to :: "nat \<Rightarrow> json \<Rightarrow> shrink" where
  "shrink_to ob base =
     \<lparr>sh_base = base, sh_out = marked base ob, sh_bytes = bytes_or_0 (marked base ob)\<rparr>"

definition shrink_step :: "nat \<Rightarrow> nat \<Rightarrow> json \<Rightarrow> shrink \<Rightarrow> shrink" where
  "shrink_step maxBytes ob next st =
     (if sh_bytes st \<le> maxBytes \<or> next = sh_base st then st else shrink_to ob next)"

definition strip_base64 :: visitor where
  "strip_base64 = no_visit\<lparr>v_object := stripBase64Node\<rparr>"

definition shorten_arrays :: visitor where
  "shorten_arrays = no_visit\<lparr>v_shorten := True\<rparr>"

definition cut_strings :: "nat \<Rightarrow> visitor" where
  "cut_strings level = no_visit\<lparr>v_string := (\<lambda>s. cutString s level)\<rparr>"

text \<open>The cut is redone at most four times, each from the uncut strings of \<open>base\<close>.\<close>

fun cut_rounds :: "nat \<Rightarrow> nat \<Rightarrow> nat \<Rightarrow> nat list \<Rightarrow> int \<Rightarrow> shrink \<Rightarrow> shrink" where
  "cut_rounds 0 maxBytes ob sizes need st = st"
| "cut_rounds (Suc i) maxBytes ob sizes need st =
     (if sh_bytes st \<le> maxBytes \<or> sizes = [] then st
      else (let level = max (int MIN_STRING_BYTES) (cutLevel sizes need);
                out = marked (rewrite (cut_strings (nat level)) (sh_base st)) ob;
                st' = st\<lparr>sh_out := out, sh_bytes := bytes_or_0 out\<rparr>
            in if level = int MIN_STRING_BYTES then st'
               else cut_rounds i maxBytes ob sizes
                      (need + (int (sh_bytes st') - int maxBytes)) st'))"

record bounded =
  bd_payload :: json
  bd_shrunk :: bool
  bd_bytes :: "nat option"
  bd_originalBytes :: "nat option"

definition drop_tool_use_result :: "nat \<Rightarrow> nat \<Rightarrow> json \<Rightarrow> shrink \<Rightarrow> shrink" where
  "drop_tool_use_result maxBytes ob payload st =
     (case sh_base st of
       JObj kvs \<Rightarrow>
         (if jprop kvs (js ''tool_use_result'') = JUndef then st
          else shrink_step maxBytes ob
            (JObj (jput (js ''tool_use_result'')
              (JObj [(js ''zwrm_omitted'', JBool True),
                     (original_bytes, case jsonBytes (jget payload (js ''tool_use_result'')) of
                        None \<Rightarrow> JNull | Some n \<Rightarrow> JInt (int n))]) kvs)) st)
     | _ \<Rightarrow> st)"

definition shrink_strings :: "nat \<Rightarrow> nat \<Rightarrow> shrink \<Rightarrow> shrink" where
  "shrink_strings maxBytes ob st =
     (if sh_bytes st \<le> maxBytes then st
      else cut_rounds 4 maxBytes ob (rev (sort (stringSizes (sh_base st) MIN_STRING_BYTES)))
             (int (sh_bytes st) - int maxBytes) st)"

definition skeleton_payload :: "json \<Rightarrow> nat \<Rightarrow> json" where
  "skeleton_payload payload ob =
     JObj (skeleton payload @ [(zwrm_truncated, JBool True), (original_bytes, JInt (int ob))])"

definition boundEventPayload :: "json \<Rightarrow> nat \<Rightarrow> bounded" where
  "boundEventPayload payload maxBytes =
     (case jsonBytes payload of
       None \<Rightarrow> \<lparr>bd_payload = payload, bd_shrunk = False, bd_bytes = None, bd_originalBytes = None\<rparr>
     | Some ob \<Rightarrow>
         if ob \<le> maxBytes
         then \<lparr>bd_payload = payload, bd_shrunk = False, bd_bytes = Some ob, bd_originalBytes = Some ob\<rparr>
         else (let st1 = shrink_to ob (rewrite strip_base64 payload);
                   st2 = drop_tool_use_result maxBytes ob payload st1;
                   st3 = (if sh_bytes st2 \<le> maxBytes then st2
                          else shrink_step maxBytes ob (rewrite shorten_arrays (sh_base st2)) st2);
                   st4 = shrink_strings maxBytes ob st3;
                   out1 = (if sh_bytes st4 \<le> maxBytes then sh_out st4
                           else skeleton_payload payload ob);
                   out2 = (if bytes_or_0 out1 \<le> maxBytes then out1 else minimal_payload ob)
               in \<lparr>bd_payload = out2, bd_shrunk = True, bd_bytes = jsonBytes out2,
                   bd_originalBytes = Some ob\<rparr>))"

section \<open>Refused events\<close>

text \<open>An event of the timeline, as the pusher queues it; \<open>ts\<close> is its ISO timestamp.\<close>

record event =
  ev_seq :: nat
  ev_ts :: jstring
  ev_type :: jstring
  ev_payload :: json
  ev_turn_id :: "jstring option"
  ev_ephemeral :: bool

definition rejectedEventStub :: "event \<Rightarrow> nat option \<Rightarrow> event" where
  "rejectedEventStub ev ob =
     \<lparr>ev_seq = ev_seq ev, ev_ts = ev_ts ev, ev_type = ev_type ev,
      ev_payload = JObj (skeleton (ev_payload ev) @
        [(zwrm_truncated, JBool True), (js ''zwrm_rejected'', JBool True)] @
        (case ob of None \<Rightarrow> [] | Some n \<Rightarrow> [(original_bytes, JInt (int n))])),
      ev_turn_id = ev_turn_id ev, ev_ephemeral = False\<rparr>"

section \<open>Truncation falls on a character boundary\<close>

lemma boundary_of_noncont:
  assumes "p < length (concat (map encode_cp cs))" and "\<not> cont (concat (map encode_cp cs) ! p)"
  shows "\<exists>k. p = length (concat (map encode_cp (take k cs)))"
  using assms
proof (induction cs arbitrary: p)
  case (Cons c cs)
  show ?case
  proof (cases "p < length (encode_cp c)")
    case True
    have "p = 0"
    proof (rule ccontr)
      assume "p \<noteq> 0"
      then have "encode_cp c ! p = tl (encode_cp c) ! (p - 1)" "p - 1 < length (tl (encode_cp c))"
        using True by (simp_all add: nth_tl)
      then have "encode_cp c ! p \<in> set (tl (encode_cp c))" by simp
      with True Cons.prems show False by (simp add: nth_append encode_cp_tail)
    qed
    then show ?thesis by (intro exI [of _ 0]) simp
  next
    case False
    with Cons.prems have "p - length (encode_cp c) < length (concat (map encode_cp cs))"
      "\<not> cont (concat (map encode_cp cs) ! (p - length (encode_cp c)))"
      by (auto simp: nth_append)
    from Cons.IH [OF this] obtain k where
      "p - length (encode_cp c) = length (concat (map encode_cp (take k cs)))" by blast
    with False show ?thesis by (intro exI [of _ "Suc k"]) simp
  qed
qed simp

lemma noncont_near:
  assumes "p < length (concat (map encode_cp cs))"
  shows "\<exists>q \<le> p. p \<le> q + 3 \<and> \<not> cont (concat (map encode_cp cs) ! q)"
  using assms
proof (induction cs arbitrary: p)
  case (Cons c cs)
  show ?case
  proof (cases "p < length (encode_cp c)")
    case True
    have "length (encode_cp c) \<le> 4" using encode_cp_length [of c] by auto
    moreover have "\<not> cont ((encode_cp c @ concat (map encode_cp cs)) ! 0)"
      using encode_cp_head [of c] by (simp add: nth_append hd_conv_nth)
    ultimately show ?thesis using True by (intro exI [of _ 0]) simp
  next
    case False
    with Cons.prems have "p - length (encode_cp c) < length (concat (map encode_cp cs))" by auto
    from Cons.IH [OF this] obtain q where q: "q \<le> p - length (encode_cp c)"
      "p - length (encode_cp c) \<le> q + 3" "\<not> cont (concat (map encode_cp cs) ! q)" by blast
    with False show ?thesis
      by (intro exI [of _ "q + length (encode_cp c)"]) (auto simp: nth_append)
  qed
qed simp

lemma back_off_le: "back_off buf e \<le> e"
  by (induction e) auto

lemma back_off_noncont: "back_off buf e = 0 \<or> \<not> cont (buf ! back_off buf e)"
  by (induction e) auto

lemma back_off_skips: "back_off buf e < q \<Longrightarrow> q \<le> e \<Longrightarrow> cont (buf ! q)"
  by (induction e) (auto split: if_splits simp: le_Suc_eq)

text \<open>
  a string cut to \<open>limit\<close> bytes is a run of whole characters of the original followed by the
  marker that says how many bytes went; the run is at most \<open>limit\<close> bytes and falls short of it
  by fewer than four, so no character is split and no more than one character is given up.
\<close>

theorem truncateString_boundary:
  assumes "limit < byte_length s"
  shows "\<exists>k. let kept = length (concat (map encode_cp (take k (code_points s))))
    in truncateString s limit =
         concat (map units_cp (take k (code_points s))) @ truncated_marker (byte_length s - kept) \<and>
       kept \<le> limit \<and> limit < kept + 4"
proof -
  let ?cs = "code_points s" and ?buf = "utf8 s"
  let ?e = "back_off ?buf limit"
  have len: "limit < length ?buf" using assms by (simp add: byte_length_def)
  have not_short: "\<not> length s * 3 \<le> limit" using assms byte_length_le [of s] by simp
  have e: "?e \<le> limit" by (rule back_off_le)
  obtain k where k: "?e = length (concat (map encode_cp (take k ?cs)))"
  proof (cases "?e = 0")
    case True
    then have "?e = length (concat (map encode_cp (take 0 ?cs)))" by simp
    then show ?thesis by (rule that)
  next
    case False
    with back_off_noncont [of ?buf limit] have nc: "\<not> cont (?buf ! ?e)" by simp
    have "?e < length ?buf" using e len by simp
    from boundary_of_noncont [OF this [unfolded utf8_def] nc [unfolded utf8_def]]
    obtain k where "back_off (concat (map encode_cp ?cs)) limit =
        length (concat (map encode_cp (take k ?cs)))" ..
    then show ?thesis by (intro that [of k]) (simp only: utf8_def)
  qed
  have far: "limit < ?e + 4"
  proof (rule ccontr)
    assume not_far: "\<not> limit < ?e + 4"
    from noncont_near [OF len [unfolded utf8_def]]
    obtain q where q: "q \<le> limit" "limit \<le> q + 3" "\<not> cont (?buf ! q)"
      by (auto simp only: utf8_def)
    from q(2) not_far have "?e < q" by linarith
    from back_off_skips [OF this q(1)] q(3) show False by contradiction
  qed
  have take: "take ?e ?buf = concat (map encode_cp (take k ?cs))"
  proof -
    have "?buf = concat (map encode_cp (take k ?cs)) @ concat (map encode_cp (drop k ?cs))"
      unfolding utf8_def by (metis append_take_drop_id concat_append map_append)
    then show ?thesis unfolding k by (rule ssubst) simp
  qed
  note take
  moreover have "utf8_decode (concat (map encode_cp (take k ?cs))) = concat (map units_cp (take k ?cs))"
    unfolding utf8_decode_def
    by (subst decode_encode) (auto dest: in_set_takeD code_points_bound)
  moreover have "truncateString s limit =
      utf8_decode (take ?e ?buf) @ truncated_marker (length ?buf - ?e)"
    using not_short len unfolding truncateString_def Let_def by simp
  ultimately have
    "truncateString s limit = concat (map units_cp (take k ?cs)) @ truncated_marker (length ?buf - ?e)"
    by (simp only:)
  with e far show ?thesis
    unfolding Let_def byte_length_def k [symmetric] by (intro exI [of _ k]) (simp only: k)
qed

theorem truncateString_boundary_witness:
  "\<exists>k. let kept = length (concat (map encode_cp (take k (code_points [0x20AC, 0x20AC]))))
    in truncateString [0x20AC, 0x20AC] 4 =
         concat (map units_cp (take k (code_points [0x20AC, 0x20AC]))) @
         truncated_marker (byte_length [0x20AC, 0x20AC] - kept) \<and>
       kept \<le> 4 \<and> 4 < kept + 4"
  by (rule truncateString_boundary)
    (simp add: byte_length_def utf8_def encode_cp_def high_surrogate_def low_surrogate_def)

section \<open>The cut level\<close>

lemma cut_level_from_frees:
  assumes "cut_level_from acc (Suc k) need sizes = level" and "level \<noteq> 0"
  shows "\<exists>j. 0 < j \<and> j \<le> length sizes \<and>
    need \<le> acc + int (sum_list (take j sizes)) - int (k + j) * (level + int MARKER_BYTES) \<and>
    (sorted_wrt (\<ge>) sizes \<longrightarrow> (\<forall>n \<in> set (drop j sizes). int n \<le> level))"
  using assms
proof (induction sizes arbitrary: acc k)
  case (Cons n sizes)
  let ?acc = "acc + int n"
  let ?l = "(?acc - need - int (Suc k) * int MARKER_BYTES) div int (Suc k)"
  show ?case
  proof (cases "?l \<ge> (case sizes of [] \<Rightarrow> 0 | m # _ \<Rightarrow> int m)")
    case True
    with Cons.prems have l: "level = ?l" by (simp add: Let_def)
    have "int (Suc k) * ?l \<le> ?acc - need - int (Suc k) * int MARKER_BYTES"
      by (rule mult_div_le) simp
    then have "need \<le> ?acc - int (Suc k) * (level + int MARKER_BYTES)"
      unfolding l distrib_left by linarith
    moreover have "sorted_wrt (\<ge>) (n # sizes) \<longrightarrow> (\<forall>m \<in> set sizes. int m \<le> level)"
      using True l by (cases sizes) auto
    ultimately show ?thesis
      by (intro exI [of _ 1]) (simp del: of_nat_Suc)
  next
    case False
    with Cons.prems have "cut_level_from ?acc (Suc (Suc k)) need sizes = level"
      by (simp add: Let_def)
    from Cons.IH [OF this Cons.prems(2)] obtain j where j: "0 < j" "j \<le> length sizes"
      "need \<le> ?acc + int (sum_list (take j sizes)) - int (Suc k + j) * (level + int MARKER_BYTES)"
      "sorted_wrt (\<ge>) sizes \<longrightarrow> (\<forall>n \<in> set (drop j sizes). int n \<le> level)" by blast
    have "need \<le> acc + int (sum_list (take (Suc j) (n # sizes))) -
        int (k + Suc j) * (level + int MARKER_BYTES)"
      using j(3) by (simp only: take_Suc_Cons sum_list.Cons of_nat_add add_Suc add_Suc_right add.assoc)
    moreover have "sorted_wrt (\<ge>) (n # sizes) \<longrightarrow> (\<forall>m \<in> set (drop (Suc j) (n # sizes)). int m \<le> level)"
      using j(4) by simp
    ultimately show ?thesis using j(1,2) by (intro exI [of _ "Suc j"]) simp
  qed
qed simp

text \<open>
  a level other than the fallback 0 is reached by cutting some number \<open>j\<close> of the largest
  strings: cut to it, marker included, they free at least \<open>need\<close> bytes, and every string after
  them is within the level already, so it keeps every byte.
\<close>

theorem cutLevel_frees_need:
  assumes "cutLevel sizes need \<noteq> 0" and "sorted_wrt (\<ge>) sizes"
  shows "\<exists>j. 0 < j \<and> j \<le> length sizes \<and>
    need \<le> int (sum_list (take j sizes)) - int j * (cutLevel sizes need + int MARKER_BYTES) \<and>
    (\<forall>n \<in> set (drop j sizes). int n \<le> cutLevel sizes need)"
  using cut_level_from_frees [of 0 0 need sizes] assms by (auto simp: cutLevel_def)

theorem cutLevel_frees_need_witness:
  "\<exists>j. 0 < j \<and> j \<le> length [1000, 300 :: nat] \<and>
    500 \<le> int (sum_list (take j [1000, 300])) - int j * (cutLevel [1000, 300] 500 + int MARKER_BYTES) \<and>
    (\<forall>n \<in> set (drop j [1000, 300]). int n \<le> cutLevel [1000, 300] 500)"
  by (rule cutLevel_frees_need) (simp_all add: cutLevel_def MARKER_BYTES_def)

section \<open>A bounded payload fits\<close>

lemma serializable_visit_array:
  "serializable_list xs \<Longrightarrow> serializable_list (visit_array v xs)"
  by (auto simp: visit_array_def shortenArray_def serializable_list_iff omitted_marker_def
      dest: in_set_takeD)

lemma serializable_rewrite:
  assumes "\<And>kvs. serializable_props kvs \<Longrightarrow> serializable_props (v_object v kvs)"
  shows "serializable x \<Longrightarrow> serializable (rewrite v x)"
  using assms
proof (induction v x rule: rewrite.induct)
  case (2 v xs)
  from 2(2) have "serializable_list (visit_array v xs)" by (simp add: serializable_visit_array)
  with 2(1,3) show ?case by (auto simp: serializable_list_iff)
next
  case (3 v kvs)
  then have "serializable_props (map (\<lambda>(k, x). (k, rewrite v x)) kvs)"
    by (force simp: serializable_props_iff)
  with 3(3) show ?case by simp
qed simp_all

lemma serializable_stripBase64Node:
  "serializable_props kvs \<Longrightarrow> serializable_props (stripBase64Node kvs)"
  by (auto simp: stripBase64Node_def Let_def serializable_jput split: json.splits prod.splits if_splits)

lemma serializable_marked:
  "serializable v \<Longrightarrow> \<exists>kvs. marked v ob = JObj kvs \<and> serializable_props kvs"
  by (cases v) (simp_all add: marked_def minimal_payload_def serializable_jput)

text \<open>What every stage of a shrink keeps.\<close>

definition shrink_ok :: "shrink \<Rightarrow> bool" where
  "shrink_ok st \<longleftrightarrow> serializable (sh_base st) \<and>
     (\<exists>kvs. sh_out st = JObj kvs \<and> serializable_props kvs \<and>
            jprop kvs zwrm_truncated = JBool True) \<and>
     sh_bytes st = bytes_or_0 (sh_out st)"

lemma marked_flag:
  "serializable v \<Longrightarrow>
    \<exists>kvs. marked v ob = JObj kvs \<and> serializable_props kvs \<and> jprop kvs zwrm_truncated = JBool True"
  by (cases v) (simp_all add: marked_def minimal_payload_def serializable_jput)

lemma shrink_ok_shrink_to [inv_intros]: "serializable base \<Longrightarrow> shrink_ok (shrink_to ob base)"
  by (simp add: shrink_ok_def shrink_to_def marked_flag)

lemma shrink_ok_step [inv_intros]:
  "shrink_ok st \<Longrightarrow> serializable next \<Longrightarrow> shrink_ok (shrink_step mx ob next st)"
  by (simp add: shrink_step_def shrink_ok_shrink_to)

lemma shrink_ok_drop_tool_use_result [inv_intros]:
  assumes "shrink_ok st"
  shows "shrink_ok (drop_tool_use_result mx ob payload st)"
proof (cases "sh_base st")
  case (JObj kvs)
  with assms have "serializable_props kvs" by (simp add: shrink_ok_def)
  with assms JObj show ?thesis
    by (auto simp: drop_tool_use_result_def serializable_jput intro!: shrink_ok_step split: option.splits)
qed (simp_all add: drop_tool_use_result_def assms)

lemma shrink_ok_cut_rounds [inv_intros]:
  "shrink_ok st \<Longrightarrow> shrink_ok (cut_rounds i mx ob sizes need st)"
proof (induction i arbitrary: need st)
  case (Suc i)
  have "serializable (rewrite (cut_strings n) (sh_base st))" for n
    using Suc.prems by (intro serializable_rewrite) (simp_all add: cut_strings_def no_visit_def shrink_ok_def)
  with Suc.prems have
    "shrink_ok (st\<lparr>sh_out := marked (rewrite (cut_strings n) (sh_base st)) ob,
       sh_bytes := bytes_or_0 (marked (rewrite (cut_strings n) (sh_base st)) ob)\<rparr>)" for n
    by (simp add: shrink_ok_def marked_flag)
  with Suc show ?case by (simp add: Let_def)
qed simp

lemma shrink_ok_shrink_strings [inv_intros]:
  "shrink_ok st \<Longrightarrow> shrink_ok (shrink_strings mx ob st)"
  by (simp add: shrink_strings_def shrink_ok_cut_rounds)

text \<open>The payload the four stages leave, before the skeleton is considered.\<close>

definition shrunk_payload :: "json \<Rightarrow> nat \<Rightarrow> nat \<Rightarrow> shrink" where
  "shrunk_payload payload mx ob =
     (let st2 = drop_tool_use_result mx ob payload (shrink_to ob (rewrite strip_base64 payload));
          st3 = (if sh_bytes st2 \<le> mx then st2
                 else shrink_step mx ob (rewrite shorten_arrays (sh_base st2)) st2)
      in shrink_strings mx ob st3)"

lemma shrunk_payload_ok:
  assumes "serializable payload"
  shows "shrink_ok (shrunk_payload payload mx ob)"
proof -
  have "serializable (rewrite strip_base64 payload)"
    using assms by (intro serializable_rewrite)
      (simp_all add: strip_base64_def no_visit_def serializable_stripBase64Node)
  then have st2: "shrink_ok (drop_tool_use_result mx ob payload (shrink_to ob (rewrite strip_base64 payload)))"
    by (intro inv_intros)
  then have "serializable (rewrite shorten_arrays (sh_base
      (drop_tool_use_result mx ob payload (shrink_to ob (rewrite strip_base64 payload)))))"
    by (intro serializable_rewrite) (simp_all add: shorten_arrays_def no_visit_def shrink_ok_def)
  with st2 show ?thesis
    by (simp add: shrunk_payload_def Let_def shrink_ok_step shrink_ok_shrink_strings)
qed

lemma boundEventPayload_shrunk:
  assumes "jsonBytes payload = Some ob" and "mx < ob"
  shows "bd_payload (boundEventPayload payload mx) =
    (let st = shrunk_payload payload mx ob;
         out1 = (if sh_bytes st \<le> mx then sh_out st else skeleton_payload payload ob)
     in if bytes_or_0 out1 \<le> mx then out1 else minimal_payload ob)"
    and "bd_shrunk (boundEventPayload payload mx)"
    and "bd_bytes (boundEventPayload payload mx) =
      jsonBytes (bd_payload (boundEventPayload payload mx))"
  using assms by (simp_all add: boundEventPayload_def shrunk_payload_def Let_def)

lemma jsonBytes_obj:
  "serializable_props kvs \<Longrightarrow> jsonBytes (JObj kvs) = Some (bytes_or_0 (JObj kvs))"
  by (simp add: jsonBytes_def bytes_or_0_def stringify_def)

lemma serializable_identity: "serializable_props (identity obj keys)"
  by (auto simp: identity_def serializable_props_iff split: json.splits)

lemma serializable_skeleton: "serializable_props (skeleton payload)"
proof -
  have block: "serializable_list (skeleton_block b)" for b
    by (simp add: skeleton_block_def serializable_identity split: json.split)
  have list: "serializable_list (xs @ ys) \<longleftrightarrow> serializable_list xs \<and> serializable_list ys" for xs ys
    by (auto simp: serializable_list_iff)
  have props: "serializable_props (xs @ ys) \<longleftrightarrow> serializable_props xs \<and> serializable_props ys" for xs ys
    by (auto simp: serializable_props_iff)
  have "serializable_list (concat (map skeleton_block bs))" for bs
    by (induction bs) (simp_all add: list block)
  then have "serializable_props (skeleton_message m)" for m
    by (simp add: skeleton_message_def Let_def props list serializable_identity omitted_marker_def
        split: json.split)
  then show ?thesis
    by (simp add: skeleton_def props serializable_identity split: json.split)
qed

lemma minimal_payload_bytes:
  assumes "ob < 10 ^ 20"
  shows "jsonBytes (minimal_payload ob) = Some (bytes_or_0 (minimal_payload ob))"
    and "bytes_or_0 (minimal_payload ob) \<le> 64"
proof -
  show some: "jsonBytes (minimal_payload ob) = Some (bytes_or_0 (minimal_payload ob))"
    unfolding minimal_payload_def by (rule jsonBytes_obj) simp
  let ?head = "[0x7B, 0x22, 0x7A, 0x77, 0x72, 0x6D, 0x5F, 0x74, 0x72, 0x75, 0x6E, 0x63, 0x61, 0x74,
     0x65, 0x64, 0x22, 0x3A, 0x74, 0x72, 0x75, 0x65, 0x2C, 0x22, 0x6F, 0x72, 0x69, 0x67, 0x69, 0x6E,
     0x61, 0x6C, 0x5F, 0x62, 0x79, 0x74, 0x65, 0x73, 0x22, 0x3A] :: jstring"
  have "json_text (minimal_payload ob) = ?head @ dec ob @ [0x7D]"
    by (simp add: minimal_payload_def zwrm_truncated_def original_bytes_def quote_def js_def
        int_text_def escape_unit_def high_surrogate_def low_surrogate_def)
  moreover have "byte_length (?head @ dec ob @ [0x7D]) = 41 + length (dec ob)"
    by (subst byte_length_ascii) (simp_all add: ascii_dec)
  moreover have "length (dec ob) \<le> 20" using length_dec [of ob 20] assms by simp
  ultimately show "bytes_or_0 (minimal_payload ob) \<le> 64"
    by (simp add: bytes_or_0_def jsonBytes_def stringify_def minimal_payload_def)
qed

text \<open>
  C33: an event payload that has a JSON text comes out of \<open>boundEventPayload\<close> with a JSON text
  of at most the cap, for every cap of at least 64 bytes (the daemon's is 2 MiB) and every
  original size below \<open>10 ^ 20\<close> bytes.
\<close>

theorem boundEventPayload_fits:
  assumes "64 \<le> mx" and "jsonBytes payload = Some ob" and "ob < 10 ^ 20"
  shows "\<exists>n. bd_bytes (boundEventPayload payload mx) = Some n \<and>
    jsonBytes (bd_payload (boundEventPayload payload mx)) = Some n \<and> n \<le> mx"
proof (cases "ob \<le> mx")
  case True
  with assms show ?thesis by (simp add: boundEventPayload_def)
next
  case False
  let ?st = "shrunk_payload payload mx ob"
  let ?out1 = "if sh_bytes ?st \<le> mx then sh_out ?st else skeleton_payload payload ob"
  from assms have "serializable payload"
    by (auto simp: jsonBytes_def stringify_def split: if_splits)
  then have "shrink_ok ?st" by (rule shrunk_payload_ok)
  then have "\<exists>kvs. ?out1 = JObj kvs \<and> serializable_props kvs"
    using serializable_skeleton [of payload]
    by (cases "sh_bytes ?st \<le> mx")
      (auto simp: shrink_ok_def skeleton_payload_def serializable_props_iff)
  then have "jsonBytes ?out1 = Some (bytes_or_0 ?out1)" by (metis jsonBytes_obj)
  with minimal_payload_bytes [OF assms(3)] assms(1,2) False show ?thesis
    by (simp only: boundEventPayload_shrunk Let_def not_le) (simp split: if_split)
qed

lemma jprop_append:
  "jprop (xs @ ys) k = (if k \<in> fst ` set xs then jprop xs k else jprop ys k)"
  by (induction xs) (auto simp: rev_image_eqI split: if_splits)

lemma keys_identity: "fst ` set (identity obj keys) \<subseteq> set keys"
  by (auto simp: identity_def split: json.splits)

lemma keys_skeleton: "fst ` set (skeleton payload) \<subseteq> set IDENTITY_KEYS \<union> {js ''message''}"
  using keys_identity [of _ IDENTITY_KEYS]
  by (force simp: skeleton_def split: json.splits)

lemma zwrm_not_in_skeleton:
  "zwrm_truncated \<notin> fst ` set (skeleton payload)" "original_bytes \<notin> fst ` set (skeleton payload)"
  using keys_skeleton [of payload]
  by (auto simp: zwrm_truncated_def original_bytes_def IDENTITY_KEYS_def)

text \<open>
  a payload that was shrunk says so: its top level carries \<open>zwrm_truncated: true\<close>.
\<close>

theorem shrunk_payload_flagged:
  assumes "bd_shrunk (boundEventPayload payload mx)"
  shows "jget (bd_payload (boundEventPayload payload mx)) zwrm_truncated = JBool True"
proof -
  from assms obtain ob where ob: "jsonBytes payload = Some ob" "mx < ob"
    by (auto simp: boundEventPayload_def split: option.splits if_splits)
  then have "serializable payload"
    by (auto simp: jsonBytes_def stringify_def split: if_splits)
  from shrunk_payload_ok [OF this, of mx ob]
  have "jget (sh_out (shrunk_payload payload mx ob)) zwrm_truncated = JBool True"
    by (auto simp: shrink_ok_def)
  moreover have "jget (skeleton_payload payload ob) zwrm_truncated = JBool True"
    by (simp add: skeleton_payload_def jprop_append zwrm_not_in_skeleton)
  moreover have "jget (minimal_payload ob) zwrm_truncated = JBool True"
    by (simp add: minimal_payload_def)
  ultimately show ?thesis using ob by (simp add: boundEventPayload_shrunk Let_def)
qed

theorem shrunk_payload_flagged_witness:
  "jget (bd_payload (boundEventPayload (JObj [(js ''type'', JStr (js ''user''))]) 10)) zwrm_truncated
     = JBool True"
proof (rule shrunk_payload_flagged)
  have "jsonBytes (JObj [(js ''type'', JStr (js ''user''))]) = Some 15"
    by (simp add: jsonBytes_def stringify_def quote_def js_def escape_unit_def high_surrogate_def
        low_surrogate_def byte_length_ascii)
  then show "bd_shrunk (boundEventPayload (JObj [(js ''type'', JStr (js ''user''))]) 10)"
    by (simp add: boundEventPayload_shrunk)
qed

section \<open>What is removed at any depth\<close>

text \<open>Every object of a value, at any depth.\<close>

function (sequential) nodes :: "json \<Rightarrow> json_obj list" where
  "nodes (JArr xs) = concat (map nodes xs)"
| "nodes (JObj kvs) = kvs # concat (map (\<lambda>(k, x). nodes x) kvs)"
| "nodes x = []"
  by pat_completeness auto
termination nodes
  by (relation "measure size") (auto simp: item_smaller prop_smaller)

definition sub_nodes :: "json_obj \<Rightarrow> json_obj set" where
  "sub_nodes kvs = (\<Union>(k, x) \<in> set kvs. set (nodes x))"

lemma set_nodes_obj: "set (nodes (JObj kvs)) = insert kvs (sub_nodes kvs)"
  by (auto simp: sub_nodes_def)

lemma sub_nodes_simps [simp]:
  "sub_nodes [] = {}" "sub_nodes ((k, x) # kvs) = set (nodes x) \<union> sub_nodes kvs"
  by (simp_all add: sub_nodes_def)

lemma sub_nodes_jput:
  assumes "set (nodes v) = {}" and "sub_nodes kvs \<subseteq> B"
  shows "sub_nodes (jput k v kvs) \<subseteq> B"
proof -
  from assms(1) have "sub_nodes (jput k v kvs) \<subseteq> sub_nodes kvs"
    by (induction kvs) (auto split: if_splits)
  with assms(2) show ?thesis by blast
qed

text \<open>
  If an object visitor establishes \<open>P\<close> of the object it returns and brings in no object of its
  own, every object of a rewritten value satisfies \<open>P\<close>.
\<close>

lemma nodes_rewrite:
  assumes "\<not> v_shorten v" and "\<And>kvs. P (v_object v kvs)"
    and "\<And>kvs. sub_nodes (v_object v kvs) \<subseteq> sub_nodes kvs"
  shows "\<forall>n \<in> set (nodes (rewrite v x)). P n"
  using assms
proof (induction v x rule: rewrite.induct)
  case (2 v xs)
  then show ?case by (auto simp: visit_array_def)
next
  case (3 v kvs)
  let ?kvs = "map (\<lambda>(k, x). (k, rewrite v x)) kvs"
  have "\<forall>n \<in> sub_nodes ?kvs. P n" using 3 by (fastforce simp: sub_nodes_def)
  moreover have "sub_nodes (v_object v ?kvs) \<subseteq> sub_nodes ?kvs" by (rule 3)
  ultimately show ?case using 3(3) by (auto simp: set_nodes_obj simp del: nodes.simps)
qed simp_all

definition encoded_bytes :: "json_obj \<Rightarrow> bool" where
  "encoded_bytes n \<longleftrightarrow>
     (jprop n (js ''type'') = JStr (js ''base64'') \<and> (\<exists>s. s \<noteq> [] \<and> jprop n (js ''data'') = JStr s)) \<or>
     (\<exists>s. s \<noteq> [] \<and> jprop n (js ''base64'') = JStr s)"

lemma byte_length_pos: "s \<noteq> [] \<Longrightarrow> 0 < byte_length s"
  by (cases s rule: code_points.cases) (auto simp: byte_length_def utf8_def)

lemma stripBase64Node_clean: "\<not> encoded_bytes (stripBase64Node kvs)"
  by (auto simp: encoded_bytes_def stripBase64Node_def Let_def byte_length_pos
      split: json.splits prod.splits if_splits)

lemma sub_nodes_stripBase64Node: "sub_nodes (stripBase64Node kvs) \<subseteq> sub_nodes kvs"
  unfolding stripBase64Node_def Let_def
  by (simp add: sub_nodes_jput split: json.split prod.split if_split)

text \<open>
  after the first shrinking step no object at any depth of the payload carries encoded file
  bytes: no base64 source has data and no \<open>base64\<close> field is non-empty.
\<close>

theorem strip_base64_everywhere:
  "list_all (\<lambda>n. \<not> encoded_bytes n) (nodes (rewrite strip_base64 payload))"
  unfolding list_all_iff by (rule nodes_rewrite)
    (simp_all add: strip_base64_def no_visit_def stripBase64Node_clean sub_nodes_stripBase64Node)

definition image_node :: "json_obj \<Rightarrow> bool" where
  "image_node n \<longleftrightarrow> jprop n (js ''type'') = JStr (js ''image'')"

lemma drop_screens_no_image: "\<forall>n \<in> set (nodes (rewrite drop_screens x)). \<not> image_node n"
  by (rule nodes_rewrite)
    (simp_all add: drop_screens_def no_visit_def dropScreenNode_def image_node_def sub_nodes_def)

section \<open>Screens of a person's device\<close>

definition content_of :: "json \<Rightarrow> json list" where
  "content_of payload = arr_or_nil (jget (jget payload (js ''message'')) (js ''content''))"

definition result_of :: "json \<Rightarrow> json \<Rightarrow> bool" where
  "result_of i b \<longleftrightarrow>
     jget b (js ''type'') = JStr (js ''tool_result'') \<and> jget b (js ''tool_use_id'') = i"

lemma strip_blocks_ids: "strip_blocks ids bs = (ids', hit, out) \<Longrightarrow> set ids \<subseteq> set ids'"
  by (induction bs arbitrary: ids ids' hit out)
    (fastforce simp: Let_def split: prod.splits if_splits)+

lemma strip_blocks_learns:
  "strip_blocks ids bs = (ids', hit, out) \<Longrightarrow> b \<in> set bs \<Longrightarrow> device_use b \<Longrightarrow>
    jget b (js ''id'') \<in> set ids'"
  by (induction bs arbitrary: ids ids' hit out)
    (fastforce simp: Let_def split: prod.splits if_splits dest: strip_blocks_ids)+

lemma strip_blocks_clean:
  "strip_blocks ids bs = (ids', hit, out) \<Longrightarrow> b \<in> set out \<Longrightarrow> i \<in> set ids \<Longrightarrow>
    \<not> is_object_type i \<Longrightarrow> result_of i b \<Longrightarrow> \<forall>n \<in> set (nodes b). \<not> image_node n"
proof (induction bs arbitrary: ids ids' hit out)
  case (Cons c bs)
  let ?ids = "if device_use c then set_add (jget c (js ''id'')) ids else ids"
  let ?drop = "jget c (js ''type'') = JStr (js ''tool_result'') \<and> id_known ?ids (jget c (js ''tool_use_id''))"
  obtain ids2 h2 rest where r: "strip_blocks ?ids bs = (ids2, h2, rest)" by (metis prod_cases3)
  with Cons.prems(1) have out: "out = (if ?drop then rewrite drop_screens c else c) # rest"
    by (auto simp: Let_def)
  have i: "i \<in> set ?ids" using Cons.prems(3) by simp
  show ?case
  proof (cases "b \<in> set rest")
    case True
    with Cons.IH [OF r _ i] Cons.prems show ?thesis by blast
  next
    case False
    with out Cons.prems(2) have b: "b = (if ?drop then rewrite drop_screens c else c)" by simp
    show ?thesis
    proof (cases ?drop)
      case True
      with b drop_screens_no_image show ?thesis by simp
    next
      case no: False
      with b have "b = c" by simp
      with Cons.prems(4,5) i no show ?thesis by (simp add: result_of_def id_known_def)
    qed
  qed
qed simp

lemma strip_blocks_hit:
  "strip_blocks ids bs = (ids', hit, out) \<Longrightarrow> \<not> hit \<Longrightarrow> out = bs"
  by (induction bs arbitrary: ids ids' hit out)
    (fastforce simp: Let_def split: prod.splits if_splits)+

lemma strip_blocks_finds:
  "strip_blocks ids bs = (ids', hit, out) \<Longrightarrow> x \<in> set bs \<Longrightarrow> i \<in> set ids \<Longrightarrow>
    \<not> is_object_type i \<Longrightarrow> result_of i x \<Longrightarrow> hit"
proof (induction bs arbitrary: ids ids' hit out)
  case (Cons y ys)
  let ?ids = "if device_use y then set_add (jget y (js ''id'')) ids else ids"
  obtain a h o' where r: "strip_blocks ?ids ys = (a, h, o')" by (metis prod_cases3)
  have i: "i \<in> set ?ids" using Cons.prems(3) by simp
  show ?case
  proof (cases "x = y")
    case True
    with Cons.prems i r show ?thesis by (auto simp: Let_def result_of_def id_known_def)
  next
    case False
    with Cons.IH [OF r _ i] Cons.prems r show ?thesis by (auto simp: Let_def)
  qed
qed simp

lemma content_of_JArr:
  "jget (jget payload (js ''message'')) (js ''content'') = JArr bs \<Longrightarrow>
    \<exists>p m. payload = JObj p \<and> jprop p (js ''message'') = JObj m \<and> jprop m (js ''content'') = JArr bs"
proof -
  assume a: "jget (jget payload (js ''message'')) (js ''content'') = JArr bs"
  then obtain m where "jget payload (js ''message'') = JObj m"
    by (cases "jget payload (js ''message'')") auto
  with a show ?thesis by (cases payload) auto
qed

lemma device_strip_content:
  assumes "device_strip ids payload = (ids', out)"
  shows "\<exists>hit. strip_blocks ids (content_of payload) = (ids', hit, content_of out)"
proof (cases "jget (jget payload (js ''message'')) (js ''content'')")
  case (JArr bs)
  from content_of_JArr [OF this] obtain p m where pm: "payload = JObj p"
    "jprop p (js ''message'') = JObj m" "jprop m (js ''content'') = JArr bs" by blast
  obtain i h c where s: "strip_blocks ids bs = (i, h, c)" by (metis prod_cases3)
  have c: "\<not> h \<Longrightarrow> c = bs" using strip_blocks_hit [OF s] .
  from assms pm s c show ?thesis
    by (auto simp: device_strip_def content_of_def Let_def split: if_splits)
qed (use assms in \<open>auto simp: device_strip_def content_of_def\<close>)

lemma device_strip_dup:
  assumes "device_strip ids payload = (ids', out)" and "b \<in> set (content_of out)"
    and "i \<in> set ids" and "\<not> is_object_type i" and "result_of i b"
  shows "\<forall>n \<in> set (nodes (jget out (js ''tool_use_result''))). \<not> image_node n"
proof (cases "jget (jget payload (js ''message'')) (js ''content'')")
  case (JArr bs)
  from content_of_JArr [OF this] obtain p m where pm: "payload = JObj p"
    "jprop p (js ''message'') = JObj m" "jprop m (js ''content'') = JArr bs" by blast
  obtain j h c where s: "strip_blocks ids bs = (j, h, c)" by (metis prod_cases3)
  show ?thesis
  proof (cases h)
    case True
    with assms(1) pm s drop_screens_no_image show ?thesis
      by (auto simp: device_strip_def Let_def split: if_splits)
  next
    case False
    with strip_blocks_finds [OF s _ assms(3,4)] have known: "set bs \<inter> {b. result_of i b} = {}"
      by blast
    from False strip_blocks_hit [OF s] assms(1) pm s have "content_of out = bs"
      by (auto simp: device_strip_def content_of_def Let_def)
    with known assms(2,5) show ?thesis by auto
  qed
next
qed (use assms in \<open>auto simp: device_strip_def content_of_def\<close>)

text \<open>The payloads of a session's events, stripped one after the other.\<close>

fun device_strip_all :: "json list \<Rightarrow> json list \<Rightarrow> json list \<times> json list" where
  "device_strip_all ids [] = (ids, [])"
| "device_strip_all ids (p # ps) =
     (let (ids1, p') = device_strip ids p; (ids2, ps') = device_strip_all ids1 ps
      in (ids2, p' # ps'))"

lemma device_strip_all_clean:
  "device_strip_all ids ps = (ids', out) \<Longrightarrow> i \<in> set ids \<Longrightarrow> \<not> is_object_type i \<Longrightarrow>
    p' \<in> set out \<Longrightarrow> b \<in> set (content_of p') \<Longrightarrow> result_of i b \<Longrightarrow>
    (\<forall>n \<in> set (nodes b). \<not> image_node n) \<and>
    (\<forall>n \<in> set (nodes (jget p' (js ''tool_use_result''))). \<not> image_node n)"
proof (induction ps arbitrary: ids ids' out)
  case (Cons p ps)
  obtain ids1 q where s: "device_strip ids p = (ids1, q)" by fastforce
  obtain ids2 qs where r: "device_strip_all ids1 ps = (ids2, qs)" by fastforce
  from Cons.prems(1) s r have out: "out = q # qs" by simp
  from device_strip_content [OF s] obtain hit
    where blocks: "strip_blocks ids (content_of p) = (ids1, hit, content_of q)" ..
  show ?case
  proof (cases "p' = q")
    case True
    with strip_blocks_clean [OF blocks] device_strip_dup [OF s] Cons.prems show ?thesis by blast
  next
    case False
    with out Cons.prems(4) have "p' \<in> set qs" by simp
    moreover have "i \<in> set ids1" using strip_blocks_ids [OF blocks] Cons.prems(2) by blast
    ultimately show ?thesis using Cons.IH [OF r] Cons.prems by blast
  qed
qed simp

text \<open>
  once an event has carried a device tool's call, no later event of the session stores a
  screen: no result of that call, and no duplicate of its output beside it, holds an image at
  any depth.
\<close>

theorem device_screens_never_stored:
  assumes "device_strip_all ids (p # ps) = (ids', p' # ps')"
    and "b \<in> set (content_of p)" and "device_use b"
    and "i = jget b (js ''id'')" and "\<not> is_object_type i"
    and "q \<in> set ps'" and "r \<in> set (content_of q)" and "result_of i r"
  shows "(\<forall>n \<in> set (nodes r). \<not> image_node n) \<and>
    (\<forall>n \<in> set (nodes (jget q (js ''tool_use_result''))). \<not> image_node n)"
proof -
  obtain ids1 p1 where s: "device_strip ids p = (ids1, p1)" by fastforce
  obtain ids2 qs where t: "device_strip_all ids1 ps = (ids2, qs)" by fastforce
  from device_strip_content [OF s] obtain hit
    where "strip_blocks ids (content_of p) = (ids1, hit, content_of p1)" ..
  from strip_blocks_learns [OF this assms(2,3)] have "i \<in> set ids1" by (simp add: assms(4))
  moreover have "qs = ps'" using assms(1) s t by simp
  ultimately show ?thesis using device_strip_all_clean [OF t] assms(5-8) by blast
qed

theorem boundEventPayload_fits_witness:
  "\<exists>n. bd_bytes (boundEventPayload (JObj [(js ''base64'', JStr (js
      ''aaaaaaaaaaaaaaaaaaaaaaaaaaaaaaaaaaaaaaaaaaaaaaaaaaaaaaaaaaaaaaaa''))]) 64) = Some n \<and>
    jsonBytes (bd_payload (boundEventPayload (JObj [(js ''base64'', JStr (js
      ''aaaaaaaaaaaaaaaaaaaaaaaaaaaaaaaaaaaaaaaaaaaaaaaaaaaaaaaaaaaaaaaa''))]) 64)) = Some n \<and> n \<le> 64"
proof (rule boundEventPayload_fits)
  show "jsonBytes (JObj [(js ''base64'', JStr (js
      ''aaaaaaaaaaaaaaaaaaaaaaaaaaaaaaaaaaaaaaaaaaaaaaaaaaaaaaaaaaaaaaaa''))]) = Some 77"
    by (simp add: jsonBytes_def stringify_def quote_def js_def escape_unit_def high_surrogate_def
        low_surrogate_def byte_length_ascii)
qed simp_all

section \<open>What a stub keeps\<close>

lemma truncateString_short: "byte_length s \<le> limit \<Longrightarrow> truncateString s limit = s"
  by (simp add: truncateString_def byte_length_def Let_def)

lemma jprop_identity:
  "k \<in> set keys \<Longrightarrow> jprop obj k = JStr s \<Longrightarrow>
    jprop (identity obj keys) k = JStr (truncateString s IDENTITY_STRING_BYTES)"
  by (induction keys) (auto simp: identity_def jprop_append split: json.splits)

lemma jprop_identity_key: "jprop obj k = JStr s \<Longrightarrow> k \<in> set keys \<Longrightarrow> k \<in> fst ` set (identity obj keys)"
  by (induction keys) (auto simp: identity_def)

lemma jprop_skeleton:
  assumes "jget payload k = JStr s" and "k \<in> set IDENTITY_KEYS"
  shows "jprop (skeleton payload @ xs) k = JStr (truncateString s IDENTITY_STRING_BYTES)"
  using assms
  by (cases payload)
    (auto simp: skeleton_def jprop_append jprop_identity jprop_identity_key)

text \<open>
  the stub sent in place of a refused event is the same event: its seq, time, type and turn,
  durable, and each identity field of the payload (the \<open>request_id\<close> a permission is answered
  by, the \<open>tool_use_id\<close> a result is linked by) that fits the identity cap is unchanged.
\<close>

theorem rejected_stub_same_event:
  assumes "jget (ev_payload ev) k = JStr s" and "k \<in> set IDENTITY_KEYS"
    and "byte_length s \<le> IDENTITY_STRING_BYTES"
  shows "jget (ev_payload (rejectedEventStub ev ob)) k = JStr s \<and>
    ev_seq (rejectedEventStub ev ob) = ev_seq ev \<and> ev_ts (rejectedEventStub ev ob) = ev_ts ev \<and>
    ev_type (rejectedEventStub ev ob) = ev_type ev \<and>
    ev_turn_id (rejectedEventStub ev ob) = ev_turn_id ev \<and>
    \<not> ev_ephemeral (rejectedEventStub ev ob)"
  using jprop_skeleton [OF assms(1,2)] truncateString_short [OF assms(3)]
  by (simp add: rejectedEventStub_def)

definition sample_permission :: event where
  "sample_permission = \<lparr>ev_seq = 7, ev_ts = js ''t'', ev_type = js ''permission.request'',
     ev_payload = JObj [(js ''request_id'', JStr (js ''r1'')), (js ''input'', JObj [])],
     ev_turn_id = None, ev_ephemeral = False\<rparr>"

theorem rejected_stub_same_event_witness:
  "jget (ev_payload (rejectedEventStub sample_permission None)) (js ''request_id'') = JStr (js ''r1'') \<and>
    ev_seq (rejectedEventStub sample_permission None) = ev_seq sample_permission \<and>
    ev_ts (rejectedEventStub sample_permission None) = ev_ts sample_permission \<and>
    ev_type (rejectedEventStub sample_permission None) = ev_type sample_permission \<and>
    ev_turn_id (rejectedEventStub sample_permission None) = ev_turn_id sample_permission \<and>
    \<not> ev_ephemeral (rejectedEventStub sample_permission None)"
  by (rule rejected_stub_same_event)
    (simp_all add: sample_permission_def IDENTITY_KEYS_def IDENTITY_STRING_BYTES_def js_def
      byte_length_ascii)

definition sample_use :: json where
  "sample_use = JObj [(js ''message'', JObj [(js ''content'', JArr [JObj
     [(js ''type'', JStr (js ''tool_use'')), (js ''name'', JStr (js ''mcp__device__screenshot'')),
      (js ''id'', JStr (js ''u1''))]])])]"

definition sample_result :: json where
  "sample_result = JObj
     [(js ''type'', JStr (js ''tool_result'')), (js ''tool_use_id'', JStr (js ''u1'')),
      (js ''content'', JArr [JObj [(js ''type'', JStr (js ''image'')), (js ''data'', JStr (js ''AAAA''))]])]"

definition sample_screen :: json where
  "sample_screen = JObj [(js ''message'', JObj [(js ''content'', JArr [sample_result])])]"

lemma sample_stripped:
  "device_strip_all [] [sample_use, sample_screen] =
    ([JStr (js ''u1'')], [sample_use, JObj [(js ''message'', JObj [(js ''content'',
       JArr [rewrite drop_screens sample_result])])]])"
  by (simp add: sample_use_def sample_screen_def sample_result_def device_strip_def device_use_def
      id_known_def is_object_type_def set_add_def Let_def)

theorem device_screens_never_stored_witness:
  "list_all (\<lambda>n. \<not> image_node n) (nodes (rewrite drop_screens sample_result)) \<and>
    list_all (\<lambda>n. \<not> image_node n) (nodes (jget (JObj [(js ''message'', JObj [(js ''content'',
       JArr [rewrite drop_screens sample_result])])]) (js ''tool_use_result'')))"
  unfolding list_all_iff
  by (rule device_screens_never_stored [OF sample_stripped,
        where b = "hd (content_of sample_use)" and i = "JStr (js ''u1'')"])
    (simp_all add: sample_use_def sample_result_def content_of_def device_use_def is_object_type_def
      result_of_def drop_screens_def no_visit_def dropScreenNode_def visit_array_def)

end
