(* ===== verification/ChangedFiles.thy ===== *)
theory ChangedFiles
  imports EventBounds
begin

text \<open>
  \<^verbatim>\<open>changed-files.mjs\<close>: the files a turn changed, derived from tool calls and their
  results. \<open>pending\<close> maps the id of a file tool's call to the files it names until the result
  of that call arrives.
\<close>

record changed_file =
  cf_path :: jstring
  cf_operation :: jstring

type_synonym pending_files = "(jstring, changed_file list) jmap"

definition file_operation :: "json \<Rightarrow> jstring \<Rightarrow> jstring" where
  "file_operation kind fallback =
     (let normalized = to_lower (string_or_empty kind)
      in if normalized \<in> {js ''add'', js ''added'', js ''create'', js ''created''} then js ''created''
         else if normalized \<in> {js ''delete'', js ''deleted'', js ''remove'', js ''removed''}
         then js ''deleted''
         else fallback)"

definition file_tools :: "(jstring, jstring) jmap" where
  "file_tools = [(js ''write'', js ''written''), (js ''write_file'', js ''written''),
     (js ''edit'', js ''modified''), (js ''edit_file'', js ''modified''),
     (js ''multiedit'', js ''modified''), (js ''notebookedit'', js ''modified''),
     (js ''notebook_edit'', js ''modified'')]"

definition patch_file :: "json \<Rightarrow> changed_file list" where
  "patch_file change =
     (case jget change (js ''path'') of
       JStr s \<Rightarrow> if s = [] then []
         else [\<lparr>cf_path = s,
                cf_operation = file_operation (jget change (js ''kind'')) (js ''modified'')\<rparr>]
     | _ \<Rightarrow> [])"

definition filesForTool :: "json \<Rightarrow> changed_file list" where
  "filesForTool block =
     (let name = to_lower (string_or_empty (jget block (js ''name'')));
          input = jget block (js ''input'');
          path = or_nullish (jget input (js ''file_path''))
            (or_nullish (jget input (js ''path'')) (jget input (js ''notebook_path'')))
      in if name = js ''apply_patch'' \<and> is_arr (jget input (js ''changes''))
         then concat (map patch_file (arr_or_nil (jget input (js ''changes''))))
         else (case (map_of file_tools name, path) of
             (Some oper, JStr s) \<Rightarrow> if s = [] then [] else [\<lparr>cf_path = s, cf_operation = oper\<rparr>]
           | _ \<Rightarrow> []))"

fun observe_uses :: "json list \<Rightarrow> pending_files \<Rightarrow> pending_files" where
  "observe_uses [] pending = pending"
| "observe_uses (block # bs) pending =
     observe_uses bs
       (case jget block (js ''id'') of
         JStr i \<Rightarrow>
           if jget block (js ''type'') = JStr (js ''tool_use'') \<and> filesForTool block \<noteq> []
           then AList.update i (filesForTool block) pending else pending
       | _ \<Rightarrow> pending)"

fun observe_results ::
  "json list \<Rightarrow> pending_files \<Rightarrow> pending_files \<times> changed_file list" where
  "observe_results [] pending = (pending, [])"
| "observe_results (block # bs) pending =
     (case (jget block (js ''type'') = JStr (js ''tool_result''), jget block (js ''tool_use_id'')) of
       (True, JStr i) \<Rightarrow>
         (let files = map_of pending i;
              (pending', changed) = observe_results bs (AList.delete i pending)
          in (pending',
              (if truthy (jget block (js ''is_error'')) then [] else case files of None \<Rightarrow> [] | Some fs \<Rightarrow> fs)
                @ changed))
     | _ \<Rightarrow> observe_results bs pending)"

text \<open>One entry per path, the last one given, in the order paths first appear.\<close>

definition dedup_files :: "changed_file list \<Rightarrow> changed_file list" where
  "dedup_files files = map snd (fold (\<lambda>f m. AList.update (cf_path f) f m) files [])"

definition observe_files ::
  "jstring \<Rightarrow> json \<Rightarrow> pending_files \<Rightarrow> pending_files \<times> changed_file list" where
  "observe_files type payload pending =
     (if type = js ''sdk.assistant'' then (observe_uses (content_of payload) pending, [])
      else if type \<noteq> js ''sdk.user'' then (pending, [])
      else (let (pending', changed) = observe_results (content_of payload) pending
            in (pending', dedup_files changed)))"

lemma observe_files_other [simp]:
  "type \<noteq> js ''sdk.user'' \<Longrightarrow> snd (observe_files type payload pending) = []"
  by (simp add: observe_files_def)

section \<open>What is reported\<close>

lemma map_of_update_snd: "x \<in> snd ` set (AList.update k v m) \<Longrightarrow> x = v \<or> x \<in> snd ` set m"
  by (induction m) (auto split: if_splits)

lemma dedup_fold:
  "distinct (map fst m) \<Longrightarrow> \<forall>(k, f) \<in> set m. k = cf_path f \<Longrightarrow>
    distinct (map fst (fold (\<lambda>f m. AList.update (cf_path f) f m) files m)) \<and>
    (\<forall>(k, f) \<in> set (fold (\<lambda>f m. AList.update (cf_path f) f m) files m). k = cf_path f) \<and>
    snd ` set (fold (\<lambda>f m. AList.update (cf_path f) f m) files m) \<subseteq> snd ` set m \<union> set files"
proof (induction files arbitrary: m)
  case (Cons f files)
  let ?m = "AList.update (cf_path f) f m"
  have d: "distinct (map fst ?m)" using Cons.prems(1) by (simp add: distinct_update)
  have k: "\<forall>(k, g) \<in> set ?m. k = cf_path g" using Cons.prems(2)
    by (induction m) (auto split: if_splits)
  have new: "snd ` set ?m \<subseteq> snd ` set m \<union> set (f # files)"
    using map_of_update_snd [of _ "cf_path f" f m] by (auto simp del: image_iff)
  have "snd ` set (fold (\<lambda>f m. AList.update (cf_path f) f m) files ?m)
      \<subseteq> snd ` set ?m \<union> set files" using Cons.IH [OF d k] by blast
  from order_trans [OF this Un_least [OF new]]
  have "snd ` set (fold (\<lambda>f m. AList.update (cf_path f) f m) (f # files) m)
      \<subseteq> snd ` set m \<union> set (f # files)" by (simp add: subset_insertI2)
  with Cons.IH [OF d k] show ?case by simp
qed auto

lemma dedup_distinct: "distinct (map cf_path (dedup_files files))"
proof -
  let ?m = "fold (\<lambda>f m. AList.update (cf_path f) f m) files []"
  from dedup_fold [of "[]" files] have d: "distinct (map fst ?m)" and k: "\<forall>(k, f) \<in> set ?m. k = cf_path f"
    by auto
  from k have "map cf_path (map snd ?m) = map fst ?m" by (auto simp: case_prod_beta)
  with d show ?thesis by (simp only: dedup_files_def)
qed

lemma dedup_subset: "set (dedup_files files) \<subseteq> set files"
  using dedup_fold [of "[]" files] by (simp add: dedup_files_def)

lemma observe_results_sound:
  "observe_results bs pending = (pending', changed) \<Longrightarrow> f \<in> set changed \<Longrightarrow>
    \<exists>b \<in> set bs. \<exists>i fs. result_of (JStr i) b \<and> \<not> truthy (jget b (js ''is_error'')) \<and>
      map_of pending i = Some fs \<and> f \<in> set fs"
proof (induction bs arbitrary: pending pending' changed)
  case (Cons b bs)
  show ?case
  proof (cases "\<exists>i. result_of (JStr i) b")
    case True
    then obtain i where i: "result_of (JStr i) b" ..
    obtain p2 c2 where r: "observe_results bs (AList.delete i pending) = (p2, c2)" by fastforce
    show ?thesis
    proof (cases "f \<in> set c2")
      case True
      from Cons.IH [OF r True] show ?thesis
        by (auto simp: delete_conv' fun_upd_apply split: if_splits)
    next
      case False
      with Cons.prems i r show ?thesis
        by (auto simp: result_of_def split: if_splits option.splits)
    qed
  next
    case False
    with Cons.prems have "observe_results bs pending = (pending', changed)"
      by (auto simp: result_of_def split: json.splits bool.splits)
    from Cons.IH [OF this Cons.prems(2)] show ?thesis by auto
  qed
qed simp

lemma observe_results_consumes:
  "observe_results bs pending = (pending', changed) \<Longrightarrow>
    map_of pending' = map_of pending |` (- {i. \<exists>b \<in> set bs. result_of (JStr i) b})"
proof (induction bs arbitrary: pending pending' changed)
  case (Cons b bs)
  show ?case
  proof (cases "\<exists>i. result_of (JStr i) b")
    case True
    then obtain i where i: "result_of (JStr i) b" ..
    obtain p2 c2 where r: "observe_results bs (AList.delete i pending) = (p2, c2)" by fastforce
    from i r Cons.prems have "pending' = p2" by (auto simp: result_of_def)
    with Cons.IH [OF r] i show ?thesis
      by (auto simp: delete_conv' restrict_map_def fun_eq_iff result_of_def)
  next
    case False
    with Cons.prems have "observe_results bs pending = (pending', changed)"
      by (auto simp: result_of_def split: json.splits bool.splits)
    from Cons.IH [OF this] False show ?thesis by (auto simp: restrict_map_def fun_eq_iff)
  qed
qed (simp add: restrict_map_def)

text \<open>
  a file is reported as changed only for a result that is not an error, of a call the tracker
  had seen name that file; a message reports each path once; and every result consumes its
  call, so a repeated result reports nothing more.
\<close>

theorem changed_files_only_executed:
  assumes "observe_files (js ''sdk.user'') payload pending = (pending', files)"
  shows "distinct (map cf_path files) \<and>
    (\<forall>f \<in> set files. \<exists>b \<in> set (content_of payload). \<exists>i fs. result_of (JStr i) b \<and>
       \<not> truthy (jget b (js ''is_error'')) \<and> map_of pending i = Some fs \<and> f \<in> set fs) \<and>
    (\<forall>b \<in> set (content_of payload). \<forall>i. result_of (JStr i) b \<longrightarrow> map_of pending' i = None)"
proof -
  obtain changed where r: "observe_results (content_of payload) pending = (pending', changed)"
    and files: "files = dedup_files changed"
    using assms by (auto simp: observe_files_def split: prod.splits)
  have "\<forall>f \<in> set files. \<exists>b \<in> set (content_of payload). \<exists>i fs. result_of (JStr i) b \<and>
       \<not> truthy (jget b (js ''is_error'')) \<and> map_of pending i = Some fs \<and> f \<in> set fs"
  proof
    fix f assume "f \<in> set files"
    then have "f \<in> set changed" using files dedup_subset by blast
    from observe_results_sound [OF r this] show "\<exists>b \<in> set (content_of payload). \<exists>i fs.
      result_of (JStr i) b \<and> \<not> truthy (jget b (js ''is_error'')) \<and> map_of pending i = Some fs \<and> f \<in> set fs" .
  qed
  moreover have "\<forall>b \<in> set (content_of payload). \<forall>i. result_of (JStr i) b \<longrightarrow> map_of pending' i = None"
    using observe_results_consumes [OF r] by (auto simp: restrict_map_def)
  ultimately show ?thesis using files dedup_distinct by simp
qed

definition sample_file :: changed_file where
  "sample_file = \<lparr>cf_path = js ''a.txt'', cf_operation = js ''written''\<rparr>"

lemma sample_observed:
  "observe_files (js ''sdk.user'') sample_screen [(js ''u1'', [sample_file])] = ([], [sample_file])"
  by (simp add: observe_files_def sample_screen_def sample_result_def content_of_def dedup_files_def)

theorem changed_files_only_executed_witness:
  "distinct (map cf_path [sample_file]) \<and>
    (\<exists>b \<in> set (content_of sample_screen). \<not> truthy (jget b (js ''is_error'')))"
  using changed_files_only_executed [OF sample_observed] by auto

end
