(* ===== verification/EventPusher.thy ===== *)
theory EventPusher
  imports TurnEvents ChangedFiles
begin

text \<open>
  The event pusher, \<^verbatim>\<open>event-pusher.mjs\<close>: \<open>emit\<close> stamps and queues events, \<open>flush\<close> delivers
  the queue in batches. An \<open>await\<close> splits \<open>flush\<close> in two: \<open>flush_start\<close> runs to the request,
  \<open>flush_finish\<close> from its answer on, and other calls may run in between. The log lines are
  left out. \<open>clk n\<close> is the time \<^verbatim>\<open>new Date().toISOString()\<close> reads when seq \<open>n\<close> is stamped.

  A stub is remembered by its seq: once an event is stubbed, the stub is the only event of
  that seq the pusher holds, so the source's set of stub objects is the set of their seqs.
\<close>

section \<open>State\<close>

definition FLUSH_MS :: nat where "FLUSH_MS = 150"
definition MAX_BATCH :: nat where "MAX_BATCH = 200"
definition MAX_BATCH_BYTES :: nat where "MAX_BATCH_BYTES = 8388608"
definition MIN_BATCH_BYTES :: nat where "MIN_BATCH_BYTES = 262144"
definition INITIAL_RETRY_MS :: nat where "INITIAL_RETRY_MS = 1000"
definition MAX_RETRY_MS :: nat where "MAX_RETRY_MS = 30000"
definition MAX_QUEUE :: nat where "MAX_QUEUE = 50000"
definition PERMANENT_STATUSES :: "nat list" where "PERMANENT_STATUSES = [401, 403, 404, 410]"
definition MAX_RENEWAL_REFUSALS :: nat where "MAX_RENEWAL_REFUSALS = 6"

record pusher =
  sessionId :: jstring
  flushMs :: nat
  initialRetryMs :: nat
  maxRetryMs :: nat
  queue :: "event list"
  seq :: nat
  timer :: "nat option"
  inFlight :: bool
  retryMs :: nat
  batchLimit :: nat
  batchBytes :: nat
  stubs :: "nat list"
  truncatedPermissionRequests :: "jstring list"
  stopped :: bool
  turns :: turn_ctx
  deviceIds :: "json list"
  changedFiles :: pending_files

definition new_pusher :: "jstring \<Rightarrow> pusher" where
  "new_pusher sid = \<lparr>sessionId = sid, flushMs = FLUSH_MS, initialRetryMs = INITIAL_RETRY_MS,
     maxRetryMs = MAX_RETRY_MS, queue = [], seq = 0, timer = None, inFlight = False,
     retryMs = INITIAL_RETRY_MS, batchLimit = MAX_BATCH, batchBytes = MAX_BATCH_BYTES, stubs = [],
     truncatedPermissionRequests = [], stopped = False, turns = turn_ctx_init, deviceIds = [],
     changedFiles = []\<rparr>"

definition sizeRefusal :: "nat \<Rightarrow> jstring \<Rightarrow> bool" where
  "sizeRefusal st text \<longleftrightarrow>
     st = 413 \<or> (st = 400 \<and> str_includes text (js ''request body too large''))"

definition schedule :: "nat \<Rightarrow> pusher \<Rightarrow> pusher" where
  "schedule delay p =
     (if timer p \<noteq> None \<or> inFlight p \<or> stopped p then p else p\<lparr>timer := Some delay\<rparr>)"

definition stop :: "pusher \<Rightarrow> pusher" where
  "stop p = p\<lparr>stopped := True, timer := None\<rparr>"

definition noteTruncated :: "jstring \<Rightarrow> json \<Rightarrow> pusher \<Rightarrow> pusher" where
  "noteTruncated type payload p =
     (case jget payload (js ''request_id'') of
       JStr r \<Rightarrow>
         if type = js ''permission.request''
         then p\<lparr>truncatedPermissionRequests := set_add r (truncatedPermissionRequests p)\<rparr> else p
     | _ \<Rightarrow> p)"

section \<open>Emitting\<close>

text \<open>
  An event's turn is given (possibly as \<open>null\<close>) or implied by the turn context. A turn id is
  never the empty string, so a falsy one is \<open>None\<close>.
\<close>

datatype turn_opt = Implicit | Explicit "jstring option"

fun drop_first_ephemeral :: "event list \<Rightarrow> event list" where
  "drop_first_ephemeral [] = []"
| "drop_first_ephemeral (e # q) = (if ev_ephemeral e then q else e # drop_first_ephemeral q)"

text \<open>What is queued for a payload: a durable one is stripped of screens and bounded.\<close>

definition bound_queued :: "jstring \<Rightarrow> json \<Rightarrow> bool \<Rightarrow> pusher \<Rightarrow> pusher \<times> json" where
  "bound_queued type payload eph p =
     (if eph then (p, payload)
      else (let (ids, stripped) = device_strip (deviceIds p) payload;
                bounded = boundEventPayload stripped MAX_EVENT_PAYLOAD_BYTES;
                p1 = p\<lparr>deviceIds := ids\<rparr>
            in if bd_shrunk bounded then (noteTruncated type payload p1, bd_payload bounded)
               else (p1, stripped)))"

definition push_event :: "event \<Rightarrow> pusher \<Rightarrow> pusher" where
  "push_event ev p =
     (let q = (if length (queue p) \<ge> MAX_QUEUE then drop_first_ephemeral (queue p) else queue p)
      in schedule (flushMs p) (p\<lparr>queue := q @ [ev]\<rparr>))"

text \<open>
  One event, from the increment of \<open>seq\<close> on: the pusher, the seq it was stamped with, and the
  files the tracker reports for it.
\<close>

definition emit_one ::
  "(nat \<Rightarrow> jstring) \<Rightarrow> jstring \<Rightarrow> json \<Rightarrow> jstring option \<Rightarrow> bool \<Rightarrow> pusher \<Rightarrow>
    pusher \<times> nat \<times> changed_file list" where
  "emit_one clk type payload turnId eph p =
     (let n = Suc (seq p); p1 = p\<lparr>seq := n\<rparr>
      in if stopped p1 then (p1, n, [])
         else (let (p2, queued) = bound_queued type payload eph p1;
                   ev = \<lparr>ev_seq = n, ev_ts = clk n, ev_type = type, ev_payload = queued,
                         ev_turn_id = turnId, ev_ephemeral = eph\<rparr>
               in if length (queue p2) \<ge> MAX_QUEUE \<and> eph then (p2, n, [])
                  else (let p3 = push_event ev p2;
                            (pending, files) = observe_files type payload (changedFiles p3)
                        in (p3\<lparr>changedFiles := pending\<rparr>, n, files))))"

definition files_payload :: "changed_file list \<Rightarrow> json" where
  "files_payload files = JObj [(js ''files'', JArr (map (\<lambda>f.
     JObj [(js ''path'', JStr (cf_path f)), (js ''operation'', JStr (cf_operation f))]) files))]"

definition emit_boundary ::
  "(nat \<Rightarrow> jstring) \<Rightarrow> jstring \<Rightarrow> boundary option \<Rightarrow> pusher \<Rightarrow> pusher" where
  "emit_boundary clk type b p =
     (case b of None \<Rightarrow> p | Some (t, payload) \<Rightarrow> fst (emit_one clk type payload (Some t) False p))"

definition completeTurn ::
  "(nat \<Rightarrow> jstring) \<Rightarrow> jstring \<Rightarrow> pusher \<Rightarrow> pusher \<times> jstring option" where
  "completeTurn clk st p =
     (let (c, completed) = turn_complete st (turns p)
      in (emit_boundary clk (js ''turn.completed'') completed (p\<lparr>turns := c\<rparr>),
          map_option fst completed))"

definition session_over :: "jstring \<Rightarrow> bool" where
  "session_over type \<longleftrightarrow> type = js ''session.ended'' \<or> type = js ''session.error''"

text \<open>
  \<open>emit\<close> calls itself for the boundary of a turn a terminal event closes, and for the files
  summary of a result. Neither of those events is terminal nor a result, so the inner calls
  are \<open>emit_one\<close>: on such an event the two agree (\<open>emit_inner\<close> of \<open>PusherDelivery\<close>).
\<close>

definition emit ::
  "(nat \<Rightarrow> jstring) \<Rightarrow> jstring \<Rightarrow> json \<Rightarrow> turn_opt \<Rightarrow> bool \<Rightarrow> pusher \<Rightarrow> pusher \<times> nat" where
  "emit clk type payload opt eph p =
     (let turnId = (case opt of Explicit t \<Rightarrow> t | Implicit \<Rightarrow> implicitEventTurnId type (turns p));
          (p1, turnId1) =
            (if session_over type \<and> activeTurnId (turns p) \<noteq> None
             then (fst (completeTurn clk (if type = js ''session.error'' then js ''error'' else js ''ended'') p),
                   None)
             else (p, turnId));
          (p2, n, files) = emit_one clk type payload turnId1 eph p1
      in if files \<noteq> [] \<and> turnId1 \<noteq> None
         then (fst (emit_one clk (js ''turn.files_changed'') (files_payload files) turnId1 False p2), n)
         else (p2, n))"

section \<open>Turns\<close>

definition beginTurn ::
  "(nat \<Rightarrow> jstring) \<Rightarrow> jstring \<Rightarrow> jstring \<Rightarrow> pusher \<Rightarrow> pusher \<times> jstring option" where
  "beginTurn clk fresh harness p =
     (let wasDraining = (drainingTurnId (turns p) \<noteq> None);
          (c, started) = turn_begin fresh harness (turns p);
          p1 = p\<lparr>turns := c\<rparr>;
          p2 = (if started \<noteq> None \<and> \<not> wasDraining then p1\<lparr>changedFiles := []\<rparr> else p1);
          p3 = emit_boundary clk (js ''turn.started'') started p2
      in (p3, activeTurnId (turns p3)))"

definition rotateTurn ::
  "(nat \<Rightarrow> jstring) \<Rightarrow> jstring \<Rightarrow> jstring \<Rightarrow> jstring \<Rightarrow> pusher \<Rightarrow> pusher \<times> jstring option" where
  "rotateTurn clk fresh harness st p =
     (let (c, completed, started) = turn_rotate fresh harness st (turns p);
          p1 = emit_boundary clk (js ''turn.completed'') completed (p\<lparr>turns := c\<rparr>);
          p2 = p1\<lparr>changedFiles := []\<rparr>
      in (emit_boundary clk (js ''turn.started'') started p2, map_option fst started))"

definition startDrainingTurn ::
  "(nat \<Rightarrow> jstring) \<Rightarrow> jstring \<Rightarrow> pusher \<Rightarrow> pusher \<times> jstring option" where
  "startDrainingTurn clk st p =
     (let (c, completed) = turn_startDraining st (turns p)
      in (emit_boundary clk (js ''turn.completed'') completed (p\<lparr>turns := c\<rparr>),
          map_option fst completed))"

definition finishDrainingTurn :: "jstring option \<Rightarrow> pusher \<Rightarrow> pusher" where
  "finishDrainingTurn t p = p\<lparr>turns := turn_finishDraining t (turns p), changedFiles := []\<rparr>"

definition isTurnDraining :: "pusher \<Rightarrow> bool" where
  "isTurnDraining p \<longleftrightarrow> drainingTurnId (turns p) \<noteq> None"

section \<open>Batches\<close>

definition event_json :: "event \<Rightarrow> json" where
  "event_json e = JObj (
     [(js ''seq'', JInt (int (ev_seq e))), (js ''ts'', JStr (ev_ts e)), (js ''type'', JStr (ev_type e)),
      (js ''payload'', ev_payload e)] @
     (case ev_turn_id e of None \<Rightarrow> [] | Some t \<Rightarrow> [(js ''turn_id'', JStr t)]) @
     (if ev_ephemeral e then [(js ''ephemeral'', JBool True)] else []))"

definition stubFor :: "event \<Rightarrow> nat option \<Rightarrow> pusher \<Rightarrow> pusher \<times> event" where
  "stubFor ev ob p =
     (noteTruncated (ev_type ev) (ev_payload ev) (p\<lparr>stubs := set_add (ev_seq ev) (stubs p)\<rparr>),
      rejectedEventStub ev ob)"

record next_batch =
  nb_batch :: "event list"
  nb_parts :: "jstring list"
  nb_sizes :: "nat list"
  nb_bytes :: nat

text \<open>
  The loop over the queue: \<open>n\<close> events taken so far, \<open>bytes\<close> their size with the envelope. It
  returns the pusher, the queue as it now stands from here on, and what it took.
\<close>

fun batch_loop :: "nat \<Rightarrow> nat \<Rightarrow> event list \<Rightarrow> pusher \<Rightarrow> pusher \<times> event list \<times> next_batch" where
  "batch_loop n bytes [] p =
     (p, [], \<lparr>nb_batch = [], nb_parts = [], nb_sizes = [], nb_bytes = bytes\<rparr>)"
| "batch_loop n bytes (ev # q) p =
     (if n \<ge> batchLimit p
      then (p, ev # q, \<lparr>nb_batch = [], nb_parts = [], nb_sizes = [], nb_bytes = bytes\<rparr>)
      else if \<not> serializable (event_json ev) \<and> ev_ephemeral ev then batch_loop n bytes q p
      else (let (p1, ev1) = (if serializable (event_json ev) then (p, ev) else stubFor ev None p);
                json = json_text (event_json ev1);
                size = byte_length json + (if n > 0 then 1 else 0)
            in if n > 0 \<and> bytes + size > batchBytes p1
               then (p1, ev1 # q, \<lparr>nb_batch = [], nb_parts = [], nb_sizes = [], nb_bytes = bytes\<rparr>)
               else (let (p2, q2, nb) = batch_loop (Suc n) (bytes + size) q p1
                     in (p2, ev1 # q2,
                         nb\<lparr>nb_batch := ev1 # nb_batch nb, nb_parts := json # nb_parts nb,
                            nb_sizes := size # nb_sizes nb\<rparr>))))"

definition batch_head :: "pusher \<Rightarrow> jstring" where
  "batch_head p = [0x7B] @ quote (js ''session_id'') @ [0x3A] @ quote (sessionId p) @ [0x2C] @
     quote (js ''events'') @ [0x3A, 0x5B]"

definition nextBatch :: "pusher \<Rightarrow> pusher \<times> next_batch" where
  "nextBatch p =
     (let (p1, q, nb) = batch_loop 0 (byte_length (batch_head p) + 2) (queue p) p
      in (p1\<lparr>queue := q\<rparr>, nb))"

definition batch_body :: "pusher \<Rightarrow> next_batch \<Rightarrow> jstring" where
  "batch_body p nb = batch_head p @ join [0x2C] (nb_parts nb) @ [0x5D, 0x7D]"

section \<open>Flushing\<close>

text \<open>\<open>None\<close>: the flush returns at once, sending nothing.\<close>

definition flush_start :: "pusher \<Rightarrow> pusher \<times> next_batch option" where
  "flush_start p =
     (if inFlight p \<or> stopped p \<or> queue p = [] then (p, None)
      else (let (p1, nb) = nextBatch (p\<lparr>inFlight := True\<rparr>) in (p1, Some nb)))"

text \<open>
  The request's outcome: the control plane's answer, with the text of its body (empty when it
  cannot be read), or an error of the broker or the network with its status, if it has one,
  and the refusals in a row the broker counted. An effect is a call on another component.
\<close>

datatype reply = Answer nat jstring | Failed "nat option" nat

datatype push_effect = Deactivate jstring | Undeliverable jstring

definition giveUp :: "jstring \<Rightarrow> pusher \<Rightarrow> pusher \<times> push_effect list" where
  "giveUp reason p =
     (stop (p\<lparr>queue := [], inFlight := False\<rparr>), [Deactivate (sessionId p), Undeliverable reason])"

text \<open>\<^verbatim>\<open>queue.splice(idx, 1)\<close> and \<^verbatim>\<open>queue[idx] = stub\<close> at the first event of a seq.\<close>

fun splice_seq :: "nat \<Rightarrow> event list \<Rightarrow> event list \<Rightarrow> event list" where
  "splice_seq n r [] = []"
| "splice_seq n r (e # q) = (if ev_seq e = n then r @ q else e # splice_seq n r q)"

text \<open>A batch of one or more events; the flag says whether the refusal was handled.\<close>

definition refusedForSize :: "next_batch \<Rightarrow> pusher \<Rightarrow> bool \<times> pusher" where
  "refusedForSize nb p =
     (let batch = nb_batch nb; first = hd batch
      in if length batch > 1
         then (True, p\<lparr>batchLimit := max 1 (length batch div 2),
                       batchBytes := min (batchBytes p) (max MIN_BATCH_BYTES (nb_bytes nb div 2))\<rparr>)
         else if ev_seq first \<in> set (stubs p) then (False, p)
         else if ev_seq first \<notin> ev_seq ` set (queue p) then (True, p)
         else if ev_ephemeral first
         then (True, p\<lparr>queue := splice_seq (ev_seq first) [] (queue p)\<rparr>)
         else (let (p1, stub) = stubFor first (Some (hd (nb_sizes nb))) p
               in (True, p1\<lparr>queue := splice_seq (ev_seq first) [stub] (queue p1)\<rparr>)))"

definition push_failed :: "nat option \<Rightarrow> nat \<Rightarrow> pusher \<Rightarrow> pusher \<times> push_effect list" where
  "push_failed st refusals p =
     (let p1 = p\<lparr>inFlight := False\<rparr>
      in case st of
          Some c \<Rightarrow>
            if c \<in> set PERMANENT_STATUSES \<and> refusals \<ge> MAX_RENEWAL_REFUSALS
            then giveUp (js ''callback identity refused'') p1
            else ((schedule (retryMs p1) p1)\<lparr>retryMs := min (retryMs p1 * 2) (maxRetryMs p1)\<rparr>, [])
        | None \<Rightarrow>
            ((schedule (retryMs p1) p1)\<lparr>retryMs := min (retryMs p1 * 2) (maxRetryMs p1)\<rparr>, []))"

definition push_accepted :: "next_batch \<Rightarrow> pusher \<Rightarrow> pusher \<times> push_effect list" where
  "push_accepted nb p =
     (if \<exists>e \<in> set (nb_batch nb). session_over (ev_type e)
      then (stop (p\<lparr>queue := [], inFlight := False\<rparr>), [Deactivate (sessionId p)])
      else if nb_batch nb = [] then push_failed None 0 p
      else (let lastSeq = ev_seq (last (nb_batch nb));
                p1 = p\<lparr>queue := dropWhile (\<lambda>e. ev_seq e \<le> lastSeq) (queue p),
                       retryMs := initialRetryMs p, batchLimit := MAX_BATCH, inFlight := False\<rparr>
            in (if queue p1 \<noteq> [] then schedule 0 p1 else p1, [])))"

definition flush_finish :: "next_batch \<Rightarrow> reply \<Rightarrow> pusher \<Rightarrow> pusher \<times> push_effect list" where
  "flush_finish nb r p =
     (case r of
       Failed st refusals \<Rightarrow> push_failed st refusals p
     | Answer st text \<Rightarrow>
         if st \<in> set PERMANENT_STATUSES then giveUp (js ''callback rejected events'') p
         else if st = 400 \<or> st = 413 then
           (if sizeRefusal st text \<and> nb_batch nb \<noteq> [] \<and> fst (refusedForSize nb p)
            then (schedule 0 ((snd (refusedForSize nb p))\<lparr>inFlight := False\<rparr>), [])
            else push_failed None 0 p)
         else if 200 \<le> st \<and> st < 300 then push_accepted nb p
         else push_failed None 0 p)"

text \<open>The timer's callback, and the flush of a drain, both clear the timer first.\<close>

definition fire :: "pusher \<Rightarrow> pusher \<times> next_batch option" where
  "fire p = flush_start (p\<lparr>timer := None\<rparr>)"

end
