(* ===== verification/PusherDelivery.thy ===== *)
theory PusherDelivery
  imports EventPusher
begin

text \<open>
  What the pusher guarantees: the batches it sends, and, for every interleaving of emits,
  flushes, answers and overflow evictions, that a durable event reaches the control plane once
  and in order or is still queued.
\<close>

section \<open>What emitting does to the pusher\<close>

definition queue_ok :: "pusher \<Rightarrow> bool" where
  "queue_ok p \<longleftrightarrow> sorted_wrt (<) (map ev_seq (queue p)) \<and> (\<forall>e \<in> set (queue p). ev_seq e \<le> seq p)"

definition same_delivery :: "pusher \<Rightarrow> pusher \<Rightarrow> bool" where
  "same_delivery p p' \<longleftrightarrow> stopped p' = stopped p \<and> inFlight p' = inFlight p \<and>
     batchLimit p' = batchLimit p \<and> batchBytes p' = batchBytes p \<and> stubs p' = stubs p \<and>
     sessionId p' = sessionId p"

text \<open>
  \<open>extends E p p'\<close>: \<open>p'\<close> is \<open>p\<close> after some emits, with \<open>E\<close> the seqs given to partials. Events
  are added after those queued, only partials leave, and every durable event stamped meanwhile
  is queued unless the pusher has stopped.
\<close>

definition extends :: "nat set \<Rightarrow> pusher \<Rightarrow> pusher \<Rightarrow> bool" where
  "extends E p p' \<longleftrightarrow> same_delivery p p' \<and> seq p \<le> seq p' \<and>
     (\<forall>e \<in> set (queue p'). e \<in> set (queue p) \<or> seq p < ev_seq e) \<and>
     (\<forall>e \<in> set (queue p). \<not> ev_ephemeral e \<longrightarrow> e \<in> set (queue p')) \<and>
     (\<not> stopped p \<longrightarrow> (\<forall>n. seq p < n \<and> n \<le> seq p' \<and> n \<notin> E \<longrightarrow>
        (\<exists>e \<in> set (queue p'). ev_seq e = n \<and> \<not> ev_ephemeral e))) \<and>
     (queue_ok p \<longrightarrow> queue_ok p')"

lemma extends_refl: "extends {} p p"
  by (auto simp: extends_def same_delivery_def)

lemma extends_trans:
  assumes "extends E p q" and "extends F q r"
  shows "extends (E \<union> F) p r"
  unfolding extends_def
proof (intro conjI impI allI ballI)
  show "same_delivery p r" "seq p \<le> seq r"
    using assms by (auto simp: extends_def same_delivery_def)
  fix n assume "\<not> stopped p" and n: "seq p < n \<and> n \<le> seq r \<and> n \<notin> E \<union> F"
  then have "\<not> stopped q" using assms(1) by (simp add: extends_def same_delivery_def)
  show "\<exists>e \<in> set (queue r). ev_seq e = n \<and> \<not> ev_ephemeral e"
  proof (cases "n \<le> seq q")
    case True
    with assms(1) n \<open>\<not> stopped p\<close> obtain e where "e \<in> set (queue q)" "ev_seq e = n" "\<not> ev_ephemeral e"
      unfolding extends_def by blast
    with assms(2) show ?thesis unfolding extends_def by blast
  next
    case False
    with assms(2) n \<open>\<not> stopped q\<close> show ?thesis unfolding extends_def by simp
  qed
next
  fix e assume "e \<in> set (queue r)"
  with assms(2) have "e \<in> set (queue q) \<or> seq q < ev_seq e" unfolding extends_def by blast
  then show "e \<in> set (queue p) \<or> seq p < ev_seq e"
  proof
    assume "e \<in> set (queue q)"
    with assms(1) show ?thesis unfolding extends_def by blast
  next
    assume "seq q < ev_seq e"
    moreover have "seq p \<le> seq q" using assms(1) by (simp add: extends_def)
    ultimately show ?thesis by simp
  qed
next
  fix e assume "e \<in> set (queue p)" and "\<not> ev_ephemeral e"
  with assms show "e \<in> set (queue r)" unfolding extends_def by blast
qed (use assms in \<open>simp add: extends_def\<close>)

text \<open>Calls that touch neither the queue, the seq nor delivery extend trivially on either side.\<close>

lemma extends_fields:
  "extends E (p\<lparr>turns := t, changedFiles := c, deviceIds := d, truncatedPermissionRequests := r\<rparr>) p' =
     extends E p p'"
  by (simp add: extends_def same_delivery_def queue_ok_def)

lemma extends_turns [simp]: "extends E (p\<lparr>turns := t\<rparr>) p' = extends E p p'"
  by (simp add: extends_def same_delivery_def queue_ok_def)

lemma extends_turns' [simp]: "extends E p (p'\<lparr>turns := t\<rparr>) = extends E p p'"
  by (simp add: extends_def same_delivery_def queue_ok_def)

lemma extends_changedFiles [simp]:
  "extends E (p\<lparr>changedFiles := t\<rparr>) p' = extends E p p'"
  "extends E p (p'\<lparr>changedFiles := t\<rparr>) = extends E p p'"
  by (simp_all add: extends_def same_delivery_def queue_ok_def)

lemma schedule_fields [simp]:
  "queue (schedule d p) = queue p" "seq (schedule d p) = seq p" "stopped (schedule d p) = stopped p"
  "inFlight (schedule d p) = inFlight p" "batchLimit (schedule d p) = batchLimit p"
  "batchBytes (schedule d p) = batchBytes p" "stubs (schedule d p) = stubs p"
  "sessionId (schedule d p) = sessionId p" "turns (schedule d p) = turns p"
  "changedFiles (schedule d p) = changedFiles p" "retryMs (schedule d p) = retryMs p"
  by (simp_all add: schedule_def)

lemma noteTruncated_fields [simp]:
  "queue (noteTruncated ty pl p) = queue p" "seq (noteTruncated ty pl p) = seq p"
  "stopped (noteTruncated ty pl p) = stopped p" "inFlight (noteTruncated ty pl p) = inFlight p"
  "batchLimit (noteTruncated ty pl p) = batchLimit p" "batchBytes (noteTruncated ty pl p) = batchBytes p"
  "stubs (noteTruncated ty pl p) = stubs p" "sessionId (noteTruncated ty pl p) = sessionId p"
  "turns (noteTruncated ty pl p) = turns p" "changedFiles (noteTruncated ty pl p) = changedFiles p"
  by (simp_all add: noteTruncated_def split: json.split)

lemma bound_queued_fields [simp]:
  "queue (fst (bound_queued ty pl eph p)) = queue p" "seq (fst (bound_queued ty pl eph p)) = seq p"
  "stopped (fst (bound_queued ty pl eph p)) = stopped p"
  "inFlight (fst (bound_queued ty pl eph p)) = inFlight p"
  "batchLimit (fst (bound_queued ty pl eph p)) = batchLimit p"
  "batchBytes (fst (bound_queued ty pl eph p)) = batchBytes p"
  "stubs (fst (bound_queued ty pl eph p)) = stubs p"
  "sessionId (fst (bound_queued ty pl eph p)) = sessionId p"
  "turns (fst (bound_queued ty pl eph p)) = turns p"
  "changedFiles (fst (bound_queued ty pl eph p)) = changedFiles p"
  by (simp_all add: bound_queued_def Let_def split: prod.split)

lemma drop_first_ephemeral_subset: "set (drop_first_ephemeral q) \<subseteq> set q"
  by (induction q) auto

lemma drop_first_ephemeral_durable:
  "e \<in> set q \<Longrightarrow> \<not> ev_ephemeral e \<Longrightarrow> e \<in> set (drop_first_ephemeral q)"
  by (induction q) auto

lemma drop_first_ephemeral_sorted:
  "sorted_wrt (<) (map ev_seq q) \<Longrightarrow> sorted_wrt (<) (map ev_seq (drop_first_ephemeral q))"
  using drop_first_ephemeral_subset by (induction q) fastforce+

lemma push_event_fields [simp]:
  "seq (push_event ev p) = seq p" "stopped (push_event ev p) = stopped p"
  "inFlight (push_event ev p) = inFlight p" "batchLimit (push_event ev p) = batchLimit p"
  "batchBytes (push_event ev p) = batchBytes p" "stubs (push_event ev p) = stubs p"
  "sessionId (push_event ev p) = sessionId p" "turns (push_event ev p) = turns p"
  "changedFiles (push_event ev p) = changedFiles p"
  by (simp_all add: push_event_def)

lemma queue_push_event:
  "queue (push_event ev p) =
    (if length (queue p) \<ge> MAX_QUEUE then drop_first_ephemeral (queue p) else queue p) @ [ev]"
  by (simp add: push_event_def)

lemma push_event_extends:
  assumes "seq p = Suc m" and "ev_seq ev = Suc m" and "E = (if ev_ephemeral ev then {Suc m} else {})"
  shows "extends E (p\<lparr>seq := m\<rparr>) (push_event ev p)"
proof -
  let ?q = "if length (queue p) \<ge> MAX_QUEUE then drop_first_ephemeral (queue p) else queue p"
  have q: "set ?q \<subseteq> set (queue p)" "e \<in> set (queue p) \<Longrightarrow> \<not> ev_ephemeral e \<Longrightarrow> e \<in> set ?q"
    "sorted_wrt (<) (map ev_seq (queue p)) \<Longrightarrow> sorted_wrt (<) (map ev_seq ?q)" for e
    using drop_first_ephemeral_subset drop_first_ephemeral_durable drop_first_ephemeral_sorted
    by (auto split: if_splits)
  have "queue_ok (p\<lparr>seq := m\<rparr>) \<Longrightarrow> queue_ok (push_event ev p)"
    using assms(1,2) q(1,3)
    by (fastforce simp: queue_ok_def queue_push_event sorted_wrt_append)
  moreover have "n = Suc m" if "m < n" "n \<le> Suc m" for n using that by simp
  ultimately show ?thesis using assms q(1,2)
    by (auto simp: extends_def same_delivery_def queue_push_event)
qed

lemma emit_one_extends:
  assumes "emit_one clk ty pl t eph p = (p', n, files)"
  shows "extends (if eph then {n} else {}) p p'" and "n = Suc (seq p)"
proof -
  show n: "n = Suc (seq p)"
    using assms by (auto simp: emit_one_def Let_def split: prod.splits if_splits)
  let ?p1 = "p\<lparr>seq := Suc (seq p)\<rparr>"
  obtain p2 queued where b: "bound_queued ty pl eph ?p1 = (p2, queued)" by fastforce
  have p2: "queue p2 = queue p" "seq p2 = Suc (seq p)" "stopped p2 = stopped p" "inFlight p2 = inFlight p"
    "batchLimit p2 = batchLimit p" "batchBytes p2 = batchBytes p" "stubs p2 = stubs p"
    "sessionId p2 = sessionId p"
    using bound_queued_fields [of ty pl eph ?p1] b by simp_all
  let ?ev = "\<lparr>ev_seq = Suc (seq p), ev_ts = clk (Suc (seq p)), ev_type = ty, ev_payload = queued,
    ev_turn_id = t, ev_ephemeral = eph\<rparr>"
  consider "stopped p" "p' = ?p1" | "\<not> stopped p" "eph" "p' = p2"
    | "\<not> stopped p" "p' = (push_event ?ev p2)\<lparr>changedFiles :=
         fst (observe_files ty pl (changedFiles p2))\<rparr>"
    using assms b p2(1)
    by (auto simp: emit_one_def Let_def split: prod.splits if_splits)
  then show "extends (if eph then {n} else {}) p p'"
  proof cases
    case 1
    then show ?thesis by (auto simp: extends_def same_delivery_def queue_ok_def)
  next
    case 2
    with p2 n show ?thesis by (auto simp: extends_def same_delivery_def queue_ok_def)
  next
    case 3
    have "extends (if eph then {n} else {}) (p2\<lparr>seq := seq p\<rparr>) (push_event ?ev p2)"
      using n p2(2) by (intro push_event_extends) simp_all
    moreover have "extends (if eph then {n} else {}) (p2\<lparr>seq := seq p\<rparr>) r =
        extends (if eph then {n} else {}) p r" for r
      using p2 by (simp add: extends_def same_delivery_def queue_ok_def)
    ultimately show ?thesis by (simp add: 3)
  qed
qed

lemma emit_boundary_extends: "extends {} p (emit_boundary clk ty b p)"
proof (cases b)
  case (Some x)
  obtain t pl where x: "x = (t, pl)" by fastforce
  obtain p' n f where e: "emit_one clk ty pl (Some t) False p = (p', n, f)" by (metis prod_cases3)
  from emit_one_extends(1) [OF e] e Some x show ?thesis by (simp add: emit_boundary_def)
qed (simp add: emit_boundary_def extends_refl)

lemma completeTurn_extends: "extends {} p (fst (completeTurn clk st p))"
  using emit_boundary_extends [of "p\<lparr>turns := fst (turn_complete st (turns p))\<rparr>"]
  by (simp add: completeTurn_def Let_def split_beta)

lemma beginTurn_extends: "extends {} p (fst (beginTurn clk fresh h p))"
proof -
  let ?c = "fst (turn_begin fresh h (turns p))"
  have "extends {} (p\<lparr>turns := ?c\<rparr>) (emit_boundary clk ty b (p\<lparr>turns := ?c\<rparr>))"
    "extends {} (p\<lparr>turns := ?c, changedFiles := []\<rparr>)
       (emit_boundary clk ty b (p\<lparr>turns := ?c, changedFiles := []\<rparr>))" for ty b
    by (rule emit_boundary_extends)+
  then show ?thesis by (simp add: beginTurn_def Let_def split_beta)
qed

lemma rotateTurn_extends: "extends {} p (fst (rotateTurn clk fresh h st p))"
proof -
  obtain c completed started where r: "turn_rotate fresh h st (turns p) = (c, completed, started)"
    by (metis prod_cases3)
  let ?p1 = "emit_boundary clk (js ''turn.completed'') completed (p\<lparr>turns := c\<rparr>)"
  have "extends {} (p\<lparr>turns := c\<rparr>) ?p1" by (rule emit_boundary_extends)
  then have 1: "extends {} p (?p1\<lparr>changedFiles := []\<rparr>)" by simp
  have "extends {} (?p1\<lparr>changedFiles := []\<rparr>)
     (emit_boundary clk (js ''turn.started'') started (?p1\<lparr>changedFiles := []\<rparr>))"
    by (rule emit_boundary_extends)
  from extends_trans [OF 1 this] r show ?thesis by (simp add: rotateTurn_def)
qed

lemma startDrainingTurn_extends: "extends {} p (fst (startDrainingTurn clk st p))"
  using emit_boundary_extends [of "p\<lparr>turns := fst (turn_startDraining st (turns p))\<rparr>"]
  by (simp add: startDrainingTurn_def Let_def split_beta)

lemma finishDrainingTurn_extends: "extends {} p (finishDrainingTurn t p)"
  using extends_refl [of p] by (simp add: finishDrainingTurn_def)

lemma emit_extends:
  assumes "emit clk ty pl opt eph p = (p', n)"
  shows "extends (if eph then {n} else {}) p p'"
proof -
  let ?over = "session_over ty \<and> activeTurnId (turns p) \<noteq> None"
  let ?st = "if ty = js ''session.error'' then js ''error'' else js ''ended''"
  let ?p1 = "if ?over then fst (completeTurn clk ?st p) else p"
  let ?t = "if ?over then None else (case opt of Explicit t \<Rightarrow> t | Implicit \<Rightarrow> implicitEventTurnId ty (turns p))"
  obtain p2 m files where e: "emit_one clk ty pl ?t eph ?p1 = (p2, m, files)" by (metis prod_cases3)
  obtain p3 k fs where f: "emit_one clk (js ''turn.files_changed'') (files_payload files) ?t False p2 = (p3, k, fs)"
    by (metis prod_cases3)
  have n: "n = m" and p': "p' = p2 \<or> p' = p3"
    using assms e f by (auto simp: emit_def Let_def split: if_splits)
  have 1: "extends {} p ?p1" using completeTurn_extends extends_refl by simp
  from extends_trans [OF 1 emit_one_extends(1) [OF e]]
  have 2: "extends (if eph then {n} else {}) p p2" unfolding n Un_empty_left .
  from extends_trans [OF this emit_one_extends(1) [OF f]]
  have "extends (if eph then {n} else {}) p p3" by (simp only: if_False Un_empty_right)
  with 2 p' show ?thesis by blast
qed

section \<open>What a batch holds\<close>

lemma stubFor_fields [simp]:
  "queue (fst (stubFor ev ob p)) = queue p" "seq (fst (stubFor ev ob p)) = seq p"
  "stopped (fst (stubFor ev ob p)) = stopped p" "inFlight (fst (stubFor ev ob p)) = inFlight p"
  "batchLimit (fst (stubFor ev ob p)) = batchLimit p" "batchBytes (fst (stubFor ev ob p)) = batchBytes p"
  "sessionId (fst (stubFor ev ob p)) = sessionId p" "turns (fst (stubFor ev ob p)) = turns p"
  "retryMs (fst (stubFor ev ob p)) = retryMs p"
  "ev_seq (snd (stubFor ev ob p)) = ev_seq ev" "ev_type (snd (stubFor ev ob p)) = ev_type ev"
  "\<not> ev_ephemeral (snd (stubFor ev ob p))"
  "set (stubs (fst (stubFor ev ob p))) = insert (ev_seq ev) (set (stubs p))"
  by (simp_all add: stubFor_def rejectedEventStub_def noteTruncated_def split: json.split)

definition loop_frame :: "pusher \<Rightarrow> pusher \<Rightarrow> bool" where
  "loop_frame p p' \<longleftrightarrow> queue p' = queue p \<and> seq p' = seq p \<and> stopped p' = stopped p \<and>
     inFlight p' = inFlight p \<and> batchLimit p' = batchLimit p \<and> batchBytes p' = batchBytes p \<and>
     sessionId p' = sessionId p \<and> retryMs p' = retryMs p \<and> set (stubs p) \<subseteq> set (stubs p')"

definition durable_seqs :: "event list \<Rightarrow> nat set" where
  "durable_seqs q = ev_seq ` {e \<in> set q. \<not> ev_ephemeral e}"

lemma durable_seqs_simps [simp]:
  "durable_seqs [] = {}"
  "durable_seqs (e # q) = (if ev_ephemeral e then {} else {ev_seq e}) \<union> durable_seqs q"
  "durable_seqs (q @ r) = durable_seqs q \<union> durable_seqs r"
  by (auto simp: durable_seqs_def)

text \<open>
  One case distinction of the loop serves every fact about it: it stops, skips a partial that
  has no JSON, or takes the event or its stub.
\<close>

lemma batch_loop_cases:
  assumes "batch_loop n bytes (ev # q) p = (p', q', nb)"
  obtains (full) "n \<ge> batchLimit p" "p' = p" "q' = ev # q"
      "nb = \<lparr>nb_batch = [], nb_parts = [], nb_sizes = [], nb_bytes = bytes\<rparr>"
  | (skip) "ev_ephemeral ev" "\<not> serializable (event_json ev)" "batch_loop n bytes q p = (p', q', nb)"
  | (over) p1 ev1 where "loop_frame p p1" "ev_seq ev1 = ev_seq ev" "ev_ephemeral ev1 = ev_ephemeral ev" "n > 0"
      "p' = p1" "q' = ev1 # q" "nb = \<lparr>nb_batch = [], nb_parts = [], nb_sizes = [], nb_bytes = bytes\<rparr>"
  | (took) p1 ev1 q2 nb2 size where "n < batchLimit p" "loop_frame p p1" "ev_seq ev1 = ev_seq ev"
      "ev_ephemeral ev1 = ev_ephemeral ev"
      "size = byte_length (json_text (event_json ev1)) + (if n > 0 then 1 else 0)"
      "n = 0 \<or> bytes + size \<le> batchBytes p"
      "batch_loop (Suc n) (bytes + size) q p1 = (p', q2, nb2)" "q' = ev1 # q2"
      "nb = nb2\<lparr>nb_batch := ev1 # nb_batch nb2, nb_parts := json_text (event_json ev1) # nb_parts nb2,
              nb_sizes := size # nb_sizes nb2\<rparr>"
proof -
  obtain p1 ev1 where r: "(if serializable (event_json ev) then (p, ev) else stubFor ev None p) = (p1, ev1)"
    by fastforce
  obtain size where size: "size = byte_length (json_text (event_json ev1)) + (if n > 0 then 1 else 0)"
    by blast
  obtain p2 q2 nb2 where rec: "batch_loop (Suc n) (bytes + size) q p1 = (p2, q2, nb2)"
    by (metis prod_cases3)
  note unf = assms [unfolded batch_loop.simps r Let_def split_conv, folded size, unfolded rec split_conv]
  have p1: "p1 = (if serializable (event_json ev) then p else fst (stubFor ev None p))"
    "ev1 = (if serializable (event_json ev) then ev else snd (stubFor ev None p))"
    by (simp_all split: if_split flip: r [THEN arg_cong, of fst, unfolded fst_conv]
       r [THEN arg_cong, of snd, unfolded snd_conv])
  have fr: "loop_frame p p1" "ev_seq ev1 = ev_seq ev" "batchBytes p1 = batchBytes p"
    "serializable (event_json ev) \<or> \<not> ev_ephemeral ev \<Longrightarrow> ev_ephemeral ev1 = ev_ephemeral ev"
    by (auto simp: p1 loop_frame_def)
  show ?thesis
  proof (cases "n \<ge> batchLimit p")
    case True
    with unf have "p' = p" "q' = ev # q"
      "nb = \<lparr>nb_batch = [], nb_parts = [], nb_sizes = [], nb_bytes = bytes\<rparr>"
      by (simp_all only: if_True prod.inject)
    with full [OF True] show ?thesis by blast
  next
    case lim: False
    show ?thesis
    proof (cases "\<not> serializable (event_json ev) \<and> ev_ephemeral ev")
      case True
      with unf lim have "batch_loop n bytes q p = (p', q', nb)"
        by (simp only: if_True if_False simp_thms)
      with skip True show ?thesis by blast
    next
      case ser: False
      show ?thesis
      proof (cases "n > 0 \<and> bytes + size > batchBytes p1")
        case True
        with unf lim ser have "p' = p1" "q' = ev1 # q"
          "nb = \<lparr>nb_batch = [], nb_parts = [], nb_sizes = [], nb_bytes = bytes\<rparr>"
          by (simp_all only: if_True if_False prod.inject simp_thms)
        with over [OF fr(1,2,4)] ser True show ?thesis by blast
      next
        case False
        with unf lim ser have "p' = p2" "q' = ev1 # q2"
          "nb = nb2\<lparr>nb_batch := ev1 # nb_batch nb2, nb_parts := json_text (event_json ev1) # nb_parts nb2,
                            nb_sizes := size # nb_sizes nb2\<rparr>"
          by (simp_all only: if_False prod.inject simp_thms)
        moreover have "n < batchLimit p" "n = 0 \<or> bytes + size \<le> batchBytes p"
          using lim False fr(3) by linarith+
        ultimately show ?thesis using took [OF _ fr(1,2,4) size] rec ser by blast
      qed
    qed
  qed
qed

text \<open>
  The queue keeps its order and its durable events; the batch is a prefix of it, within the
  count limit, and its size is the size announced.
\<close>

lemma batch_loop_frame: "batch_loop n bytes q p = (p', q', nb) \<Longrightarrow> loop_frame p p'"
proof (induction q arbitrary: n bytes p p' q' nb)
  case (Cons ev q)
  from Cons.prems show ?case
  proof (cases rule: batch_loop_cases)
    case (took p1 ev1 q2 nb2 size)
    with Cons.IH [OF took(7)] show ?thesis by (auto simp: loop_frame_def)
  next
    case skip
    then show ?thesis by (blast dest: Cons.IH)
  qed (auto simp: loop_frame_def)
qed (simp add: loop_frame_def)

lemma batch_loop_prefix:
  "batch_loop n bytes q p = (p', q', nb) \<Longrightarrow> \<exists>rest. q' = nb_batch nb @ rest \<and> length (nb_batch nb) \<le> batchLimit p - n \<and>
     length (nb_parts nb) = length (nb_batch nb) \<and> length (nb_sizes nb) = length (nb_batch nb)"
proof (induction q arbitrary: n bytes p p' q' nb)
  case (Cons ev q)
  from Cons.prems show ?case
  proof (cases rule: batch_loop_cases)
    case (took p1 ev1 q2 nb2 size)
    from Cons.IH [OF took(7)] obtain rest where rest: "q2 = nb_batch nb2 @ rest"
      "length (nb_batch nb2) \<le> batchLimit p1 - Suc n" "length (nb_parts nb2) = length (nb_batch nb2)"
      "length (nb_sizes nb2) = length (nb_batch nb2)" by blast
    moreover have "batchLimit p1 = batchLimit p" using took(2) by (simp add: loop_frame_def)
    ultimately show ?thesis using took(1,8,9) by simp
  qed (use Cons.IH in simp_all)
qed simp

lemma batch_loop_seqs:
  "batch_loop n bytes q p = (p', q', nb) \<Longrightarrow>
     subseq (map ev_seq q') (map ev_seq q) \<and> durable_seqs q' = durable_seqs q"
proof (induction q arbitrary: n bytes p p' q' nb)
  case (Cons ev q)
  from Cons.prems show ?case
  proof (cases rule: batch_loop_cases)
    case skip
    with Cons.IH [OF skip(3)] show ?thesis by auto
  next
    case (took p1 ev1 q2 nb2 size)
    with Cons.IH [OF took(7)] show ?thesis by simp
  qed simp_all
qed simp

lemma batch_loop_bytes:
  "batch_loop n bytes q p = (p', q', nb) \<Longrightarrow> nb_bytes nb = bytes + sum_list (nb_sizes nb) \<and>
     nb_parts nb = map (\<lambda>e. json_text (event_json e)) (nb_batch nb) \<and>
     sum_list (nb_sizes nb) + (if n = 0 \<and> nb_batch nb \<noteq> [] then 1 else 0) =
       sum_list (map (\<lambda>j. Suc (byte_length j)) (nb_parts nb))"
proof (induction q arbitrary: n bytes p p' q' nb)
  case (Cons ev q)
  from Cons.prems show ?case
  proof (cases rule: batch_loop_cases)
    case (took p1 ev1 q2 nb2 size)
    with Cons.IH [OF took(7)] show ?thesis by auto
  qed (use Cons.IH in simp_all)
qed simp

lemma batch_loop_budget:
  "batch_loop n bytes q p = (p', q', nb) \<Longrightarrow>
     n > 0 \<and> bytes \<le> batchBytes p \<Longrightarrow> nb_bytes nb \<le> batchBytes p"
proof (induction q arbitrary: n bytes p p' q' nb)
  case (Cons ev q)
  from Cons.prems(1) show ?case
  proof (cases rule: batch_loop_cases)
    case skip
    with Cons show ?thesis by blast
  next
    case (took p1 ev1 q2 nb2 size)
    then have "batchBytes p1 = batchBytes p" by (simp add: loop_frame_def)
    with Cons.IH [OF took(7)] Cons.prems(2) took(6,9) show ?thesis by simp
  qed (use Cons.prems in simp_all)
qed simp

lemma batch_loop_budget_later:
  "batch_loop n bytes q p = (p', q', nb) \<Longrightarrow> n > 0 \<Longrightarrow> nb_batch nb \<noteq> [] \<Longrightarrow> nb_bytes nb \<le> batchBytes p"
proof (induction q)
  case (Cons ev q)
  from Cons.prems(1) show ?case
  proof (cases rule: batch_loop_cases)
    case (took p1 ev1 q2 nb2 size)
    then have *: "batchBytes p1 = batchBytes p" by (simp add: loop_frame_def)
    with took(6) Cons.prems(2) have "bytes + size \<le> batchBytes p1" by simp
    with batch_loop_budget [OF took(7)] took(9) * show ?thesis by simp
  qed (use Cons in simp_all)
qed auto

lemma batch_loop_budget_first:
  "batch_loop 0 bytes q p = (p', q', nb) \<Longrightarrow> length (nb_batch nb) > 1 \<Longrightarrow> nb_bytes nb \<le> batchBytes p"
proof (induction q)
  case (Cons ev q)
  from Cons.prems(1) show ?case
  proof (cases rule: batch_loop_cases)
    case (took p1 ev1 q2 nb2 size)
    then have "batchBytes p1 = batchBytes p" by (simp add: loop_frame_def)
    with batch_loop_budget_later [OF took(7)] took(9) Cons.prems(2) show ?thesis by auto
  qed (use Cons in simp_all)
qed auto

text \<open>A text that starts and ends outside a surrogate pair.\<close>

definition closed_text :: "jstring \<Rightarrow> bool" where
  "closed_text s \<longleftrightarrow> s \<noteq> [] \<and> \<not> high_surrogate (last s) \<and> \<not> low_surrogate (hd s)"

lemma comma_not_surrogate [simp]:
  "\<not> high_surrogate 0x2C" "\<not> low_surrogate 0x2C" "\<not> high_surrogate 0x5B" "\<not> low_surrogate 0x5D"
  "\<not> high_surrogate 0x7D" "\<not> low_surrogate 0x7B"
  using not_surrogate [of "0x2C"] not_surrogate [of "0x5B"] not_surrogate [of "0x5D"]
    not_surrogate [of "0x7D"] not_surrogate [of "0x7B"] by simp_all

lemma closed_event_text: "closed_text (json_text (event_json e))"
  by (simp add: closed_text_def event_json_def)

lemma hd_join: "closed_text w \<Longrightarrow> hd (join sep (w # ws)) = hd w"
  by (cases ws) (auto simp: closed_text_def)

lemma byte_length_join:
  "\<forall>w \<in> set ws. closed_text w \<Longrightarrow>
     byte_length (join [0x2C] ws) + (if ws = [] then 0 else 1) = sum_list (map (\<lambda>w. Suc (byte_length w)) ws)
     \<and> (ws = [] \<or> closed_text (join [0x2C] ws))"
proof (induction ws rule: induct_list012)
  case (3 w v ws)
  let ?r = "join [0x2C] (v # ws)"
  have w: "closed_text w" and r: "closed_text ?r" using 3 by auto
  have "byte_length (w @ [0x2C] @ ?r) = byte_length w + byte_length ([0x2C] @ ?r)"
    by (rule byte_length_append) simp
  moreover have "byte_length ([0x2C] @ ?r) = byte_length [0x2C] + byte_length ?r"
    by (rule byte_length_append) simp
  moreover have "byte_length [0x2C] = 1" by (simp add: byte_length_ascii)
  ultimately show ?case using 3 w r by (simp add: closed_text_def)
qed simp_all

lemma nextBatch_exact:
  assumes "nextBatch p = (p', nb)"
  shows "byte_length (batch_body p nb) = nb_bytes nb \<and> (\<exists>rest. queue p' = nb_batch nb @ rest) \<and>
    length (nb_batch nb) \<le> batchLimit p \<and> (length (nb_batch nb) \<le> 1 \<or> nb_bytes nb \<le> batchBytes p) \<and>
    subseq (map ev_seq (queue p')) (map ev_seq (queue p)) \<and>
    durable_seqs (queue p') = durable_seqs (queue p)"
proof -
  let ?b = "byte_length (batch_head p) + 2"
  obtain p1 q' where loop: "batch_loop 0 ?b (queue p) p = (p1, q', nb)" and p': "queue p' = q'"
    using assms by (auto simp: nextBatch_def Let_def split: prod.splits)
  let ?j = "join [0x2C] (nb_parts nb)"
  have parts: "\<forall>w \<in> set (nb_parts nb). closed_text w"
    using batch_loop_bytes [OF loop] closed_event_text by auto
  have "byte_length (batch_body p nb) = byte_length (batch_head p) + byte_length (?j @ [0x5D, 0x7D])"
    unfolding batch_body_def by (rule byte_length_append) (simp add: batch_head_def)
  also have "byte_length (?j @ [0x5D, 0x7D]) = byte_length ?j + byte_length [0x5D, 0x7D]"
    by (rule byte_length_append) simp
  also have "byte_length [0x5D, 0x7D] = 2" by (simp add: byte_length_ascii)
  finally have "byte_length (batch_body p nb) = ?b + byte_length ?j" by simp
  moreover have "sum_list (nb_sizes nb) = byte_length ?j"
    using batch_loop_bytes [OF loop] byte_length_join [OF parts] by (auto split: if_splits)
  moreover have "nb_bytes nb = ?b + sum_list (nb_sizes nb)" using batch_loop_bytes [OF loop] by blast
  ultimately have "byte_length (batch_body p nb) = nb_bytes nb" by simp
  moreover have "length (nb_batch nb) \<le> 1 \<or> nb_bytes nb \<le> batchBytes p"
    using batch_loop_budget_first [OF loop] by linarith
  ultimately show ?thesis
    using batch_loop_prefix [OF loop] batch_loop_seqs [OF loop] unfolding p' by auto
qed

text \<open>
  A batch's announced size is the exact byte length of the body posted; the batch is a
  prefix of the queue within the count limit, and within the byte budget unless it is a single
  event; building it keeps every durable event under its seq and the order of the queue.
\<close>

theorem batch_exact_and_bounded:
  "case nextBatch p of (p', nb) \<Rightarrow>
     byte_length (batch_body p nb) = nb_bytes nb \<and> prefix (nb_batch nb) (queue p') \<and>
     length (nb_batch nb) \<le> batchLimit p \<and> (length (nb_batch nb) \<le> 1 \<or> nb_bytes nb \<le> batchBytes p) \<and>
     subseq (map ev_seq (queue p')) (map ev_seq (queue p)) \<and>
     durable_seqs (queue p') = durable_seqs (queue p)"
  using nextBatch_exact [of p] by (auto simp: prefix_def split: prod.split)

section \<open>Delivery over every interleaving\<close>

text \<open>
  The pusher with the request it has in flight, the events the control plane has accepted, and
  the seqs stamped on partials. A step is one call of the daemon, the timer (or a drain)
  starting a flush, the answer to the request in flight, or a stop; an answer may come after
  any number of other steps.
\<close>

record net =
  np :: pusher
  wire :: "next_batch option"
  accepted :: "event list"
  partials :: "nat set"

definition net_init :: "jstring \<Rightarrow> net" where
  "net_init sid = \<lparr>np = new_pusher sid, wire = None, accepted = [], partials = {}\<rparr>"

definition accepts :: "reply \<Rightarrow> bool" where
  "accepts r = (case r of Answer st text \<Rightarrow> 200 \<le> st \<and> st < 300 | Failed st n \<Rightarrow> False)"

inductive net_step :: "net \<Rightarrow> net \<Rightarrow> bool" where
  Emit: "emit clk ty pl opt eph (np s) = (p', n) \<Longrightarrow>
    net_step s (s\<lparr>np := p', partials := partials s \<union> (if eph then {n} else {})\<rparr>)"
| Begin: "net_step s (s\<lparr>np := fst (beginTurn clk fresh h (np s))\<rparr>)"
| Complete: "net_step s (s\<lparr>np := fst (completeTurn clk st (np s))\<rparr>)"
| Rotate: "net_step s (s\<lparr>np := fst (rotateTurn clk fresh h st (np s))\<rparr>)"
| StartDrain: "net_step s (s\<lparr>np := fst (startDrainingTurn clk st (np s))\<rparr>)"
| FinishDrain: "net_step s (s\<lparr>np := finishDrainingTurn t (np s)\<rparr>)"
| FireIdle: "fire (np s) = (p', None) \<Longrightarrow> net_step s (s\<lparr>np := p'\<rparr>)"
| FireSend: "fire (np s) = (p', Some nb) \<Longrightarrow> net_step s (s\<lparr>np := p', wire := Some nb\<rparr>)"
| Reply: "wire s = Some nb \<Longrightarrow> flush_finish nb r (np s) = (p', effects) \<Longrightarrow>
    net_step s (s\<lparr>np := p', wire := None,
                  accepted := accepted s @ (if accepts r then nb_batch nb else [])\<rparr>)"
| Stop: "net_step s (s\<lparr>np := stop (np s)\<rparr>)"

definition net_reachable :: "jstring \<Rightarrow> net \<Rightarrow> bool" where
  "net_reachable sid s \<longleftrightarrow> net_step\<^sup>*\<^sup>* (net_init sid) s"

definition wire_ok :: "event list \<Rightarrow> event list \<Rightarrow> pusher \<Rightarrow> bool" where
  "wire_ok acc batch p \<longleftrightarrow> sorted_wrt (<) (map ev_seq batch) \<and>
     (\<forall>a \<in> set acc. \<forall>b \<in> set batch. ev_seq a < ev_seq b) \<and> (\<forall>b \<in> set batch. ev_seq b \<le> seq p) \<and>
     (\<forall>e \<in> set (queue p). batch \<noteq> [] \<and> ev_seq e \<le> ev_seq (last batch) \<longrightarrow>
        (\<exists>b \<in> set batch. ev_seq b = ev_seq e \<and> ev_ephemeral b = ev_ephemeral e))"

definition net_inv :: "net \<Rightarrow> bool" where
  "net_inv s \<longleftrightarrow> queue_ok (np s) \<and> (inFlight (np s) \<longleftrightarrow> wire s \<noteq> None) \<and>
     sorted_wrt (<) (map ev_seq (accepted s)) \<and>
     (\<forall>a \<in> set (accepted s). ev_seq a \<le> seq (np s) \<and> (\<forall>e \<in> set (queue (np s)). ev_seq a < ev_seq e)) \<and>
     (\<not> stopped (np s) \<longrightarrow> (\<forall>n. 0 < n \<and> n \<le> seq (np s) \<and> n \<notin> partials s \<longrightarrow>
        n \<in> ev_seq ` set (accepted s) \<union> durable_seqs (queue (np s)))) \<and>
     (\<forall>nb. wire s = Some nb \<longrightarrow> wire_ok (accepted s) (nb_batch nb) (np s))"

lemma net_inv_init: "net_inv (net_init sid)"
  by (auto simp: net_inv_def net_init_def new_pusher_def queue_ok_def)

text \<open>Calls that only emit.\<close>

lemma net_inv_extends:
  assumes inv: "net_inv s" and ext: "extends E (np s) p'"
  shows "net_inv (s\<lparr>np := p', partials := partials s \<union> E\<rparr>)"
proof -
  obtain p w acc pa where s: "s = \<lparr>np = p, wire = w, accepted = acc, partials = pa\<rparr>" by (cases s)
  have inv': "net_inv \<lparr>np = p, wire = w, accepted = acc, partials = pa\<rparr>" and ext': "extends E p p'"
    using inv ext by (simp_all add: s)
  have new: "e \<in> set (queue p) \<or> seq p < ev_seq e" if "e \<in> set (queue p')" for e
    using ext' that unfolding extends_def by blast
  have stamped: "\<exists>e \<in> set (queue p'). ev_seq e = n \<and> \<not> ev_ephemeral e"
    if "\<not> stopped p" "seq p < n" "n \<le> seq p'" "n \<notin> E" for n
    using ext' that unfolding extends_def by blast
  have accp: "ev_seq a \<le> seq p" "e \<in> set (queue p) \<Longrightarrow> ev_seq a < ev_seq e" if "a \<in> set acc" for a e
    using inv' that by (simp_all add: net_inv_def)
  have "net_inv \<lparr>np = p', wire = w, accepted = acc, partials = pa \<union> E\<rparr>"
    unfolding net_inv_def net.simps
  proof (intro conjI allI impI ballI)
    have q: "\<forall>e \<in> set (queue p'). e \<in> set (queue p) \<or> seq p < ev_seq e" "seq p \<le> seq p'"
      "stopped p' = stopped p" "inFlight p' = inFlight p"
      using ext' unfolding extends_def same_delivery_def by blast+
    show "queue_ok p'" using inv' ext' by (simp add: extends_def net_inv_def)
    show "inFlight p' \<longleftrightarrow> w \<noteq> None" using q(4) inv' by (simp add: net_inv_def)
    show "sorted_wrt (<) (map ev_seq acc)" using inv' by (simp add: net_inv_def)
    fix a assume a: "a \<in> set acc"
    with accp(1) q(2) show "ev_seq a \<le> seq p'" by (blast intro: le_trans)
    fix e assume "e \<in> set (queue p')"
    with accp [OF a] new show "ev_seq a < ev_seq e" by (blast intro: le_less_trans)
  next
    fix n assume run: "\<not> stopped p'" and n: "0 < n \<and> n \<le> seq p' \<and> n \<notin> pa \<union> E"
    have st: "\<not> stopped p" using run ext' by (simp add: extends_def same_delivery_def)
    show "n \<in> ev_seq ` set acc \<union> durable_seqs (queue p')"
    proof (cases "n \<le> seq p")
      case True
      then have "n \<in> ev_seq ` set acc \<union> durable_seqs (queue p)"
        using inv' n st by (simp add: net_inv_def)
      moreover have "durable_seqs (queue p) \<subseteq> durable_seqs (queue p')"
        using ext' by (auto simp: extends_def durable_seqs_def)
      ultimately show ?thesis by blast
    next
      case False
      with stamped [OF st, of n] n obtain e where "e \<in> set (queue p')" "ev_seq e = n" "\<not> ev_ephemeral e"
        by auto
      then show ?thesis by (auto simp: durable_seqs_def)
    qed
  next
    fix nb assume "w = Some nb"
    with inv' have ok: "wire_ok acc (nb_batch nb) p" by (simp add: net_inv_def)
    have "e \<in> set (queue p)" if "e \<in> set (queue p')" "nb_batch nb \<noteq> []" "ev_seq e \<le> ev_seq (last (nb_batch nb))" for e
    proof -
      have "ev_seq (last (nb_batch nb)) \<le> seq p" using ok that(2) by (simp add: wire_ok_def)
      with that new [OF that(1)] show ?thesis by linarith
    qed
    moreover have "seq p \<le> seq p'" using ext' by (simp add: extends_def)
    ultimately show "wire_ok acc (nb_batch nb) p'"
      using ok unfolding wire_ok_def by (meson le_trans)
  qed
  then show ?thesis by (simp add: s)
qed

lemma net_inv_extends_durable: "net_inv s \<Longrightarrow> extends {} (np s) p' \<Longrightarrow> net_inv (s\<lparr>np := p'\<rparr>)"
  using net_inv_extends [of s "{}" p'] by simp

text \<open>Starting a flush.\<close>

lemma subseq_set: "subseq xs ys \<Longrightarrow> set xs \<subseteq> set ys"
  by (auto dest: list_emb_set)

lemma subseq_sorted_wrt: "subseq xs ys \<Longrightarrow> sorted_wrt P ys \<Longrightarrow> sorted_wrt P xs"
  by (induction rule: list_emb.induct) (auto dest: subseq_set)

lemma nextBatch_frame:
  "nextBatch p = (p', nb) \<Longrightarrow> seq p' = seq p \<and> stopped p' = stopped p \<and> inFlight p' = inFlight p"
  by (auto simp: nextBatch_def Let_def loop_frame_def dest!: batch_loop_frame split: prod.splits)

lemma nextBatch_queue_ok:
  assumes "nextBatch p = (p', nb)" and "queue_ok p"
  shows "queue_ok p'"
proof -
  have sub: "subseq (map ev_seq (queue p')) (map ev_seq (queue p))"
    using nextBatch_exact [OF assms(1)] by blast
  then have "ev_seq ` set (queue p') \<subseteq> ev_seq ` set (queue p)"
    using subseq_set [OF sub] by simp
  moreover have "sorted_wrt (<) (map ev_seq (queue p'))"
    using sub assms(2) unfolding queue_ok_def by (blast intro: subseq_sorted_wrt)
  ultimately show ?thesis using assms(2) nextBatch_frame [OF assms(1)]
    unfolding queue_ok_def by (simp add: image_subset_iff) (metis imageE)
qed

lemma net_inv_cong:
  assumes "queue p' = queue (np s)" "seq p' = seq (np s)" "stopped p' = stopped (np s)"
    "inFlight p' = inFlight (np s)"
  shows "net_inv (s\<lparr>np := p'\<rparr>) = net_inv s"
  using assms by (simp add: net_inv_def queue_ok_def wire_ok_def)

lemma net_inv_fire:
  assumes inv: "net_inv s" and "fire (np s) = (p', w)"
  shows "net_inv (case w of None \<Rightarrow> s\<lparr>np := p'\<rparr> | Some nb \<Rightarrow> s\<lparr>np := p', wire := w\<rparr>)"
proof (cases w)
  case None
  with assms(2) have "p' = (np s)\<lparr>timer := None\<rparr>"
    by (auto simp: fire_def flush_start_def Let_def split: if_splits prod.splits)
  with inv None show ?thesis by (simp add: net_inv_cong)
next
  case (Some nb)
  let ?p1 = "(np s)\<lparr>timer := None, inFlight := True\<rparr>"
  from assms(2) Some have nb: "nextBatch ?p1 = (p', nb)" and idle: "\<not> inFlight (np s)"
    by (auto simp: fire_def flush_start_def Let_def split: if_splits prod.splits)
  from nextBatch_frame [OF nb] have fr: "seq p' = seq (np s)" "stopped p' = stopped (np s)" "inFlight p'"
    by simp_all
  have "queue_ok ?p1" using inv by (simp add: net_inv_def queue_ok_def)
  then have qok: "queue_ok p'" by (rule nextBatch_queue_ok [OF nb])
  from nextBatch_exact [OF nb] obtain rest where q': "queue p' = nb_batch nb @ rest"
    and sub: "subseq (map ev_seq (queue p')) (map ev_seq (queue (np s)))"
    and dur: "durable_seqs (queue p') = durable_seqs (queue (np s))" by auto
  have old: "ev_seq e \<in> ev_seq ` set (queue (np s))" if "e \<in> set (queue p')" for e
    using subseq_set [OF sub] that by auto
  have acc: "ev_seq a < ev_seq e" if a: "a \<in> set (accepted s)" and e: "e \<in> set (queue p')" for a e
  proof -
    obtain e' where e': "e' \<in> set (queue (np s))" "ev_seq e = ev_seq e'" using old [OF e] by blast
    with inv a show ?thesis by (simp add: net_inv_def)
  qed
  have last: "e \<in> set (nb_batch nb)"
    if "e \<in> set (queue p')" "nb_batch nb \<noteq> []" "ev_seq e \<le> ev_seq (last (nb_batch nb))" for e
  proof (rule ccontr)
    assume "e \<notin> set (nb_batch nb)"
    with that(1) q' have "e \<in> set rest" by auto
    moreover have "\<forall>x \<in> set (nb_batch nb). \<forall>y \<in> set rest. ev_seq x < ev_seq y"
      using qok by (simp add: queue_ok_def q' sorted_wrt_append)
    ultimately have "ev_seq (last (nb_batch nb)) < ev_seq e" using that(2) by simp
    with that(3) show False by simp
  qed
  have "wire_ok (accepted s) (nb_batch nb) p'"
    unfolding wire_ok_def
  proof (intro conjI ballI impI)
    show "sorted_wrt (<) (map ev_seq (nb_batch nb))"
      using qok by (simp add: queue_ok_def q' sorted_wrt_append)
    show "ev_seq b \<le> seq p'" if "b \<in> set (nb_batch nb)" for b
      using qok that by (simp add: queue_ok_def q')
    show "ev_seq a < ev_seq b" if "a \<in> set (accepted s)" "b \<in> set (nb_batch nb)" for a b
      using acc [OF that(1)] that(2) q' by simp
  qed (use last in blast)
  then have "net_inv (s\<lparr>np := p', wire := w\<rparr>)"
    using inv qok fr dur acc Some by (simp add: net_inv_def)
  then show ?thesis using Some by simp
qed

lemma splice_nil:
  "subseq (map ev_seq (splice_seq n [] q)) (map ev_seq q)"
  "(\<forall>e \<in> set q. ev_seq e = n \<longrightarrow> ev_ephemeral e) \<Longrightarrow> durable_seqs (splice_seq n [] q) = durable_seqs q"
  by (induction q) auto

lemma splice_one:
  "ev_seq st = n \<Longrightarrow> map ev_seq (splice_seq n [st] q) = map ev_seq q"
  "ev_seq st = n \<Longrightarrow> (\<forall>e \<in> set q. ev_seq e = n \<longrightarrow> ev_ephemeral e = ev_ephemeral st) \<Longrightarrow>
    durable_seqs (splice_seq n [st] q) = durable_seqs q"
  by (induction q) auto

text \<open>What an answer that is not an acceptance leaves of the queue.\<close>

definition keeps_queue :: "pusher \<Rightarrow> pusher \<Rightarrow> bool" where
  "keeps_queue p p' \<longleftrightarrow> seq p' = seq p \<and> stopped p' = stopped p \<and>
     subseq (map ev_seq (queue p')) (map ev_seq (queue p)) \<and>
     durable_seqs (queue p') = durable_seqs (queue p)"

lemma keeps_queue_refl: "seq p' = seq p \<Longrightarrow> stopped p' = stopped p \<Longrightarrow> queue p' = queue p \<Longrightarrow> keeps_queue p p'"
  by (simp add: keeps_queue_def)

definition gave_up :: "pusher \<Rightarrow> pusher \<Rightarrow> bool" where
  "gave_up p p' \<longleftrightarrow> stopped p' \<and> queue p' = [] \<and> seq p' = seq p \<and> \<not> inFlight p'"

lemma push_failed_outcome:
  assumes "push_failed st n p = (p', effs)"
  shows "gave_up p p' \<or> keeps_queue p p' \<and> \<not> inFlight p'"
  using assms
  by (auto simp: push_failed_def giveUp_def gave_up_def stop_def keeps_queue_def Let_def split: option.splits if_splits)

lemma refusedForSize_outcome:
  assumes "refusedForSize nb p = (True, p')" and "nb_batch nb \<noteq> []" and "wire_ok acc (nb_batch nb) p"
  shows "keeps_queue p p'"
proof (cases "length (nb_batch nb) > 1")
  case True
  with assms(1) show ?thesis by (auto simp: refusedForSize_def Let_def keeps_queue_def)
next
  case False
  with assms(2) obtain ev where b: "nb_batch nb = [ev]"
    by (cases "nb_batch nb") auto
  have eph: "\<forall>e \<in> set (queue p). ev_seq e = ev_seq ev \<longrightarrow> ev_ephemeral e = ev_ephemeral ev"
    using assms(3) by (simp add: wire_ok_def b)
  obtain p1 st where st: "stubFor ev (Some (hd (nb_sizes nb))) p = (p1, st)" by fastforce
  from st stubFor_fields [of ev "Some (hd (nb_sizes nb))" p]
  have st': "queue p1 = queue p" "seq p1 = seq p" "stopped p1 = stopped p" "ev_seq st = ev_seq ev"
    "\<not> ev_ephemeral st" by (simp_all del: stubFor_fields)
  from assms(1) b st consider "p' = p" | "ev_ephemeral ev" "p' = p\<lparr>queue := splice_seq (ev_seq ev) [] (queue p)\<rparr>"
    | "\<not> ev_ephemeral ev" "p' = p1\<lparr>queue := splice_seq (ev_seq ev) [st] (queue p1)\<rparr>"
    by (auto simp: refusedForSize_def Let_def split: if_splits)
  then show ?thesis
  proof cases
    case 1
    then show ?thesis by (simp add: keeps_queue_def)
  next
    case 2
    with eph splice_nil show ?thesis by (simp add: keeps_queue_def)
  next
    case 3
    with eph st' splice_one [OF st'(4)] show ?thesis by (simp add: keeps_queue_def)
  qed
qed

lemma flush_finish_outcome:
  assumes "flush_finish nb r p = (p', effs)" and "wire_ok acc (nb_batch nb) p"
  obtains "gave_up p p'"
  | "keeps_queue p p'" "\<not> inFlight p'" "\<not> accepts r \<or> nb_batch nb = []"
  | "accepts r" "nb_batch nb \<noteq> []" "\<not> inFlight p'" "seq p' = seq p" "stopped p' = stopped p"
    "queue p' = dropWhile (\<lambda>e. ev_seq e \<le> ev_seq (last (nb_batch nb))) (queue p)"
proof (cases r)
  case (Failed st n)
  with assms(1) have "push_failed st n p = (p', effs)" by (simp add: flush_finish_def)
  moreover from Failed have "\<not> accepts r" by (simp add: accepts_def)
  ultimately show ?thesis using push_failed_outcome that(1,2) by blast
next
  case (Answer st body)
  show ?thesis
  proof (cases "accepts r")
    case False
    then have "\<not> (200 \<le> st \<and> st < 300)" using Answer by (simp add: accepts_def)
    with assms(1) Answer consider "giveUp (js ''callback rejected events'') p = (p', effs)"
      | "push_failed None 0 p = (p', effs)"
      | p1 where "refusedForSize nb p = (True, p1)" "nb_batch nb \<noteq> []" "p' = schedule 0 (p1\<lparr>inFlight := False\<rparr>)"
      by (cases "refusedForSize nb p") (auto simp: flush_finish_def split: if_splits)
    then show ?thesis
    proof cases
      case 1
      then have "gave_up p p'" by (auto simp: giveUp_def gave_up_def stop_def)
      then show ?thesis by (rule that(1))
    next
      case 2
      with push_failed_outcome False that(1,2) show ?thesis by blast
    next
      case 3
      with refusedForSize_outcome [OF 3(1,2) assms(2)] have "keeps_queue p p'"
        by (simp add: keeps_queue_def)
      with 3 False that(2) show ?thesis by simp
    qed
  next
    case True
    with Answer have "200 \<le> st \<and> st < 300" by (simp add: accepts_def)
    moreover then have "st \<notin> set PERMANENT_STATUSES" "st \<noteq> 400" "st \<noteq> 413"
      by (auto simp: PERMANENT_STATUSES_def)
    ultimately have acc: "push_accepted nb p = (p', effs)"
      using assms(1) Answer by (simp add: flush_finish_def)
    show ?thesis
    proof (cases "\<exists>e \<in> set (nb_batch nb). session_over (ev_type e)")
      case over: True
      with acc have "gave_up p p'" by (auto simp: push_accepted_def gave_up_def stop_def)
      then show ?thesis by (rule that(1))
    next
      case False
      show ?thesis
      proof (cases "nb_batch nb = []")
        case True
        with False acc have "push_failed None 0 p = (p', effs)" by (simp add: push_accepted_def)
        with push_failed_outcome True that(1,2) show ?thesis by blast
      next
        case some: False
        with False acc have p': "queue p' = dropWhile (\<lambda>e. ev_seq e \<le> ev_seq (last (nb_batch nb))) (queue p)"
            "\<not> inFlight p'" "seq p' = seq p" "stopped p' = stopped p"
          by (auto simp: push_accepted_def Let_def split: if_splits)
        with True some show ?thesis by (intro that(3))
      qed
    qed
  qed
qed

lemma dropWhile_sorted_set:
  "sorted_wrt (<) (map ev_seq q) \<Longrightarrow> set (dropWhile (\<lambda>e. ev_seq e \<le> n) q) = {e \<in> set q. n < ev_seq e}"
  by (induction q) force+

lemma net_inv_reply:
  assumes inv: "net_inv s" and w: "wire s = Some nb" and "flush_finish nb r (np s) = (p', effs)"
  shows "net_inv (s\<lparr>np := p', wire := None, accepted := accepted s @ (if accepts r then nb_batch nb else [])\<rparr>)"
proof -
  let ?p = "np s" and ?acc = "accepted s"
  have ok: "wire_ok ?acc (nb_batch nb) ?p" using inv w by (simp add: net_inv_def)
  have acc: "ev_seq a \<le> seq ?p" "e \<in> set (queue ?p) \<Longrightarrow> ev_seq a < ev_seq e" if "a \<in> set ?acc" for a e
    using inv that by (simp_all add: net_inv_def)
  have acc': "sorted_wrt (<) (map ev_seq (?acc @ nb_batch nb))" "\<forall>b \<in> set (nb_batch nb). ev_seq b \<le> seq ?p"
    using inv ok by (auto simp: net_inv_def wire_ok_def sorted_wrt_append)
  from assms(3) ok show ?thesis
  proof (cases rule: flush_finish_outcome)
    case 1
    have "sorted_wrt (<) (map ev_seq ?acc)" using inv by (simp add: net_inv_def)
    with 1 acc(1) acc' show ?thesis by (auto simp: net_inv_def gave_up_def queue_ok_def)
  next
    case 2
    have sub: "subseq (map ev_seq (queue p')) (map ev_seq (queue ?p))" and fr: "seq p' = seq ?p"
      "stopped p' = stopped ?p" "durable_seqs (queue p') = durable_seqs (queue ?p)"
      using 2(1) by (simp_all add: keeps_queue_def)
    have old: "\<exists>e' \<in> set (queue ?p). ev_seq e' = ev_seq e" if "e \<in> set (queue p')" for e
      using subseq_set [OF sub] that by (auto simp: image_subset_iff) (metis imageE)
    have "queue_ok p'"
      unfolding queue_ok_def
    proof (intro conjI ballI)
      show "sorted_wrt (<) (map ev_seq (queue p'))"
        using sub inv by (auto simp: net_inv_def queue_ok_def intro: subseq_sorted_wrt)
      show "ev_seq e \<le> seq p'" if "e \<in> set (queue p')" for e
        using old [OF that] inv fr by (auto simp: net_inv_def queue_ok_def)
    qed
    moreover have "ev_seq a < ev_seq e" if "a \<in> set ?acc" "e \<in> set (queue p')" for a e
      using old [OF that(2)] acc(2) [OF that(1)] by metis
    moreover have "?acc @ (if accepts r then nb_batch nb else []) = ?acc" using 2(3) by auto
    ultimately show ?thesis using inv 2(2) fr acc(1) by (simp add: net_inv_def)
  next
    case 3
    let ?n = "ev_seq (last (nb_batch nb))"
    have sorted: "sorted_wrt (<) (map ev_seq (queue ?p))" using inv by (simp add: net_inv_def queue_ok_def)
    have set': "set (queue p') = {e \<in> set (queue ?p). ?n < ev_seq e}"
      unfolding 3(6) by (rule dropWhile_sorted_set [OF sorted])
    have batch_le: "ev_seq b \<le> ?n" if "b \<in> set (nb_batch nb)" for b
    proof -
      have "nb_batch nb = butlast (nb_batch nb) @ [last (nb_batch nb)]" using 3(2) by simp
      moreover have "sorted_wrt (<) (map ev_seq (nb_batch nb))" using ok by (simp add: wire_ok_def)
      ultimately have "sorted_wrt (<) (map ev_seq (butlast (nb_batch nb) @ [last (nb_batch nb)]))" by simp
      then have "\<forall>x \<in> set (butlast (nb_batch nb)). ev_seq x < ?n" by (simp add: sorted_wrt_append)
      moreover have "b \<in> set (butlast (nb_batch nb) @ [last (nb_batch nb)])" using that 3(2) by simp
      ultimately show ?thesis by fastforce
    qed
    have "queue_ok p'"
      unfolding queue_ok_def
    proof (intro conjI ballI)
      show "sorted_wrt (<) (map ev_seq (queue p'))"
        unfolding 3(6) using sorted by (metis sorted_wrt_append map_append takeWhile_dropWhile_id)
      show "ev_seq e \<le> seq p'" if "e \<in> set (queue p')" for e
        using that set' inv 3(4) by (simp add: net_inv_def queue_ok_def)
    qed
    moreover have "ev_seq a < ev_seq e" if "a \<in> set ?acc \<union> set (nb_batch nb)" "e \<in> set (queue p')" for a e
      using that set' acc(2) batch_le by fastforce
    moreover have "n \<in> ev_seq ` (set ?acc \<union> set (nb_batch nb)) \<union> durable_seqs (queue p')"
      if "n \<in> ev_seq ` set ?acc \<union> durable_seqs (queue ?p)" for n
    proof (cases "n \<in> ev_seq ` set ?acc")
      case False
      with that obtain e where e: "e \<in> set (queue ?p)" "\<not> ev_ephemeral e" "ev_seq e = n"
        by (auto simp: durable_seqs_def)
      show ?thesis
      proof (cases "ev_seq e \<le> ?n")
        case True
        with ok e 3(2) obtain b where "b \<in> set (nb_batch nb)" "ev_seq b = n"
          unfolding wire_ok_def by blast
        then show ?thesis by blast
      next
        case False
        with e set' show ?thesis by (auto simp: durable_seqs_def)
      qed
    qed blast
    moreover have "sorted_wrt (<) (map ev_seq ?acc @ map ev_seq (nb_batch nb))" using acc'(1) by simp
    moreover have "\<not> stopped ?p \<Longrightarrow> 0 < n \<and> n \<le> seq ?p \<and> n \<notin> partials s \<Longrightarrow>
        n \<in> ev_seq ` set ?acc \<union> durable_seqs (queue ?p)" for n
      using inv by (simp add: net_inv_def)
    ultimately show ?thesis using acc(1) acc'(2) 3(1,3-5)
      by (auto simp: net_inv_def image_Un simp del: Un_iff)
  qed
qed

lemma net_inv_step: "net_step s s' \<Longrightarrow> net_inv s \<Longrightarrow> net_inv s'"
proof (induction rule: net_step.induct)
  case (Emit clk ty pl opt eph s p' n)
  then show ?case by (intro net_inv_extends emit_extends)
next
  case (FireIdle s p')
  with net_inv_fire [of s p' None] show ?case by simp
next
  case (FireSend s p' nb)
  with net_inv_fire [of s p' "Some nb"] show ?case by simp
next
  case (Stop s)
  then show ?case by (simp add: net_inv_def stop_def queue_ok_def wire_ok_def)
qed (blast intro: net_inv_extends_durable net_inv_reply beginTurn_extends completeTurn_extends
  rotateTurn_extends startDrainingTurn_extends finishDrainingTurn_extends)+

lemma net_inv_reachable: "net_reachable sid s \<Longrightarrow> net_inv s"
  unfolding net_reachable_def by (induction rule: rtranclp_induct) (auto intro: net_inv_init net_inv_step)


text \<open>
  C1: No durable event is lost: until the pusher stops, every seq stamped on a durable event
  has been accepted by the control plane or is still queued as a durable event, whatever the
  answers so far.
\<close>

theorem durable_never_lost:
  assumes "net_reachable sid s" and "\<not> stopped (np s)" and "n \<in> {1..seq (np s)} - partials s"
  shows "n \<in> ev_seq ` set (accepted s) \<union> durable_seqs (queue (np s))"
  using net_inv_reachable [OF assms(1)] assms(2,3) by (simp add: net_inv_def)

text \<open>A run: a durable event is emitted, sent, and accepted while a partial is emitted.\<close>

definition sample_event :: event where
  "sample_event = \<lparr>ev_seq = 1, ev_ts = [], ev_type = js ''x'', ev_payload = JNull, ev_turn_id = None,
     ev_ephemeral = False\<rparr>"

lemma sample_bound: "bd_shrunk (boundEventPayload JNull MAX_EVENT_PAYLOAD_BYTES) = False"
  by (simp add: boundEventPayload_def jsonBytes_def stringify_def js_def byte_length_ascii
      MAX_EVENT_PAYLOAD_BYTES_def)

definition sample_sent :: pusher where
  "sample_sent = (new_pusher [])\<lparr>seq := 1, queue := [sample_event], timer := Some FLUSH_MS\<rparr>"

lemma sample_emit:
  "emit (\<lambda>_. []) (js ''x'') JNull Implicit False (new_pusher []) = (sample_sent, 1)"
  by (simp add: emit_def session_over_def emit_one_def new_pusher_def bound_queued_def device_strip_def
      push_event_def observe_files_def MAX_QUEUE_def schedule_def sample_bound sample_sent_def
      Let_def sample_event_def turn_ctx_init_def implicitEventTurnId_def js_eq_iff starts_with_js)

lemma sample_serializable: "serializable (event_json sample_event)"
  by (simp add: event_json_def sample_event_def)

lemma batch_loop_single:
  assumes "serializable (event_json e)" and "0 < batchLimit p"
  shows "\<exists>nb. batch_loop 0 b [e] p = (p, [e], nb) \<and> nb_batch nb = [e]"
  using assms by (simp only: batch_loop.simps Let_def split_conv if_True if_False simp_thms not_le
     less_irrefl if_not_P) simp

lemma sample_fire:
  "\<exists>nb. fire sample_sent = (sample_sent\<lparr>timer := None, inFlight := True\<rparr>, Some nb) \<and>
     nb_batch nb = [sample_event]"
proof -
  let ?p = "sample_sent\<lparr>timer := None, inFlight := True\<rparr>"
  let ?b = "byte_length (batch_head ?p) + 2"
  obtain nb where loop: "batch_loop 0 ?b [sample_event] ?p = (?p, [sample_event], nb)" "nb_batch nb = [sample_event]"
    using batch_loop_single [OF sample_serializable, of ?p ?b]
    by (auto simp: sample_sent_def new_pusher_def MAX_BATCH_def)
  have q: "queue ?p = [sample_event]" "?p\<lparr>queue := [sample_event]\<rparr> = ?p"
    by (simp_all add: sample_sent_def)
  have "nextBatch ?p = (?p, nb)" unfolding nextBatch_def q(1) loop(1) Let_def split_conv q(2) ..
  then show ?thesis using loop(2)
    by (simp add: fire_def flush_start_def) (simp add: sample_sent_def new_pusher_def)
qed

definition sample_net :: net where
  "sample_net = \<lparr>np = sample_sent\<lparr>timer := None, queue := [], retryMs := INITIAL_RETRY_MS\<rparr>,
     wire = None, accepted = [sample_event], partials = {}\<rparr>"

lemma sample_finish:
  assumes "nb_batch nb = [sample_event]"
  shows "flush_finish nb (Answer 200 []) (sample_sent\<lparr>timer := None, inFlight := True\<rparr>) = (np sample_net, [])"
proof -
  have "\<not> session_over (ev_type sample_event)" by (simp add: session_over_def sample_event_def)
  moreover have "ev_seq sample_event = 1" by (simp add: sample_event_def)
  ultimately show ?thesis
    by (simp add: flush_finish_def PERMANENT_STATUSES_def push_accepted_def assms sample_net_def)
      (simp add: sample_sent_def new_pusher_def)
qed

lemma sample_reachable: "net_reachable [] sample_net"
proof -
  let ?p = "sample_sent\<lparr>timer := None, inFlight := True\<rparr>"
  obtain nb where fire: "fire sample_sent = (?p, Some nb)"
    and batch: "nb_batch nb = [sample_event]" using sample_fire by blast
  define s1 where "s1 = \<lparr>np = sample_sent, wire = None, accepted = [], partials = {}\<rparr>"
  define s2 where "s2 = \<lparr>np = ?p, wire = Some nb, accepted = [], partials = {}\<rparr>"
  have "net_step (net_init []) s1"
    using net_step.Emit [where s = "net_init []", simplified net_init_def net.simps, OF sample_emit]
    by (simp add: net_init_def s1_def)
  moreover have "net_step s1 s2"
    using net_step.FireSend [where s = s1, unfolded s1_def net.simps, OF fire]
    by (simp add: s1_def s2_def)
  moreover have "net_step s2 sample_net"
    using net_step.Reply [where s = s2 and r = "Answer 200 []", unfolded s2_def net.simps, OF refl sample_finish [OF batch]]
    by (simp add: accepts_def s2_def batch) (simp add: sample_net_def)
  ultimately show ?thesis unfolding net_reachable_def
    by (blast intro: converse_rtranclp_into_rtranclp)
qed


theorem durable_never_lost_witness:
  "1 \<in> ev_seq ` set (accepted sample_net) \<union> durable_seqs (queue (np sample_net))"
  by (rule durable_never_lost [OF sample_reachable])
    (simp_all add: sample_net_def sample_sent_def new_pusher_def)

section \<open>Refusals\<close>

text \<open>The events the pusher could still stub or drop.\<close>

definition unstubbed :: "pusher \<Rightarrow> nat" where
  "unstubbed p = length (filter (\<lambda>n. n \<notin> set (stubs p)) (map ev_seq (queue p)))"

lemma filter_length_le:
  assumes "subseq xs ys" and "\<forall>x. P x \<longrightarrow> Q x"
  shows "length (filter P xs) \<le> length (filter Q ys)"
proof -
  have "length (filter P xs) \<le> length (filter P ys)"
    using assms(1) by (blast intro: list_emb_length subseq_filter)
  also have "\<dots> \<le> length (filter Q ys)"
    using assms(2) by (induction ys) auto
  finally show ?thesis .
qed

lemma nextBatch_unstubbed:
  assumes "nextBatch p = (p', nb)"
  shows "unstubbed p' \<le> unstubbed p" and "batchLimit p' = batchLimit p"
    and "\<forall>b \<in> set (nb_batch nb). b \<in> set (queue p')"
proof -
  have "subseq (map ev_seq (queue p')) (map ev_seq (queue p))"
    using nextBatch_exact [OF assms] by blast
  moreover have fr: "set (stubs p) \<subseteq> set (stubs p') \<and> batchLimit p' = batchLimit p"
    using assms by (auto simp: nextBatch_def Let_def loop_frame_def dest!: batch_loop_frame split: prod.splits)
  ultimately show "unstubbed p' \<le> unstubbed p"
    unfolding unstubbed_def by (intro filter_length_le) auto
  show "batchLimit p' = batchLimit p" using fr by blast
  show "\<forall>b \<in> set (nb_batch nb). b \<in> set (queue p')" using nextBatch_exact [OF assms] by auto
qed

lemma filter_splice_less:
  assumes "n \<in> set (map ev_seq q)" and "n \<notin> S"
  shows "length (filter (\<lambda>m. m \<notin> S) (map ev_seq (splice_seq n [] q))) <
      length (filter (\<lambda>m. m \<notin> S) (map ev_seq q))"
  using assms by (induction q) auto

lemma filter_insert_less:
  "n \<in> set ms \<Longrightarrow> n \<notin> S \<Longrightarrow>
    length (filter (\<lambda>m. m \<noteq> n \<and> m \<notin> S) ms) < length (filter (\<lambda>m. m \<notin> S) ms)"
proof (induction ms)
  case (Cons m ms)
  have "length (filter (\<lambda>m. m \<noteq> n \<and> m \<notin> S) ms) \<le> length (filter (\<lambda>m. m \<notin> S) ms)"
    by (induction ms) auto
  with Cons show ?case by (auto simp: less_Suc_eq_le)
qed simp


definition sample_second :: event where
  "sample_second = sample_event\<lparr>ev_seq := 2\<rparr>"

definition sample_pair :: pusher where
  "sample_pair = (new_pusher [])\<lparr>seq := 2, queue := [sample_event, sample_second], inFlight := True\<rparr>"

text \<open>Under a count limit of one, the first event alone is sent, refused and stubbed.\<close>

definition sample_one :: pusher where
  "sample_one = sample_pair\<lparr>batchLimit := 1\<rparr>"

lemma batch_loop_one:
  assumes "serializable (event_json e)" and "batchLimit p = 1"
  shows "\<exists>nb. batch_loop 0 b (e # e' # q) p = (p, e # e' # q, nb) \<and> nb_batch nb = [e]"
  using assms by (simp only: batch_loop.simps Let_def split_conv if_True if_False simp_thms not_le
     less_irrefl if_not_P) simp


definition revokes :: "reply \<Rightarrow> bool" where
  "revokes r = (case r of
      Answer st body \<Rightarrow> st \<in> set PERMANENT_STATUSES
    | Failed st refusals \<Rightarrow> st \<in> Some ` set PERMANENT_STATUSES \<and> MAX_RENEWAL_REFUSALS \<le> refusals)"


definition sample_batch :: next_batch where
  "sample_batch = \<lparr>nb_batch = [sample_event], nb_parts = [], nb_sizes = [], nb_bytes = 0\<rparr>"


lemma emit_inner:
  assumes "\<not> session_over ty" and "ty \<noteq> js ''sdk.user''"
  shows "emit clk ty pl (Explicit t) eph p =
    (fst (emit_one clk ty pl t eph p), fst (snd (emit_one clk ty pl t eph p)))"
proof -
  have "snd (snd (emit_one clk ty pl t eph p)) = []"
    by (simp add: emit_one_def Let_def assms split_beta)
  then obtain p' n where "emit_one clk ty pl t eph p = (p', n, [])" by (metis prod.collapse)
  with assms(1) show ?thesis by (simp add: emit_def)
qed

end
