(* ===== verification/SessionControl.thy ===== *)
theory SessionControl
  imports JsJson
begin

text \<open>
  \<^verbatim>\<open>session-control.mjs\<close>: command names and lists, the control-call reservation, the
  settle-once slot, the operator shell and its context. An asynchronous call is split at its
  awaits: \<open>control_enter\<close> and \<open>control_leave\<close> are the two ends of \<open>withControl\<close>, and the shell
  is a fold over the events of its process. A thrown error with no status is its message.
\<close>

section \<open>Commands\<close>

definition is_command_char :: "jchar \<Rightarrow> bool" where
  "is_command_char u \<longleftrightarrow> is_alnum u \<or> u \<in> {0x3A, 0x2E, 0x5F, 0x2D}"

definition is_command_name :: "jstring \<Rightarrow> bool" where
  "is_command_name s \<longleftrightarrow> s \<noteq> [] \<and> is_alnum (hd s) \<and> length s \<le> 128 \<and> list_all is_command_char (tl s)"

fun normalizeCommandName :: "json \<Rightarrow> jstring + jstring" where
  "normalizeCommandName (JStr value) =
     (let name = dropWhile (\<lambda>u. u = 0x2F) (trim value)
      in if is_command_name name then Inr name else Inl (js ''invalid command name''))"
| "normalizeCommandName _ = Inl (js ''missing command'')"

record command =
  cmd_name :: jstring
  cmd_description :: jstring
  cmd_argument_hint :: jstring
  cmd_aliases :: "jstring list"

fun normal_names :: "json list \<Rightarrow> jstring list" where
  "normal_names [] = []"
| "normal_names (v # vs) =
     (case normalizeCommandName v of Inr name \<Rightarrow> name # normal_names vs | Inl _ \<Rightarrow> normal_names vs)"

text \<open>\<^verbatim>\<open>filter((alias, index, all) => alias !== name && all.indexOf(alias) === index)\<close>\<close>

fun first_others :: "jstring set \<Rightarrow> jstring list \<Rightarrow> jstring list" where
  "first_others seen [] = []"
| "first_others seen (a # as) =
     (if a \<in> seen then first_others seen as else a # first_others (insert a seen) as)"

definition command_of :: "json \<Rightarrow> jstring \<Rightarrow> command" where
  "command_of raw name =
     \<lparr>cmd_name = name,
      cmd_description = str_or [] (jget raw (js ''description'')),
      cmd_argument_hint = (case jget raw (js ''argument_hint'') of
          JStr h \<Rightarrow> h | _ \<Rightarrow> str_or [] (jget raw (js ''argumentHint''))),
      cmd_aliases = first_others {name} (normal_names (arr_or_nil (jget raw (js ''aliases''))))\<rparr>"

fun command_loop :: "jstring set \<Rightarrow> json list \<Rightarrow> command list" where
  "command_loop seen [] = []"
| "command_loop seen (raw # raws) =
     (if \<not> is_object_type raw then command_loop seen raws
      else (case normalizeCommandName (jget raw (js ''name'')) of
        Inl _ \<Rightarrow> command_loop seen raws
      | Inr name \<Rightarrow>
          if name \<in> seen then command_loop seen raws
          else command_of raw name # command_loop (insert name seen) raws))"

definition normalizeCommandList :: "json \<Rightarrow> command list" where
  "normalizeCommandList value = command_loop {} (arr_or_nil value)"

definition resolveCommand :: "command list \<Rightarrow> json \<Rightarrow> jstring + command option" where
  "resolveCommand commands requested =
     (case normalizeCommandName requested of
       Inl e \<Rightarrow> Inl e
     | Inr name \<Rightarrow> Inr (find (\<lambda>c. cmd_name c = name \<or> name \<in> set (cmd_aliases c)) commands))"

text \<open>What a driver can do, by the methods it has.\<close>

record driver_methods =
  has_listCommands :: bool
  has_invokeCommand :: bool
  has_setModel :: bool
  has_compact :: bool

definition supportsCommandDriver :: "driver_methods option \<Rightarrow> bool" where
  "supportsCommandDriver d = (case d of None \<Rightarrow> False | Some m \<Rightarrow> has_listCommands m \<and> has_invokeCommand m)"

definition supportsModelSwitchDriver :: "driver_methods option \<Rightarrow> bool" where
  "supportsModelSwitchDriver d = (case d of None \<Rightarrow> False | Some m \<Rightarrow> has_setModel m)"

definition supportsCompactDriver :: "driver_methods option \<Rightarrow> bool" where
  "supportsCompactDriver d = (case d of None \<Rightarrow> False | Some m \<Rightarrow> has_compact m)"

definition commandPrompt :: "jstring \<Rightarrow> json \<Rightarrow> jstring list \<Rightarrow> jstring + jstring" where
  "commandPrompt command argumentsText pendingContext =
     (case normalizeCommandName (JStr command) of
       Inl e \<Rightarrow> Inl e
     | Inr name \<Rightarrow>
         (let args = trim (str_or [] argumentsText);
              invocation = [0x2F] @ name @ (if args = [] then [] else [0x20] @ args)
          in Inr (if pendingContext = [] then invocation
                  else invocation @ [10, 10] @ join [10, 10] pendingContext)))"

section \<open>The reservation\<close>

datatype session_state = Starting | Idle | Working | Blocked | Ended | Errored

fun state_text :: "session_state \<Rightarrow> jstring" where
  "state_text Starting = js ''starting''"
| "state_text Idle = js ''idle''"
| "state_text Working = js ''working''"
| "state_text Blocked = js ''blocked''"
| "state_text Ended = js ''ended''"
| "state_text Errored = js ''error''"

text \<open>A 409 carries the session's state in its body.\<close>

record control_error = http_error +
  ce_state :: session_state

definition conflict :: "jstring \<Rightarrow> session_state \<Rightarrow> control_error" where
  "conflict message st = \<lparr>he_status = 409, he_message = message, ce_state = st\<rparr>"

definition requireNotBusy :: "session_state \<Rightarrow> jstring option \<Rightarrow> control_error option" where
  "requireNotBusy st busy =
     (case busy of
       Some kind \<Rightarrow> Some (conflict (js ''session is busy with a '' @ kind @ js '' request'') st)
     | None \<Rightarrow> None)"

definition requireIdle :: "session_state \<Rightarrow> jstring option \<Rightarrow> jstring \<Rightarrow> control_error option" where
  "requireIdle st busy verb =
     (if st = Ended \<or> st = Errored then Some (conflict (js ''session is finished'') st)
      else if st \<noteq> Idle \<or> busy \<noteq> None
      then Some (conflict (js ''session must be idle before '' @ verb) st)
      else None)"

text \<open>How the function run under the reservation settles: with a value, truthy or not, or a throw.\<close>

datatype fn_outcome = Resolved bool | Threw

definition control_enter :: "jstring \<Rightarrow> jstring option \<Rightarrow> jstring option" where
  "control_enter kind busy = Some kind"

definition control_release :: "jstring \<Rightarrow> jstring option \<Rightarrow> jstring option" where
  "control_release kind busy = (if busy = Some kind then None else busy)"

definition control_leave :: "jstring \<Rightarrow> bool \<Rightarrow> fn_outcome \<Rightarrow> jstring option \<Rightarrow> jstring option" where
  "control_leave kind hold out busy =
     (case out of
       Resolved value \<Rightarrow> if \<not> hold \<or> \<not> value then control_release kind busy else busy
     | Threw \<Rightarrow> control_release kind busy)"

section \<open>The settle-once slot\<close>

datatype 'a settled = Fulfilled 'a | Rejected http_error

record 'a slot =
  slot_settled :: "'a settled option"
  slot_timer :: bool
  slot_status :: nat
  slot_message :: jstring

definition pendingWithTimeout :: "jstring \<Rightarrow> nat \<Rightarrow> 'a slot" where
  "pendingWithTimeout message st =
     \<lparr>slot_settled = None, slot_timer = True, slot_status = st, slot_message = message\<rparr>"

definition slot_settle :: "'a settled \<Rightarrow> 'a slot \<Rightarrow> bool \<times> 'a slot" where
  "slot_settle v s =
     (if slot_settled s \<noteq> None then (False, s)
      else (True, s\<lparr>slot_settled := Some v, slot_timer := False\<rparr>))"

datatype 'a slot_signal = Resolve 'a | Reject http_error | Timeout

text \<open>The timer's callback runs only while the timer is armed.\<close>

fun slot_receive :: "'a slot_signal \<Rightarrow> 'a slot \<Rightarrow> bool \<times> 'a slot" where
  "slot_receive (Resolve v) s = slot_settle (Fulfilled v) s"
| "slot_receive (Reject e) s = slot_settle (Rejected e) s"
| "slot_receive Timeout s =
     (if slot_timer s then slot_settle (Rejected (http_err (slot_status s) (slot_message s))) s
      else (False, s))"

section \<open>The operator shell\<close>

definition SHELL_TIMEOUT_MS :: nat where "SHELL_TIMEOUT_MS = 30000"
definition MAX_SHELL_OUTPUT_BYTES :: nat where "MAX_SHELL_OUTPUT_BYTES = 2 ^ 20"

record shell_output =
  chunks :: "nat list list"
  out_bytes :: nat
  out_max :: nat
  out_truncated :: bool

definition boundedAppend :: "nat list \<Rightarrow> shell_output \<Rightarrow> shell_output" where
  "boundedAppend buf state =
     (let remaining = int (out_max state) - int (out_bytes state)
      in if remaining \<le> 0 then state\<lparr>out_truncated := True\<rparr>
         else if int (length buf) \<le> remaining
         then state\<lparr>chunks := chunks state @ [buf], out_bytes := out_bytes state + length buf\<rparr>
         else state\<lparr>chunks := chunks state @ [take (nat remaining) buf],
                    out_bytes := out_bytes state + nat remaining, out_truncated := True\<rparr>)"

text \<open>
  What the process and the timers do: output, an error, the close, the deadline, and three
  seconds later the hard kill; \<open>finish\<close> clears both timers, so neither acts on a settled call.
\<close>

datatype shell_event =
    Data "nat list"
  | SpawnError jstring
  | Close "int option" "jstring option"
  | Deadline
  | HardKill

record shell_result =
  sr_command :: jstring
  sr_output :: jstring
  sr_exit_code :: int
  sr_signal :: "jstring option"
  sr_timed_out :: bool
  sr_truncated :: bool
  sr_duration_ms :: nat

record shell =
  sh_command :: jstring
  sh_output :: shell_output
  sh_timedOut :: bool
  sh_kills :: "jstring list"
  sh_result :: "(jstring + shell_result) option"

definition shell_start :: "json \<Rightarrow> nat \<Rightarrow> jstring + shell" where
  "shell_start command maxOutputBytes =
     (case command of
       JStr c \<Rightarrow>
         if trim c = [] then Inl (js ''missing command'')
         else if 0 \<in> set c then Inl (js ''command contains a NUL byte'')
         else Inr \<lparr>sh_command = c,
                   sh_output = \<lparr>chunks = [], out_bytes = 0, out_max = maxOutputBytes, out_truncated = False\<rparr>,
                   sh_timedOut = False, sh_kills = [], sh_result = None\<rparr>
     | _ \<Rightarrow> Inl (js ''missing command''))"

text \<open>\<open>ms\<close> is the time elapsed when the process closes.\<close>

definition shell_close :: "nat \<Rightarrow> int option \<Rightarrow> jstring option \<Rightarrow> shell \<Rightarrow> shell_result" where
  "shell_close ms code sig s =
     \<lparr>sr_command = sh_command s,
      sr_output = utf8_decode (concat (chunks (sh_output s))),
      sr_exit_code = (if sh_timedOut s then 124 else (case code of Some c \<Rightarrow> c | None \<Rightarrow> 128)),
      sr_signal = sig, sr_timed_out = sh_timedOut s, sr_truncated = out_truncated (sh_output s),
      sr_duration_ms = ms\<rparr>"

fun shell_on :: "nat \<Rightarrow> shell_event \<Rightarrow> shell \<Rightarrow> shell" where
  "shell_on ms (Data buf) s = s\<lparr>sh_output := boundedAppend buf (sh_output s)\<rparr>"
| "shell_on ms (SpawnError e) s = (if sh_result s \<noteq> None then s else s\<lparr>sh_result := Some (Inl e)\<rparr>)"
| "shell_on ms (Close code sig) s =
     (if sh_result s \<noteq> None then s else s\<lparr>sh_result := Some (Inr (shell_close ms code sig s))\<rparr>)"
| "shell_on ms Deadline s =
     (if sh_result s \<noteq> None \<or> sh_timedOut s then s
      else s\<lparr>sh_timedOut := True, sh_kills := sh_kills s @ [js ''SIGTERM'']\<rparr>)"
| "shell_on ms HardKill s =
     (if sh_result s \<noteq> None \<or> \<not> sh_timedOut s \<or> js ''SIGKILL'' \<in> set (sh_kills s) then s
      else s\<lparr>sh_kills := sh_kills s @ [js ''SIGKILL'']\<rparr>)"

definition executeShellCommand :: "json \<Rightarrow> nat \<Rightarrow> nat \<Rightarrow> shell_event list \<Rightarrow> jstring + shell" where
  "executeShellCommand command maxOutputBytes ms events =
     (case shell_start command maxOutputBytes of
       Inl e \<Rightarrow> Inl e
     | Inr s \<Rightarrow> Inr (fold (shell_on ms) events s))"

text \<open>\<^verbatim>\<open>JSON.stringify(record, null, 2)\<close> of an object with no nested ones.\<close>

definition pretty_flat :: "json_obj \<Rightarrow> jstring" where
  "pretty_flat kvs = js ''{'' @ [10] @
     join [0x2C, 10] (map (\<lambda>(k, v). js ''  '' @ quote k @ js '': '' @ json_text v) kvs) @ [10] @ js ''}''"

definition shell_record :: "shell_result \<Rightarrow> json_obj" where
  "shell_record r =
     [(js ''command'', JStr (sr_command r)), (js ''output'', JStr (sr_output r)),
      (js ''exit_code'', JInt (sr_exit_code r)), (js ''timed_out'', JBool (sr_timed_out r)),
      (js ''truncated'', JBool (sr_truncated r))] @
     (case sr_signal r of Some sg \<Rightarrow> if sg = [] then [] else [(js ''signal'', JStr sg)] | None \<Rightarrow> [])"

definition shellContext :: "shell_result \<Rightarrow> json \<times> jstring" where
  "shellContext r =
     (JObj ([(js ''source'', JStr (js ''operator_shell''))] @ shell_record r @
        [(js ''duration_ms'', JInt (int (sr_duration_ms r)))]),
      js ''<zwrm-operator-shell-context>'' @ [10] @
      js ''A workspace operator executed this shell command outside the model tool and permission flow. '' @
      js ''Its command and output are deliberate conversation context for the next turn.'' @ [10] @
      pretty_flat (shell_record r) @ [10] @ js ''</zwrm-operator-shell-context>'')"

section \<open>Command lists\<close>

lemma normalizeCommandName_valid: "normalizeCommandName v = Inr name \<Longrightarrow> is_command_name name"
  by (cases v) (auto simp: Let_def split: if_splits)

lemma normal_names_valid: "a \<in> set (normal_names vs) \<Longrightarrow> is_command_name a"
  by (induction vs) (auto split: sum.splits dest: normalizeCommandName_valid)

lemma first_others_props:
  "set (first_others seen as) = set as - seen" "distinct (first_others seen as)"
  by (induction as arbitrary: seen) auto

lemma normalizeCommandName_id:
  assumes "is_command_name s"
  shows "normalizeCommandName (JStr s) = Inr s"
proof -
  have ns: "\<not> is_space u" if "u \<in> set s" for u
  proof -
    have "is_command_char u"
      using assms that by (cases s) (auto simp: is_command_name_def is_command_char_def list_all_iff)
    then show ?thesis
      by (auto simp: is_command_char_def is_alnum_def is_digit_def is_space_def word_le_nat_alt word_less_nat_alt)
  qed
  then have "trim s = s" by (simp add: trim_no_space)
  moreover have "dropWhile (\<lambda>u. u = 0x2F) s = s"
    using assms by (cases s) (auto simp: is_command_name_def is_alnum_def is_digit_def)
  ultimately show ?thesis using assms by simp
qed

lemma find_Some: "find P xs = Some x \<Longrightarrow> x \<in> set xs \<and> P x"
  by (induction xs) (auto split: if_splits)

lemma find_exists: "x \<in> set xs \<Longrightarrow> P x \<Longrightarrow> \<exists>y. find P xs = Some y"
  by (induction xs) auto

definition wf_command :: "command \<Rightarrow> bool" where
  "wf_command c \<longleftrightarrow> is_command_name (cmd_name c) \<and> list_all is_command_name (cmd_aliases c) \<and>
     distinct (cmd_name c # cmd_aliases c)"

lemma command_of_wf: "is_command_name name \<Longrightarrow> wf_command (command_of raw name)"
  by (auto simp: wf_command_def command_of_def first_others_props list_all_iff dest: normal_names_valid)

lemma command_loop_props:
  "list_all wf_command (command_loop seen raws) \<and> distinct (map cmd_name (command_loop seen raws)) \<and>
   cmd_name ` set (command_loop seen raws) \<inter> seen = {}"
proof (induction raws arbitrary: seen)
  case (Cons raw raws)
  show ?case
  proof (cases "normalizeCommandName (jget raw (js ''name''))")
    case (Inr name)
    have [simp]: "cmd_name (command_of raw name) = name" by (simp add: command_of_def)
    show ?thesis
      using Cons.IH [of seen] Cons.IH [of "insert name seen"] Inr
        command_of_wf [OF normalizeCommandName_valid [OF Inr]] by auto
  qed (use Cons in auto)
qed simp

text \<open>
  A driver's command list, whatever the harness reported, becomes commands with valid and
  pairwise distinct names, each with valid aliases that repeat neither each other nor the name.
\<close>

theorem command_list_well_formed:
  "list_all wf_command (normalizeCommandList v) \<and> distinct (map cmd_name (normalizeCommandList v))"
  using command_loop_props [of "{}"] by (simp add: normalizeCommandList_def)

text \<open>
  Every listed command can be invoked by its own name, and the answer is that command or
  one listed with the name as an alias.
\<close>

theorem listed_command_resolves:
  assumes "c \<in> set (normalizeCommandList v)"
  shows "\<exists>c' \<in> set (normalizeCommandList v).
    resolveCommand (normalizeCommandList v) (JStr (cmd_name c)) = Inr (Some c') \<and>
    (c' = c \<or> cmd_name c \<in> set (cmd_aliases c'))"
proof -
  let ?cs = "normalizeCommandList v"
  let ?P = "\<lambda>d. cmd_name d = cmd_name c \<or> cmd_name c \<in> set (cmd_aliases d)"
  have props: "list_all wf_command ?cs" "distinct (map cmd_name ?cs)"
    using command_loop_props [of "{}"] by (simp_all add: normalizeCommandList_def)
  have "is_command_name (cmd_name c)"
    using assms props(1) unfolding list_all_iff wf_command_def by blast
  then have n: "normalizeCommandName (JStr (cmd_name c)) = Inr (cmd_name c)"
    by (rule normalizeCommandName_id)
  have "?P c" by simp
  from find_exists [OF assms, of ?P, OF this] obtain d where d: "find ?P ?cs = Some d" by (rule exE)
  from find_Some [OF d] have d': "d \<in> set ?cs" "?P d" by (rule conjunct1, rule conjunct2)
  have r: "resolveCommand ?cs (JStr (cmd_name c)) = Inr (Some d)"
    by (simp only: resolveCommand_def n sum.case d)
  have "inj_on cmd_name (set ?cs)" using props(2) by (simp only: distinct_map)
  then have "d = c" if "cmd_name d = cmd_name c" using that d'(1) assms by (rule inj_onD)
  with r d' show ?thesis by blast
qed

definition sample_commands :: json where
  "sample_commands = JArr
     [JObj [(js ''name'', JStr (js ''/a'')), (js ''aliases'', JArr [JStr (js ''b''), JStr (js ''b'')])],
      JObj [(js ''name'', JStr (js ''b''))]]"

lemma sample_names:
  "normalizeCommandName (JStr (js ''/a'')) = Inr (js ''a'')"
  "normalizeCommandName (JStr (js ''b'')) = Inr (js ''b'')"
  by (simp_all add: js_def trim_def is_space_def is_command_name_def is_alnum_def is_digit_def)

lemma sample_list:
  "normalizeCommandList sample_commands =
    [\<lparr>cmd_name = js ''a'', cmd_description = [], cmd_argument_hint = [], cmd_aliases = [js ''b'']\<rparr>,
     \<lparr>cmd_name = js ''b'', cmd_description = [], cmd_argument_hint = [], cmd_aliases = []\<rparr>]"
  by (simp add: normalizeCommandList_def sample_commands_def is_object_type_def sample_names command_of_def
      del: normalizeCommandName.simps)

theorem listed_command_resolves_witness:
  "\<exists>c' \<in> set (normalizeCommandList sample_commands).
    resolveCommand (normalizeCommandList sample_commands) (JStr (js ''a'')) = Inr (Some c')"
  using listed_command_resolves [of "hd (normalizeCommandList sample_commands)" sample_commands]
  by (auto simp: sample_list)

text \<open>
  An alias listed earlier shadows a later command's own name: asked for \<open>b\<close>, the list of a
  command \<open>a\<close> with alias \<open>b\<close> and a command \<open>b\<close> answers \<open>a\<close>.
\<close>

lemma alias_shadows_name:
  "map cmd_name (normalizeCommandList sample_commands) = [js ''a'', js ''b''] \<and>
   map_option cmd_name (projr (resolveCommand (normalizeCommandList sample_commands) (JStr (js ''b'')))) =
     Some (js ''a'')"
  by (simp add: sample_list resolveCommand_def sample_names del: normalizeCommandName.simps)

section \<open>The reservation is exclusive\<close>

text \<open>
  What a route relies on when it runs a control call: the gate it passed refuses every other
  call while the reservation is taken, and giving it up restores what was there before, and
  only its own reservation.
\<close>

locale reservation =
  fixes admits :: "'s \<Rightarrow> 'b \<Rightarrow> bool"
    and enter :: "'k \<Rightarrow> 'b \<Rightarrow> 'b"
    and leave :: "'k \<Rightarrow> 'b \<Rightarrow> 'b"
  assumes taken: "admits s b \<Longrightarrow> \<not> admits s' (enter k b)"
    and given_back: "admits s b \<Longrightarrow> leave k (enter k b) = b"
begin

lemma not_twice: "admits s b \<Longrightarrow> \<not> admits s' (enter k b) \<and> admits s (leave k (enter k b))"
  by (simp add: taken given_back)

end

text \<open>
  Control calls over time: a call tried in a session state, and a call in flight that ends.
  The second component lists the calls in flight.
\<close>

datatype ('s, 'k) gate_call = Try 's 'k | Done 'k

fun gate_op :: "('s \<Rightarrow> 'b \<Rightarrow> bool) \<Rightarrow> ('k \<Rightarrow> 'b \<Rightarrow> 'b) \<Rightarrow> ('k \<Rightarrow> 'b \<Rightarrow> 'b) \<Rightarrow> ('s, 'k) gate_call \<Rightarrow>
    'b \<times> 'k list \<Rightarrow> 'b \<times> 'k list" where
  "gate_op admits enter leave (Try s k) (b, calls) =
     (if admits s b then (enter k b, k # calls) else (b, calls))"
| "gate_op admits enter leave (Done k) (b, calls) =
     (if k \<in> set calls then (leave k b, remove1 k calls) else (b, calls))"

context reservation
begin

definition free :: "'b \<Rightarrow> bool" where
  "free b \<longleftrightarrow> (\<exists>s. admits s b)"

lemma one_holder:
  assumes "free b0"
  shows "let (b, calls) = fold (gate_op admits enter leave) ops (b0, []) in
    calls = [] \<and> b = b0 \<or> (\<exists>k. calls = [k] \<and> b = enter k b0)"
proof -
  let ?I = "\<lambda>(b, calls). calls = [] \<and> b = b0 \<or> (\<exists>k. calls = [k] \<and> b = enter k b0)"
  have "?I (gate_op admits enter leave op x)" if "?I x" for op x
  proof (cases op)
    case (Try s k)
    with that assms show ?thesis by (cases x) (auto simp: free_def dest: taken)
  next
    case (Done k)
    with that assms show ?thesis by (cases x) (auto simp: free_def given_back)
  qed
  then have "?I x \<Longrightarrow> ?I (fold (gate_op admits enter leave) ops x)" for x
    by (induction ops arbitrary: x) (simp_all only: fold_simps o_apply)
  from this [of "(b0, [])"] show ?thesis by simp
qed

end

definition control_admits :: "session_state \<Rightarrow> jstring option \<Rightarrow> bool" where
  "control_admits st busy \<longleftrightarrow> requireIdle st busy [] = None"

interpretation control: reservation control_admits control_enter control_release
  by unfold_locales
    (auto simp: control_admits_def requireIdle_def control_enter_def control_release_def split: if_splits)

text \<open>
  C30: Control calls are exclusive: whatever calls are tried in whatever session states, and in
  whatever order they end, at most one is in flight, the reservation names it, and while it is
  in flight both gates refuse; with none in flight the session is free again.
\<close>

theorem control_calls_exclusive:
  "case fold (gate_op control_admits control_enter control_release) ops (None, []) of (busy, calls) \<Rightarrow>
     calls = [] \<and> busy = None \<or>
     (\<exists>k. calls = [k] \<and> busy = Some k \<and> requireNotBusy st busy \<noteq> None \<and> requireIdle st busy verb \<noteq> None)"
proof -
  have "control.free None"
    by (auto simp: control.free_def control_admits_def requireIdle_def intro: exI [of _ Idle])
  from control.one_holder [OF this, of ops] show ?thesis
    by (auto simp: control_enter_def requireNotBusy_def requireIdle_def split: prod.splits)
qed

text \<open>
  A reservation ends as the call that took it asks: it survives only a \<open>hold\<close> call that
  resolved to a truthy value, and leaving never clears another call's reservation.
\<close>

theorem control_leave_cases:
  "control_leave kind hold out (Some kind) = (if hold \<and> out = Resolved True then Some kind else None) \<and>
   (busy \<noteq> Some kind \<longrightarrow> control_leave kind hold out busy = busy)"
  by (auto simp: control_leave_def control_release_def split: fn_outcome.split)

theorem control_leave_cases_witness:
  "control_leave (js ''shell'') False Threw (Some (js ''setup'')) = Some (js ''setup'')"
  using control_leave_cases [of "js ''shell''" False Threw "Some (js ''setup'')"] by simp

section \<open>A slot settles once\<close>

fun slot_run :: "'a slot_signal list \<Rightarrow> 'a slot \<Rightarrow> bool list \<times> 'a slot" where
  "slot_run [] s = ([], s)"
| "slot_run (sig # sigs) s =
     (let (b, s1) = slot_receive sig s; (bs, s2) = slot_run sigs s1 in (b # bs, s2))"

lemma slot_run_settled:
  "slot_settled s \<noteq> None \<Longrightarrow> slot_run sigs s = (replicate (length sigs) False, s)"
proof (induction sigs)
  case (Cons sig sigs)
  then have "slot_receive sig s = (False, s)"
    by (cases sig) (auto simp: slot_settle_def)
  with Cons show ?case by simp
qed simp

text \<open>
  A slot settles exactly once, with the first signal it gets, be it a value, an error or
  its deadline's 504; every later signal is refused and changes nothing.
\<close>

theorem slot_settles_once:
  "slot_run (sig # sigs) (pendingWithTimeout m st) =
     (True # replicate (length sigs) False, snd (slot_receive sig (pendingWithTimeout m st))) \<and>
   slot_settled (snd (slot_receive sig (pendingWithTimeout m st))) =
     Some (case sig of Resolve v \<Rightarrow> Fulfilled v | Reject e \<Rightarrow> Rejected e | Timeout \<Rightarrow> Rejected (http_err st m))"
proof -
  let ?r = "slot_receive sig (pendingWithTimeout m st)"
  have r: "fst ?r" "slot_settled (snd ?r) =
     Some (case sig of Resolve v \<Rightarrow> Fulfilled v | Reject e \<Rightarrow> Rejected e | Timeout \<Rightarrow> Rejected (http_err st m))"
    by (cases sig; simp add: pendingWithTimeout_def slot_settle_def)+
  have "slot_run sigs (snd ?r) = (replicate (length sigs) False, snd ?r)"
    using r(2) by (intro slot_run_settled) simp
  with r show ?thesis by (simp add: split_beta)
qed

section \<open>The shell's outcome\<close>

fun data_of :: "shell_event list \<Rightarrow> nat list list" where
  "data_of [] = []"
| "data_of (Data b # es) = b # data_of es"
| "data_of (_ # es) = data_of es"

lemma boundedAppend_take:
  assumes "concat (chunks o1) = take m bs" "out_bytes o1 = length (concat (chunks o1))" "out_max o1 = m"
    "out_truncated o1 \<longleftrightarrow> m < length bs" "buf \<noteq> []"
  shows "concat (chunks (boundedAppend buf o1)) = take m (bs @ buf)"
    "out_bytes (boundedAppend buf o1) = length (concat (chunks (boundedAppend buf o1)))"
    "out_max (boundedAppend buf o1) = m"
    "out_truncated (boundedAppend buf o1) \<longleftrightarrow> m < length (bs @ buf)"
  using assms by (auto simp: boundedAppend_def Let_def min_def nat_diff_distrib' split: if_splits)

definition running :: "nat \<Rightarrow> nat list \<Rightarrow> bool \<Rightarrow> shell \<Rightarrow> bool" where
  "running m bs late s \<longleftrightarrow> sh_result s = None \<and> sh_timedOut s = late \<and>
     concat (chunks (sh_output s)) = take m bs \<and>
     out_bytes (sh_output s) = length (concat (chunks (sh_output s))) \<and> out_max (sh_output s) = m \<and>
     (out_truncated (sh_output s) \<longleftrightarrow> m < length bs)"

definition ends_call :: "shell_event \<Rightarrow> bool" where
  "ends_call e = (case e of Close c s \<Rightarrow> True | SpawnError x \<Rightarrow> True | _ \<Rightarrow> False)"

lemma running_step:
  assumes "running m bs late s" and "\<not> ends_call e" and "e \<noteq> Data []"
  shows "running m (bs @ concat (data_of [e])) (late \<or> e = Deadline) (shell_on ms e s)"
proof (cases e)
  case (Data buf)
  with assms boundedAppend_take [of "sh_output s" m bs buf] show ?thesis by (simp add: running_def)
qed (use assms in \<open>auto simp: running_def ends_call_def\<close>)

lemma data_of_append [simp]: "data_of (a @ b) = data_of a @ data_of b"
  by (induction a rule: data_of.induct) auto

lemma running_run:
  "running m bs late s \<Longrightarrow> list_all (\<lambda>e. \<not> ends_call e \<and> e \<noteq> Data []) es \<Longrightarrow>
    running m (bs @ concat (data_of es)) (late \<or> Deadline \<in> set es) (fold (shell_on ms) es s)"
proof (induction es arbitrary: bs late s)
  case (Cons e es)
  have "running m (bs @ concat (data_of [e])) (late \<or> e = Deadline) (shell_on ms e s)"
    using Cons.prems by (intro running_step) auto
  from Cons.IH [OF this] Cons.prems(2) have
    "running m ((bs @ concat (data_of [e])) @ concat (data_of es)) ((late \<or> e = Deadline) \<or> Deadline \<in> set es)
       (fold (shell_on ms) es (shell_on ms e s))" by simp
  moreover have "data_of (e # es) = data_of [e] @ data_of es" using data_of_append [of "[e]" es] by simp
  moreover have "((late \<or> e = Deadline) \<or> Deadline \<in> set es) = (late \<or> Deadline \<in> set (e # es))" by auto
  ultimately show ?case by (simp only: append_assoc concat_append fold_simps o_apply)
qed simp

lemma settled_run: "sh_result s = Some r \<Longrightarrow> sh_result (fold (shell_on ms) es s) = Some r"
proof (induction es arbitrary: s)
  case (Cons e es)
  then have "sh_result (shell_on ms e s) = Some r" by (cases e) auto
  with Cons.IH show ?case by simp
qed simp

text \<open>
  A shell call settles at the first close of its process: the output is the first
  \<open>maxOutputBytes\<close> bytes written, decoded, and is marked truncated exactly when there were
  more; the exit code is 124 after the deadline, else the process's own, else 128. Nothing
  that happens later changes it.
\<close>

theorem shell_call_outcome:
  assumes "trim c \<noteq> []" and "0 \<notin> set c"
    and "list_all (\<lambda>e. \<not> ends_call e \<and> e \<noteq> Data []) pre"
  shows "map_option sh_result (case executeShellCommand (JStr c) m ms (pre @ Close code sig # post) of
           Inl e \<Rightarrow> None | Inr s \<Rightarrow> Some s) =
    Some (Some (Inr \<lparr>sr_command = c, sr_output = utf8_decode (take m (concat (data_of pre))),
      sr_exit_code = (if Deadline \<in> set pre then 124 else (case code of Some n \<Rightarrow> n | None \<Rightarrow> 128)),
      sr_signal = sig, sr_timed_out = (Deadline \<in> set pre),
      sr_truncated = (m < length (concat (data_of pre))), sr_duration_ms = ms\<rparr>))"
proof -
  obtain s0 where s0: "shell_start (JStr c) m = Inr s0" "running m [] False s0" "sh_command s0 = c"
    using assms(1,2) by (auto simp: shell_start_def running_def)
  let ?s1 = "fold (shell_on ms) pre s0"
  have r: "running m (concat (data_of pre)) (Deadline \<in> set pre) ?s1"
    using running_run [OF s0(2) assms(3), of ms] by simp
  have cmd: "sh_command (fold (shell_on ms) es s) = sh_command s" for es s
  proof (induction es arbitrary: s)
    case (Cons e es)
    have "sh_command (shell_on ms e s) = sh_command s" by (cases e) auto
    with Cons show ?case by simp
  qed simp
  let ?r = "shell_close ms code sig ?s1"
  have "sh_result (shell_on ms (Close code sig) ?s1) = Some (Inr ?r)"
    using r by (simp add: running_def)
  from settled_run [OF this, of ms post] have
    "sh_result (fold (shell_on ms) (pre @ Close code sig # post) s0) = Some (Inr ?r)" by simp
  moreover have "?r = \<lparr>sr_command = c, sr_output = utf8_decode (take m (concat (data_of pre))),
      sr_exit_code = (if Deadline \<in> set pre then 124 else (case code of Some n \<Rightarrow> n | None \<Rightarrow> 128)),
      sr_signal = sig, sr_timed_out = (Deadline \<in> set pre),
      sr_truncated = (m < length (concat (data_of pre))), sr_duration_ms = ms\<rparr>"
    using r s0(3) by (simp add: shell_close_def running_def cmd)
  ultimately show ?thesis by (simp add: executeShellCommand_def s0(1))
qed

theorem shell_call_outcome_witness:
  "map_option sh_result (case executeShellCommand (JStr (js ''ls'')) 3 7
      ([Data [97, 98], Data [99, 100], Deadline] @ Close None (Some (js ''SIGTERM'')) # [Data [1]]) of
      Inl e \<Rightarrow> None | Inr s \<Rightarrow> Some s) =
    Some (Some (Inr \<lparr>sr_command = js ''ls'', sr_output = utf8_decode [97, 98, 99], sr_exit_code = 124,
      sr_signal = Some (js ''SIGTERM''), sr_timed_out = True, sr_truncated = True, sr_duration_ms = 7\<rparr>))"
  using shell_call_outcome [of "js ''ls''" "[Data [97, 98], Data [99, 100], Deadline]" 3 7 None
      "Some (js ''SIGTERM'')" "[Data [1]]"]
  by (simp add: js_def trim_def is_space_def ends_call_def)

end
