(* ===== verification/SessionSetup.thy ===== *)
theory SessionSetup
  imports SessionControl MessageContext
begin

text \<open>
  \<^verbatim>\<open>session-setup.mjs\<close>: the pure rules of a live set-up change, from the request's shape to
  when the swap may run, whose held input survives it and who may answer meanwhile. Times are
  milliseconds; a spec is the JSON object the session was created from.
\<close>

definition SETUP_APPLY_FALLBACK_MS :: int where "SETUP_APPLY_FALLBACK_MS = 120000"
definition SETUP_IDLE_SETTLE_MS :: int where "SETUP_IDLE_SETTLE_MS = 1000"
definition RETIRE_GRACE_MS :: nat where "RETIRE_GRACE_MS = 20000"
definition RETIRE_ABORT_MS :: nat where "RETIRE_ABORT_MS = 10000"
definition RETIRE_BACKGROUND_GRACE_MS :: nat where "RETIRE_BACKGROUND_GRACE_MS = 3000"
definition MAX_SETUP_ID :: nat where "MAX_SETUP_ID = 128"

definition SWITCHING_MESSAGE :: jstring where
  "SWITCHING_MESSAGE = js ''the session is switching to the chat'' @ [0x27] @
     js ''s new sharing; try again in a moment''"
definition UNDELIVERED_MESSAGE :: jstring where
  "UNDELIVERED_MESSAGE = js ''the chat'' @ [0x27] @ js ''s sharing changed; this message was not delivered''"
definition OWNER_ANSWERS_MESSAGE :: jstring where
  "OWNER_ANSWERS_MESSAGE = js ''only the chat'' @ [0x27] @ js ''s owner can answer this until the chat'' @ [0x27] @
     js ''s new sharing takes effect''"

datatype background = Wait_Tasks | Stop_Tasks

record setup_fields =
  sf_append_system_prompt :: jstring
  sf_instructions_scope :: jstring
  sf_opencode_models :: "json option"
  sf_opencode_catalog_live :: bool

record live_setup =
  su_id :: jstring
  su_fields :: setup_fields
  su_keepHeldFrom :: jstring
  su_answersFrom :: jstring
  su_background :: background
  su_receivedAt :: int
  su_signaled :: bool
  su_urgent :: bool

definition optional_string :: "json \<Rightarrow> jstring \<Rightarrow> bool" where
  "optional_string body f \<longleftrightarrow> nullish (jget body f) \<or> is_str (jget body f)"

definition setup_strings :: "jstring list" where
  "setup_strings = [js ''append_system_prompt'', js ''instructions_scope'', js ''keep_held_from'', js ''answers_from'']"

definition parse_background :: "json \<Rightarrow> background option" where
  "parse_background v =
     (if nullish v \<or> v = JStr (js ''wait'') then Some Wait_Tasks
      else if v = JStr (js ''stop'') then Some Stop_Tasks else None)"

definition parseSetup :: "json \<Rightarrow> int \<Rightarrow> http_error + live_setup" where
  "parseSetup body now =
     (if \<not> is_obj body then Inl (bad_request (js ''invalid setup body''))
      else (case jget body (js ''setup_id'') of
        JStr i \<Rightarrow>
          if trim i = [] then Inl (bad_request (js ''missing setup_id''))
          else if length i > MAX_SETUP_ID
          then Inl (bad_request (js ''setup_id is too long (max 128)''))
          else (case find (\<lambda>f. \<not> optional_string body f) setup_strings of
              Some f \<Rightarrow> Inl (bad_request (f @ js '' must be a string''))
            | None \<Rightarrow>
                (let models = jget body (js ''opencode_models''); live = jget body (js ''opencode_catalog_live'')
                 in if \<not> nullish models \<and> \<not> is_obj models
                    then Inl (bad_request (js ''opencode_models must be an object''))
                    else if \<not> nullish live \<and> live \<noteq> JBool True \<and> live \<noteq> JBool False
                    then Inl (bad_request (js ''opencode_catalog_live must be a boolean''))
                    else (case parse_background (jget body (js ''background'')) of
                        None \<Rightarrow> Inl (bad_request (js ''background must be \"wait\" or \"stop\"''))
                      | Some bg \<Rightarrow> Inr
                          \<lparr>su_id = i,
                           su_fields = \<lparr>sf_append_system_prompt = str_or [] (jget body (js ''append_system_prompt'')),
                             sf_instructions_scope = str_or [] (jget body (js ''instructions_scope'')),
                             sf_opencode_models = (if nullish models then None else Some models),
                             sf_opencode_catalog_live = (live = JBool True)\<rparr>,
                           su_keepHeldFrom = trim (str_or [] (jget body (js ''keep_held_from''))),
                           su_answersFrom = trim (str_or [] (jget body (js ''answers_from''))),
                           su_background = bg, su_receivedAt = now, su_signaled = False, su_urgent = False\<rparr>)))
      | _ \<Rightarrow> Inl (bad_request (js ''missing setup_id''))))"

definition applySetupFields :: "json_obj \<Rightarrow> setup_fields \<Rightarrow> json_obj" where
  "applySetupFields spec f =
     (let s1 = jput (js ''append_system_prompt'') (JStr (sf_append_system_prompt f)) spec;
          s2 = jput (js ''instructions_scope'') (JStr (sf_instructions_scope f)) s1;
          s3 = jput (js ''opencode_catalog_live'') (JBool (sf_opencode_catalog_live f)) s2
      in case sf_opencode_models f of
           Some m \<Rightarrow> jput (js ''opencode_models'') m s3
         | None \<Rightarrow> AList.delete (js ''opencode_models'') s3)"

definition setupSpec :: "json_obj \<Rightarrow> setup_fields \<Rightarrow> jstring \<Rightarrow> json_obj" where
  "setupSpec spec f resumeHandle =
     (let nxt = applySetupFields spec f
      in if resumeHandle \<noteq> [] then jput (js ''resume_sdk_session_id'') (JStr resumeHandle) nxt else nxt)"

definition retireGrace :: "nat \<Rightarrow> nat" where
  "retireGrace backgroundTasks = (if backgroundTasks > 0 then RETIRE_BACKGROUND_GRACE_MS else RETIRE_GRACE_MS)"

definition heldMessage :: "json_obj \<Rightarrow> json_obj" where
  "heldMessage visible = jput (js ''held'') (JBool True) visible"

definition mayDecide :: "jstring \<Rightarrow> jstring \<Rightarrow> author option \<Rightarrow> bool" where
  "mayDecide answersFrom behavior decidedBy \<longleftrightarrow>
     answersFrom = [] \<or> behavior \<noteq> js ''allow'' \<or> map_option au_id decidedBy = Some answersFrom"

text \<open>Input held, or about to be taken.\<close>

record input =
  in_prompt :: jstring
  in_visible :: json_obj
  in_authorId :: jstring
  in_platform :: bool
  in_messageId :: jstring

definition keepsInput :: "jstring \<Rightarrow> input \<Rightarrow> bool" where
  "keepsInput keepFrom item \<longleftrightarrow> keepFrom = [] \<or> in_platform item \<or> in_authorId item = keepFrom"

fun filterHeld :: "input list \<Rightarrow> jstring \<Rightarrow> input list \<times> nat" where
  "filterHeld [] keepFrom = ([], 0)"
| "filterHeld (item # held) keepFrom =
     (let (kept, dropped) = filterHeld held keepFrom
      in if keepsInput keepFrom item then (item # kept, dropped) else (kept, Suc dropped))"

definition setupSignaled :: "live_setup \<Rightarrow> bool" where
  "setupSignaled su = su_signaled su"

definition setupExpired :: "live_setup \<Rightarrow> int \<Rightarrow> bool" where
  "setupExpired su now \<longleftrightarrow> \<not> su_signaled su \<and> now - su_receivedAt su \<ge> SETUP_APPLY_FALLBACK_MS"

text \<open>What the swap looks at in a session.\<close>

record swap_view =
  sv_ending :: bool
  sv_state :: session_state
  sv_controlBusy :: "jstring option"
  sv_pending :: nat
  sv_parks :: nat
  sv_held :: nat
  sv_idleSince :: int

definition readyToSwap :: "swap_view \<Rightarrow> live_setup \<Rightarrow> nat \<Rightarrow> int \<Rightarrow> bool" where
  "readyToSwap s su backgroundTasks now =
     (if sv_ending s \<or> sv_state s \<noteq> Idle \<or> sv_controlBusy s \<noteq> None then False
      else if sv_pending s > 0 \<or> sv_parks s > 0 then False
      else if su_background su = Stop_Tasks \<or> sv_held s > 0 \<or> su_urgent su then True
      else backgroundTasks = 0 \<and> now - sv_idleSince s \<ge> SETUP_IDLE_SETTLE_MS)"

text \<open>
  \<open>settledWithin\<close>: a promise that settles with \<open>v\<close> after \<open>t\<close> milliseconds (\<open>None\<close>: never)
  raced with the deadline.
\<close>

definition settledWithin :: "(nat \<times> bool) option \<Rightarrow> nat \<Rightarrow> bool" where
  "settledWithin outcome ms = (case outcome of None \<Rightarrow> False | Some (t, v) \<Rightarrow> t < ms \<and> v)"

section \<open>What the rules give\<close>

lemma filterHeld_filter:
  "filterHeld held k = (filter (keepsInput k) held, length held - length (filter (keepsInput k) held))"
proof (induction held)
  case (Cons i held)
  have "length (filter (keepsInput k) held) \<le> length held" by simp
  with Cons show ?case by (auto simp: Suc_diff_le)
qed simp

definition setup_keys :: "jstring list" where
  "setup_keys = [js ''append_system_prompt'', js ''instructions_scope'', js ''opencode_catalog_live'',
     js ''opencode_models'', js ''resume_sdk_session_id'']"

lemma jprop_delete: "jprop (AList.delete k kvs) k' = (if k' = k then JUndef else jprop kvs k')"
  by (simp add: jprop_def delete_conv')

text \<open>
  The spec the new harness starts from is the session's own with the set-up's fields: every
  other key keeps its value, the fields read as sent, models not sent are gone, and the
  conversation it resumes is the one it was in.
\<close>

theorem setup_spec_fields:
  "jprop (setupSpec spec f r) (js ''append_system_prompt'') = JStr (sf_append_system_prompt f) \<and>
   jprop (setupSpec spec f r) (js ''instructions_scope'') = JStr (sf_instructions_scope f) \<and>
   jprop (setupSpec spec f r) (js ''opencode_catalog_live'') = JBool (sf_opencode_catalog_live f) \<and>
   jprop (setupSpec spec f r) (js ''opencode_models'') = (case sf_opencode_models f of Some m \<Rightarrow> m | None \<Rightarrow> JUndef) \<and>
   jprop (setupSpec spec f r) (js ''resume_sdk_session_id'') =
     (if r = [] then jprop spec (js ''resume_sdk_session_id'') else JStr r) \<and>
   (k \<notin> set setup_keys \<longrightarrow> jprop (setupSpec spec f r) k = jprop spec k)"
  by (auto simp: setupSpec_def applySetupFields_def Let_def jprop_delete setup_keys_def split: option.split)

theorem setup_spec_fields_witness:
  "jprop (setupSpec [(js ''cwd'', JStr (js ''w''))]
     \<lparr>sf_append_system_prompt = [], sf_instructions_scope = [], sf_opencode_models = None,
      sf_opencode_catalog_live = False\<rparr> []) (js ''cwd'') = JStr (js ''w'')"
  using setup_spec_fields [of "[(js ''cwd'', JStr (js ''w''))]"
      "\<lparr>sf_append_system_prompt = [], sf_instructions_scope = [], sf_opencode_models = None,
      sf_opencode_catalog_live = False\<rparr>" "[]" "js ''cwd''"]
  by (simp add: setup_keys_def)

text \<open>
  A swap runs only at a turn boundary: the session is idle and not ending, no control call
  holds it, nothing waits on a person or a timer, and it stops live background tasks only when
  the set-up says so, input is held, or a caller is waiting.
\<close>

theorem swap_at_turn_boundary:
  assumes "readyToSwap s su tasks now"
  shows "sv_state s = Idle \<and> \<not> sv_ending s \<and> sv_controlBusy s = None \<and> sv_pending s = 0 \<and> sv_parks s = 0 \<and>
    (tasks = 0 \<or> su_background su = Stop_Tasks \<or> sv_held s > 0 \<or> su_urgent su)"
  using assms by (auto simp: readyToSwap_def split: if_splits)

definition sample_setup :: live_setup where
  "sample_setup = \<lparr>su_id = js ''s1'',
     su_fields = \<lparr>sf_append_system_prompt = [], sf_instructions_scope = [], sf_opencode_models = None,
      sf_opencode_catalog_live = False\<rparr>,
     su_keepHeldFrom = [], su_answersFrom = [], su_background = Stop_Tasks, su_receivedAt = 0,
     su_signaled = True, su_urgent = False\<rparr>"

definition sample_view :: swap_view where
  "sample_view = \<lparr>sv_ending = False, sv_state = Idle, sv_controlBusy = None, sv_pending = 0, sv_parks = 0,
     sv_held = 0, sv_idleSince = 0\<rparr>"

theorem swap_at_turn_boundary_witness:
  "readyToSwap sample_view sample_setup 2 5 \<and> sv_state sample_view = Idle \<and> sv_pending sample_view = 0"
  using swap_at_turn_boundary [of sample_view sample_setup 2 5]
  by (simp add: readyToSwap_def sample_view_def sample_setup_def)

end
