(* ===== verification/RunTools.thy ===== *)
theory RunTools
  imports JsJson
begin

text \<open>
  \<^verbatim>\<open>drivers/run-tools.mjs\<close> and \<^verbatim>\<open>drivers/opencode-run-tools.mjs\<close>: the platform tools that
  park a turn. A call is validated here into an outcome; a park is created by the daemon, and
  its resolution comes back later. \<^verbatim>\<open>Date.parse\<close> and \<^verbatim>\<open>toISOString\<close> are the arguments
  \<open>parse\<close> (\<open>None\<close>: not a date) and \<open>isof\<close>; times are milliseconds. The tools' descriptions
  and schemas, text for the model, are left out.
\<close>

definition SLEEP :: jstring where "SLEEP = js ''sleep''"
definition SLEEP_UNTIL :: jstring where "SLEEP_UNTIL = js ''sleep_until''"
definition WAIT_FOR_TASK :: jstring where "WAIT_FOR_TASK = js ''wait_for_task''"
definition ENDING :: jstring where "ENDING = js ''session is ending; not sleeping''"
definition ENDING_WAIT :: jstring where "ENDING_WAIT = js ''session is ending; not waiting''"
definition MAX_TASK_WAITS :: nat where "MAX_TASK_WAITS = 4"

definition platformToolNames :: "json \<Rightarrow> jstring \<Rightarrow> jstring list" where
  "platformToolNames spec pre =
     map (\<lambda>n. pre @ n)
       ((if truthy (jget spec (js ''interactive'')) then [] else [SLEEP, SLEEP_UNTIL]) @
        (if jget spec (js ''task_waits'') = JBool True then [WAIT_FOR_TASK] else []))"

section \<open>Arguments\<close>

definition sleepSeconds :: "json \<Rightarrow> nat \<Rightarrow> jstring + nat" where
  "sleepSeconds args maxs =
     (case jget args (js ''seconds'') of
       JInt n \<Rightarrow> if n < 1 \<or> n > int maxs
         then Inl (js ''seconds must be an integer between 1 and '' @ dec maxs) else Inr (nat n)
     | _ \<Rightarrow> Inl (js ''seconds must be an integer between 1 and '' @ dec maxs))"

text \<open>The pattern of a timestamp that carries its zone, letters in either case.\<close>

definition digits :: "nat \<Rightarrow> jstring \<Rightarrow> bool" where
  "digits n s \<longleftrightarrow> length s = n \<and> list_all is_digit s"

definition iso_zone :: "jstring \<Rightarrow> bool" where
  "iso_zone z \<longleftrightarrow> z = [0x5A] \<or> z = [0x7A] \<or>
     (length z = 6 \<and> (hd z = 0x2B \<or> hd z = 0x2D) \<and> digits 2 (take 2 (tl z)) \<and> z ! 3 = 0x3A \<and>
      digits 2 (drop 4 z))"

text \<open>What follows the minutes: seconds, with a fraction of one digit or more, and the zone.\<close>

definition iso_tail :: "jstring \<Rightarrow> bool" where
  "iso_tail s \<longleftrightarrow> iso_zone s \<or>
     (length s > 3 \<and> hd s = 0x3A \<and> digits 2 (take 2 (tl s)) \<and>
      (let r = drop 3 s
       in iso_zone r \<or>
          (hd r = 0x2E \<and> (let f = takeWhile is_digit (tl r) in f \<noteq> [] \<and> iso_zone (drop (length f) (tl r))))))"

definition isoWithOffset :: "jstring \<Rightarrow> bool" where
  "isoWithOffset s \<longleftrightarrow> length s \<ge> 17 \<and> digits 4 (take 4 s) \<and> s ! 4 = 0x2D \<and> digits 2 (take 2 (drop 5 s)) \<and>
     s ! 7 = 0x2D \<and> digits 2 (take 2 (drop 8 s)) \<and> (s ! 10 = 0x54 \<or> s ! 10 = 0x74) \<and>
     digits 2 (take 2 (drop 11 s)) \<and> s ! 13 = 0x3A \<and> digits 2 (take 2 (drop 14 s)) \<and> iso_tail (drop 16 s)"

datatype until_result = Until jstring jstring | Passed jstring | Bad_until jstring

definition sleepUntilDeadline ::
  "(jstring \<Rightarrow> int option) \<Rightarrow> (int \<Rightarrow> jstring) \<Rightarrow> json \<Rightarrow> nat \<Rightarrow> int \<Rightarrow> until_result" where
  "sleepUntilDeadline parse isof args maxs now =
     (let timestamp = jget args (js ''timestamp'');
          t = (case timestamp of JStr s \<Rightarrow> if isoWithOffset s then parse s else None | _ \<Rightarrow> None)
      in case t of
           None \<Rightarrow> Bad_until (js ''invalid timestamp; use ISO-8601 UTC like 2026-07-10T18:00:00Z'')
         | Some t \<Rightarrow>
             if t - now \<le> 0 then Passed (js ''that time has already passed; continuing without sleeping'')
             else if t - now > int maxs * 1000
             then Bad_until (js ''sleep_until is capped at '' @ dec maxs @
               js '' seconds from now; for longer waits, end your final turn with a handoff so the run can be continued later'')
             else Until (str_or [] timestamp) (isof t))"

definition TASK_ID :: "jstring \<Rightarrow> bool" where
  "TASK_ID s \<longleftrightarrow> (let r = drop 5 s in starts_with s (js ''task_'') \<and> 1 \<le> length r \<and> length r \<le> 64 \<and>
     list_all (\<lambda>u. is_alnum u \<or> u = 0x2D) r)"

definition waitForTaskArgs :: "json \<Rightarrow> nat \<Rightarrow> jstring + jstring \<times> nat" where
  "waitForTaskArgs args maxs =
     (let bad = js ''timeout_seconds must be an integer between 1 and '' @ dec maxs
      in case jget args (js ''id'') of
        JStr i \<Rightarrow>
          if \<not> TASK_ID i then Inl (js ''id must be the task id delegate returned, like task_<uuid>'')
          else (case jget args (js ''timeout_seconds'') of
              JUndef \<Rightarrow> Inr (i, maxs)
            | JInt n \<Rightarrow> if n < 1 \<or> n > int maxs then Inl bad else Inr (i, nat n)
            | _ \<Rightarrow> Inl bad)
      | _ \<Rightarrow> Inl (js ''id must be the task id delegate returned, like task_<uuid>''))"

section \<open>Parks\<close>

text \<open>How the tool result of a park is rendered from the message that wakes it.\<close>

datatype wake_text = Slept nat jstring | Slept_until jstring | Task_wait nat

record park_request =
  pr_kind :: jstring
  pr_payload :: json
  pr_deadline :: jstring
  pr_text :: wake_text

text \<open>A park as the session keeps it.\<close>

record park =
  pk_kind :: jstring
  pk_deadline :: jstring
  pk_ts :: int
  pk_text :: wake_text

definition stillRunningText :: "nat \<Rightarrow> jstring" where
  "stillRunningText seconds = js ''Stopped waiting after '' @ dec seconds @
     js ''s: the task is still running. Its result will come into this conversation as a platform message when it finishes; task_status shows how it is going. Carry on, or end your turn.''"

definition space_before :: "jstring \<Rightarrow> jstring" where
  "space_before msg = (if msg = [] then [] else [0x20] @ msg)"

fun resultText :: "wake_text \<Rightarrow> jstring \<Rightarrow> jstring" where
  "resultText (Slept seconds deadline) msg =
     js ''Woke up: slept '' @ dec seconds @ js ''s (until '' @ deadline @ js '').'' @ space_before msg @ js '' Continue the task.''"
| "resultText (Slept_until deadline) msg =
     js ''Woke up at the requested time ('' @ deadline @ js '').'' @ space_before msg @ js '' Continue the task.''"
| "resultText (Task_wait seconds) msg = (if msg = [] then stillRunningText seconds else msg)"

text \<open>
  The outcome of a call before any park resolves: an error, marked when the session is ending,
  a text, or a park to create.
\<close>

datatype outcome = Refused jstring bool | Text_result jstring | Park park_request

definition runSleep :: "(int \<Rightarrow> jstring) \<Rightarrow> int \<Rightarrow> bool \<Rightarrow> nat \<Rightarrow> json \<Rightarrow> outcome" where
  "runSleep isof now ending maxs args =
     (if ending then Refused ENDING True
      else (case sleepSeconds args maxs of
        Inl e \<Rightarrow> Refused e False
      | Inr seconds \<Rightarrow>
          (let deadline = isof (now + int seconds * 1000)
           in Park \<lparr>pr_kind = js ''timer'', pr_payload = JObj [(js ''seconds'', JInt (int seconds))],
                    pr_deadline = deadline, pr_text = Slept seconds deadline\<rparr>)))"

definition runSleepUntil ::
  "(jstring \<Rightarrow> int option) \<Rightarrow> (int \<Rightarrow> jstring) \<Rightarrow> int \<Rightarrow> bool \<Rightarrow> nat \<Rightarrow> json \<Rightarrow> outcome" where
  "runSleepUntil parse isof now ending maxs args =
     (if ending then Refused ENDING True
      else (case sleepUntilDeadline parse isof args maxs now of
        Bad_until e \<Rightarrow> Refused e False
      | Passed text \<Rightarrow> Text_result text
      | Until timestamp deadline \<Rightarrow>
          Park \<lparr>pr_kind = js ''timer'', pr_payload = JObj [(js ''timestamp'', JStr timestamp)],
                pr_deadline = deadline, pr_text = Slept_until deadline\<rparr>))"

definition runWaitForTask ::
  "(int \<Rightarrow> jstring) \<Rightarrow> int \<Rightarrow> bool \<Rightarrow> nat \<Rightarrow> (jstring, park) jmap \<Rightarrow> json \<Rightarrow> outcome" where
  "runWaitForTask isof now ending maxs parks args =
     (if ending then Refused ENDING_WAIT True
      else (case waitForTaskArgs args maxs of
        Inl e \<Rightarrow> Refused e False
      | Inr (i, seconds) \<Rightarrow>
          if length (filter (\<lambda>(k, p). pk_kind p = js ''task'') parks) \<ge> MAX_TASK_WAITS
          then Refused (js ''at most '' @ dec MAX_TASK_WAITS @
                 js '' waits at once: wait for the tasks one after another'') False
          else Park \<lparr>pr_kind = js ''task'',
                 pr_payload = JObj [(js ''task_id'', JStr i), (js ''seconds'', JInt (int seconds))],
                 pr_deadline = isof (now + int seconds * 1000), pr_text = Task_wait seconds\<rparr>))"

definition NEW_MESSAGE :: jstring where "NEW_MESSAGE = js ''a new message came in''"
definition NEW_MESSAGE_CANCELS :: "jstring list" where "NEW_MESSAGE_CANCELS = [js ''task'']"

definition parkCancellation :: "jstring \<Rightarrow> jstring \<Rightarrow> jstring \<times> jstring" where
  "parkCancellation kind reason =
     (if kind = js ''task''
      then (reason @ js ''; wait stopped'',
            js ''Stopped waiting: '' @ reason @ js ''. The task keeps running; its result will come into this conversation as a platform message.'')
      else (reason @ js ''; sleep aborted'',
            js ''Sleep aborted: '' @ reason @ js ''; sleep aborted. Do not start new work '' @ [0x2014] @ js '' stop now, with at most a one-line note of where you left off.''))"

definition parkCancellations ::
  "(jstring, park) jmap \<Rightarrow> jstring \<Rightarrow> jstring list option \<Rightarrow> (jstring \<times> jstring \<times> jstring) list" where
  "parkCancellations parks reason kinds =
     map (\<lambda>(i, p). (i, parkCancellation (pk_kind p) reason))
       (filter (\<lambda>(i, p). case kinds of None \<Rightarrow> True | Some ks \<Rightarrow> pk_kind p \<in> set ks) parks)"

definition parkDeadlineError :: "(jstring \<Rightarrow> int option) \<Rightarrow> json \<Rightarrow> nat \<Rightarrow> int \<Rightarrow> jstring option" where
  "parkDeadlineError parse deadline maxs now =
     (if nullish deadline then None
      else (case (case deadline of JStr d \<Rightarrow> parse d | _ \<Rightarrow> None) of
        None \<Rightarrow> Some (js ''park deadline '' @ json_text deadline @ js '' is not an ISO-8601 timestamp'')
      | Some t \<Rightarrow>
          if t \<le> now then Some (js ''park deadline '' @ str_or [] deadline @ js '' is in the past'')
          else if t - now > (int maxs + 60) * 1000
          then Some (js ''park deadline '' @ str_or [] deadline @ js '' exceeds the '' @ dec maxs @ js ''s cap'')
          else None))"

text \<open>The text of a park's result, as the tools that return one string flatten it.\<close>

definition parkText :: "json \<Rightarrow> jstring" where
  "parkText r = join [10] (filter (\<lambda>t. t \<noteq> [])
     (map (\<lambda>c. str_or [] (jget c (js ''text''))) (arr_or_nil (jget r (js ''content'')))))"

text \<open>
  The endpoint the opencode tools poll: a refusal or a text answers at once, a park is answered
  when it resolves. A tool the session was not given is unknown.
\<close>

datatype tool_reply = Reply_now nat json | Reply_later park_request

definition handlePlatformTool ::
  "(jstring \<Rightarrow> int option) \<Rightarrow> (int \<Rightarrow> jstring) \<Rightarrow> int \<Rightarrow> json \<Rightarrow> bool \<Rightarrow> nat \<Rightarrow> (jstring, park) jmap \<Rightarrow>
    jstring \<Rightarrow> json \<Rightarrow> tool_reply" where
  "handlePlatformTool parse isof now spec ending maxs parks name args =
     (if name \<notin> set (platformToolNames spec [])
      then Reply_now 404 (JObj [(js ''error'', JStr (js ''unknown platform tool '' @ name))])
      else (case (if name = SLEEP then runSleep isof now ending maxs args
                  else if name = SLEEP_UNTIL then runSleepUntil parse isof now ending maxs args
                  else runWaitForTask isof now ending maxs parks args) of
          Refused e fin \<Rightarrow> Reply_now (if fin then 409 else 400) (JObj [(js ''error'', JStr e)])
        | Text_result t \<Rightarrow> Reply_now 200 (JObj [(js ''text'', JStr t)])
        | Park r \<Rightarrow> Reply_later r))"

section \<open>The dispatchers and the guard agree\<close>

text \<open>
  A park a tool asks for always passes the daemon's own guard: whatever arguments were
  accepted, the deadline parses, lies ahead and within the cap, at any time from the call up to
  the deadline; and a task wait is asked for only while fewer than four are open.
\<close>

theorem accepted_parks_pass_guard:
  assumes "\<And>t. parse (isof t) = Some t"
    and "handlePlatformTool parse isof now spec ending maxs parks name args = Reply_later r"
    and "now \<le> later" and "parse (pr_deadline r) = Some t" and "later < t"
  shows "parkDeadlineError parse (JStr (pr_deadline r)) maxs later = None \<and> \<not> ending \<and>
    (pr_kind r = js ''task'' \<longrightarrow> length (filter (\<lambda>(k, p). pk_kind p = js ''task'') parks) < MAX_TASK_WAITS)"
proof -
  have task: "\<not> ending" "pr_kind r = js ''task'' \<longrightarrow> length (filter (\<lambda>(k, p). pk_kind p = js ''task'') parks) < MAX_TASK_WAITS"
    using assms(2)
    by (auto simp: handlePlatformTool_def runSleep_def runSleepUntil_def runWaitForTask_def Let_def
        split: if_splits outcome.splits sum.splits until_result.splits)
  have cap: "t - now \<le> int maxs * 1000"
    using assms(1,2,4)
    by (auto simp: handlePlatformTool_def runSleep_def runSleepUntil_def runWaitForTask_def Let_def
        sleepSeconds_def waitForTaskArgs_def sleepUntilDeadline_def
        split: if_splits outcome.splits sum.splits until_result.splits json.splits option.splits)
  have "parkDeadlineError parse (JStr (pr_deadline r)) maxs later = None"
    using assms(3-5) cap by (simp add: parkDeadlineError_def nullish_def algebra_simps)
  with task show ?thesis by blast
qed

definition sample_spec :: json where
  "sample_spec = JObj [(js ''interactive'', JBool False)]"

text \<open>A clock that writes the time as that many units.\<close>

definition unary_iso :: "int \<Rightarrow> jstring" where
  "unary_iso t = (if t < 0 then [0x2D] @ replicate (nat (- t)) 0x31 else replicate (nat t) 0x31)"

definition unary_parse :: "jstring \<Rightarrow> int option" where
  "unary_parse s = (if s \<noteq> [] \<and> hd s = 0x2D then Some (- int (length (tl s))) else Some (int (length s)))"

lemma unary_round_trip: "unary_parse (unary_iso t) = Some t"
  by (auto simp: unary_parse_def unary_iso_def hd_replicate)

theorem accepted_parks_pass_guard_witness:
  "\<exists>r. handlePlatformTool unary_parse unary_iso 5 sample_spec False 60 [] SLEEP
      (JObj [(js ''seconds'', JInt 3)]) = Reply_later r \<and>
     parkDeadlineError unary_parse (JStr (pr_deadline r)) 60 7 = None"
proof -
  let ?r = "\<lparr>pr_kind = js ''timer'', pr_payload = JObj [(js ''seconds'', JInt 3)],
    pr_deadline = unary_iso 3005, pr_text = Slept 3 (unary_iso 3005)\<rparr>"
  have r: "handlePlatformTool unary_parse unary_iso 5 sample_spec False 60 [] SLEEP
      (JObj [(js ''seconds'', JInt 3)]) = Reply_later ?r"
    by (simp add: handlePlatformTool_def platformToolNames_def sample_spec_def runSleep_def sleepSeconds_def
        SLEEP_def SLEEP_UNTIL_def Let_def)
  from accepted_parks_pass_guard [OF unary_round_trip r, of 7 3005] unary_round_trip [of 3005] r
  show ?thesis by auto
qed

text \<open>
  Cancelling parks answers exactly those of the kinds asked for (all of them by default),
  once each and in the order they were made; a sleep is told to stop, a task wait that its
  task goes on.
\<close>

theorem park_cancellations_exact:
  "map fst (parkCancellations parks reason kinds) =
     map fst (filter (\<lambda>(i, p). case kinds of None \<Rightarrow> True | Some ks \<Rightarrow> pk_kind p \<in> set ks) parks) \<and>
   list_all (\<lambda>(i, resolution, text). \<exists>p. (i, p) \<in> set parks \<and>
     resolution = reason @ (if pk_kind p = js ''task'' then js ''; wait stopped'' else js ''; sleep aborted''))
     (parkCancellations parks reason kinds)"
  by (induction parks) (auto simp: parkCancellations_def parkCancellation_def list_all_iff)

text \<open>
  A chat never gets a sleep tool, and a session gets the task wait exactly when its spec
  says so; the endpoint answers any other name with a 404, parking nothing.
\<close>

theorem platform_tools_gated:
  "(SLEEP \<in> set (platformToolNames spec []) \<longleftrightarrow> \<not> truthy (jget spec (js ''interactive''))) \<and>
   (SLEEP_UNTIL \<in> set (platformToolNames spec []) \<longleftrightarrow> \<not> truthy (jget spec (js ''interactive''))) \<and>
   (WAIT_FOR_TASK \<in> set (platformToolNames spec []) \<longleftrightarrow> jget spec (js ''task_waits'') = JBool True) \<and>
   (name \<in> set (platformToolNames spec []) \<or>
     handlePlatformTool parse isof now spec ending maxs parks name args =
       Reply_now 404 (JObj [(js ''error'', JStr (js ''unknown platform tool '' @ name))]))"
  by (auto simp: platformToolNames_def handlePlatformTool_def SLEEP_def SLEEP_UNTIL_def WAIT_FOR_TASK_def)

end
