(* ===== verification/Ledgers.thy ===== *)
theory Ledgers
  imports JsJson
begin

text \<open>
  Bookkeeping the drivers share: the background-task ledger (\<^verbatim>\<open>drivers/claude-tasks.mjs\<close>)
  and the to-do lists (\<^verbatim>\<open>drivers/todos.mjs\<close>).
\<close>

section \<open>Background tasks\<close>

definition BACKGROUND_TASK_TTL_MS :: int where "BACKGROUND_TASK_TTL_MS = 2 * 60 * 60 * 1000"
definition CLI_TIMEOUT_CAP_MS :: int where "CLI_TIMEOUT_CAP_MS = 2 ^ 31 - 1"

text \<open>An environment value: unset, or its text. \<open>None\<close> is the source's \<open>null\<close>.\<close>

definition read_ms :: "json \<Rightarrow> int option" where
  "read_ms v =
     (let t = trim (if nullish v then [] else js_String v)
      in if t = [] then None
         else if \<not> list_all is_digit t then Some CLI_TIMEOUT_CAP_MS
         else if dec_value t > 0 then Some (int (dec_value t)) else None)"

definition shellCeilingMs :: "json_obj \<Rightarrow> int" where
  "shellCeilingMs env =
     (let d = (case read_ms (jprop env (js ''BASH_DEFAULT_TIMEOUT_MS'')) of Some n \<Rightarrow> n | None \<Rightarrow> 2 * 60 * 1000);
          bashMax = (case read_ms (jprop env (js ''BASH_MAX_TIMEOUT_MS'')) of
              None \<Rightarrow> max (10 * 60 * 1000) d | Some m \<Rightarrow> max m d)
      in min (max (2 * 60 * 60 * 1000) bashMax) CLI_TIMEOUT_CAP_MS)"

definition levelTaskTtlMs :: "json_obj \<Rightarrow> int" where
  "levelTaskTtlMs env = shellCeilingMs env + 60 * 60 * 1000"

record task =
  tk_ts :: int
  tk_description :: json

record ledger =
  lg_tasks :: "(json, task) jmap"
  lg_level :: bool
  lg_levelTtlMs :: int

definition createTaskLedger :: "json_obj \<Rightarrow> ledger" where
  "createTaskLedger env = \<lparr>lg_tasks = [], lg_level = False, lg_levelTtlMs = levelTaskTtlMs env\<rparr>"

definition or_empty :: "json \<Rightarrow> json" where
  "or_empty v = (if truthy v then v else JStr [])"

definition settled_status :: "json \<Rightarrow> bool" where
  "settled_status v \<longleftrightarrow> v \<in> {JStr (js ''completed''), JStr (js ''failed''), JStr (js ''killed'')}"

fun level_tasks :: "int \<Rightarrow> json list \<Rightarrow> (json, task) jmap \<Rightarrow> (json, task) jmap" where
  "level_tasks now [] m = m"
| "level_tasks now (t # ts) m =
     (if \<not> is_str (jget t (js ''task_id'')) \<or> jget t (js ''ambient'') = JBool True then level_tasks now ts m
      else level_tasks now ts (AList.update (jget t (js ''task_id''))
             \<lparr>tk_ts = now, tk_description = or_empty (jget t (js ''description''))\<rparr> m))"

definition refresh_task :: "int \<Rightarrow> json \<Rightarrow> ledger \<Rightarrow> ledger" where
  "refresh_task now i lg =
     (case map_of (lg_tasks lg) i of
       None \<Rightarrow> lg
     | Some t \<Rightarrow> lg\<lparr>lg_tasks := AList.update i (t\<lparr>tk_ts := now\<rparr>) (lg_tasks lg)\<rparr>)"

definition drop_task :: "json \<Rightarrow> ledger \<Rightarrow> ledger \<times> bool" where
  "drop_task i lg = (lg\<lparr>lg_tasks := AList.delete i (lg_tasks lg)\<rparr>, i \<in> fst ` set (lg_tasks lg))"

definition applyTaskMessage :: "int \<Rightarrow> json \<Rightarrow> ledger \<Rightarrow> ledger \<times> bool" where
  "applyTaskMessage now msg lg =
     (if jget msg (js ''type'') \<noteq> JStr (js ''system'') then (lg, False)
      else (let sub = jget msg (js ''subtype''); i = jget msg (js ''task_id'')
        in if sub = JStr (js ''background_tasks_changed'') then
             (case jget msg (js ''tasks'') of
               JArr ts \<Rightarrow>
                 (let before = map fst (lg_tasks lg); after = level_tasks now ts []
                  in (lg\<lparr>lg_level := True, lg_tasks := after\<rparr>,
                      length after \<noteq> length before \<or> (\<exists>k \<in> set (map fst after). k \<notin> set before)))
             | _ \<Rightarrow> (lg, False))
           else if \<not> truthy i then (lg, False)
           else if sub = JStr (js ''task_started'') then
             (if lg_level lg \<or> jget msg (js ''ambient'') = JBool True
                 \<or> jget msg (js ''skip_transcript'') = JBool True then (lg, False)
              else (lg\<lparr>lg_tasks := AList.update i
                       \<lparr>tk_ts = now, tk_description = or_empty (jget msg (js ''description''))\<rparr> (lg_tasks lg)\<rparr>, True))
           else if sub = JStr (js ''task_progress'') then (refresh_task now i lg, False)
           else if sub = JStr (js ''task_updated'') then
             (if settled_status (jget (jget msg (js ''patch'')) (js ''status'')) then drop_task i lg
              else (refresh_task now i lg, False))
           else if sub = JStr (js ''task_notification'') then drop_task i lg
           else (lg, False)))"

definition clearTaskLedger :: "ledger \<Rightarrow> ledger" where
  "clearTaskLedger lg = lg\<lparr>lg_tasks := []\<rparr>"

definition countBackgroundTasks :: "ledger \<Rightarrow> int \<Rightarrow> nat" where
  "countBackgroundTasks lg now =
     (let ttl = (if lg_level lg then lg_levelTtlMs lg else BACKGROUND_TASK_TTL_MS)
      in length (filter (\<lambda>(i, t). now - tk_ts t < ttl) (lg_tasks lg)))"

section \<open>To-do lists\<close>

record todo =
  td_content :: jstring
  td_status :: jstring
  td_priority :: "jstring option"

definition todo_status :: "json \<Rightarrow> jstring" where
  "todo_status v = (case v of JStr s \<Rightarrow>
       if s \<in> {js ''pending'', js ''in_progress'', js ''completed'', js ''cancelled''} then s else js ''pending''
     | _ \<Rightarrow> js ''pending'')"

definition todo_priority :: "json \<Rightarrow> jstring option" where
  "todo_priority v = (case v of JStr s \<Rightarrow>
       if s \<in> {js ''high'', js ''medium'', js ''low''} then Some s else None
     | _ \<Rightarrow> None)"

fun todo_items :: "json list \<Rightarrow> todo list" where
  "todo_items [] = []"
| "todo_items (t # ts) =
     (case jget t (js ''content'') of
       JStr c \<Rightarrow> if c = [] then todo_items ts
         else \<lparr>td_content = c, td_status = todo_status (jget t (js ''status'')),
               td_priority = todo_priority (jget t (js ''priority''))\<rparr> # todo_items ts
     | _ \<Rightarrow> todo_items ts)"

definition normalizeTodos :: "json \<Rightarrow> todo list option" where
  "normalizeTodos raw = (case raw of JArr ts \<Rightarrow> Some (todo_items ts) | _ \<Rightarrow> None)"

fun codex_items :: "json list \<Rightarrow> todo list" where
  "codex_items [] = []"
| "codex_items (i # is) =
     (case jget i (js ''text'') of
       JStr c \<Rightarrow> if c = [] then codex_items is
         else \<lparr>td_content = c,
               td_status = (if truthy (jget i (js ''completed'')) then js ''completed'' else js ''pending''),
               td_priority = None\<rparr> # codex_items is
     | _ \<Rightarrow> codex_items is)"

definition todosFromCodexItem :: "json \<Rightarrow> todo list option" where
  "todosFromCodexItem item =
     (case (jget item (js ''type'') = JStr (js ''todoList''), jget item (js ''items'')) of
       (True, JArr xs) \<Rightarrow> Some (codex_items xs)
     | _ \<Rightarrow> None)"

text \<open>The tracker's pending map, by tool use id; it emits the lists whose calls were executed.\<close>

type_synonym todo_pending = "(json, todo list) jmap"

definition message_blocks :: "json \<Rightarrow> json list" where
  "message_blocks msg = arr_or_nil (jget (jget msg (js ''message'')) (js ''content''))"

definition side_message :: "json \<Rightarrow> bool" where
  "side_message msg \<longleftrightarrow> truthy (jget msg (js ''parent_tool_use_id'')) \<or> truthy (jget msg (js ''isSynthetic''))"

fun todo_uses :: "json list \<Rightarrow> todo_pending \<Rightarrow> todo_pending" where
  "todo_uses [] pending = pending"
| "todo_uses (b # bs) pending =
     (if jget b (js ''type'') \<noteq> JStr (js ''tool_use'') \<or> jget b (js ''name'') \<noteq> JStr (js ''TodoWrite'')
         \<or> \<not> truthy (jget b (js ''id'')) then todo_uses bs pending
      else (case normalizeTodos (jget (jget b (js ''input'')) (js ''todos'')) of
          None \<Rightarrow> todo_uses bs pending
        | Some todos \<Rightarrow>
            (let p1 = AList.update (jget b (js ''id'')) todos pending
             in todo_uses bs (if length p1 > 16 then tl p1 else p1))))"

fun todo_results :: "json list \<Rightarrow> todo_pending \<Rightarrow> todo_pending \<times> todo list list" where
  "todo_results [] pending = (pending, [])"
| "todo_results (b # bs) pending =
     (if jget b (js ''type'') \<noteq> JStr (js ''tool_result'') then todo_results bs pending
      else (let i = jget b (js ''tool_use_id'')
        in case map_of pending i of
             None \<Rightarrow> todo_results bs pending
           | Some todos \<Rightarrow>
               (let (p, out) = todo_results bs (AList.delete i pending)
                in (p, if truthy (jget b (js ''is_error'')) then out else todos # out))))"

definition todo_onAssistant :: "json \<Rightarrow> todo_pending \<Rightarrow> todo_pending" where
  "todo_onAssistant msg pending = (if side_message msg then pending else todo_uses (message_blocks msg) pending)"

definition todo_onToolResult :: "json \<Rightarrow> todo_pending \<Rightarrow> todo_pending \<times> todo list list" where
  "todo_onToolResult msg pending =
     (if side_message msg then (pending, []) else todo_results (message_blocks msg) pending)"

section \<open>The ledger follows the level\<close>

lemma level_tasks_keys:
  "fst ` set (level_tasks now ts m) = fst ` set m \<union>
     {jget t (js ''task_id'') | t. t \<in> set ts \<and> is_str (jget t (js ''task_id'')) \<and> jget t (js ''ambient'') \<noteq> JBool True}"
proof (induction ts arbitrary: m)
  case (Cons t ts)
  then show ?case by (auto simp: dom_update)
qed simp

definition settles :: "json \<Rightarrow> json \<Rightarrow> bool" where
  "settles msg i \<longleftrightarrow> jget msg (js ''type'') = JStr (js ''system'') \<and> jget msg (js ''task_id'') = i \<and> truthy i \<and>
     (jget msg (js ''subtype'') = JStr (js ''task_notification'') \<or>
      jget msg (js ''subtype'') = JStr (js ''task_updated'') \<and>
        settled_status (jget (jget msg (js ''patch'')) (js ''status'')))"

definition is_level :: "json \<Rightarrow> json list \<Rightarrow> bool" where
  "is_level msg ts \<longleftrightarrow> jget msg (js ''type'') = JStr (js ''system'') \<and>
     jget msg (js ''subtype'') = JStr (js ''background_tasks_changed'') \<and> jget msg (js ''tasks'') = JArr ts"

lemma apply_settle: "settles msg i \<Longrightarrow> applyTaskMessage now msg lg = drop_task i lg"
  by (auto simp: settles_def applyTaskMessage_def Let_def)

lemma apply_level:
  "is_level msg ts \<Longrightarrow> fst (applyTaskMessage now msg lg) = lg\<lparr>lg_level := True, lg_tasks := level_tasks now ts []\<rparr>"
  by (simp add: is_level_def applyTaskMessage_def Let_def)

text \<open>
  A task's last level and its settle edge may come in either order: when a level no longer
  lists a task, applying its settle message before or after leaves the same ledger, with
  exactly the listed tasks that are not ambient.
\<close>

theorem level_and_settle_commute:
  assumes "is_level level ts" and "settles edge i" and "\<forall>t \<in> set ts. jget t (js ''task_id'') \<noteq> i"
  shows "fst (applyTaskMessage n2 edge (fst (applyTaskMessage n1 level lg))) =
      fst (applyTaskMessage n1 level (fst (applyTaskMessage n2 edge lg))) \<and>
    fst ` set (lg_tasks (fst (applyTaskMessage n2 edge (fst (applyTaskMessage n1 level lg))))) =
      {jget t (js ''task_id'') | t. t \<in> set ts \<and> is_str (jget t (js ''task_id'')) \<and> jget t (js ''ambient'') \<noteq> JBool True}"
proof -
  let ?t = "level_tasks n1 ts []"
  have "i \<notin> fst ` set ?t" using assms(3) by (auto simp: level_tasks_keys)
  then have "AList.delete i ?t = ?t" by (simp add: delete_id)
  then show ?thesis
    by (simp add: apply_level [OF assms(1)] apply_settle [OF assms(2)] drop_task_def level_tasks_keys)
qed

definition sample_level :: json where
  "sample_level = JObj [(js ''type'', JStr (js ''system'')), (js ''subtype'', JStr (js ''background_tasks_changed'')),
     (js ''tasks'', JArr [JObj [(js ''task_id'', JStr (js ''a''))]])]"

definition sample_edge :: json where
  "sample_edge = JObj [(js ''type'', JStr (js ''system'')), (js ''subtype'', JStr (js ''task_notification'')),
     (js ''task_id'', JStr (js ''b''))]"

theorem level_and_settle_commute_witness:
  "fst (applyTaskMessage 2 sample_edge (fst (applyTaskMessage 1 sample_level (createTaskLedger [])))) =
   fst (applyTaskMessage 1 sample_level (fst (applyTaskMessage 2 sample_edge (createTaskLedger []))))"
  by (rule conjunct1 [OF level_and_settle_commute [of _ "[JObj [(js ''task_id'', JStr (js ''a''))]]" _ "JStr (js ''b'')"]])
    (simp_all add: is_level_def settles_def sample_level_def sample_edge_def)

text \<open>
  Once a level has arrived only a level adds a task: any other message leaves the ledger's
  tasks a subset of what they were, and the count never exceeds the tasks listed.
\<close>

theorem only_level_adds:
  assumes "lg_level lg" and "jget msg (js ''subtype'') \<noteq> JStr (js ''background_tasks_changed'')"
  shows "fst ` set (lg_tasks (fst (applyTaskMessage now msg lg))) \<subseteq> fst ` set (lg_tasks lg) \<and>
    lg_level (fst (applyTaskMessage now msg lg)) \<and>
    countBackgroundTasks (fst (applyTaskMessage now msg lg)) later \<le> length (lg_tasks lg)"
proof -
  let ?l = "lg_tasks (fst (applyTaskMessage now msg lg))"
  have del: "length (AList.delete i m) \<le> length m" for i and m :: "(json, task) jmap"
    by (induction m) auto
  have delkeys: "fst ` set (AList.delete i m) = fst ` set m - {i}" for i and m :: "(json, task) jmap"
    by (induction m) auto
  have len: "length (AList.update i t m) = length m" if "map_of m i = Some t'" for i t t' and m :: "(json, task) jmap"
    using that by (induction m) (auto split: if_splits)
  have keys: "fst ` set (AList.update i t m) = fst ` set m" if "map_of m i = Some t'" for i t t' and m :: "(json, task) jmap"
    using map_of_SomeD [OF that] by (auto simp: dom_update intro: rev_image_eqI)
  have "fst ` set ?l \<subseteq> fst ` set (lg_tasks lg) \<and> length ?l \<le> length (lg_tasks lg) \<and>
      lg_level (fst (applyTaskMessage now msg lg))"
    using assms
    by (auto simp: applyTaskMessage_def refresh_task_def drop_task_def Let_def del len keys delkeys
        split: option.splits)
  moreover have "countBackgroundTasks lg' later \<le> length (lg_tasks lg')" for lg'
    by (simp add: countBackgroundTasks_def Let_def)
  ultimately show ?thesis by (meson le_trans)
qed

theorem only_level_adds_witness:
  "lg_level (fst (applyTaskMessage 2 sample_edge (createTaskLedger []\<lparr>lg_level := True\<rparr>)))"
  using only_level_adds [of "createTaskLedger []\<lparr>lg_level := True\<rparr>" sample_edge 2]
  by (simp add: sample_edge_def)

section \<open>Only executed to-do updates are reported\<close>

lemma todo_results_executed:
  "todo_results bs pending = (p, out) \<Longrightarrow> todos \<in> set out \<Longrightarrow>
    \<exists>b \<in> set bs. jget b (js ''type'') = JStr (js ''tool_result'') \<and> \<not> truthy (jget b (js ''is_error'')) \<and>
      map_of pending (jget b (js ''tool_use_id'')) = Some todos"
proof (induction bs arbitrary: pending p out)
  case (Cons b bs)
  let ?i = "jget b (js ''tool_use_id'')"
  consider "todo_results bs pending = (p, out)" | td out' where "jget b (js ''type'') = JStr (js ''tool_result'')"
      "map_of pending ?i = Some td" "todo_results bs (AList.delete ?i pending) = (p, out')"
      "out = (if truthy (jget b (js ''is_error'')) then out' else td # out')"
    using Cons.prems(1) by (auto simp: Let_def split: if_splits option.splits prod.splits)
  then show ?case
  proof cases
    case 1
    with Cons.IH [OF 1 Cons.prems(2)] show ?thesis by auto
  next
    case 2
    show ?thesis
    proof (cases "todos \<in> set out'")
      case True
      from Cons.IH [OF 2(3) True] obtain b' where "b' \<in> set bs" "jget b' (js ''type'') = JStr (js ''tool_result'')"
        "\<not> truthy (jget b' (js ''is_error''))" "map_of (AList.delete ?i pending) (jget b' (js ''tool_use_id'')) = Some todos"
        by blast
      then show ?thesis by (auto simp: delete_conv' split: if_splits)
    next
      case False
      with 2 Cons.prems(2) show ?thesis by (auto split: if_splits)
    qed
  qed
qed simp

lemma length_update_le: "length (AList.update k v m) \<le> Suc (length m)"
  by (induction m) auto

lemma todo_uses_bound: "length pending \<le> 16 \<Longrightarrow> length (todo_uses bs pending) \<le> 16"
proof (induction bs arbitrary: pending)
  case (Cons b bs)
  have cap: "length (let p1 = AList.update i t pending in if length p1 > 16 then tl p1 else p1) \<le> 16" for i t
    using length_update_le [of i t pending] Cons.prems unfolding Let_def
    by (simp split: if_split) arith
  have "length (todo_uses bs (let p1 = AList.update i t pending in if length p1 > 16 then tl p1 else p1)) \<le> 16" for i t
    using cap by (rule Cons.IH)
  with Cons show ?case by (auto simp: Let_def split: option.split)
qed simp

text \<open>
  A to-do list is reported only when its call was executed: every list emitted for a
  message was pending under the id of a result in it that is no error, side messages (of a
  subagent, or replayed) emit nothing, and never more than sixteen calls are pending.
\<close>

theorem todo_executed_only:
  assumes "todo_onToolResult msg pending = (p, out)" and "todos \<in> set out"
  shows "\<not> side_message msg \<and> (\<exists>b \<in> set (message_blocks msg).
    jget b (js ''type'') = JStr (js ''tool_result'') \<and> \<not> truthy (jget b (js ''is_error'')) \<and>
    map_of pending (jget b (js ''tool_use_id'')) = Some todos) \<and>
    (length pending' \<le> 16 \<longrightarrow> length (todo_onAssistant msg pending') \<le> 16)"
  using assms todo_results_executed [of "message_blocks msg" pending p out todos] todo_uses_bound [of pending']
  by (auto simp: todo_onToolResult_def todo_onAssistant_def split: if_splits)

definition sample_todo_result :: json where
  "sample_todo_result = JObj [(js ''message'', JObj [(js ''content'', JArr [JObj
     [(js ''type'', JStr (js ''tool_result'')), (js ''tool_use_id'', JStr (js ''u''))]])])]"

theorem todo_executed_only_witness:
  "todo_onToolResult sample_todo_result [(JStr (js ''u''), [])] = ([], [[]]) \<and> \<not> side_message sample_todo_result"
proof -
  have r: "todo_onToolResult sample_todo_result [(JStr (js ''u''), [])] = ([], [[]])"
    by (simp add: todo_onToolResult_def side_message_def sample_todo_result_def message_blocks_def)
  from todo_executed_only [OF r, of "[]"] r show ?thesis by simp
qed

end
