(* ===== verification/Decisions.thy ===== *)
theory Decisions
  imports MessageContext
begin

text \<open>
  Questions and permission decisions: \<^verbatim>\<open>drivers/questions.mjs\<close>, the one shape in which every
  harness's questions go out and come back, and \<^verbatim>\<open>event-payloads.mjs\<close>, the payloads of
  decisions and of the context's usage.
\<close>

section \<open>Questions in the platform's shape\<close>

definition asksQuestions :: "json \<Rightarrow> bool" where
  "asksQuestions spec \<longleftrightarrow> truthy (jget spec (js ''interactive'')) \<or> truthy (jget spec (js ''questions''))"

fun question_options :: "json list \<Rightarrow> json list" where
  "question_options [] = []"
| "question_options (o1 # os) =
     (case jget o1 (js ''label'') of
       JStr l \<Rightarrow> if l = [] then question_options os
         else JObj [(js ''label'', JStr l), (js ''description'', JStr (str_or [] (jget o1 (js ''description''))))]
                # question_options os
     | _ \<Rightarrow> question_options os)"

text \<open>A question of the platform: its id as the harness gave it, or made for it.\<close>

record question =
  q_id :: json
  q_question :: jstring
  q_header :: jstring
  q_options :: "json list"
  q_multiSelect :: bool

definition platformQuestion :: "json \<Rightarrow> json \<Rightarrow> bool \<Rightarrow> question" where
  "platformQuestion q i multi =
     \<lparr>q_id = i, q_question = str_or [] (jget q (js ''question'')), q_header = str_or [] (jget q (js ''header'')),
      q_options = question_options (arr_or_nil (jget q (js ''options''))), q_multiSelect = multi\<rparr>"

definition hasAnswers :: "json \<Rightarrow> bool" where
  "hasAnswers answers \<longleftrightarrow> is_obj answers"

text \<open>\<^verbatim>\<open>answers[id]\<close>: the id becomes a property name.\<close>

definition answerList :: "json \<Rightarrow> json \<Rightarrow> jstring list" where
  "answerList i answers =
     (case (if hasAnswers answers then jget answers (js_String i) else JUndef) of
       JArr xs \<Rightarrow> filter (\<lambda>s. s \<noteq> []) (strings_of xs)
     | JStr s \<Rightarrow> if s \<noteq> [] then [s] else []
     | _ \<Rightarrow> [])"

definition answeredQuestions :: "question list \<Rightarrow> json \<Rightarrow> bool" where
  "answeredQuestions qs answers \<longleftrightarrow> (\<exists>q \<in> set qs. answerList (q_id q) answers \<noteq> [])"

definition positional_id :: "nat \<Rightarrow> json" where
  "positional_id i = JStr ([0x71] @ dec (i + 1))"

fun positional :: "jstring \<Rightarrow> nat \<Rightarrow> json list \<Rightarrow> question list" where
  "positional multi i [] = []"
| "positional multi i (q # qs) =
     platformQuestion q (positional_id i) (jget q multi = JBool True) # positional multi (Suc i) qs"

definition claudeQuestionInput :: "json \<Rightarrow> question list" where
  "claudeQuestionInput input = positional (js ''multiSelect'') 0 (arr_or_nil (jget input (js ''questions'')))"

text \<open>What a driver gets back: an approval with its input, or a denial with its message.\<close>

datatype decision = Allow json | Deny jstring

text \<open>The answers by question text, a later question of the same text replacing an earlier one.\<close>

fun answers_by_text :: "question list \<Rightarrow> json list \<Rightarrow> json \<Rightarrow> json_obj \<Rightarrow> json_obj" where
  "answers_by_text (q # qs) (raw # raws) answers acc =
     (let l = answerList (q_id q) answers
      in answers_by_text qs raws answers
           (if l \<noteq> [] then jput (js_String (jget raw (js ''question''))) (JStr (join [0x2C, 0x20] l)) acc else acc))"
| "answers_by_text _ _ answers acc = acc"

definition claudeQuestionDecision :: "json_obj \<Rightarrow> question list \<Rightarrow> decision \<Rightarrow> decision" where
  "claudeQuestionDecision input platformInput d =
     (case d of
       Deny m \<Rightarrow> Deny m
     | Allow updated \<Rightarrow>
         (let answers = jget updated (js ''answers'')
          in if \<not> answeredQuestions platformInput answers then Deny (js ''no answers were supplied'')
             else Allow (JObj (jput (js ''answers'')
               (JObj (answers_by_text platformInput (arr_or_nil (jprop input (js ''questions''))) answers [])) input))))"

definition codexQuestionInput :: "json \<Rightarrow> question list" where
  "codexQuestionInput questions = map (\<lambda>q. platformQuestion q (jget q (js ''id'')) False) (arr_or_nil questions)"

definition codexQuestionReply :: "question list \<Rightarrow> json \<Rightarrow> json_obj option" where
  "codexQuestionReply platformInput answers =
     (if \<not> answeredQuestions platformInput answers then None
      else Some (fold (\<lambda>q out. jput (js_String (q_id q))
             (JObj [(js ''answers'', JArr (map JStr (answerList (q_id q) answers)))]) out) platformInput []))"

definition opencodeQuestionInput :: "json \<Rightarrow> question list" where
  "opencodeQuestionInput req = positional (js ''multiple'') 0 (arr_or_nil (jget req (js ''questions'')))"

definition opencodeQuestionReply :: "question list \<Rightarrow> json \<Rightarrow> jstring list list option" where
  "opencodeQuestionReply platformInput answers =
     (if \<not> answeredQuestions platformInput answers then None
      else Some (map (\<lambda>q. answerList (q_id q) answers) platformInput))"

section \<open>Decisions\<close>

text \<open>
  A decision's body, with the member who decided cleaned. \<open>is_question\<close> is the kind of the
  pending request.
\<close>

record decision_body =
  db_behavior :: jstring
  db_message :: json
  db_updated_input :: json
  db_decided_by :: "author option"

definition decisionForRequest :: "bool \<Rightarrow> decision_body \<Rightarrow> bool \<Rightarrow> decision_body" where
  "decisionForRequest is_question body inputTruncated =
     (if \<not> inputTruncated \<or> is_question \<or> nullish (db_updated_input body) then body
      else body\<lparr>db_updated_input := JUndef\<rparr>)"

definition author_json :: "author \<Rightarrow> json" where
  "author_json a = JObj ([(js ''id'', JStr (au_id a))] @
     (if au_name a \<noteq> [] then [(js ''name'', JStr (au_name a))] else []) @
     (if au_email a \<noteq> [] then [(js ''email'', JStr (au_email a))] else []) @
     (if au_image a \<noteq> [] then [(js ''image'', JStr (au_image a))] else []))"

definition permissionDecisionPayload :: "jstring \<Rightarrow> decision_body \<Rightarrow> json" where
  "permissionDecisionPayload requestId body = JObj (
     [(js ''request_id'', JStr requestId), (js ''behavior'', JStr (db_behavior body))] @
     (if truthy (db_message body) then [(js ''message'', db_message body)] else []) @
     (if \<not> nullish (db_updated_input body) then [(js ''updated_input'', db_updated_input body)] else []) @
     (if hasAnswers (jget (db_updated_input body) (js ''answers''))
      then [(js ''answers'', jget (db_updated_input body) (js ''answers''))] else []) @
     (case db_decided_by body of Some a \<Rightarrow> [(js ''decided_by'', author_json a)] | None \<Rightarrow> []))"

text \<open>Token counts are the harness's integers; \<open>None\<close> is a value that is no finite number.\<close>

definition contextUsagePayload :: "int option \<Rightarrow> int option \<Rightarrow> json option" where
  "contextUsagePayload tokens window =
     (case tokens of
       Some n \<Rightarrow>
         if n \<le> 0 then None
         else Some (JObj ([(js ''tokens'', JInt n)] @
           (case window of Some w \<Rightarrow> if w > 0 then [(js ''window'', JInt w)] else [] | None \<Rightarrow> [])))
     | None \<Rightarrow> None)"

definition count_of :: "json \<Rightarrow> jstring \<Rightarrow> int" where
  "count_of usage k = (case jget usage k of JInt n \<Rightarrow> n | _ \<Rightarrow> 0)"

definition contextTokensFromUsage :: "json \<Rightarrow> int option" where
  "contextTokensFromUsage usage =
     (if \<not> is_object_type usage then None
      else Some (count_of usage (js ''input_tokens'') + count_of usage (js ''output_tokens'') +
        count_of usage (js ''cache_read_input_tokens'') + count_of usage (js ''cache_creation_input_tokens'')))"

section \<open>An approval carries an answer\<close>

text \<open>
  No harness sees an approved question without an answer: claude's decision, codex's reply
  and opencode's reply are an approval exactly when some question has a non-empty answer;
  otherwise claude gets a denial and the others nothing to send.
\<close>

theorem approvals_carry_answers:
  "(claudeQuestionDecision input qs (Allow u) = Deny (js ''no answers were supplied'') \<longleftrightarrow>
      \<not> answeredQuestions qs (jget u (js ''answers''))) \<and>
   (codexQuestionReply qs answers = None \<longleftrightarrow> \<not> answeredQuestions qs answers) \<and>
   (opencodeQuestionReply qs answers = None \<longleftrightarrow> \<not> answeredQuestions qs answers)"
  by (simp add: claudeQuestionDecision_def codexQuestionReply_def opencodeQuestionReply_def Let_def)

lemma positional_ids: "map q_id (positional multi i qs) = map positional_id [i ..< i + length qs]"
proof (induction qs arbitrary: i)
  case (Cons q qs)
  have "[i ..< i + length (q # qs)] = i # [Suc i ..< Suc i + length qs]"
    by (simp add: upt_rec)
  with Cons show ?case by (simp add: platformQuestion_def)
qed simp

lemma opencode_reply_length:
  "opencodeQuestionReply (opencodeQuestionInput req) answers = Some out \<Longrightarrow>
    length out = length (arr_or_nil (jget req (js ''questions'')))"
proof -
  have "length (positional m i qs) = length qs" for m i qs
    by (induction qs arbitrary: i) simp_all
  then show "opencodeQuestionReply (opencodeQuestionInput req) answers = Some out \<Longrightarrow> ?thesis"
    by (auto simp: opencodeQuestionReply_def opencodeQuestionInput_def split: if_splits)
qed

text \<open>
  An approval of a request whose event did not go out whole runs the input the harness asked
  about: unless it is a question's answer, an updated input echoed back from the truncated copy
  is dropped from the decision, and so from the record on the timeline.
\<close>

theorem truncated_input_not_echoed:
  assumes "\<not> is_question"
  shows "nullish (db_updated_input (decisionForRequest is_question body True)) \<and>
    jget (permissionDecisionPayload i (decisionForRequest is_question body True)) (js ''updated_input'') = JUndef \<and>
    db_behavior (decisionForRequest is_question body True) = db_behavior body"
  using assms
  by (auto simp: decisionForRequest_def permissionDecisionPayload_def nullish_def hasAnswers_def jprop_def
      split: option.split)

definition sample_body :: decision_body where
  "sample_body = \<lparr>db_behavior = js ''allow'', db_message = JUndef, db_updated_input = JObj [], db_decided_by = None\<rparr>"

theorem truncated_input_not_echoed_witness:
  "db_updated_input sample_body = JObj [] \<and> nullish (db_updated_input (decisionForRequest False sample_body True))"
  using truncated_input_not_echoed [of False sample_body] by (simp add: sample_body_def)

end
