(* ===== verification/SessionState.thy ===== *)
theory SessionState
  imports EventPusher SessionSetup RunTools Ledgers Decisions
begin

text \<open>
  The session of \<^verbatim>\<open>server.mjs\<close> and the machinery the routes and the drivers share: the state
  and its status events, permission requests, parks, and the end of a session. A call on the
  response, on a paused tool call or on the harness that returns nothing is an effect, logged
  in order, as is each prompt handed to the driver. The session's driver is an argument of the
  operations that call it.
\<close>

section \<open>State\<close>

text \<open>A pending permission request; a question carries its questions in the platform's shape.\<close>

record permission =
  pn_toolName :: jstring
  pn_input :: json
  pn_questions :: "question list option"
  pn_ts :: int

datatype effect =
    Respond nat json_obj
  | Prompt jstring
  | Decide jstring decision
  | Wake jstring jstring
  | Retire_harness nat
  | Construct_harness json_obj
  | Start_harness
  | Exit_daemon

text \<open>
  Where a set-up swap is suspended: waiting for the old harness to stop, with the background
  tasks counted before, or for the new one to be constructed from a spec, with the conversation
  it resumes.
\<close>

datatype swap_phase = No_swap | Retiring live_setup nat | Constructing live_setup json_obj json

record session =
  ss_id :: jstring
  ss_state :: session_state
  ss_harness :: jstring
  ss_sdkSessionId :: jstring
  ss_pending :: "(jstring, permission) jmap"
  ss_parks :: "(jstring, park) jmap"
  ss_ledger :: ledger
  ss_queued :: "jstring list"
  ss_deferred :: "json_obj list"
  ss_pendingContexts :: "jstring list"
  ss_messageIds :: recent_ids
  ss_controlBusy :: "jstring option"
  ss_pusher :: pusher
  ss_lastResult :: json
  ss_ending :: bool
  ss_spec :: json_obj
  ss_setup :: "live_setup option"
  ss_swapping :: bool
  ss_swappingSetupId :: "jstring option"
  ss_appliedSetupId :: "jstring option"
  ss_setupTimer :: bool
  ss_held :: "input list"
  ss_authorFilter :: jstring
  ss_answersFrom :: jstring
  ss_idleSince :: int
  ss_undeliverable :: "jstring option"
  ss_current :: bool
  ss_phase :: swap_phase
  ss_effects :: "effect list"

text \<open>
  What an operation reads from outside: the time stamped on event \<open>n\<close>, now in milliseconds, a
  fresh identifier, and \<^verbatim>\<open>Date.parse\<close>.
\<close>

record env =
  en_clk :: "nat \<Rightarrow> jstring"
  en_now :: int
  en_id :: jstring
  en_parse :: "jstring \<Rightarrow> int option"

record driver =
  dr_methods :: driver_methods
  dr_retires :: bool
  dr_queueMessage :: "env \<Rightarrow> jstring \<Rightarrow> session \<Rightarrow> session \<times> bool"
  dr_beginEnd :: "env \<Rightarrow> session \<Rightarrow> session"
  dr_shutdownStop :: "env \<Rightarrow> session \<Rightarrow> session"

definition MAX_SLEEP_SECONDS :: nat where "MAX_SLEEP_SECONDS = 6 * 3600"

definition isDone :: "session \<Rightarrow> bool" where
  "isDone s \<longleftrightarrow> ss_state s = Ended \<or> ss_state s = Errored"

definition eff :: "effect \<Rightarrow> session \<Rightarrow> session" where
  "eff e s = s\<lparr>ss_effects := ss_effects s @ [e]\<rparr>"

definition respond :: "nat \<Rightarrow> json_obj \<Rightarrow> session \<Rightarrow> session" where
  "respond st body s = eff (Respond st body) s"

definition null_or :: "jstring \<Rightarrow> json" where
  "null_or t = (if t = [] then JNull else JStr t)"

definition with_pusher :: "(pusher \<Rightarrow> pusher) \<Rightarrow> session \<Rightarrow> session" where
  "with_pusher f s = s\<lparr>ss_pusher := f (ss_pusher s)\<rparr>"

definition emits :: "env \<Rightarrow> jstring \<Rightarrow> json_obj \<Rightarrow> session \<Rightarrow> session" where
  "emits env type payload = with_pusher (\<lambda>p. fst (emit (en_clk env) type (JObj payload) Implicit False p))"

definition emits_outside :: "env \<Rightarrow> jstring \<Rightarrow> json_obj \<Rightarrow> session \<Rightarrow> session" where
  "emits_outside env type payload =
     with_pusher (\<lambda>p. fst (emit (en_clk env) type (JObj payload) (Explicit None) False p))"

definition setState :: "env \<Rightarrow> session_state \<Rightarrow> json_obj \<Rightarrow> session \<Rightarrow> session" where
  "setState env st extra s =
     (if isDone s then s
      else (let active = (activeTurnId (turns (ss_pusher s)) \<noteq> None);
                s1 = (if st = Working \<and> \<not> active
                      then with_pusher (\<lambda>p. fst (beginTurn (en_clk env) (en_id env) (ss_harness s) p)) s
                      else if st = Idle \<and> active
                      then with_pusher (\<lambda>p. fst (completeTurn (en_clk env) (js ''completed'') p)) s
                      else s)
            in if ss_state s1 = st then s1
               else emits env (js ''session.status'') ((js ''state'', JStr (state_text st)) # extra)
                      (s1\<lparr>ss_state := st, ss_idleSince := if st = Idle then en_now env else ss_idleSince s1\<rparr>)))"

definition emitUserMessage :: "env \<Rightarrow> json_obj \<Rightarrow> session \<Rightarrow> session" where
  "emitUserMessage env message s =
     emits env (js ''message.context'') message
       (with_pusher (\<lambda>p. fst (beginTurn (en_clk env) (en_id env) (ss_harness s) p)) s)"

section \<open>Permission requests\<close>

text \<open>
  The escalation rule: a tool's server is on the session's list. Tool names are
  \<^verbatim>\<open>mcp__<slug>__<tool>\<close>, or the bare server.
\<close>

definition isEscalatedTool :: "jstring \<Rightarrow> json \<Rightarrow> bool" where
  "isEscalatedTool toolName escalateServers =
     (case escalateServers of
       JArr slugs \<Rightarrow> (\<exists>v \<in> set slugs. let p = js ''mcp__'' @ js_String v
                       in toolName = p \<or> starts_with toolName (p @ js ''__''))
     | _ \<Rightarrow> False)"

definition cancel_body :: "jstring \<Rightarrow> decision_body" where
  "cancel_body message = \<lparr>db_behavior = js ''cancel'', db_message = JStr message, db_updated_input = JUndef,
     db_decided_by = None\<rparr>"

fun payload_of :: "json \<Rightarrow> json_obj" where
  "payload_of (JObj kvs) = kvs"
| "payload_of _ = []"

definition emits_decision :: "env \<Rightarrow> jstring \<Rightarrow> decision_body \<Rightarrow> session \<Rightarrow> session" where
  "emits_decision env i body = emits env (js ''permission.decision'') (payload_of (permissionDecisionPayload i body))"

fun cancel_permissions :: "env \<Rightarrow> jstring \<Rightarrow> (jstring, permission) jmap \<Rightarrow> session \<Rightarrow> session" where
  "cancel_permissions env message [] s = s"
| "cancel_permissions env message ((i, p) # ps) s =
     cancel_permissions env message ps
       (eff (Decide i (Deny message))
         (emits_decision env i (cancel_body message) (s\<lparr>ss_pending := AList.delete i (ss_pending s)\<rparr>)))"

definition cancelPendingPermissions :: "env \<Rightarrow> jstring \<Rightarrow> session \<Rightarrow> session" where
  "cancelPendingPermissions env message s = cancel_permissions env message (ss_pending s) s"

definition resumeIfUnblocked :: "env \<Rightarrow> session \<Rightarrow> session" where
  "resumeIfUnblocked env s =
     (if ss_state s = Blocked \<and> ss_pending s = [] \<and> ss_parks s = [] \<and> \<not> isDone s
      then setState env Working [] s else s)"

text \<open>
  How a driver asks: the request goes out, the session blocks, and the tool call stays paused
  until the request is decided or its call is aborted.
\<close>

definition questions_json :: "question list \<Rightarrow> json" where
  "questions_json qs = JObj [(js ''questions'', JArr (map (\<lambda>q. JObj
     [(js ''id'', q_id q), (js ''question'', JStr (q_question q)), (js ''header'', JStr (q_header q)),
      (js ''options'', JArr (q_options q)), (js ''multiSelect'', JBool (q_multiSelect q))]) qs))]"

definition askPermission ::
  "env \<Rightarrow> jstring \<Rightarrow> json \<Rightarrow> question list option \<Rightarrow> json \<Rightarrow> json \<Rightarrow> session \<Rightarrow> session" where
  "askPermission env toolName input qs toolUseID reason s =
     (let shown = (case qs of Some q \<Rightarrow> questions_json q | None \<Rightarrow> input);
          s1 = emits env (js ''permission.request'')
            ([(js ''request_id'', JStr (en_id env)), (js ''tool_name'', JStr toolName), (js ''input'', shown),
              (js ''tool_use_id'', toolUseID)] @
             (if qs \<noteq> None then [(js ''kind'', JStr (js ''question''))] else []) @
             (if is_str reason then [(js ''decision_reason'', reason)] else [])) s;
          s2 = setState env Blocked [] s1
      in s2\<lparr>ss_pending := AList.update (en_id env)
            \<lparr>pn_toolName = toolName, pn_input = shown, pn_questions = qs, pn_ts = en_now env\<rparr> (ss_pending s2)\<rparr>)"

definition abortPermission :: "env \<Rightarrow> jstring \<Rightarrow> session \<Rightarrow> session" where
  "abortPermission env i s =
     resumeIfUnblocked env
       (if map_of (ss_pending s) i = None then s
        else eff (Decide i (Deny (js ''canceled'')))
          (emits_decision env i ((cancel_body [])\<lparr>db_message := JUndef\<rparr>)
            (s\<lparr>ss_pending := AList.delete i (ss_pending s)\<rparr>)))"

section \<open>Parks\<close>

definition parkTurn :: "env \<Rightarrow> park_request \<Rightarrow> session \<Rightarrow> jstring + session" where
  "parkTurn env r s =
     (case parkDeadlineError (en_parse env) (null_or (pr_deadline r)) MAX_SLEEP_SECONDS (en_now env) of
       Some bad \<Rightarrow> Inl bad
     | None \<Rightarrow>
         (let s1 = emits env (js ''park.request'')
                ([(js ''park_id'', JStr (en_id env)), (js ''kind'', JStr (pr_kind r))] @
                 (if pr_deadline r \<noteq> [] then [(js ''deadline'', JStr (pr_deadline r))] else []) @
                 [(js ''payload'', pr_payload r)]) s;
              s2 = setState env Blocked [] s1
          in Inr (s2\<lparr>ss_parks := AList.update (en_id env)
                \<lparr>pk_kind = pr_kind r, pk_deadline = pr_deadline r, pk_ts = en_now env, pk_text = pr_text r\<rparr>
                (ss_parks s2)\<rparr>)))"

definition resolvePark :: "env \<Rightarrow> jstring \<Rightarrow> jstring \<Rightarrow> jstring option \<Rightarrow> session \<Rightarrow> session \<times> bool" where
  "resolvePark env i message finalText s =
     (case map_of (ss_parks s) i of
       None \<Rightarrow> (s, False)
     | Some p \<Rightarrow>
         (let text = (case finalText of Some t \<Rightarrow> t | None \<Rightarrow> resultText (pk_text p) message);
              s1 = s\<lparr>ss_parks := AList.delete i (ss_parks s)\<rparr>;
              s2 = emits env (js ''park.resolved'')
                [(js ''park_id'', JStr i), (js ''resolution'', JStr message)] s1
          in (resumeIfUnblocked env (eff (Wake i text) s2), True)))"

fun resolve_parks :: "env \<Rightarrow> (jstring \<times> jstring \<times> jstring) list \<Rightarrow> session \<Rightarrow> session" where
  "resolve_parks env [] s = s"
| "resolve_parks env ((i, resolution, text) # cs) s =
     resolve_parks env cs (fst (resolvePark env i resolution (Some text) s))"

definition cancelPendingParks :: "env \<Rightarrow> jstring \<Rightarrow> jstring list option \<Rightarrow> session \<Rightarrow> session" where
  "cancelPendingParks env reason kinds s = resolve_parks env (parkCancellations (ss_parks s) reason kinds) s"

section \<open>Ending\<close>

definition endNeverStartedSession :: "env \<Rightarrow> session \<Rightarrow> session" where
  "endNeverStartedSession env s =
     (if isDone s then s
      else emits env (js ''session.ended'')
        [(js ''sdk_session_id'', null_or (ss_sdkSessionId s)), (js ''last_result'', ss_lastResult s)]
        (s\<lparr>ss_state := Ended\<rparr>))"

text \<open>A dropped message is forgotten, so that sending it again is no duplicate.\<close>

definition forgetHeld :: "input list \<Rightarrow> session \<Rightarrow> session" where
  "forgetHeld items s = s\<lparr>ss_messageIds := fold (\<lambda>i. recent_delete (in_messageId i)) items (ss_messageIds s)\<rparr>"

definition dropHeld :: "session \<Rightarrow> session" where
  "dropHeld s = (forgetHeld (ss_held s) s)\<lparr>ss_held := []\<rparr>"

definition dropHeldFrom :: "jstring \<Rightarrow> session \<Rightarrow> session" where
  "dropHeldFrom keepFrom s =
     (let (kept, dropped) = filterHeld (ss_held s) keepFrom
      in if dropped = 0 then s
         else (forgetHeld (filter (\<lambda>i. i \<notin> set kept) (ss_held s)) s)\<lparr>ss_held := kept\<rparr>)"

definition stopSetupTimer :: "session \<Rightarrow> session" where
  "stopSetupTimer s = s\<lparr>ss_setupTimer := False\<rparr>"

definition armSetupTimer :: "session \<Rightarrow> session" where
  "armSetupTimer s = s\<lparr>ss_setupTimer := True\<rparr>"

definition abandonSetup :: "session \<Rightarrow> session" where
  "abandonSetup s = dropHeld (stopSetupTimer (s\<lparr>ss_setup := None, ss_answersFrom := []\<rparr>))"

definition endSession :: "env \<Rightarrow> driver \<Rightarrow> session \<Rightarrow> session" where
  "endSession env dr s =
     dr_beginEnd dr env
       (abandonSetup
         (cancelPendingParks env (js ''session ended'') None
           (cancelPendingPermissions env (js ''session ended'') (s\<lparr>ss_ending := True\<rparr>))))"

text \<open>Every prompt goes to the driver through here.\<close>

definition queueMessage :: "env \<Rightarrow> driver \<Rightarrow> jstring \<Rightarrow> session \<Rightarrow> session \<times> bool" where
  "queueMessage env dr text s = dr_queueMessage dr env text (eff (Prompt text) s)"

section \<open>The stand-in driver while the home volume seeds\<close>

definition seed_queueMessage :: "env \<Rightarrow> jstring \<Rightarrow> session \<Rightarrow> session \<times> bool" where
  "seed_queueMessage env text s =
     (if ss_ending s then (s, False) else (s\<lparr>ss_queued := ss_queued s @ [text]\<rparr>, True))"

definition pendingSeedDriver :: driver where
  "pendingSeedDriver =
     \<lparr>dr_methods = \<lparr>has_listCommands = False, has_invokeCommand = False, has_setModel = False, has_compact = False\<rparr>,
      dr_retires = False, dr_queueMessage = seed_queueMessage, dr_beginEnd = endNeverStartedSession,
      dr_shutdownStop = endNeverStartedSession\<rparr>"

end
