(* ===== verification/SessionSwap.thy ===== *)
theory SessionSwap
  imports SessionState
begin

text \<open>
  The live set-up change of \<^verbatim>\<open>server.mjs\<close>: holding input, deciding when the swap may run, and
  the swap itself. \<open>applySetup\<close> awaits twice, for the old harness to stop and for the new one
  to be constructed, so it is three operations; between them the session keeps serving
  requests. \<open>shutting\<close> is the daemon's \<^verbatim>\<open>shuttingDown\<close>.
\<close>

definition inputHeld :: "session \<Rightarrow> bool" where
  "inputHeld s \<longleftrightarrow> ss_setup s \<noteq> None \<or> ss_swapping s"

definition swap_view_of :: "session \<Rightarrow> swap_view" where
  "swap_view_of s = \<lparr>sv_ending = ss_ending s, sv_state = ss_state s, sv_controlBusy = ss_controlBusy s,
     sv_pending = length (ss_pending s), sv_parks = length (ss_parks s), sv_held = length (ss_held s),
     sv_idleSince = ss_idleSince s\<rparr>"

text \<open>The swap up to the old harness's wind-down.\<close>

definition applySetup :: "env \<Rightarrow> live_setup \<Rightarrow> session \<Rightarrow> session" where
  "applySetup env su s =
     (let background = countBackgroundTasks (ss_ledger s) (en_now env)
      in eff (Retire_harness (retireGrace background))
        ((stopSetupTimer (s\<lparr>ss_setup := None\<rparr>))
          \<lparr>ss_swapping := True, ss_swappingSetupId := Some (su_id su), ss_controlBusy := Some (js ''setup''),
           ss_phase := Retiring su background\<rparr>))"

definition maybeApplySetup :: "env \<Rightarrow> driver \<Rightarrow> session \<Rightarrow> session" where
  "maybeApplySetup env dr s =
     (case ss_setup s of
       None \<Rightarrow> stopSetupTimer s
     | Some su \<Rightarrow>
         if \<not> ss_current s \<or> isDone s \<or> ss_ending s then abandonSetup s
         else if setupExpired su (en_now env) then endSession env dr s
         else if ss_swapping s \<or> \<not> setupSignaled su then s
         else if \<not> dr_retires dr then s
         else if \<not> readyToSwap (swap_view_of s) su (countBackgroundTasks (ss_ledger s) (en_now env)) (en_now env) then s
         else applySetup env su s)"

text \<open>The \<^verbatim>\<open>finally\<close> of the swap.\<close>

definition swap_over :: "env \<Rightarrow> driver \<Rightarrow> session \<Rightarrow> session" where
  "swap_over env dr s =
     (let s1 = s\<lparr>ss_swapping := False, ss_swappingSetupId := None, ss_phase := No_swap,
                 ss_controlBusy := control_release (js ''setup'') (ss_controlBusy s)\<rparr>
      in if ss_setup s1 \<noteq> None then maybeApplySetup env dr (armSetupTimer s1)
         else s1\<lparr>ss_answersFrom := []\<rparr>)"

definition failSetup :: "env \<Rightarrow> jstring \<Rightarrow> session \<Rightarrow> session" where
  "failSetup env message s =
     (let s1 = dropHeld s
      in if isDone s1 then s1
         else emits env (js ''session.error'')
           [(js ''message'', JStr (js ''failed to restart the session on the chat'' @ [0x27] @ js ''s new sharing: '' @ message))]
           (s1\<lparr>ss_state := Errored\<rparr>))"

text \<open>The last resort: the old harness could not be confirmed gone, and the daemon exits.\<close>

definition abandonDaemon :: "env \<Rightarrow> session \<Rightarrow> session" where
  "abandonDaemon env s =
     (let s1 = dropHeld s;
          s2 = (if isDone s1 then s1
                else emits env (js ''session.error'')
                  [(js ''message'', JStr (js ''failed to restart the session on the chat'' @ [0x27] @
                     js ''s new sharing: the old harness did not stop''))]
                  (s1\<lparr>ss_state := Errored\<rparr>))
      in eff Exit_daemon s2)"

text \<open>
  The old harness stopped, or could not be confirmed to. Once the drain is over the daemon is
  gone, so \<open>abandonDaemon\<close> does not come back to the \<^verbatim>\<open>finally\<close>.
\<close>

definition harness_retired :: "env \<Rightarrow> driver \<Rightarrow> bool \<Rightarrow> bool \<Rightarrow> session \<Rightarrow> session" where
  "harness_retired env dr shutting gone s =
     (case ss_phase s of
       Retiring su background \<Rightarrow>
         if \<not> gone then abandonDaemon env s
         else (let stopped = countBackgroundTasks (ss_ledger s) (en_now env);
                   s1 = s\<lparr>ss_ledger := createTaskLedger []\<rparr>;
                   s2 = (if \<not> isDone s1 \<and> ss_state s1 \<noteq> Idle then setState env Idle [] s1
                         else if \<not> isDone s1 \<and> max background stopped > 0
                         then emits env (js ''session.status'')
                           [(js ''state'', JStr (js ''idle'')), (js ''background_tasks'', JInt 0)] s1
                         else s1)
               in if ss_ending s2 \<or> shutting \<or> isDone s2
                  then swap_over env dr (endNeverStartedSession env (dropHeld s2))
                  else (let resumed = (if ss_sdkSessionId s2 \<noteq> [] then ss_sdkSessionId s2
                                       else string_or_empty (jprop (ss_spec s2) (js ''resume_sdk_session_id'')));
                            spec = setupSpec (ss_spec s2) (su_fields su) resumed
                        in eff (Construct_harness spec)
                             (s2\<lparr>ss_phase := Constructing su spec (null_or resumed)\<rparr>)))
     | _ \<Rightarrow> s)"

text \<open>The held input goes to the new harness in order; a refusal drops what is left.\<close>

definition with_contexts :: "jstring \<Rightarrow> jstring list \<Rightarrow> jstring" where
  "with_contexts prompt contexts =
     (if contexts \<noteq> [] then prompt @ [10, 10] @ join [10, 10] contexts else prompt)"

fun replay :: "env \<Rightarrow> driver \<Rightarrow> input list \<Rightarrow> session \<Rightarrow> session" where
  "replay env dr [] s = s"
| "replay env dr (item # items) s =
     (let (s1, taken) = queueMessage env dr (with_contexts (in_prompt item) (ss_pendingContexts s)) s
      in if \<not> taken then forgetHeld (item # items) s1
         else replay env dr items
           (emitUserMessage env (heldMessage (in_visible item)) (s1\<lparr>ss_pendingContexts := []\<rparr>)))"

definition replayHeld :: "env \<Rightarrow> driver \<Rightarrow> session \<Rightarrow> session" where
  "replayHeld env dr s = replay env dr (ss_held s) (s\<lparr>ss_held := []\<rparr>)"

text \<open>The new harness was constructed (\<open>dr\<close> is its driver), or its construction threw.\<close>

definition harness_constructed :: "env \<Rightarrow> driver \<Rightarrow> bool \<Rightarrow> jstring option \<Rightarrow> session \<Rightarrow> session" where
  "harness_constructed env dr shutting error s =
     (case ss_phase s of
       Constructing su spec resumed \<Rightarrow>
         (case error of
           Some message \<Rightarrow> swap_over env dr (failSetup env message s)
         | None \<Rightarrow>
             (let s1 = eff Start_harness (s\<lparr>ss_spec := spec\<rparr>)
              in if ss_ending s1 \<or> shutting
                 then swap_over env dr ((if shutting then dr_shutdownStop dr else dr_beginEnd dr) env (dropHeld s1))
                 else (let s2 = emits env (js ''session.setup_applied'')
                            [(js ''setup_id'', JStr (su_id su)),
                             (js ''instructions_scope'', JStr (str_or [] (jprop spec (js ''instructions_scope'')))),
                             (js ''resumed_from'', resumed)]
                            (s1\<lparr>ss_appliedSetupId := Some (su_id su)\<rparr>)
                       in swap_over env dr (if ss_setup s2 = None then replayHeld env dr s2 else s2))))
     | _ \<Rightarrow> s)"

definition switchingConflict :: "session \<Rightarrow> session" where
  "switchingConflict s = respond 409
     [(js ''error'', JStr SWITCHING_MESSAGE), (js ''state'', JStr (state_text (ss_state s)))] s"

text \<open>
  A caller that waits makes the set-up urgent, and is refused. The flag says whether the request
  was refused, and so answered.
\<close>

definition refuseWhileSwitching :: "env \<Rightarrow> driver \<Rightarrow> session \<Rightarrow> session \<times> bool" where
  "refuseWhileSwitching env dr s =
     (if \<not> inputHeld s then (s, False)
      else (case ss_setup s of
          Some su \<Rightarrow> (switchingConflict (maybeApplySetup env dr (s\<lparr>ss_setup := Some (su\<lparr>su_urgent := True\<rparr>)\<rparr>)), True)
        | None \<Rightarrow> (switchingConflict s, True)))"

definition not_accepting :: "jstring \<Rightarrow> session \<Rightarrow> session" where
  "not_accepting message s = respond 409
     [(js ''error'', JStr message), (js ''state'', JStr (state_text (ss_state s)))] s"

definition holdMessage :: "env \<Rightarrow> driver \<Rightarrow> input \<Rightarrow> session \<Rightarrow> session" where
  "holdMessage env dr item s =
     (if isDone s \<or> ss_ending s then not_accepting (js ''session is not accepting messages'') s
      else (let s1 = s\<lparr>ss_held := ss_held s @ [item], ss_messageIds := recent_add (in_messageId item) (ss_messageIds s)\<rparr>;
                s2 = (if in_platform item then s1
                      else cancelPendingParks env NEW_MESSAGE (Some NEW_MESSAGE_CANCELS) s1)
            in respond 202 [(js ''queued'', JBool True), (js ''held'', JBool True)] (maybeApplySetup env dr s2)))"

section \<open>The routes of a set-up\<close>

definition setup_at :: "env \<Rightarrow> live_setup \<Rightarrow> session \<Rightarrow> json_obj" where
  "setup_at env su s =
     [(js ''setup_id'', JStr (su_id su)), (js ''state'', JStr (state_text (ss_state s))),
      (js ''background_tasks'', JInt (int (countBackgroundTasks (ss_ledger s) (en_now env))))]"

definition handleSetup :: "env \<Rightarrow> driver \<Rightarrow> json \<Rightarrow> session \<Rightarrow> session" where
  "handleSetup env dr body s =
     (case parseSetup body (en_now env) of
       Inl e \<Rightarrow> respond (he_status e) [(js ''error'', JStr (he_message e))] s
     | Inr su \<Rightarrow>
         if isDone s \<or> ss_ending s then not_accepting (js ''session is finished'') s
         else (let at = setup_at env su s
               in if Some (su_id su) \<in> {map_option su_id (ss_setup s), ss_swappingSetupId s, ss_appliedSetupId s}
                  then respond 202 at s
                  else (let s1 = s\<lparr>ss_answersFrom := (if su_answersFrom su \<noteq> [] then su_answersFrom su
                                     else if inputHeld s then ss_answersFrom s else []),
                                   ss_setup := Some su, ss_authorFilter := su_keepHeldFrom su\<rparr>;
                            s2 = armSetupTimer (dropHeldFrom (su_keepHeldFrom su) s1)
                        in respond 202 at (maybeApplySetup env dr s2))))"

definition handleSetupApply :: "env \<Rightarrow> driver \<Rightarrow> json \<Rightarrow> session \<Rightarrow> session" where
  "handleSetupApply env dr body s =
     (let i = str_or [] (jget body (js ''setup_id''));
          pending = [(js ''applied'', JBool False), (js ''pending'', JBool True)]
      in if i = [] then respond 400 [(js ''error'', JStr (js ''missing setup_id''))] s
         else if map_option su_id (ss_setup s) = Some i
         then respond 200 pending
           (maybeApplySetup env dr (s\<lparr>ss_setup := map_option (\<lambda>su. su\<lparr>su_signaled := True\<rparr>) (ss_setup s)\<rparr>))
         else if ss_swappingSetupId s = Some i then respond 200 pending s
         else if ss_appliedSetupId s = Some i
         then respond 200 [(js ''applied'', JBool True), (js ''pending'', JBool False)] s
         else not_accepting (js ''no such set-up pending'') s)"

end
