(* ===== verification/SessionRoutes.thy ===== *)
theory SessionRoutes
  imports SessionSwap
begin

text \<open>
  The routes of \<^verbatim>\<open>server.mjs\<close> on a live session. A route that awaits the driver is two
  operations: the first answers, or leaves a call in flight with what the rest of the route
  needs; the second gets the call's outcome. Requests come as their parsed bodies.
\<close>

section \<open>Answers\<close>

definition error_body :: "jstring \<Rightarrow> json_obj" where
  "error_body message = [(js ''error'', JStr message)]"

definition bad :: "jstring \<Rightarrow> session \<Rightarrow> session" where
  "bad message s = respond 400 (error_body message) s"

definition refuse :: "control_error \<Rightarrow> session \<Rightarrow> session" where
  "refuse e s = respond (he_status e)
     [(js ''error'', JStr (he_message e)), (js ''state'', JStr (state_text (ce_state e)))] s"

text \<open>How a driver's call ended: a value, or a throw with its status, if it has one.\<close>

datatype 'a call = Returned 'a | Raised "http_error option"

definition thrown :: "http_error option \<Rightarrow> session \<Rightarrow> session" where
  "thrown e s = (case e of
      Some h \<Rightarrow> respond (he_status h) (error_body (he_message h)) s
    | None \<Rightarrow> respond 500 (error_body (js ''internal error'')) s)"

definition optional_string_field :: "json \<Rightarrow> jstring \<Rightarrow> bool" where
  "optional_string_field body f \<longleftrightarrow> nullish (jget body f) \<or> is_str (jget body f)"

definition field_text :: "json \<Rightarrow> jstring \<Rightarrow> jstring" where
  "field_text body f = trim (str_or [] (jget body f))"

section \<open>Messages\<close>

definition attachment_json :: "attachment \<Rightarrow> json" where
  "attachment_json a = JObj [(js ''id'', JStr (at_id a)), (js ''path'', JStr (at_path a)), (js ''name'', JStr (at_name a)),
     (js ''mime_type'', JStr (at_mime_type a)), (js ''size'', JInt (at_size a)), (js ''source'', JStr (at_source a))]"

definition platform_kind :: "json \<Rightarrow> jstring" where
  "platform_kind body =
     (if jget body (js ''source'') = JStr (js ''platform'')
      then (let k = field_text body (js ''platform_kind'') in if k \<noteq> [] then k else js ''message'') else [])"

definition message_input :: "json \<Rightarrow> prepared \<Rightarrow> input" where
  "message_input body m =
     (let platform = platform_kind body; messageId = cleanMessageId (jget body (js ''message_id''));
          author = (if platform \<noteq> [] then None else cleanAuthor (jget body (js ''author'')))
      in \<lparr>in_prompt = pm_prompt m,
          in_visible = [(js ''text'', JStr (pm_text m)), (js ''attachments'', JArr (map attachment_json (pm_attachments m)))] @
            (case author of Some a \<Rightarrow> [(js ''author'', author_json a)] | None \<Rightarrow> []) @
            (if platform \<noteq> [] then [(js ''source'', JStr (js ''platform'')), (js ''platform_kind'', JStr platform)] else []) @
            (if messageId \<noteq> [] then [(js ''message_id'', JStr messageId)] else []),
          in_authorId = (case author of Some a \<Rightarrow> au_id a | None \<Rightarrow> []),
          in_platform = (platform \<noteq> []), in_messageId = messageId\<rparr>)"

definition message_request :: "json \<Rightarrow> jstring + prepared" where
  "message_request body =
     (let platform = platform_kind body; attributed = (jget body (js ''attribute_author'') = JBool True);
          author = (if platform \<noteq> [] then None else cleanAuthor (jget body (js ''author'')))
      in prepareMessage (jget body (js ''text'')) (jget body (js ''attachments''))
           \<lparr>mo_attributed = attributed, mo_speaker = (if attributed then author else None),
            mo_platform = JStr platform\<rparr>)"

text \<open>A message the driver took.\<close>

definition message_taken :: "env \<Rightarrow> input \<Rightarrow> session \<Rightarrow> session" where
  "message_taken env item s =
     (let s1 = s\<lparr>ss_pendingContexts := [], ss_messageIds := recent_add (in_messageId item) (ss_messageIds s)\<rparr>;
          s2 = (if ss_state s1 = Starting then s1\<lparr>ss_deferred := ss_deferred s1 @ [in_visible item]\<rparr>
                else emitUserMessage env (in_visible item) s1);
          s3 = (if in_platform item then s2 else cancelPendingParks env NEW_MESSAGE (Some NEW_MESSAGE_CANCELS) s2)
      in respond 202 [(js ''queued'', JBool True)] s3)"

definition handleMessage :: "env \<Rightarrow> driver \<Rightarrow> json \<Rightarrow> session \<Rightarrow> session" where
  "handleMessage env dr body s =
     (if recent_has (cleanMessageId (jget body (js ''message_id''))) (ss_messageIds s)
      then respond 202 [(js ''queued'', JBool True), (js ''duplicate'', JBool True)] s
      else (case message_request body of
          Inl e \<Rightarrow> bad e s
        | Inr m \<Rightarrow>
            (let item = message_input body m
             in if \<not> keepsInput (ss_authorFilter s) item then not_accepting UNDELIVERED_MESSAGE s
                else if inputHeld s then holdMessage env dr item s
                else (case requireNotBusy (ss_state s) (ss_controlBusy s) of
                    Some e \<Rightarrow> refuse e s
                  | None \<Rightarrow>
                      if isDone s then not_accepting (js ''session is not accepting messages'') s
                      else (case queueMessage env dr (with_contexts (in_prompt item) (ss_pendingContexts s)) s of
                          (s1, taken) \<Rightarrow>
                            if taken then message_taken env item s1
                            else not_accepting (js ''session is not accepting messages'') s1)))))"

section \<open>Commands\<close>

text \<open>The gate every control route passes: not switching, idle, and a driver that can.\<close>

definition control_gate :: "env \<Rightarrow> driver \<Rightarrow> jstring \<Rightarrow> bool \<Rightarrow> jstring \<Rightarrow> session \<Rightarrow> session \<times> bool" where
  "control_gate env dr verb supported unsupported s =
     (case refuseWhileSwitching env dr s of
       (s1, True) \<Rightarrow> (s1, True)
     | (s1, False) \<Rightarrow>
         (case requireIdle (ss_state s1) (ss_controlBusy s1) verb of
           Some e \<Rightarrow> (refuse e s1, True)
         | None \<Rightarrow> if supported then (s1, False) else (bad unsupported s1, True)))"

definition harness_text :: "jstring \<Rightarrow> session \<Rightarrow> jstring" where
  "harness_text what s = what @ js '' by the '' @ ss_harness s @ js '' harness''"

definition handleCommands :: "driver \<Rightarrow> session \<Rightarrow> session \<times> bool" where
  "handleCommands dr s =
     (if isDone s then (not_accepting (js ''session is finished'') s, False)
      else if ss_state s = Starting then (not_accepting (js ''session is still starting'') s, False)
      else if \<not> supportsCommandDriver (Some (dr_methods dr))
      then (bad (harness_text (js ''commands are not supported'') s) s, False)
      else (s, True))"

record command_call =
  cc_command :: jstring
  cc_arguments :: jstring
  cc_model :: jstring
  cc_contexts :: "jstring list"

definition handleCommand_start :: "env \<Rightarrow> driver \<Rightarrow> json \<Rightarrow> session \<Rightarrow> session \<times> command_call option" where
  "handleCommand_start env dr body s =
     (case normalizeCommandName (jget body (js ''command'')) of
       Inl e \<Rightarrow> (bad e s, None)
     | Inr command \<Rightarrow>
         if \<not> optional_string_field body (js ''arguments'') then (bad (js ''arguments must be a string'') s, None)
         else if \<not> optional_string_field body (js ''model'') then (bad (js ''model must be a string'') s, None)
         else (case control_gate env dr (js ''invoking a command'') (supportsCommandDriver (Some (dr_methods dr)))
                      (harness_text (js ''commands are not supported'') s) s of
             (s1, True) \<Rightarrow> (s1, None)
           | (s1, False) \<Rightarrow>
               (s1\<lparr>ss_controlBusy := control_enter (js ''command'') (ss_controlBusy s1)\<rparr>,
                Some \<lparr>cc_command = command, cc_arguments = str_or [] (jget body (js ''arguments'')),
                      cc_model = field_text body (js ''model''), cc_contexts = ss_pendingContexts s1\<rparr>)))"

text \<open>The driver's answer is the visible text of the turn it took, or \<open>None\<close>.\<close>

definition handleCommand_finish :: "env \<Rightarrow> command_call \<Rightarrow> jstring option call \<Rightarrow> session \<Rightarrow> session" where
  "handleCommand_finish env c out s =
     (case out of
       Raised e \<Rightarrow> thrown e (s\<lparr>ss_controlBusy := control_leave (js ''command'') True Threw (ss_controlBusy s)\<rparr>)
     | Returned None \<Rightarrow> not_accepting (js ''session is not accepting commands'')
         (s\<lparr>ss_controlBusy := control_leave (js ''command'') True (Resolved False) (ss_controlBusy s)\<rparr>)
     | Returned (Some visible) \<Rightarrow>
         (let s1 = s\<lparr>ss_controlBusy := control_leave (js ''command'') True (Resolved True) (ss_controlBusy s),
                     ss_pendingContexts := drop (length (cc_contexts c)) (ss_pendingContexts s)\<rparr>
          in respond 202 [(js ''queued'', JBool True)]
            (emitUserMessage env
              ([(js ''text'', JStr visible), (js ''attachments'', JArr []), (js ''source'', JStr (js ''command'')),
                (js ''command'', JStr (cc_command c)), (js ''arguments'', JStr (cc_arguments c))] @
               (if cc_model c \<noteq> [] then [(js ''model'', JStr (cc_model c))] else [])) s1)))"

section \<open>The operator shell\<close>

definition handleShell_start :: "env \<Rightarrow> driver \<Rightarrow> json \<Rightarrow> session \<Rightarrow> session \<times> jstring option" where
  "handleShell_start env dr body s =
     (case jget body (js ''command'') of
       JStr c \<Rightarrow>
         if trim c = [] then (bad (js ''missing command'') s, None)
         else if 0 \<in> set c then (bad (js ''command contains a NUL byte'') s, None)
         else (case control_gate env dr (js ''running a shell command'') True [] s of
             (s1, True) \<Rightarrow> (s1, None)
           | (s1, False) \<Rightarrow>
               if length (ss_pendingContexts s1) \<ge> 8 \<or>
                  sum_list (map byte_length (ss_pendingContexts s1)) \<ge> MAX_SHELL_OUTPUT_BYTES
               then (not_accepting (js ''send a session turn before adding more shell context'') s1, None)
               else (s1\<lparr>ss_controlBusy := control_enter (js ''shell'') (ss_controlBusy s1)\<rparr>, Some c))
     | _ \<Rightarrow> (bad (js ''missing command'') s, None))"

definition shell_json :: "shell_result \<Rightarrow> json_obj" where
  "shell_json r =
     [(js ''command'', JStr (sr_command r)), (js ''output'', JStr (sr_output r)), (js ''exit_code'', JInt (sr_exit_code r))] @
     (case sr_signal r of Some sg \<Rightarrow> if sg \<noteq> [] then [(js ''signal'', JStr sg)] else [] | None \<Rightarrow> []) @
     [(js ''timed_out'', JBool (sr_timed_out r)), (js ''truncated'', JBool (sr_truncated r)),
      (js ''duration_ms'', JInt (int (sr_duration_ms r)))]"

definition handleShell_finish :: "env \<Rightarrow> shell_result call \<Rightarrow> session \<Rightarrow> session" where
  "handleShell_finish env out s =
     (case out of
       Raised e \<Rightarrow> thrown e (s\<lparr>ss_controlBusy := control_leave (js ''shell'') False Threw (ss_controlBusy s)\<rparr>)
     | Returned r \<Rightarrow>
         (let (event, prompt) = shellContext r;
              s1 = s\<lparr>ss_controlBusy := control_leave (js ''shell'') False (Resolved True) (ss_controlBusy s),
                     ss_pendingContexts := ss_pendingContexts s @ [prompt]\<rparr>
          in respond 200 (shell_json r) (emits_outside env (js ''message.context'') (payload_of event) s1)))"

section \<open>Interrupts, decisions and parks\<close>

definition handleInterrupt_start :: "env \<Rightarrow> session \<Rightarrow> session \<times> jstring option" where
  "handleInterrupt_start env s =
     (let s1 = cancelPendingParks env (js ''interrupted'') None s;
          (p, t) = startDrainingTurn (en_clk env) (js ''interrupted'') (ss_pusher s1)
      in (s1\<lparr>ss_pusher := p\<rparr>, t))"

definition handleInterrupt_finish :: "jstring option \<Rightarrow> unit call \<Rightarrow> session \<Rightarrow> session" where
  "handleInterrupt_finish t out s =
     (let s1 = with_pusher (finishDrainingTurn t) s
      in case out of Raised e \<Rightarrow> thrown e s1 | Returned _ \<Rightarrow> respond 202 [(js ''interrupted'', JBool True)] s1)"

definition question_answers :: "json \<Rightarrow> json" where
  "question_answers body = jget (jget body (js ''updated_input'')) (js ''answers'')"

definition decision_of :: "permission \<Rightarrow> decision_body \<Rightarrow> decision" where
  "decision_of p d =
     (if db_behavior d = js ''allow''
      then Allow (if nullish (db_updated_input d) then pn_input p else db_updated_input d)
      else Deny (if truthy (db_message d) then js_String (db_message d) else js ''denied by user''))"

definition handlePermission :: "env \<Rightarrow> json \<Rightarrow> jstring \<Rightarrow> session \<Rightarrow> session" where
  "handlePermission env body i s =
     (let behavior = str_or [] (jget body (js ''behavior'')); decider = cleanAuthor (jget body (js ''decided_by''))
      in if behavior \<noteq> js ''allow'' \<and> behavior \<noteq> js ''deny''
         then bad (js ''behavior must be \"allow\" or \"deny\"'') s
         else (case map_of (ss_pending s) i of
             None \<Rightarrow> respond 404 (error_body (js ''no pending permission request'')) s
           | Some p \<Rightarrow>
               if behavior = js ''allow'' \<and> (case pn_questions p of None \<Rightarrow> False
                    | Some qs \<Rightarrow> \<not> answeredQuestions qs (question_answers body))
               then bad (js ''a question needs answers: updated_input.answers keyed by question id (a string, or an array of labels for multiSelect)'') s
               else if \<not> mayDecide (ss_answersFrom s) behavior decider then not_accepting OWNER_ANSWERS_MESSAGE s
               else (let message = (if ss_answersFrom s \<noteq> [] \<and> map_option au_id decider \<noteq> Some (ss_answersFrom s)
                                    then JUndef else jget body (js ''message''));
                         asked = \<lparr>db_behavior = behavior, db_message = message,
                           db_updated_input = jget body (js ''updated_input''), db_decided_by = decider\<rparr>;
                         truncated = i \<in> set (truncatedPermissionRequests (ss_pusher s));
                         s1 = with_pusher (\<lambda>q. q\<lparr>truncatedPermissionRequests := set_del i (truncatedPermissionRequests q)\<rparr>)
                                (s\<lparr>ss_pending := AList.delete i (ss_pending s)\<rparr>);
                         d = decisionForRequest (pn_questions p \<noteq> None) asked truncated
                     in respond 200 [(js ''decided'', JStr behavior)]
                       (resumeIfUnblocked env (eff (Decide i (decision_of p d)) (emits_decision env i d s1))))))"

definition handleParkResolve :: "env \<Rightarrow> json \<Rightarrow> jstring \<Rightarrow> session \<Rightarrow> session" where
  "handleParkResolve env body i s =
     (case resolvePark env i (str_or [] (jget body (js ''message''))) None s of
       (s1, True) \<Rightarrow> respond 200 [(js ''resolved'', JBool True)] s1
     | (s1, False) \<Rightarrow> respond 404 (error_body (js ''no pending park'')) s1)"

section \<open>Model, compaction, mode, asking tools\<close>

record model_call =
  mc_model :: jstring
  mc_effort :: jstring
  mc_previous_model :: jstring
  mc_previous_effort :: jstring

definition handleModel_start :: "env \<Rightarrow> driver \<Rightarrow> json \<Rightarrow> session \<Rightarrow> session \<times> model_call option" where
  "handleModel_start env dr body s =
     (if \<not> optional_string_field body (js ''model'') then (bad (js ''model must be a string'') s, None)
      else if \<not> optional_string_field body (js ''effort'') then (bad (js ''effort must be a string'') s, None)
      else (let model = field_text body (js ''model''); effort = field_text body (js ''effort'')
        in if model = [] \<and> effort = [] then (bad (js ''missing model or effort'') s, None)
           else (case control_gate env dr (js ''switching the model'') (supportsModelSwitchDriver (Some (dr_methods dr)))
                        (harness_text (js ''model switching is not supported'') s) s of
               (s1, True) \<Rightarrow> (s1, None)
             | (s1, False) \<Rightarrow>
                 (s1\<lparr>ss_controlBusy := control_enter (js ''model'') (ss_controlBusy s1)\<rparr>,
                  Some \<lparr>mc_model = model, mc_effort = effort,
                        mc_previous_model = string_or_empty (jprop (ss_spec s1) (js ''model'')),
                        mc_previous_effort = string_or_empty (jprop (ss_spec s1) (js ''effort''))\<rparr>))))"

definition handleModel_finish :: "env \<Rightarrow> model_call \<Rightarrow> unit call \<Rightarrow> session \<Rightarrow> session" where
  "handleModel_finish env c out s =
     (case out of
       Raised e \<Rightarrow> thrown e (s\<lparr>ss_controlBusy := control_leave (js ''model'') False Threw (ss_controlBusy s)\<rparr>)
     | Returned _ \<Rightarrow>
         (let model = (if mc_model c \<noteq> [] then mc_model c else mc_previous_model c);
              effort = (if mc_effort c \<noteq> [] then mc_effort c else mc_previous_effort c);
              s1 = s\<lparr>ss_controlBusy := control_leave (js ''model'') False (Resolved True) (ss_controlBusy s)\<rparr>
          in respond 200 [(js ''model'', JStr model), (js ''effort'', JStr effort)]
            (emits env (js ''session.model_changed'')
              [(js ''model'', JStr model), (js ''effort'', JStr effort),
               (js ''previous_model'', JStr (mc_previous_model c)), (js ''previous_effort'', JStr (mc_previous_effort c))] s1)))"

definition MAX_COMPACT_INSTRUCTIONS :: nat where "MAX_COMPACT_INSTRUCTIONS = 4096"

definition handleCompact_start :: "env \<Rightarrow> driver \<Rightarrow> json \<Rightarrow> session \<Rightarrow> session \<times> jstring option" where
  "handleCompact_start env dr body s =
     (let instructions = field_text body (js ''instructions'')
      in if \<not> optional_string_field body (js ''instructions'') then (bad (js ''instructions must be a string'') s, None)
         else if length instructions > MAX_COMPACT_INSTRUCTIONS
         then (bad (js ''instructions are too long (max 4096 characters)'') s, None)
         else (case control_gate env dr (js ''compacting the context'') (supportsCompactDriver (Some (dr_methods dr)))
                      (harness_text (js ''context compaction is not supported'') s) s of
             (s1, True) \<Rightarrow> (s1, None)
           | (s1, False) \<Rightarrow>
               (s1\<lparr>ss_controlBusy := control_enter (js ''compact'') (ss_controlBusy s1)\<rparr>, Some instructions)))"

definition handleCompact_finish :: "json_obj call \<Rightarrow> session \<Rightarrow> session" where
  "handleCompact_finish out s =
     (case out of
       Raised e \<Rightarrow> thrown e (s\<lparr>ss_controlBusy := control_leave (js ''compact'') False Threw (ss_controlBusy s)\<rparr>)
     | Returned payload \<Rightarrow> respond 200 payload
         (s\<lparr>ss_controlBusy := control_leave (js ''compact'') False (Resolved True) (ss_controlBusy s)\<rparr>))"

definition PERMISSION_MODES :: "jstring list" where
  "PERMISSION_MODES = [js ''default'', js ''acceptEdits'', js ''plan'', js ''bypassPermissions'']"

definition handleMode_start :: "json \<Rightarrow> session \<Rightarrow> session \<times> jstring option" where
  "handleMode_start body s =
     (let mode = str_or [] (jget body (js ''mode''))
      in if mode \<notin> set PERMISSION_MODES
         then (bad (js ''invalid mode '' @ js_String (jget body (js ''mode''))) s, None)
         else if isDone s then (not_accepting (js ''session is finished'') s, None)
         else if inputHeld s then (switchingConflict s, None)
         else (s, Some mode))"

definition handleMode_finish :: "env \<Rightarrow> jstring \<Rightarrow> unit call \<Rightarrow> session \<Rightarrow> session" where
  "handleMode_finish env mode out s =
     (case out of
       Raised e \<Rightarrow> thrown e s
     | Returned _ \<Rightarrow> respond 200 [(js ''mode'', JStr mode)]
         (emits env (js ''session.status'') [(js ''permission_mode'', JStr mode)]
           (s\<lparr>ss_spec := jput (js ''permission_mode'') (JStr mode) (ss_spec s)\<rparr>)))"

text \<open>\<open>out\<close> is how the driver's \<^verbatim>\<open>askToolsChanged\<close>, if it has one, ends.\<close>

definition handleAskTools :: "json \<Rightarrow> unit call \<Rightarrow> session \<Rightarrow> session" where
  "handleAskTools body out s =
     (case jget body (js ''tools'') of
       JArr tools \<Rightarrow>
         if \<not> list_all is_str tools then bad (js ''tools must be a list of names'') s
         else if isDone s then not_accepting (js ''session is finished'') s
         else if inputHeld s then switchingConflict s
         else (let s1 = s\<lparr>ss_spec := jput (js ''escalate_servers'') (JArr tools) (ss_spec s)\<rparr>
               in case out of Raised e \<Rightarrow> thrown e s1 | Returned _ \<Rightarrow> respond 200 [(js ''tools'', JArr tools)] s1)
     | _ \<Rightarrow> bad (js ''tools must be a list of names'') s)"

definition handleEnd :: "env \<Rightarrow> driver \<Rightarrow> session \<Rightarrow> session" where
  "handleEnd env dr s = respond 202 [(js ''ending'', JBool True)] (endSession env dr s)"

section \<open>Delivery lost\<close>

text \<open>
  The pusher's \<open>onStopped\<close>: the session ends at once. A turn in flight is interrupted; the
  answer is the turn to finish draining when the interrupt is over.
\<close>

definition endUndeliverable :: "env \<Rightarrow> driver \<Rightarrow> jstring \<Rightarrow> session \<Rightarrow> session \<times> jstring option option" where
  "endUndeliverable env dr reason s =
     (let s0 = s\<lparr>ss_undeliverable := Some reason\<rparr>
      in if isDone s0 \<or> ss_ending s0 then (s0, None)
         else (let s1 = dr_beginEnd dr env
                 (cancelPendingParks env (js ''session event delivery stopped'') None
                   (cancelPendingPermissions env (js ''session event delivery stopped'') (s0\<lparr>ss_ending := True\<rparr>)))
               in if ss_state s1 = Working \<or> ss_state s1 = Blocked
                  then (let (p, t) = startDrainingTurn (en_clk env) (js ''interrupted'') (ss_pusher s1)
                        in (s1\<lparr>ss_pusher := p\<rparr>, Some t))
                  else (s1, None)))"

definition undeliverable_interrupted :: "env \<Rightarrow> driver \<Rightarrow> jstring option \<Rightarrow> session \<Rightarrow> session" where
  "undeliverable_interrupted env dr t s =
     (let s1 = with_pusher (finishDrainingTurn t) s in if isDone s1 then s1 else dr_beginEnd dr env s1)"

end
