(* ===== verification/SessionProps.thy ===== *)
theory SessionProps
  imports SessionRoutes
begin

text \<open>
  What the shared machinery and the routes keep: what every helper leaves alone, the interface
  of a driver, the release of everything that waits when a session ends, and who may decide.
\<close>

section \<open>What a helper leaves alone\<close>

text \<open>\<open>moves s s'\<close>: only the pusher, the state and the idle clock differ.\<close>

definition moves :: "session \<Rightarrow> session \<Rightarrow> bool" where
  "moves s s' \<longleftrightarrow> (\<exists>p st t. s' = s\<lparr>ss_pusher := p, ss_state := st, ss_idleSince := t\<rparr>)"

lemma moves_refl [simp, intro]: "moves s s"
  unfolding moves_def by (intro exI [of _ "ss_pusher s"] exI [of _ "ss_state s"] exI [of _ "ss_idleSince s"]) simp

lemma moves_trans: "moves s s' \<Longrightarrow> moves s' s'' \<Longrightarrow> moves s s''"
  by (force simp: moves_def)

lemma moves_with_pusher [simp, intro]: "moves s (with_pusher f s)"
  unfolding moves_def with_pusher_def
  by (intro exI [of _ "f (ss_pusher s)"] exI [of _ "ss_state s"] exI [of _ "ss_idleSince s"]) simp

lemma moves_emits [simp, intro]: "moves s (emits env ty pl s)" "moves s (emits_outside env ty pl s)"
  by (simp_all add: emits_def emits_outside_def)

lemma moves_state [simp, intro]: "moves s (s\<lparr>ss_state := st\<rparr>)" "moves s (s\<lparr>ss_state := st, ss_idleSince := t\<rparr>)"
  unfolding moves_def
  by (intro exI [of _ "ss_pusher s"] exI [of _ st] exI [of _ "ss_idleSince s"], simp)
    (intro exI [of _ "ss_pusher s"] exI [of _ st] exI [of _ t], simp)

lemma moves_setState [simp, intro]: "moves s (setState env st extra s)"
proof -
  have st: "moves s s1 \<Longrightarrow> moves s (s1\<lparr>ss_state := x\<rparr>)" "moves s s1 \<Longrightarrow> moves s (s1\<lparr>ss_state := x, ss_idleSince := t\<rparr>)"
    for s1 x t by (blast intro: moves_trans)+
  have em: "moves s s1 \<Longrightarrow> moves s (emits env ty pl s1)" for s1 ty pl by (blast intro: moves_trans)
  show ?thesis by (auto simp: setState_def Let_def intro: em st)
qed

lemma moves_resume [simp, intro]: "moves s (resumeIfUnblocked env s)"
  by (simp add: resumeIfUnblocked_def)

lemma moves_emitUserMessage [simp, intro]: "moves s (emitUserMessage env m s)"
  unfolding emitUserMessage_def by (rule moves_trans [OF moves_with_pusher moves_emits(1)])

lemma moves_fields:
  assumes "moves s s'"
  shows "ss_pending s' = ss_pending s" "ss_parks s' = ss_parks s" "ss_held s' = ss_held s"
    "ss_messageIds s' = ss_messageIds s" "ss_pendingContexts s' = ss_pendingContexts s"
    "ss_setup s' = ss_setup s" "ss_swapping s' = ss_swapping s" "ss_phase s' = ss_phase s"
    "ss_effects s' = ss_effects s" "ss_ending s' = ss_ending s" "ss_controlBusy s' = ss_controlBusy s"
    "ss_answersFrom s' = ss_answersFrom s" "ss_authorFilter s' = ss_authorFilter s" "ss_spec s' = ss_spec s"
    "ss_queued s' = ss_queued s" "ss_current s' = ss_current s" "ss_swappingSetupId s' = ss_swappingSetupId s"
    "ss_appliedSetupId s' = ss_appliedSetupId s" "ss_ledger s' = ss_ledger s" "ss_harness s' = ss_harness s"
    "ss_sdkSessionId s' = ss_sdkSessionId s"
  using assms by (auto simp: moves_def)

lemmas setState_fields [simp] = moves_fields [OF moves_setState]
lemmas emits_fields [simp] = moves_fields [OF moves_emits(1)]
lemmas emits_outside_fields [simp] = moves_fields [OF moves_emits(2)]
lemmas resume_fields [simp] = moves_fields [OF moves_resume]
lemmas pusher_fields [simp] = moves_fields [OF moves_with_pusher]
lemmas userMessage_fields [simp] = moves_fields [OF moves_emitUserMessage]

lemma emits_state [simp]: "ss_state (emits env ty pl s) = ss_state s" "isDone (emits env ty pl s) = isDone s"
  by (simp_all add: emits_def with_pusher_def isDone_def)

lemma eff_fields [simp]:
  "ss_pending (eff e s) = ss_pending s" "ss_parks (eff e s) = ss_parks s" "ss_held (eff e s) = ss_held s"
  "ss_messageIds (eff e s) = ss_messageIds s" "ss_pendingContexts (eff e s) = ss_pendingContexts s"
  "ss_setup (eff e s) = ss_setup s" "ss_swapping (eff e s) = ss_swapping s" "ss_phase (eff e s) = ss_phase s"
  "ss_effects (eff e s) = ss_effects s @ [e]" "ss_ending (eff e s) = ss_ending s"
  "ss_controlBusy (eff e s) = ss_controlBusy s" "ss_answersFrom (eff e s) = ss_answersFrom s"
  "ss_authorFilter (eff e s) = ss_authorFilter s" "ss_spec (eff e s) = ss_spec s" "ss_queued (eff e s) = ss_queued s"
  "ss_current (eff e s) = ss_current s" "ss_swappingSetupId (eff e s) = ss_swappingSetupId s"
  "ss_appliedSetupId (eff e s) = ss_appliedSetupId s" "ss_state (eff e s) = ss_state s"
  "ss_pusher (eff e s) = ss_pusher s" "isDone (eff e s) = isDone s" "ss_ledger (eff e s) = ss_ledger s"
  by (simp_all add: eff_def isDone_def)

section \<open>The interface of a driver\<close>

text \<open>
  What the routes rely on when they call a driver: taking a prompt and beginning to end may
  emit, change the state and queue the prompt, and leave everything the routes own alone.
\<close>

definition driver_keeps :: "session \<Rightarrow> session \<Rightarrow> bool" where
  "driver_keeps s s' \<longleftrightarrow> (\<exists>q. moves (s\<lparr>ss_queued := q\<rparr>) s')"

locale harness =
  fixes dr :: driver
  assumes queue_keeps: "driver_keeps s (fst (dr_queueMessage dr env t s))"
    and end_keeps: "driver_keeps s (dr_beginEnd dr env s)"
    and stop_keeps: "driver_keeps s (dr_shutdownStop dr env s)"

lemma driver_keeps_fields:
  assumes "driver_keeps s s'"
  shows "ss_pending s' = ss_pending s" "ss_parks s' = ss_parks s" "ss_held s' = ss_held s"
    "ss_messageIds s' = ss_messageIds s" "ss_pendingContexts s' = ss_pendingContexts s"
    "ss_setup s' = ss_setup s" "ss_swapping s' = ss_swapping s" "ss_phase s' = ss_phase s"
    "ss_effects s' = ss_effects s" "ss_ending s' = ss_ending s" "ss_controlBusy s' = ss_controlBusy s"
    "ss_answersFrom s' = ss_answersFrom s" "ss_authorFilter s' = ss_authorFilter s" "ss_spec s' = ss_spec s"
proof -
  from assms obtain q where "moves (s\<lparr>ss_queued := q\<rparr>) s'" by (auto simp: driver_keeps_def)
  from moves_fields [OF this] show "ss_pending s' = ss_pending s" "ss_parks s' = ss_parks s" "ss_held s' = ss_held s"
    "ss_messageIds s' = ss_messageIds s" "ss_pendingContexts s' = ss_pendingContexts s"
    "ss_setup s' = ss_setup s" "ss_swapping s' = ss_swapping s" "ss_phase s' = ss_phase s"
    "ss_effects s' = ss_effects s" "ss_ending s' = ss_ending s" "ss_controlBusy s' = ss_controlBusy s"
    "ss_answersFrom s' = ss_answersFrom s" "ss_authorFilter s' = ss_authorFilter s" "ss_spec s' = ss_spec s"
    by simp_all
qed

lemma endNeverStarted_keeps: "driver_keeps s (endNeverStartedSession env s)"
proof -
  have "moves s (endNeverStartedSession env s)"
    using moves_trans [OF moves_state(1) [of s Ended] moves_emits(1)]
    by (simp add: endNeverStartedSession_def)
  moreover have "s\<lparr>ss_queued := ss_queued s\<rparr> = s" by simp
  ultimately show ?thesis unfolding driver_keeps_def by metis
qed

lemma driver_keeps_moves: "moves s s' \<Longrightarrow> driver_keeps s s'"
  unfolding driver_keeps_def by (intro exI [of _ "ss_queued s"]) simp

interpretation seed: harness pendingSeedDriver
proof
  show "driver_keeps s (fst (dr_queueMessage pendingSeedDriver env t s))" for s env t
  proof (cases "ss_ending s")
    case True
    then show ?thesis
      by (simp add: pendingSeedDriver_def seed_queueMessage_def driver_keeps_moves)
  next
    case False
    then show ?thesis
      unfolding driver_keeps_def
      by (intro exI [of _ "ss_queued s @ [t]"]) (simp add: pendingSeedDriver_def seed_queueMessage_def)
  qed
qed (simp_all add: pendingSeedDriver_def endNeverStarted_keeps)

section \<open>Ending releases everything\<close>

lemma emits_decision_moves [simp, intro]: "moves s (emits_decision env i b s)"
  by (simp add: emits_decision_def)

lemmas emits_decision_fields [simp] = moves_fields [OF emits_decision_moves]

lemma cancel_permissions_effects:
  "ss_effects (cancel_permissions env m ps s) = ss_effects s @ map (\<lambda>(i, p). Decide i (Deny m)) ps"
  "ss_pending (cancel_permissions env m ps s) = fold (\<lambda>(i, p). AList.delete i) ps (ss_pending s)"
  "ss_parks (cancel_permissions env m ps s) = ss_parks s"
  "ss_held (cancel_permissions env m ps s) = ss_held s"
  "ss_ending (cancel_permissions env m ps s) = ss_ending s"
  by (induction ps arbitrary: s) auto

lemma delete_all: "fold (\<lambda>(i, p). AList.delete i) ps qs = filter (\<lambda>(i, p). i \<notin> fst ` set ps) qs"
  proof (induction ps arbitrary: qs)
  case (Cons x ps)
  obtain i p where x: "x = (i, p)" by fastforce
  have "AList.delete i qs = filter (\<lambda>(j, q). j \<noteq> i) qs" by (induction qs) auto
  then show ?case by (simp add: x Cons.IH) (rule filter_cong; auto)
qed (auto simp: filter_id_conv)

end
