(* ===== verification/HostFiles.thy ===== *)
theory HostFiles
  imports JsJson
begin

text \<open>
  What the daemon reads of its machine: the seed gate (\<^verbatim>\<open>seedgate.mjs\<close>), the upload budget
  and byte ranges of the file API (\<^verbatim>\<open>workspace-files.mjs\<close>), and the bounded file search
  (\<^verbatim>\<open>file-search.mjs\<close>). Directory listings, file status and free space are arguments;
  each wait is given what its polls see.
\<close>

section \<open>Seed gate\<close>

definition SEED_WAIT_MAX_MS :: int where "SEED_WAIT_MAX_MS = 300000"

datatype seed_state = Clear | Seeding | Seed_failed

text \<open>The names in the run directory; \<open>None\<close> is a directory that cannot be read.\<close>

definition seedState :: "jstring list option \<Rightarrow> seed_state" where
  "seedState names =
     (case names of
       None \<Rightarrow> Clear
     | Some ns \<Rightarrow>
         if \<exists>n \<in> set ns. starts_with n (js ''.zwrm-seed-failed-'') then Seed_failed
         else if \<exists>n \<in> set ns. starts_with n (js ''.zwrm-seeding-'') then Seeding
         else Clear)"

datatype seed_wait = Resolved_seed seed_state | Seed_cancelled | Seed_timeout

record poll =
  po_names :: "jstring list option"
  po_cancelled :: bool
  po_now :: int

text \<open>\<open>None\<close>: still waiting after these polls.\<close>

fun waitSeedClear :: "int \<Rightarrow> poll list \<Rightarrow> seed_wait option" where
  "waitSeedClear deadline [] = None"
| "waitSeedClear deadline (p # ps) =
     (let st = seedState (po_names p)
      in if st \<noteq> Seeding then Some (Resolved_seed st)
         else if po_cancelled p then Some Seed_cancelled
         else if po_now p \<ge> deadline then Some Seed_timeout
         else waitSeedClear deadline ps)"

section \<open>Uploads\<close>

definition MiB :: nat where "MiB = 1024 * 1024"
definition MIN_FREE_BYTES :: nat where "MIN_FREE_BYTES = 256 * MiB"
definition FREE_CHECK_BYTES :: nat where "FREE_CHECK_BYTES = 4 * MiB"

text \<open>The volume's available blocks and their size.\<close>

definition uploadBudget :: "int \<times> int \<Rightarrow> int" where
  "uploadBudget st = fst st * snd st - int MIN_FREE_BYTES"

definition volumeFullError :: "int \<Rightarrow> http_error" where
  "volumeFullError budget =
     http_err 507 (js ''not enough space on the workspace volume ('' @
       int_text (max 0 ((budget + int MIN_FREE_BYTES) div int MiB)) @ js '' MiB free, '' @
       dec (MIN_FREE_BYTES div MiB) @ js '' MiB is kept for the agent)'')"

record upload =
  up_maxBytes :: nat
  up_keepFree :: bool
  up_size :: nat
  up_nextCheck :: nat
  up_refused :: "http_error option"

definition UploadCounter :: "nat \<Rightarrow> bool \<Rightarrow> upload" where
  "UploadCounter maxBytes keepFree =
     \<lparr>up_maxBytes = maxBytes, up_keepFree = keepFree, up_size = 0, up_nextCheck = 0, up_refused = None\<rparr>"

text \<open>
  What becomes of a chunk: passed on, dropped, or the stream fails, with the counter's own error
  or (\<open>None\<close>) that of the free space query.
\<close>

datatype chunk_out = Pass | Drop | Fail "http_error option"

definition upload_transform :: "(int \<times> int) option \<Rightarrow> nat \<Rightarrow> upload \<Rightarrow> upload \<times> chunk_out" where
  "upload_transform stat len u =
     (let u1 = u\<lparr>up_size := up_size u + len\<rparr>
      in if up_size u1 > up_maxBytes u
         then (u1, Fail (Some (http_err 400 (js ''file too large (max '' @ dec (up_maxBytes u div MiB) @ js ''MB)''))))
         else if up_refused u \<noteq> None then (u1, Drop)
         else if \<not> up_keepFree u \<or> up_size u1 < up_nextCheck u then (u1, Pass)
         else (let u2 = u1\<lparr>up_nextCheck := up_size u1 + FREE_CHECK_BYTES\<rparr>
               in case stat of
                   None \<Rightarrow> (u2, Fail None)
                 | Some st \<Rightarrow>
                     if uploadBudget st < 0 then (u2\<lparr>up_refused := Some (volumeFullError (uploadBudget st))\<rparr>, Drop)
                     else (u2, Pass)))"

section \<open>Byte ranges\<close>

text \<open>\<^verbatim>\<open>/^bytes=(\d+)-(\d*)$/\<close> against a file's size; \<open>None\<close> serves the whole file.\<close>

definition byteRange :: "jstring option \<Rightarrow> nat \<Rightarrow> (nat \<times> nat) option" where
  "byteRange header sz =
     (let h = (case header of Some t \<Rightarrow> t | None \<Rightarrow> []); rest = drop 6 h;
          a = takeWhile is_digit rest; tail = dropWhile is_digit rest; b = drop 1 tail;
          final = (if b = [] then int sz - 1 else min (int (dec_value b)) (int sz - 1))
      in if starts_with h (js ''bytes='') \<and> a \<noteq> [] \<and> take 1 tail = [0x2D] \<and> list_all is_digit b
            \<and> int (dec_value a) \<le> 2 ^ 53 - 1 \<and> int (dec_value a) \<le> final
         then Some (dec_value a, nat final) else None)"

section \<open>File search\<close>

definition MAX_FILE_SEARCH_RESULTS :: nat where "MAX_FILE_SEARCH_RESULTS = 100"
definition MAX_FILE_SEARCH_DIRS :: nat where "MAX_FILE_SEARCH_DIRS = 200"

datatype file_kind = Symlink_kind | Dir_kind | File_kind | Other_kind

record fstat =
  st_kind :: file_kind
  st_size :: int
  st_modified :: jstring

record hit =
  hi_name :: jstring
  hi_path :: jstring
  hi_size :: int
  hi_modified :: jstring

text \<open>
  A search: the full Unicode \<^verbatim>\<open>toLowerCase\<close>, \<^verbatim>\<open>lstat\<close> by absolute path, the needle
  and the allowlists, and the caps.
\<close>

record search =
  se_lower :: "jstring \<Rightarrow> jstring"
  se_lstat :: "jstring \<Rightarrow> fstat option"
  se_readdir :: "jstring \<Rightarrow> jstring list option"
  se_needle :: jstring
  se_exts :: "jstring list"
  se_bases :: "jstring list"
  se_maxResults :: nat
  se_maxDirs :: nat

text \<open>
  \<^verbatim>\<open>pathResolve(dir, name)\<close> of a listed name, the relative path shown, and
  \<^verbatim>\<open>extname\<close>.
\<close>

definition strip_slashes :: "jstring \<Rightarrow> jstring" where
  "strip_slashes p = rev (dropWhile (\<lambda>u. u = 0x2F) (rev p))"

definition child_abs :: "jstring \<Rightarrow> jstring \<Rightarrow> jstring" where
  "child_abs dir name = (if dir = [0x2F] then [0x2F] @ name else dir @ [0x2F] @ name)"

definition child_rel :: "jstring \<Rightarrow> jstring \<Rightarrow> jstring" where
  "child_rel rel name = (if rel = js ''.'' then name else strip_slashes rel @ [0x2F] @ name)"

definition extname :: "jstring \<Rightarrow> jstring" where
  "extname name =
     (let r = takeWhile (\<lambda>u. u \<noteq> 0x2E) (rev name)
      in if Suc (length r) \<ge> length name \<or> name = js ''..'' then [] else [0x2E] @ rev r)"

definition skipped_dirs :: "jstring list" where
  "skipped_dirs = [js ''.git'', js ''node_modules'', js ''.cache'']"

definition wanted :: "search \<Rightarrow> jstring \<Rightarrow> bool" where
  "wanted se name \<longleftrightarrow> (se_exts se = [] \<and> se_bases se = []) \<or>
     se_lower se (extname name) \<in> set (se_exts se) \<or> se_lower se name \<in> set (se_bases se)"

text \<open>One directory's names, with how many directories were visited, itself included.\<close>

fun scan_names :: "search \<Rightarrow> nat \<Rightarrow> jstring \<times> jstring \<Rightarrow> jstring list \<Rightarrow> (jstring \<times> jstring) list \<Rightarrow> hit list \<Rightarrow>
    (jstring \<times> jstring) list \<times> hit list" where
  "scan_names se visited dir [] queue entries = (queue, entries)"
| "scan_names se visited dir (name # names) queue entries =
     (let abs = child_abs (fst dir) name; rel = child_rel (snd dir) name
      in case se_lstat se abs of
          None \<Rightarrow> scan_names se visited dir names queue entries
        | Some st \<Rightarrow>
            if st_kind st = Dir_kind
            then scan_names se visited dir names
                   (if name \<notin> set skipped_dirs \<and> visited + length queue < se_maxDirs se
                    then queue @ [(abs, rel)] else queue) entries
            else if st_kind st \<noteq> File_kind \<or> \<not> str_includes (se_lower se rel) (se_needle se) \<or> \<not> wanted se name
            then scan_names se visited dir names queue entries
            else (let entries1 = entries @ [\<lparr>hi_name = name, hi_path = rel, hi_size = st_size st,
                        hi_modified = st_modified st\<rparr>]
                  in if length entries1 = se_maxResults se then (queue, entries1)
                     else scan_names se visited dir names queue entries1))"

text \<open>\<open>k\<close> more directories may be visited; \<open>Inl\<close> is a root that cannot be listed.\<close>

fun search_dirs :: "search \<Rightarrow> jstring \<Rightarrow> nat \<Rightarrow> (jstring \<times> jstring) list \<Rightarrow> hit list \<Rightarrow> unit + hit list" where
  "search_dirs se root 0 queue entries = Inr entries"
| "search_dirs se root (Suc k) queue entries =
     (if length entries \<ge> se_maxResults se then Inr entries
      else case queue of
        [] \<Rightarrow> Inr entries
      | dir # rest \<Rightarrow>
          (case se_readdir se (fst dir) of
            None \<Rightarrow> if fst dir = root then Inl () else search_dirs se root k rest entries
          | Some names \<Rightarrow>
              (let (q, es) = scan_names se (se_maxDirs se - k) dir (sort names) rest entries
               in search_dirs se root k q es)))"

definition comma_list :: "(jstring \<Rightarrow> jstring) \<Rightarrow> jstring \<Rightarrow> jstring list" where
  "comma_list lower s = remdups (map lower (filter (\<lambda>w. w \<noteq> []) (split_on 0x2C s)))"

definition search_for ::
  "(jstring \<Rightarrow> jstring) \<Rightarrow> (jstring \<Rightarrow> fstat option) \<Rightarrow> (jstring \<Rightarrow> jstring list option) \<Rightarrow>
    jstring \<Rightarrow> jstring \<Rightarrow> jstring \<Rightarrow> search" where
  "search_for lower stat readd query extensions basenames =
     \<lparr>se_lower = lower, se_lstat = stat, se_readdir = readd, se_needle = lower (trim query),
      se_exts = comma_list lower extensions, se_bases = comma_list lower basenames,
      se_maxResults = MAX_FILE_SEARCH_RESULTS, se_maxDirs = MAX_FILE_SEARCH_DIRS\<rparr>"

definition searchWorkspaceFiles :: "search \<Rightarrow> jstring \<Rightarrow> jstring \<Rightarrow> unit + hit list" where
  "searchWorkspaceFiles se rootAbs rootRel =
     (if se_needle se = [] then Inr []
      else search_dirs se rootAbs (se_maxDirs se) [(rootAbs, rootRel)] [])"

section \<open>The seed wait ends\<close>

lemma waitSeedClear_not_seeding: "waitSeedClear d ps = Some r \<Longrightarrow> r \<noteq> Resolved_seed Seeding"
  by (induction ps) (auto simp: Let_def split: if_splits)

lemma waitSeedClear_late: "p \<in> set ps \<Longrightarrow> d \<le> po_now p \<Longrightarrow> waitSeedClear d ps \<noteq> None"
  by (induction ps) (auto simp: Let_def)

text \<open>
  The wait for a seeding volume ends: with polls at least \<open>pollMs\<close> apart, it has answered
  within \<open>maxMs / pollMs + 2\<close> polls, with a state that is not seeding, the caller's
  cancellation, or a timeout.
\<close>

theorem seed_wait_ends:
  assumes "0 < pollMs" and "0 \<le> maxMs"
    and "\<And>i. i < length ps \<Longrightarrow> start + int i * pollMs \<le> po_now (ps ! i)"
    and "nat (maxMs div pollMs) + 2 \<le> length ps"
  shows "\<exists>r. waitSeedClear (start + maxMs) ps = Some r \<and> r \<noteq> Resolved_seed Seeding"
proof -
  let ?i = "nat (maxMs div pollMs) + 1"
  have i: "int ?i = maxMs div pollMs + 1" using assms(1,2) by (simp add: pos_imp_zdiv_nonneg_iff)
  have "maxMs mod pollMs < pollMs" "pollMs * (maxMs div pollMs) + maxMs mod pollMs = maxMs"
    using assms(1) by simp_all
  moreover have "int ?i * pollMs = pollMs * (maxMs div pollMs) + pollMs" unfolding i by (simp add: algebra_simps)
  ultimately have "maxMs \<le> int ?i * pollMs" by linarith
  moreover have "start + int ?i * pollMs \<le> po_now (ps ! ?i)" using assms(4) by (intro assms(3)) simp
  ultimately have "start + maxMs \<le> po_now (ps ! ?i)" by linarith
  then have "waitSeedClear (start + maxMs) ps \<noteq> None"
    using assms(4) by (intro waitSeedClear_late [of "ps ! ?i"]) simp_all
  then show ?thesis using waitSeedClear_not_seeding by blast
qed

theorem seed_wait_ends_witness:
  "\<exists>r. waitSeedClear (0 + 1) (replicate 3 \<lparr>po_names = Some [js ''.zwrm-seeding-home''], po_cancelled = False, po_now = 9\<rparr>)
      = Some r \<and> r \<noteq> Resolved_seed Seeding"
  by (rule seed_wait_ends [of 1]) (auto simp: less_Suc_eq numeral_3_eq_3)

section \<open>Uploads stop short of the reserve\<close>

text \<open>A stream of chunks; the free space seen is that left by the bytes passed so far.\<close>

fun upload_run :: "(nat \<Rightarrow> (int \<times> int) option) \<Rightarrow> nat list \<Rightarrow> nat \<Rightarrow> upload \<Rightarrow> nat \<times> upload \<times> bool" where
  "upload_run stat [] passed u = (passed, u, True)"
| "upload_run stat (len # ls) passed u =
     (case upload_transform (stat passed) len u of
       (u1, Pass) \<Rightarrow> upload_run stat ls (passed + len) u1
     | (u1, Drop) \<Rightarrow> upload_run stat ls passed u1
     | (u1, Fail e) \<Rightarrow> (passed, u1, False))"

definition upload_inv :: "int \<Rightarrow> nat \<Rightarrow> nat \<Rightarrow> upload \<Rightarrow> bool" where
  "upload_inv limit c passed u \<longleftrightarrow> up_keepFree u \<and> passed \<le> up_size u \<and> up_size u \<le> up_maxBytes u \<and>
     int passed \<le> max 0 (limit + int c + int FREE_CHECK_BYTES) \<and>
     (up_refused u = None \<longrightarrow> passed = up_size u \<and>
        (up_nextCheck u = 0 \<and> passed = 0 \<or> int (up_nextCheck u) \<le> limit + int c + int FREE_CHECK_BYTES))"

lemma upload_step_inv:
  assumes "upload_inv limit c passed u" and "len \<le> c" and "uploadBudget st = limit - int passed"
    and "upload_transform (Some st) len u = (u1, out)" and "\<forall>e. out \<noteq> Fail e"
  shows "upload_inv limit c (if out = Pass then passed + len else passed) u1"
  using assms by (auto simp: upload_inv_def upload_transform_def Let_def split: if_splits)

lemma upload_run_inv:
  assumes "upload_inv limit c passed u" and "list_all (\<lambda>len. len \<le> c) lens"
    and "\<And>p. uploadBudget (st p) = limit - int p"
    and "upload_run (\<lambda>p. Some (st p)) lens passed u = (written, u', ok)"
  shows "int written \<le> max 0 (limit + int c + int FREE_CHECK_BYTES) \<and> written \<le> up_maxBytes u"
  using assms(1,2,4)
proof (induction lens arbitrary: passed u)
  case Nil
  then show ?case by (auto simp: upload_inv_def)
next
  case (Cons len lens)
  obtain u1 out where t: "upload_transform (Some (st passed)) len u = (u1, out)" by fastforce
  have keep: "up_maxBytes u1 = up_maxBytes u"
    using t by (auto simp: upload_transform_def Let_def split: if_splits)
  note step = upload_step_inv [OF Cons.prems(1) _ assms(3) t]
  show ?case
  proof (cases out)
    case (Fail e)
    with Cons.prems t show ?thesis by (auto simp: upload_inv_def)
  next
    case Pass
    with Cons.prems t step have "upload_inv limit c (passed + len) u1"
      "upload_run (\<lambda>p. Some (st p)) lens (passed + len) u1 = (written, u', ok)" by auto
    with Cons.IH Cons.prems(2) keep show ?thesis by fastforce
  next
    case Drop
    with Cons.prems t step have "upload_inv limit c passed u1"
      "upload_run (\<lambda>p. Some (st p)) lens passed u1 = (written, u', ok)" by auto
    with Cons.IH Cons.prems(2) keep show ?thesis by fastforce
  qed
qed

text \<open>
  A user's upload never passes the size cap, and never takes the volume's reserve by more
  than the bytes written between two looks at the free space: if anything was written, at least
  \<open>MIN_FREE_BYTES\<close> less one chunk and \<open>FREE_CHECK_BYTES\<close> are still free.
\<close>

theorem upload_keeps_reserve:
  assumes "list_all (\<lambda>len. len \<le> c) lens"
    and "upload_run (\<lambda>p. Some (free - int p, 1)) lens 0 (UploadCounter maxBytes True) = (written, u, ok)"
  shows "written \<le> maxBytes \<and>
    (written = 0 \<or> int MIN_FREE_BYTES - int c - int FREE_CHECK_BYTES \<le> free - int written)"
proof -
  have inv: "upload_inv (free - int MIN_FREE_BYTES) c 0 (UploadCounter maxBytes True)"
    by (simp add: upload_inv_def UploadCounter_def)
  have "int written \<le> max 0 (free - int MIN_FREE_BYTES + int c + int FREE_CHECK_BYTES) \<and>
      written \<le> up_maxBytes (UploadCounter maxBytes True)"
    by (rule upload_run_inv [OF inv assms(1) _ assms(2)]) (simp add: uploadBudget_def)
  then show ?thesis by (auto simp: UploadCounter_def)
qed

theorem upload_keeps_reserve_witness:
  "(4::nat) \<le> 9 \<and> ((4::nat) = 0 \<or> int MIN_FREE_BYTES - 2 - int FREE_CHECK_BYTES \<le> int MIN_FREE_BYTES + 3 - 4)"
  using upload_keeps_reserve [of 2 "[2, 2]" "int MIN_FREE_BYTES + 3" 9]
  by (simp add: UploadCounter_def upload_transform_def uploadBudget_def)

section \<open>Ranges stay in the file\<close>

lemma dec_value_snoc: "dec_value (s @ [u]) = 10 * dec_value s + (unat u - 48)"
  by (simp add: dec_value_def)

lemma unat_digit: "d < 10 \<Longrightarrow> unat (of_nat (48 + d) :: jchar) = 48 + d"
  unfolding unat_of_nat by (simp add: take_bit_nat_eq_self)

lemma dec_digits: "list_all is_digit (dec n)"
proof (induction n rule: dec.induct)
  case (1 n)
  have "is_digit (of_nat (48 + d))" if "d < 10" for d
    using unat_digit [OF that] that by (simp add: is_digit_def word_le_nat_alt)
  with 1 show ?case by (subst dec.simps) auto
qed

lemma dec_value_dec: "dec_value (dec n) = n"
proof (induction n rule: dec.induct)
  case (1 n)
  show ?case
  proof (cases "n < 10")
    case True
    then show ?thesis by (subst dec.simps) (simp add: dec_value_def unat_digit del: of_nat_add)
  next
    case False
    with 1 show ?thesis
      by (subst dec.simps) (simp add: dec_value_snoc unat_digit del: of_nat_add)
  qed
qed

text \<open>
  A range answer lies within the file, whatever the header says; and the header a client
  writes for bytes \<open>a\<close> to \<open>b\<close> of a file, decimal numbers as it renders them, is read back as
  that range.
\<close>

theorem byte_range_roundtrip:
  assumes "a \<le> b" and "b < sz" and "sz \<le> 2 ^ 53"
  shows "byteRange (Some (js ''bytes='' @ dec a @ [0x2D] @ dec b)) sz = Some (a, b) \<and>
    (\<forall>x y. byteRange header sz = Some (x, y) \<longrightarrow> x \<le> y \<and> y < sz)"
proof
  have not_digit: "\<not> is_digit 0x2D" by (simp add: is_digit_def)
  have tw: "takeWhile is_digit (dec a @ 0x2D # r) = dec a" "dropWhile is_digit (dec a @ 0x2D # r) = 0x2D # r" for r
    using dec_digits [of a] not_digit by (simp_all add: takeWhile_append list_all_iff dropWhile_append)
  have len: "length (js ''bytes='') = 6" by simp
  have drop: "drop 6 (js ''bytes='' @ t) = t" for t using len by (metis append_eq_conv_conj)
  have "min (int b) (int sz - 1) = int b" "int a \<le> 2 ^ 53 - 1" using assms by auto
  then show "byteRange (Some (js ''bytes='' @ dec a @ [0x2D] @ dec b)) sz = Some (a, b)"
    using assms(1) by (simp add: byteRange_def Let_def drop tw dec_value_dec dec_digits)
  show "\<forall>x y. byteRange header sz = Some (x, y) \<longrightarrow> x \<le> y \<and> y < sz"
    by (auto simp: byteRange_def Let_def nat_le_iff split: if_splits)
qed

theorem byte_range_roundtrip_witness:
  "byteRange (Some (js ''bytes='' @ dec 0 @ [0x2D] @ dec 7)) 9 = Some (0, 7)"
  using byte_range_roundtrip [of 0 7 9 None] by simp

section \<open>A search is bounded and shows what it was asked for\<close>

text \<open>The directories a search may enter, and the hits it may show.\<close>

inductive below :: "search \<Rightarrow> jstring \<Rightarrow> jstring \<Rightarrow> bool" for se root where
  below_root: "below se root root"
| below_child: "below se root d \<Longrightarrow> name \<notin> set skipped_dirs \<Longrightarrow> se_lstat se (child_abs d name) = Some st \<Longrightarrow>
     st_kind st = Dir_kind \<Longrightarrow> below se root (child_abs d name)"

definition search_hit :: "search \<Rightarrow> jstring \<Rightarrow> hit \<Rightarrow> bool" where
  "search_hit se root h \<longleftrightarrow> str_includes (se_lower se (hi_path h)) (se_needle se) \<and> wanted se (hi_name h) \<and>
     (\<exists>dir st. below se root dir \<and> se_lstat se (child_abs dir (hi_name h)) = Some st \<and>
        st_kind st = File_kind \<and> st_size st = hi_size h)"

lemma scan_names_props:
  assumes "scan_names se visited dir names queue entries = (q, es)"
    and "length entries < se_maxResults se" and "list_all (search_hit se root) entries"
    and "below se root (fst dir)" and "list_all (below se root) (map fst queue)"
  shows "length es \<le> se_maxResults se \<and> list_all (search_hit se root) es \<and> list_all (below se root) (map fst q)"
  using assms(1-3,5)
proof (induction names arbitrary: queue entries)
  case (Cons name names)
  show ?case
  proof (cases "se_lstat se (child_abs (fst dir) name)")
    case None
    with Cons show ?thesis by simp
  next
    case (Some st)
    let ?abs = "child_abs (fst dir) name" and ?rel = "child_rel (snd dir) name"
    let ?h = "\<lparr>hi_name = name, hi_path = ?rel, hi_size = st_size st, hi_modified = st_modified st\<rparr>"
    consider (dir) "st_kind st = Dir_kind"
      | (no) "st_kind st \<noteq> Dir_kind"
          "st_kind st \<noteq> File_kind \<or> \<not> str_includes (se_lower se ?rel) (se_needle se) \<or> \<not> wanted se name"
      | (hit) "st_kind st = File_kind" "str_includes (se_lower se ?rel) (se_needle se)" "wanted se name"
      by blast
    then show ?thesis
    proof cases
      case dir
      have "name \<notin> set skipped_dirs \<Longrightarrow> below se root ?abs"
        using below_child [OF assms(4) _ Some dir] by blast
      with dir Some Cons.prems show ?thesis
        by (intro Cons.IH [where queue = "if name \<notin> set skipped_dirs \<and> visited + length queue < se_maxDirs se
              then queue @ [(?abs, ?rel)] else queue" and entries = entries])
          (simp_all add: Let_def)
    next
      case no
      with Some Cons.prems show ?thesis
        by (intro Cons.IH [where queue = queue and entries = entries]) (simp_all add: Let_def)
    next
      case hit
      have h: "search_hit se root ?h" using hit Some assms(4) unfolding search_hit_def by auto
      show ?thesis
      proof (cases "length (entries @ [?h]) = se_maxResults se")
        case True
        with hit Some Cons.prems h show ?thesis by (auto simp: Let_def)
      next
        case False
        with hit Some Cons.prems h show ?thesis
          by (intro Cons.IH [where queue = queue and entries = "entries @ [?h]"]) (simp_all add: Let_def)
      qed
    qed
  qed
qed auto

lemma search_dirs_props:
  assumes "search_dirs se root k queue entries = Inr es"
    and "length entries \<le> se_maxResults se" and "list_all (search_hit se root) entries"
    and "list_all (below se root) (map fst queue)"
  shows "length es \<le> se_maxResults se \<and> list_all (search_hit se root) es"
  using assms
proof (induction k arbitrary: queue entries)
  case (Suc k)
  show ?case
  proof (cases "length entries \<ge> se_maxResults se \<or> queue = []")
    case True
    with Suc.prems show ?thesis by (auto split: list.splits)
  next
    case False
    then obtain dir rest where q: "queue = dir # rest" by (cases queue) auto
    show ?thesis
    proof (cases "se_readdir se (fst dir)")
      case None
      with False Suc q show ?thesis by (auto split: if_splits)
    next
      case (Some names)
      obtain q' es' where scan: "scan_names se (se_maxDirs se - k) dir (sort names) rest entries = (q', es')"
        by fastforce
      have "length es' \<le> se_maxResults se \<and> list_all (search_hit se root) es' \<and> list_all (below se root) (map fst q')"
        using False Suc.prems q by (intro scan_names_props [OF scan]) auto
      moreover have "search_dirs se root k q' es' = Inr es" using Suc.prems(1) False q Some scan by simp
      ultimately show ?thesis using Suc.IH by blast
    qed
  qed
qed simp

text \<open>
  A search shows at most a hundred files, each a regular file of a directory reached from the
  root without entering \<^verbatim>\<open>.git\<close>, \<^verbatim>\<open>node_modules\<close> or \<^verbatim>\<open>.cache\<close>, whose path holds the query and
  whose name the allowlists take; an empty query shows nothing.
\<close>

theorem search_bounded_sound:
  assumes "se = search_for lower stat readd query extensions basenames"
    and "searchWorkspaceFiles se root rel = Inr es"
  shows "length es \<le> 100 \<and> list_all (search_hit se root) es \<and> (lower (trim query) = [] \<longrightarrow> es = [])"
proof -
  have max: "se_maxResults se = 100" "se_needle se = lower (trim query)"
    by (simp_all add: assms(1) search_for_def MAX_FILE_SEARCH_RESULTS_def)
  show ?thesis
  proof (cases "se_needle se = []")
    case False
    then have "search_dirs se root (se_maxDirs se) [(root, rel)] [] = Inr es"
      using assms(2) by (simp add: searchWorkspaceFiles_def)
    then have "length es \<le> se_maxResults se \<and> list_all (search_hit se root) es"
      by (rule search_dirs_props) (simp_all add: below_root)
    with False max show ?thesis by simp
  qed (use assms(2) max in \<open>simp add: searchWorkspaceFiles_def\<close>)
qed

definition sample_search :: search where
  "sample_search = search_for id
     (\<lambda>p. if p = [0x2F, 0x61] then Some \<lparr>st_kind = File_kind, st_size = 3, st_modified = []\<rparr> else None)
     (\<lambda>p. if p = [0x2F] then Some [[0x61]] else None) [0x61] [] []"

lemma sample_search_result:
  "searchWorkspaceFiles sample_search [0x2F] (js ''.'') =
    Inr [\<lparr>hi_name = [0x61], hi_path = [0x61], hi_size = 3, hi_modified = []\<rparr>]"
proof -
  have run: "search_dirs sample_search [0x2F] (Suc (Suc k)) [([0x2F], js ''.'')] [] =
      Inr [\<lparr>hi_name = [0x61], hi_path = [0x61], hi_size = 3, hi_modified = []\<rparr>]" for k
    by (simp add: sample_search_def search_for_def MAX_FILE_SEARCH_RESULTS_def child_abs_def child_rel_def
        wanted_def comma_list_def starts_with_def trim_def is_space_def Let_def)
  have "se_maxDirs sample_search = Suc (Suc 198)" "se_needle sample_search \<noteq> []"
    by (simp_all add: sample_search_def search_for_def MAX_FILE_SEARCH_DIRS_def trim_def is_space_def)
  then show ?thesis unfolding searchWorkspaceFiles_def using run [of 198] by simp
qed

theorem search_bounded_sound_witness:
  "length [\<lparr>hi_name = [0x61], hi_path = [0x61], hi_size = 3, hi_modified = []\<rparr>] \<le> (100 :: nat) \<and>
   list_all (search_hit sample_search [0x2F]) [\<lparr>hi_name = [0x61], hi_path = [0x61], hi_size = 3, hi_modified = []\<rparr>]"
  using search_bounded_sound [OF sample_search_def sample_search_result] by blast

end
