(* ===== verification/FileApi.thy ===== *)
theory FileApi
  imports HostFiles
begin

text \<open>
  The workspace file API and the skill fetch of \<^verbatim>\<open>server.mjs\<close>: the path jail, listing, reading,
  writing and deleting under the workspace root, and the download that installs a skill. The
  file system's answers are arguments; what is written is an effect list.
\<close>

section \<open>Errors and paths\<close>

text \<open>What a handler throws: an error with an HTTP status, or a system error by its code.\<close>

datatype io_error = Http http_error | Code jstring

definition bad_io :: "jstring \<Rightarrow> io_error" where
  "bad_io m = Http (bad_request m)"

text \<open>POSIX path resolution, on the segments of an absolute path.\<close>

definition step_segment :: "jstring list \<Rightarrow> jstring \<Rightarrow> jstring list" where
  "step_segment segs w =
     (if w = [] \<or> w = js ''.'' then segs else if w = js ''..'' then butlast segs else segs @ [w])"

definition normal_segments :: "jstring \<Rightarrow> jstring list" where
  "normal_segments p = foldl step_segment [] (split_on 0x2F p)"

definition abs_path :: "jstring list \<Rightarrow> jstring" where
  "abs_path segs = [0x2F] @ join [0x2F] segs"

definition resolve_segments :: "jstring \<Rightarrow> jstring \<Rightarrow> jstring list" where
  "resolve_segments root rel = normal_segments (if take 1 rel = [0x2F] then rel else root @ [0x2F] @ rel)"

definition pathResolve :: "jstring \<Rightarrow> jstring \<Rightarrow> jstring" where
  "pathResolve root rel = abs_path (resolve_segments root rel)"

definition files_root :: "jstring \<Rightarrow> jstring" where
  "files_root home = abs_path (normal_segments home)"

definition inside :: "jstring \<Rightarrow> jstring \<Rightarrow> bool" where
  "inside root p \<longleftrightarrow> p = root \<or> starts_with p (root @ [0x2F])"

datatype real_path = Real jstring | Real_error jstring

text \<open>The walk up to the nearest existing ancestor, on the reversed segments of the path.\<close>

fun jail_probe :: "(jstring \<Rightarrow> real_path) \<Rightarrow> jstring \<Rightarrow> jstring list \<Rightarrow> io_error option" where
  "jail_probe realpath root rsegs =
     (case realpath (abs_path (rev rsegs)) of
       Real real \<Rightarrow> if inside root real then None else Some (bad_io (js ''path escapes the workspace''))
     | Real_error c \<Rightarrow>
         if c \<noteq> js ''ENOENT'' then Some (Code c)
         else (case rsegs of [] \<Rightarrow> None | s # ss \<Rightarrow> jail_probe realpath root ss))"

declare jail_probe.simps [simp del]

definition resolveJailed :: "jstring \<Rightarrow> (jstring \<Rightarrow> real_path) \<Rightarrow> json \<Rightarrow> io_error + jstring" where
  "resolveJailed home realpath rel =
     (case rel of
       JStr t \<Rightarrow>
         if t = [] then Inl (bad_io (js ''path is required''))
         else if 0 \<in> set t then Inl (bad_io (js ''invalid path''))
         else (let segs = resolve_segments home t; target = abs_path segs; root = files_root home
               in if \<not> inside root target then Inl (bad_io (js ''path escapes the workspace''))
                  else (case jail_probe realpath root (rev segs) of Some e \<Rightarrow> Inl e | None \<Rightarrow> Inr target))
     | _ \<Rightarrow> Inl (bad_io (js ''path is required'')))"

section \<open>Listing and reading\<close>

fun fileType :: "file_kind \<Rightarrow> jstring" where
  "fileType Symlink_kind = js ''symlink''"
| "fileType Dir_kind = js ''dir''"
| "fileType File_kind = js ''file''"
| "fileType Other_kind = js ''other''"

text \<open>A response: a JSON body, or a file's bytes with the range sent and its length.\<close>

datatype file_response = Reply nat json_obj | Stream nat "(nat \<times> nat) option" nat

definition list_entry :: "(jstring \<Rightarrow> io_error + fstat) \<Rightarrow> jstring \<Rightarrow> jstring \<Rightarrow> jstring \<Rightarrow> json list" where
  "list_entry lstat target rel name =
     (case lstat (pathResolve target name) of
       Inl _ \<Rightarrow> []
     | Inr st \<Rightarrow> [JObj [(js ''name'', JStr name),
         (js ''path'', JStr (if rel = js ''.'' then name else strip_slashes rel @ [0x2F] @ name)),
         (js ''type'', JStr (fileType (st_kind st))), (js ''size'', JInt (st_size st)),
         (js ''modified'', JStr (st_modified st))]])"

definition handleFileList ::
  "(jstring \<Rightarrow> io_error + jstring list) \<Rightarrow> (jstring \<Rightarrow> io_error + fstat) \<Rightarrow> jstring \<Rightarrow> jstring \<Rightarrow> io_error + file_response" where
  "handleFileList readd lstat target rel =
     (case readd target of
       Inl e \<Rightarrow> Inl e
     | Inr names \<Rightarrow> Inr (Reply 200 [(js ''entries'', JArr (concat (map (list_entry lstat target rel) (sort names))))]))"

definition hit_json :: "hit \<Rightarrow> json" where
  "hit_json h = JObj [(js ''name'', JStr (hi_name h)), (js ''path'', JStr (hi_path h)), (js ''type'', JStr (js ''file'')),
     (js ''size'', JInt (hi_size h)), (js ''modified'', JStr (hi_modified h))]"

fun right_option :: "'e + 'a \<Rightarrow> 'a option" where
  "right_option (Inl _) = None"
| "right_option (Inr x) = Some x"

definition handleFileSearch ::
  "(jstring \<Rightarrow> jstring) \<Rightarrow> (jstring \<Rightarrow> io_error + jstring list) \<Rightarrow> (jstring \<Rightarrow> io_error + fstat) \<Rightarrow> jstring \<Rightarrow> jstring \<Rightarrow>
    jstring \<Rightarrow> jstring \<Rightarrow> jstring \<Rightarrow> io_error + file_response" where
  "handleFileSearch lower readd lstat target rel query extensions basenames =
     (case searchWorkspaceFiles (search_for lower (right_option \<circ> lstat) (right_option \<circ> readd) query extensions basenames) target rel of
       Inl _ \<Rightarrow> (case readd target of Inl e \<Rightarrow> Inl e | Inr _ \<Rightarrow> Inl (Code []))
     | Inr hits \<Rightarrow> Inr (Reply 200 [(js ''entries'', JArr (map hit_json hits))]))"

definition handleFileRead :: "(jstring \<Rightarrow> io_error + fstat) \<Rightarrow> jstring option \<Rightarrow> jstring \<Rightarrow> io_error + file_response" where
  "handleFileRead lstat rangeHeader target =
     (case lstat target of
       Inl e \<Rightarrow> Inl e
     | Inr st \<Rightarrow>
         if st_kind st = Dir_kind then Inl (bad_io (js ''path is a directory (use list=true)''))
         else if st_kind st \<noteq> File_kind then Inl (bad_io (js ''not a regular file''))
         else (case byteRange rangeHeader (nat (st_size st)) of
             Some (a, b) \<Rightarrow> Inr (Stream 206 (Some (a, b)) (b - a + 1))
           | None \<Rightarrow> Inr (Stream 200 None (nat (st_size st)))))"

section \<open>Writing and deleting\<close>

datatype fs_effect =
    Mkdir jstring
  | Create jstring nat
  | Rename jstring jstring
  | Unlink jstring
  | Remove jstring

text \<open>
  How the outside answers an upload: free space at the first look, the directory, the body's
  chunks with the free space at each, a failure of the stream after them, the rename.
\<close>

record upload_env =
  ue_budget :: "io_error + int \<times> int"
  ue_mkdir :: "io_error option"
  ue_open :: "io_error option"
  ue_chunks :: "((int \<times> int) option \<times> nat) list"
  ue_stream :: "io_error option"
  ue_rename :: "io_error option"
  ue_id :: jstring

definition MAX_FILE_BYTES :: nat where "MAX_FILE_BYTES = 100 * 1024 * 1024"

fun upload_chunks :: "((int \<times> int) option \<times> nat) list \<Rightarrow> upload \<Rightarrow> upload \<times> io_error option" where
  "upload_chunks [] u = (u, None)"
| "upload_chunks ((stat, len) # cs) u =
     (case upload_transform stat len u of
       (u1, Fail (Some e)) \<Rightarrow> (u1, Some (Http e))
     | (u1, Fail None) \<Rightarrow> (u1, Some (Code (js ''EIO'')))
     | (u1, _) \<Rightarrow> upload_chunks cs u1)"

definition dirname :: "jstring \<Rightarrow> jstring" where
  "dirname p = abs_path (butlast (normal_segments p))"

definition temp_name :: "jstring \<Rightarrow> jstring \<Rightarrow> jstring" where
  "temp_name target i = target @ js ''.zwrm-tmp-'' @ take 8 i"

text \<open>The write to the sibling file, up to the rename: what failed, if anything did.\<close>

definition upload_body :: "upload_env \<Rightarrow> bool \<Rightarrow> upload \<times> io_error option" where
  "upload_body ue keepFree =
     (case ue_open ue of
       Some e \<Rightarrow> (UploadCounter MAX_FILE_BYTES keepFree, Some e)
     | None \<Rightarrow>
         (case upload_chunks (ue_chunks ue) (UploadCounter MAX_FILE_BYTES keepFree) of
           (u, Some e) \<Rightarrow> (u, Some e)
         | (u, None) \<Rightarrow>
             (u, (case ue_stream ue of
                 Some e \<Rightarrow> Some e
               | None \<Rightarrow> (case up_refused u of Some e \<Rightarrow> Some (Http e) | None \<Rightarrow> ue_rename ue)))))"

definition handleFileWrite :: "upload_env \<Rightarrow> jstring \<Rightarrow> bool \<Rightarrow> (io_error + file_response) \<times> fs_effect list" where
  "handleFileWrite ue target keepFree =
     (case (if keepFree then (case ue_budget ue of
                Inl e \<Rightarrow> Some e
              | Inr st \<Rightarrow> if uploadBudget st < 0 then Some (Http (volumeFullError (uploadBudget st))) else None)
            else None) of
       Some e \<Rightarrow> (Inl e, [])
     | None \<Rightarrow>
         (case ue_mkdir ue of
           Some e \<Rightarrow> (Inl e, [Mkdir (dirname target)])
         | None \<Rightarrow>
             (let tmp = temp_name target (ue_id ue);
                  (u, failed) = upload_body ue keepFree;
                  written = (if ue_open ue = None then [Create tmp (up_size u)] else [])
              in case failed of
                  Some e \<Rightarrow> (Inl e, [Mkdir (dirname target)] @ written @ [Unlink tmp])
                | None \<Rightarrow> (Inr (Reply 200 [(js ''bytes_written'', JInt (int (up_size u)))]),
                    [Mkdir (dirname target)] @ written @ [Rename tmp target]))))"

definition handleFileDelete ::
  "jstring \<Rightarrow> (jstring \<Rightarrow> io_error + fstat) \<Rightarrow> io_error option \<Rightarrow> jstring \<Rightarrow> bool \<Rightarrow>
    (io_error + file_response) \<times> fs_effect list" where
  "handleFileDelete home lstat rm target recursive =
     (if target = files_root home then (Inl (bad_io (js ''refusing to delete the workspace root'')), [])
      else (case lstat target of
          Inl e \<Rightarrow> (Inl e, [])
        | Inr st \<Rightarrow>
            if st_kind st = Dir_kind \<and> \<not> recursive
            then (Inl (bad_io (js ''path is a directory (use recursive=true)'')), [])
            else (case rm of Some e \<Rightarrow> (Inl e, [Remove target])
                  | None \<Rightarrow> (Inr (Reply 200 [(js ''deleted'', JBool True)]), [Remove target]))))"

section \<open>The route\<close>

text \<open>A request to the file API, its query parameters as strings, absent ones empty.\<close>

record file_request =
  fr_method :: jstring
  fr_path :: jstring
  fr_list :: jstring
  fr_search :: jstring
  fr_extensions :: jstring
  fr_basenames :: jstring
  fr_keep_free :: jstring
  fr_recursive :: jstring
  fr_range :: "jstring option"

record file_system =
  fs_home :: jstring
  fs_lower :: "jstring \<Rightarrow> jstring"
  fs_realpath :: "jstring \<Rightarrow> real_path"
  fs_lstat :: "jstring \<Rightarrow> io_error + fstat"
  fs_readdir :: "jstring \<Rightarrow> io_error + jstring list"
  fs_upload :: upload_env
  fs_rm :: "io_error option"

definition file_error :: "io_error \<Rightarrow> io_error + file_response" where
  "file_error e =
     (case e of
       Http h \<Rightarrow> Inl (Http h)
     | Code c \<Rightarrow>
         if c = js ''ENOENT'' then Inr (Reply 404 [(js ''error'', JStr (js ''no such file or directory''))])
         else if c = js ''EACCES'' \<or> c = js ''EPERM'' then Inr (Reply 403 [(js ''error'', JStr (js ''permission denied''))])
         else if c = js ''ENOSPC'' \<or> c = js ''EDQUOT''
         then Inr (Reply 507 [(js ''error'', JStr (js ''the workspace volume is full''))])
         else Inl (Code c))"

definition caught :: "io_error + file_response \<Rightarrow> io_error + file_response" where
  "caught r = (case r of Inl e \<Rightarrow> file_error e | Inr v \<Rightarrow> Inr v)"

definition true_text :: jstring where "true_text = js ''true''"

definition handleFiles :: "file_system \<Rightarrow> file_request \<Rightarrow> (io_error + file_response) \<times> fs_effect list" where
  "handleFiles fs r =
     (let rel = (if fr_path r = [] then js ''.'' else fr_path r)
      in case resolveJailed (fs_home fs) (fs_realpath fs) (JStr rel) of
          Inl e \<Rightarrow> (Inl e, [])
        | Inr target \<Rightarrow>
            if fr_method r = js ''GET'' \<and> fr_list r = true_text \<and> fr_search r \<noteq> []
            then (caught (handleFileSearch (fs_lower fs) (fs_readdir fs) (fs_lstat fs) target rel (fr_search r)
                    (fr_extensions r) (fr_basenames r)), [])
            else if fr_method r = js ''GET'' \<and> fr_list r = true_text
            then (caught (handleFileList (fs_readdir fs) (fs_lstat fs) target rel), [])
            else if fr_method r = js ''GET'' then (caught (handleFileRead (fs_lstat fs) (fr_range r) target), [])
            else if fr_method r = js ''PUT''
            then apfst caught (handleFileWrite (fs_upload fs) target (fr_keep_free r = true_text))
            else if fr_method r = js ''DELETE''
            then apfst caught (handleFileDelete (fs_home fs) (fs_lstat fs) (fs_rm fs) target (fr_recursive r = true_text))
            else (Inr (Reply 405 [(js ''error'', JStr (js ''method not allowed''))]), []))"

section \<open>Skill fetch\<close>

definition MAX_SKILL_TARBALL_BYTES :: nat where "MAX_SKILL_TARBALL_BYTES = 32 * 1024 * 1024"

text \<open>\<^verbatim>\<open>/^[a-z0-9]([a-z0-9-]{0,62}[a-z0-9])?$/\<close>.\<close>

definition is_slug :: "jstring \<Rightarrow> bool" where
  "is_slug s \<longleftrightarrow> s \<noteq> [] \<and> length s \<le> 64 \<and> is_lower_alnum (hd s) \<and> is_lower_alnum (last s) \<and>
     list_all (\<lambda>u. is_lower_alnum u \<or> u = 0x2D) s"

definition trim_slashes :: "jstring \<Rightarrow> jstring" where
  "trim_slashes s = strip_slashes (dropWhile (\<lambda>u. u = 0x2F) s)"

definition valid_subdir :: "jstring \<Rightarrow> bool" where
  "valid_subdir s \<longleftrightarrow> s \<noteq> [] \<and> list_all (\<lambda>w. w \<noteq> [] \<and> w \<noteq> js ''.'' \<and> w \<noteq> js ''..'') (split_on 0x2F s)"

fun missing_field :: "json \<Rightarrow> jstring list \<Rightarrow> jstring option" where
  "missing_field body [] = None"
| "missing_field body (f # fs) =
     (if \<not> is_str (jget body f) \<or> jget body f = JStr [] then Some f else missing_field body fs)"

record skill_request =
  sk_slug :: jstring
  sk_url :: jstring
  sk_subdir :: jstring
  sk_marker :: jstring

text \<open>\<open>protocol\<close> is that of \<^verbatim>\<open>new URL\<close>, \<open>None\<close> where it throws.\<close>

definition skill_request_of :: "(jstring \<Rightarrow> jstring option) \<Rightarrow> json \<Rightarrow> io_error + skill_request" where
  "skill_request_of protocol body =
     (case missing_field body [js ''slug'', js ''url'', js ''subdir'', js ''marker''] of
       Some f \<Rightarrow> Inl (bad_io (js ''missing '' @ f))
     | None \<Rightarrow>
         (let slug = str_or [] (jget body (js ''slug'')); url = str_or [] (jget body (js ''url''));
              subdir = trim_slashes (str_or [] (jget body (js ''subdir'')))
          in if \<not> is_slug slug then Inl (bad_io (js ''invalid slug''))
             else (case protocol url of
                 None \<Rightarrow> Inl (bad_io (js ''invalid url''))
               | Some pr \<Rightarrow>
                   if pr \<noteq> js ''https:'' then Inl (bad_io (js ''url must be https''))
                   else if \<not> valid_subdir subdir then Inl (bad_io (js ''invalid subdir''))
                   else Inr \<lparr>sk_slug = slug, sk_url = url, sk_subdir = subdir,
                          sk_marker = str_or [] (jget body (js ''marker''))\<rparr>)))"

text \<open>
  What is done on the disk: the leftovers swept, the tarball, the extraction of \<open>*/subdir/*\<close>
  with its leading components stripped, the marker, the swap. And how each step answers.
\<close>

datatype skill_effect =
    Sweep jstring
  | Tarball jstring nat
  | Extract jstring jstring nat
  | Mark jstring jstring
  | Remove_dest jstring
  | Swap jstring jstring
  | Clean jstring

datatype tar_outcome = Tar_ok | Tar_missing | Tar_failed io_error

record skill_env =
  sv_names :: "jstring list option"
  sv_existing :: "jstring option"
  sv_fetch :: "io_error + nat \<times> bool"
  sv_mkdir :: "io_error option"
  sv_chunks :: "nat list"
  sv_stream :: "io_error option"
  sv_tar :: tar_outcome
  sv_skill_md :: bool
  sv_mark :: "io_error option"
  sv_remove :: "io_error option"
  sv_rename :: "io_error option"
  sv_id :: jstring

fun tar_chunks :: "nat list \<Rightarrow> nat \<Rightarrow> nat \<times> io_error option" where
  "tar_chunks [] sz = (sz, None)"
| "tar_chunks (len # ls) sz =
     (if sz + len > MAX_SKILL_TARBALL_BYTES
      then (sz + len, Some (bad_io (js ''tarball too large (max 32MB)'')))
      else tar_chunks ls (sz + len))"

definition skills_dir :: "jstring \<Rightarrow> jstring" where
  "skills_dir dest = dirname dest"

definition sweep :: "skill_env \<Rightarrow> jstring \<Rightarrow> jstring \<Rightarrow> skill_effect list" where
  "sweep sv dest slug =
     (case sv_names sv of
       None \<Rightarrow> []
     | Some names \<Rightarrow> map (\<lambda>n. Sweep (pathResolve (skills_dir dest) n))
                       (filter (\<lambda>n. starts_with n (slug @ js ''.zwrm-fetch-'')) names))"

text \<open>From the download on: the effects so far and what failed.\<close>

definition skill_install ::
  "skill_env \<Rightarrow> skill_request \<Rightarrow> jstring \<Rightarrow> jstring \<Rightarrow> jstring \<Rightarrow> (io_error + nat) \<times> skill_effect list" where
  "skill_install sv r dest tar dir =
     (case sv_fetch sv of
       Inl e \<Rightarrow> (Inl e, [])
     | Inr (st, has_body) \<Rightarrow>
         if \<not> (200 \<le> st \<and> st < 300) \<or> \<not> has_body
         then (Inl (bad_io (js ''upstream fetch failed: HTTP '' @ dec st)), [])
         else (case sv_mkdir sv of
           Some e \<Rightarrow> (Inl e, [])
         | None \<Rightarrow>
             (let (sz, failed) = tar_chunks (sv_chunks sv) 0; got = [Tarball tar sz];
                  extracted = got @ [Extract dir (js ''*/'' @ sk_subdir r @ js ''/*'') (1 + length (split_on 0x2F (sk_subdir r)))];
                  marked = extracted @ [Mark dir (sk_marker r)]
              in case (case failed of Some e \<Rightarrow> Some e | None \<Rightarrow> sv_stream sv) of
                  Some e \<Rightarrow> (Inl e, got)
                | None \<Rightarrow>
                    (case sv_tar sv of
                      Tar_missing \<Rightarrow> (Inl (bad_io (js ''tarball does not contain the skill subdir (upstream path moved?)'')), extracted)
                    | Tar_failed e \<Rightarrow> (Inl e, extracted)
                    | Tar_ok \<Rightarrow>
                        if \<not> sv_skill_md sv
                        then (Inl (bad_io (js ''fetched skill has no SKILL.md (upstream path moved?)'')), extracted)
                        else (case sv_mark sv of
                            Some e \<Rightarrow> (Inl e, marked)
                          | None \<Rightarrow>
                              (case sv_remove sv of
                                Some e \<Rightarrow> (Inl e, marked @ [Remove_dest dest])
                              | None \<Rightarrow>
                                  (case sv_rename sv of
                                    Some e \<Rightarrow> (Inl e, marked @ [Remove_dest dest])
                                  | None \<Rightarrow> (Inr sz, marked @ [Remove_dest dest, Swap dir dest]))))))))"

definition fetchSkillContent ::
  "jstring \<Rightarrow> (jstring \<Rightarrow> real_path) \<Rightarrow> skill_env \<Rightarrow> skill_request \<Rightarrow> (io_error + json_obj) \<times> skill_effect list" where
  "fetchSkillContent home realpath sv r =
     (case resolveJailed home realpath (JStr (js ''.claude/skills/'' @ sk_slug r)) of
       Inl e \<Rightarrow> (Inl e, [])
     | Inr dest \<Rightarrow>
         (let swept = sweep sv dest (sk_slug r)
          in if sv_existing sv = Some (sk_marker r)
             then (Inr [(js ''fetched'', JBool False), (js ''cached'', JBool True)], swept)
             else (let base = dest @ js ''.zwrm-fetch-'' @ take 8 (sv_id sv); tar = base @ js ''.tgz''; dir = base @ js ''.d'';
                       (out, effs) = skill_install sv r dest tar dir
                   in (map_sum id (\<lambda>n. [(js ''fetched'', JBool True), (js ''bytes'', JInt (int n))]) out,
                       swept @ effs @ [Clean tar, Clean dir]))))"

text \<open>
  The per-slug chain: a fetch for a slug runs after the one before it for that slug has ended,
  however it ended. \<open>q\<close> lists, per slug, the fetches not yet ended, in order.
\<close>

definition skill_enter :: "jstring \<Rightarrow> nat \<Rightarrow> (jstring \<times> nat) list \<Rightarrow> (jstring \<times> nat) list" where
  "skill_enter slug job q = q @ [(slug, job)]"

definition skill_runs :: "(jstring \<times> nat) list \<Rightarrow> jstring \<Rightarrow> nat option" where
  "skill_runs q slug = map_of q slug"

definition skill_leave :: "jstring \<Rightarrow> nat \<Rightarrow> (jstring \<times> nat) list \<Rightarrow> (jstring \<times> nat) list" where
  "skill_leave slug job q = removeAll (slug, job) q"

section \<open>The jail\<close>

definition plain_segment :: "jstring \<Rightarrow> bool" where
  "plain_segment w \<longleftrightarrow> w \<noteq> [] \<and> w \<noteq> js ''.'' \<and> w \<noteq> js ''..''"

lemma list_all_butlast: "list_all P xs \<Longrightarrow> list_all P (butlast xs)"
  by (auto simp: list_all_iff dest: in_set_butlastD)

lemma normal_segments_plain: "list_all plain_segment (normal_segments p)"
proof -
  have "list_all plain_segment (foldl step_segment segs ws)" if "list_all plain_segment segs" for segs ws
    using that
    by (induction ws arbitrary: segs) (auto simp: step_segment_def plain_segment_def list_all_butlast)
  then show ?thesis unfolding normal_segments_def by simp
qed

lemma jail_probe_nearest:
  assumes "jail_probe rp root rsegs = None"
    and "rp (abs_path (rev (drop k rsegs))) = Real r" and "k \<le> length rsegs"
    and "\<forall>j < k. rp (abs_path (rev (drop j rsegs))) = Real_error (js ''ENOENT'')"
  shows "inside root r"
  using assms
proof (induction rsegs arbitrary: k)
  case Nil
  then show ?case by (auto simp: jail_probe.simps [of rp root "[]"] split: if_splits)
next
  case (Cons s ss)
  show ?case
  proof (cases k)
    case 0
    with Cons.prems show ?thesis by (auto simp: jail_probe.simps [of rp root "s # ss"] split: if_splits)
  next
    case (Suc k')
    with Cons.prems(4) have "rp (abs_path (rev (s # ss))) = Real_error (js ''ENOENT'')" by auto
    with Cons.prems(1) have "jail_probe rp root ss = None"
      by (auto simp: jail_probe.simps [of rp root "s # ss"])
    moreover have "\<forall>j < k'. rp (abs_path (rev (drop j ss))) = Real_error (js ''ENOENT'')"
      using Cons.prems(4) Suc by (auto dest: spec [of _ "Suc _"])
    ultimately show ?thesis using Cons.IH [of k'] Cons.prems(2,3) Suc by simp
  qed
qed

text \<open>
  C35: A path the file API accepts stays in the workspace: it is the root or below it, with no
  empty, \<^verbatim>\<open>.\<close> or \<^verbatim>\<open>..\<close> segment, and the nearest of its ancestors that exists (itself
  included) resolves, through every symbolic link, to the root or below it.
\<close>

theorem jail_confines:
  assumes "resolveJailed home rp rel = Inr target"
  shows "\<exists>segs. target = abs_path segs \<and> list_all plain_segment segs \<and> inside (files_root home) target \<and>
    (\<forall>k r. k \<le> length segs \<and> rp (abs_path (take k segs)) = Real r \<and>
       (\<forall>j. k < j \<and> j \<le> length segs \<longrightarrow> rp (abs_path (take j segs)) = Real_error (js ''ENOENT'')) \<longrightarrow>
       inside (files_root home) r)"
proof -
  obtain t where t: "rel = JStr t" using assms by (cases rel) (auto simp: resolveJailed_def)
  let ?segs = "resolve_segments home t"
  have ok: "target = abs_path ?segs" "inside (files_root home) target"
    "jail_probe rp (files_root home) (rev ?segs) = None"
    using assms by (auto simp: t resolveJailed_def Let_def split: if_splits option.splits)
  have near: "inside (files_root home) r"
    if k: "k \<le> length ?segs" and r: "rp (abs_path (take k ?segs)) = Real r"
      and e: "\<forall>j. k < j \<and> j \<le> length ?segs \<longrightarrow> rp (abs_path (take j ?segs)) = Real_error (js ''ENOENT'')" for k r
  proof -
    have rd: "rev (drop j (rev ?segs)) = take (length ?segs - j) ?segs" for j by (simp add: rev_drop)
    show ?thesis
    proof (rule jail_probe_nearest [OF ok(3), of "length ?segs - k"])
      show "rp (abs_path (rev (drop (length ?segs - k) (rev ?segs)))) = Real r" using r k by (simp add: rd)
      show "\<forall>j < length ?segs - k. rp (abs_path (rev (drop j (rev ?segs)))) = Real_error (js ''ENOENT'')"
        unfolding rd using e by auto
    qed simp
  qed
  show ?thesis
    using ok(1,2) near normal_segments_plain by (intro exI [of _ ?segs]) (auto simp: resolve_segments_def)
qed

theorem jail_confines_witness:
  "\<exists>segs. abs_path [[0x68], [0x61]] = abs_path segs \<and> list_all plain_segment segs \<and>
     inside (files_root [0x2F, 0x68]) (abs_path [[0x68], [0x61]]) \<and>
    (\<forall>k r. k \<le> length segs \<and> Real (abs_path (take k segs)) = Real r \<and>
       (\<forall>j. k < j \<and> j \<le> length segs \<longrightarrow> Real (abs_path (take j segs)) = Real_error (js ''ENOENT'')) \<longrightarrow>
       inside (files_root [0x2F, 0x68]) r)"
  by (rule jail_confines [where rel = "JStr [0x61]"])
    (simp add: resolveJailed_def resolve_segments_def normal_segments_def step_segment_def js_Cons Let_def
      files_root_def abs_path_def inside_def starts_with_def jail_probe.simps)

section \<open>Uploads and skills replace whole files\<close>

text \<open>The files under the root, by path, with their length.\<close>

fun fs_apply :: "fs_effect \<Rightarrow> (jstring \<rightharpoonup> nat) \<Rightarrow> (jstring \<rightharpoonup> nat)" where
  "fs_apply (Create p n) m = m(p \<mapsto> n)"
| "fs_apply (Rename p q) m = (m(q := m p))(p := None)"
| "fs_apply (Unlink p) m = m(p := None)"
| "fs_apply (Remove p) m = m(p := None)"
| "fs_apply (Mkdir p) m = m"

lemma temp_name_neq [simp]: "temp_name target i \<noteq> target" "target \<noteq> temp_name target i"
  by (auto simp: temp_name_def)


definition sample_upload :: upload_env where
  "sample_upload = \<lparr>ue_budget = Inr (0, 0), ue_mkdir = None, ue_open = None, ue_chunks = [(None, 3)],
     ue_stream = Some (Code (js ''ENOSPC'')), ue_rename = None, ue_id = js ''0123456789''\<rparr>"

lemma sample_upload_fails:
  "handleFileWrite sample_upload [0x2F, 0x61] False =
    (Inl (Code (js ''ENOSPC'')), [Mkdir (dirname [0x2F, 0x61]),
       Create (temp_name [0x2F, 0x61] (ue_id sample_upload)) 3, Unlink (temp_name [0x2F, 0x61] (ue_id sample_upload))])"
  by (simp add: handleFileWrite_def upload_body_def sample_upload_def UploadCounter_def upload_transform_def
      MAX_FILE_BYTES_def Let_def)


text \<open>The effects that touch the installed skill.\<close>

fun touches_dest :: "skill_effect \<Rightarrow> bool" where
  "touches_dest (Remove_dest p) = True"
| "touches_dest (Swap p q) = True"
| "touches_dest e = False"

lemma sweep_touches: "\<not> list_ex touches_dest (sweep sv dest slug)"
  by (auto simp: sweep_def list_ex_iff split: option.splits)

lemma tar_chunks_bound: "tar_chunks ls sz = (n, None) \<Longrightarrow> n = sz + sum_list ls \<and> (sz \<le> MAX_SKILL_TARBALL_BYTES \<longrightarrow> n \<le> MAX_SKILL_TARBALL_BYTES)"
  by (induction ls arbitrary: sz) (fastforce split: if_splits)+

lemma skill_install_staged:
  assumes "skill_install sv r dest tar dir = (out, effs)"
  shows "(list_ex touches_dest effs \<longrightarrow> sv_tar sv = Tar_ok \<and> sv_skill_md sv \<and> sv_mark sv = None \<and>
      sum_list (sv_chunks sv) \<le> MAX_SKILL_TARBALL_BYTES \<and>
      (\<exists>effs0. \<not> list_ex touches_dest effs0 \<and> Mark dir (sk_marker r) \<in> set effs0 \<and>
        (effs = effs0 @ [Remove_dest dest] \<or> effs = effs0 @ [Remove_dest dest, Swap dir dest]))) \<and>
    (\<forall>n. out = Inr n \<longrightarrow> Swap dir dest \<in> set effs \<and> n = sum_list (sv_chunks sv))"
proof -
  obtain n failed where t: "tar_chunks (sv_chunks sv) 0 = (n, failed)" by fastforce
  show ?thesis
    using assms t tar_chunks_bound [of "sv_chunks sv" 0 n]
    by (auto simp: skill_install_def Let_def split: sum.splits if_splits option.splits tar_outcome.splits)
qed

text \<open>
  A skill is staged before it replaces a working copy: the installed directory is touched only
  once the tarball is within its cap, has been extracted, carries a \<^verbatim>\<open>SKILL.md\<close> and is marked as
  managed; a fetch that reports success has swapped it in; and the temporary files are removed
  however the fetch ends.
\<close>

theorem skill_staged:
  assumes "fetchSkillContent home realpath sv r = (out, effs)"
  shows "(list_ex touches_dest effs \<longrightarrow> sv_tar sv = Tar_ok \<and> sv_skill_md sv \<and> sv_mark sv = None \<and>
      sum_list (sv_chunks sv) \<le> MAX_SKILL_TARBALL_BYTES \<and> (\<exists>dir. Mark dir (sk_marker r) \<in> set effs)) \<and>
    (\<forall>n. out = Inr [(js ''fetched'', JBool True), (js ''bytes'', JInt (int n))] \<longrightarrow>
      (\<exists>dest dir. Swap dir dest \<in> set effs)) \<and>
    (\<forall>tar n. Tarball tar n \<in> set effs \<longrightarrow> Clean tar \<in> set effs)"
proof -
  show ?thesis
  proof (cases "resolveJailed home realpath (JStr (js ''.claude/skills/'' @ sk_slug r))")
    case (Inl e)
    with assms show ?thesis by (auto simp: fetchSkillContent_def)
  next
    case (Inr dest)
    let ?base = "dest @ js ''.zwrm-fetch-'' @ take 8 (sv_id sv)"
    let ?tar = "?base @ js ''.tgz''" and ?dir = "?base @ js ''.d''"
    obtain o1 e1 where i: "skill_install sv r dest ?tar ?dir = (o1, e1)" by fastforce
    have tars: "Tarball tar n \<in> set e1 \<Longrightarrow> tar = ?tar" for tar n
      using i by (auto simp: skill_install_def Let_def split: sum.splits if_splits option.splits
          tar_outcome.splits prod.splits)
    have swept: "Tarball tar n \<notin> set (sweep sv dest (sk_slug r))" for tar n
      by (auto simp: sweep_def split: option.splits)
    show ?thesis
    proof (cases "sv_existing sv = Some (sk_marker r)")
      case True
      with assms Inr sweep_touches [of sv dest] swept show ?thesis
        by (auto simp: fetchSkillContent_def Let_def)
    next
      case False
      with assms Inr i have out: "out = map_sum id (\<lambda>n. [(js ''fetched'', JBool True), (js ''bytes'', JInt (int n))]) o1"
        and effs: "effs = sweep sv dest (sk_slug r) @ e1 @ [Clean ?tar, Clean ?dir]"
        by (auto simp: fetchSkillContent_def Let_def)
      have touch: "list_ex touches_dest effs \<longleftrightarrow> list_ex touches_dest e1"
        using sweep_touches [of sv dest "sk_slug r"] by (simp add: effs)
      show ?thesis
        using skill_install_staged [OF i] touch tars swept unfolding effs out
        by (cases o1) fastforce+
    qed
  qed
qed

definition sample_skill :: skill_env where
  "sample_skill = \<lparr>sv_names = None, sv_existing = None, sv_fetch = Inr (200, True), sv_mkdir = None, sv_chunks = [5],
     sv_stream = None, sv_tar = Tar_ok, sv_skill_md = True, sv_mark = None, sv_remove = None,
     sv_rename = Some (Code (js ''EIO'')), sv_id = []\<rparr>"

definition sample_skill_request :: skill_request where
  "sample_skill_request = \<lparr>sk_slug = [0x78], sk_url = [], sk_subdir = [0x78], sk_marker = [0x6D]\<rparr>"

text \<open>
  The swap is two steps: when the rename fails, the working copy it was to replace is already
  gone, and the staged one is cleaned up after it.
\<close>

lemma skill_swap_not_atomic:
  assumes "resolveJailed home realpath (JStr (js ''.claude/skills/'' @ [0x78])) = Inr dest"
  shows "\<exists>effs. fetchSkillContent home realpath sample_skill sample_skill_request = (Inl (Code (js ''EIO'')), effs) \<and>
    Remove_dest dest \<in> set effs \<and> (\<forall>d. Swap d dest \<notin> set effs)"
  using assms
  by (simp add: fetchSkillContent_def sample_skill_def sample_skill_request_def sweep_def skill_install_def
      Let_def MAX_SKILL_TARBALL_BYTES_def)

lemma sample_jailed:
  "resolveJailed [0x2F, 0x68] Real (JStr (js ''.claude/skills/'' @ [0x78])) =
    Inr (abs_path [[0x68], js ''.claude'', js ''skills'', [0x78]])"
  by (simp add: resolveJailed_def resolve_segments_def normal_segments_def step_segment_def js_def Let_def
      files_root_def abs_path_def inside_def starts_with_def jail_probe.simps)

theorem skill_staged_witness:
  "\<exists>effs. (list_ex touches_dest effs \<longrightarrow> (\<exists>dir. Mark dir [0x6D] \<in> set effs)) \<and> list_ex touches_dest effs"
proof -
  obtain effs where e: "fetchSkillContent [0x2F, 0x68] Real sample_skill sample_skill_request = (Inl (Code (js ''EIO'')), effs)"
    "Remove_dest (abs_path [[0x68], js ''.claude'', js ''skills'', [0x78]]) \<in> set effs"
    using skill_swap_not_atomic [OF sample_jailed] by blast
  from skill_staged [OF e(1)] e(2) show ?thesis
    unfolding list_ex_iff sample_skill_request_def by (intro exI [of _ effs]) force
qed

end
