(* ===== verification/ImageMcp.thy ===== *)
theory ImageMcp
  imports FileApi SessionControl
begin

text \<open>
  The servers an image declares (\<^verbatim>\<open>image-mcp.mjs\<close>), how they join a session's spec, and the
  table of harnesses (\<^verbatim>\<open>drivers/registry.mjs\<close>). A manifest is what \<^verbatim>\<open>JSON.parse\<close> made of
  its file, \<open>None\<close> where reading or parsing throws. Servers are listed in the order they are set.
\<close>

section \<open>Manifests\<close>

definition RESERVED :: "jstring list" where
  "RESERVED = [js ''zwrm'', js ''platform'']"

definition is_absolute :: "jstring \<Rightarrow> bool" where
  "is_absolute p \<longleftrightarrow> take 1 p = [0x2F]"

fun all_strings :: "json \<Rightarrow> bool" where
  "all_strings (JArr vs) = list_all is_str vs"
| "all_strings (JObj kvs) = list_all (\<lambda>(k, v). is_str v) kvs"
| "all_strings _ = False"

definition manifest_server :: "json \<Rightarrow> json" where
  "manifest_server m = JObj ([(js ''type'', JStr (js ''stdio'')), (js ''command'', jget m (js ''command''))] @
     (if arr_or_nil (jget m (js ''args'')) \<noteq> [] then [(js ''args'', jget m (js ''args''))] else []) @
     (case jget m (js ''env'') of JObj (kv # kvs) \<Rightarrow> [(js ''env'', JObj (kv # kvs))] | _ \<Rightarrow> []))"

definition parseManifest :: "jstring \<Rightarrow> json option \<Rightarrow> jstring + json \<times> bool" where
  "parseManifest slug parsed =
     (if \<not> is_slug slug
      then Inl (js ''invalid server name '' @ [0x27] @ slug @ [0x27] @ js '' (want /^[a-z0-9](?:[a-z0-9-]{0,62}[a-z0-9])?$/)'')
      else if slug \<in> set RESERVED then Inl (js ''server name '' @ [0x27] @ slug @ [0x27] @ js '' is reserved by the platform'')
      else (case parsed of
          None \<Rightarrow> Inl (js ''invalid JSON'')
        | Some m \<Rightarrow>
            if \<not> is_obj m then Inl (js ''manifest must be a JSON object'')
            else if \<not> is_str (jget m (js ''command'')) \<or> \<not> is_absolute (str_or [] (jget m (js ''command'')))
            then Inl (js ''command must be an absolute path'')
            else if jget m (js ''args'') \<noteq> JUndef \<and> \<not> (is_arr (jget m (js ''args'')) \<and> all_strings (jget m (js ''args'')))
            then Inl (js ''args must be an array of strings'')
            else if jget m (js ''env'') \<noteq> JUndef \<and> \<not> (is_obj (jget m (js ''env'')) \<and> all_strings (jget m (js ''env'')))
            then Inl (js ''env must be an object of strings'')
            else (case jget m (js ''escalate'') of
                JUndef \<Rightarrow> Inr (manifest_server m, False)
              | JBool b \<Rightarrow> Inr (manifest_server m, b)
              | _ \<Rightarrow> Inl (js ''escalate must be a boolean''))))"

record image =
  im_servers :: json_obj
  im_escalate :: "jstring list"

definition json_ext :: jstring where "json_ext = js ''.json''"

definition load_one :: "(jstring \<Rightarrow> json option) \<Rightarrow> jstring \<Rightarrow> image \<Rightarrow> image" where
  "load_one read name im =
     (if \<not> ends_with name json_ext then im
      else (let slug = take (length name - length json_ext) name
            in case parseManifest slug (read name) of
                Inl _ \<Rightarrow> im
              | Inr (server, escalate) \<Rightarrow>
                  \<lparr>im_servers = jput slug server (im_servers im),
                   im_escalate = (if escalate then im_escalate im @ [slug] else im_escalate im)\<rparr>))"

definition loadImageMCPServers :: "jstring list option \<Rightarrow> (jstring \<Rightarrow> json option) \<Rightarrow> image" where
  "loadImageMCPServers names read =
     (case names of
       None \<Rightarrow> \<lparr>im_servers = [], im_escalate = []\<rparr>
     | Some ns \<Rightarrow> fold (load_one read) (sort ns) \<lparr>im_servers = [], im_escalate = []\<rparr>)"

section \<open>Joining a session\<close>

text \<open>
  \<^verbatim>\<open>servers[slug]\<close> of a plain object is truthy for a server set there, and for the one
  inherited property a slug can name.
\<close>

definition shadowed :: "json_obj \<Rightarrow> jstring \<Rightarrow> bool" where
  "shadowed servers slug \<longleftrightarrow> truthy (jprop servers slug) \<or> (jprop servers slug = JUndef \<and> slug = js ''constructor'')"

fun merge_servers :: "(jstring \<times> json) list \<Rightarrow> json_obj \<Rightarrow> jstring list \<Rightarrow> json_obj \<times> jstring list" where
  "merge_servers [] servers added = (servers, added)"
| "merge_servers ((slug, cfg) # rest) servers added =
     (if shadowed servers slug then merge_servers rest servers added
      else merge_servers rest (jput slug cfg servers) (added @ [slug]))"

fun props_or_nil :: "json \<Rightarrow> json_obj" where
  "props_or_nil (JObj kvs) = kvs"
| "props_or_nil _ = []"

definition withImageServers :: "json_obj \<Rightarrow> image \<Rightarrow> json_obj" where
  "withImageServers spec im =
     (if truthy (jprop spec (js ''tool_policy'')) \<or> im_servers im = [] then spec
      else (let (servers, added) = merge_servers (im_servers im) (props_or_nil (jprop spec (js ''mcp_servers''))) [];
                escalate = filter (\<lambda>s. s \<in> set added) (im_escalate im);
                out = jput (js ''mcp_servers'') (JObj servers) spec
            in if escalate = [] then out
               else (let out1 = jput (js ''escalate_servers'')
                           (JArr (fold set_add (map JStr escalate) (fold set_add (arr_or_nil (jprop spec (js ''escalate_servers''))) []))) out;
                         mode = (if truthy (jprop spec (js ''permission_mode'')) then jprop spec (js ''permission_mode'')
                                 else JStr (js ''bypassPermissions''))
                     in if \<not> truthy (jprop spec (js ''interactive'')) \<and> mode = JStr (js ''bypassPermissions'')
                        then jput (js ''permission_mode'') (JStr (js ''default'')) (jput (js ''auto_approve'') (JBool True) out1)
                        else out1)))"

section \<open>Harnesses\<close>

datatype harness_name = Claude | Pi | Codex | OpenCode

fun harness_text :: "harness_name \<Rightarrow> jstring" where
  "harness_text Claude = js ''claude''"
| "harness_text Pi = js ''pi''"
| "harness_text Codex = js ''codex''"
| "harness_text OpenCode = js ''opencode''"

definition HARNESSES :: "harness_name list" where
  "HARNESSES = [Claude, Pi, Codex, OpenCode]"

definition HARNESS_CAPS :: "jstring list" where
  "HARNESS_CAPS = filter (\<lambda>h. h \<noteq> js ''claude'') (map harness_text HARNESSES)"

definition harness_of :: "jstring \<Rightarrow> harness_name option" where
  "harness_of t = find (\<lambda>h. harness_text h = t) HARNESSES"

text \<open>The permission modes a harness can host, \<open>None\<close> for all of them.\<close>

fun driver_modes :: "harness_name \<Rightarrow> jstring list option" where
  "driver_modes Claude = None"
| "driver_modes Pi = Some [js ''default'', js ''bypassPermissions'']"
| "driver_modes Codex = Some [js ''default'', js ''bypassPermissions'']"
| "driver_modes OpenCode = Some [js ''default'', js ''bypassPermissions'']"

definition unsupportedPermissionMode :: "harness_name \<Rightarrow> jstring \<Rightarrow> http_error" where
  "unsupportedPermissionMode h mode =
     http_err 400 (js ''the '' @ harness_text h @ js '' harness supports permission modes '' @
       join (js '' and '') (map (\<lambda>m. [0x27] @ m @ [0x27]) (case driver_modes h of Some ms \<Rightarrow> ms | None \<Rightarrow> [])) @
       js '', not '' @ [0x27] @ mode @ [0x27])"

definition mode_hosted :: "harness_name \<Rightarrow> jstring \<Rightarrow> bool" where
  "mode_hosted h mode \<longleftrightarrow> (case driver_modes h of None \<Rightarrow> True | Some ms \<Rightarrow> mode \<in> set ms)"

section \<open>Loaded servers are well-formed\<close>

definition wf_server :: "json \<Rightarrow> bool" where
  "wf_server v \<longleftrightarrow> jget v (js ''type'') = JStr (js ''stdio'') \<and>
     (\<exists>c. jget v (js ''command'') = JStr c \<and> is_absolute c) \<and>
     (jget v (js ''args'') = JUndef \<or> is_arr (jget v (js ''args'')) \<and> all_strings (jget v (js ''args''))) \<and>
     (jget v (js ''env'') = JUndef \<or> is_obj (jget v (js ''env'')) \<and> all_strings (jget v (js ''env'')))"

lemma manifest_server_wf:
  assumes "parseManifest slug parsed = Inr (server, escalate)"
  shows "is_slug slug \<and> slug \<notin> set RESERVED \<and> wf_server server"
proof -
  obtain m where m: "parsed = Some m" and slug: "is_slug slug" "slug \<notin> set RESERVED"
    and c: "is_str (jget m (js ''command''))" "is_absolute (str_or [] (jget m (js ''command'')))"
    and args: "jget m (js ''args'') = JUndef \<or> is_arr (jget m (js ''args'')) \<and> all_strings (jget m (js ''args''))"
    and env: "jget m (js ''env'') = JUndef \<or> is_obj (jget m (js ''env'')) \<and> all_strings (jget m (js ''env''))"
    and server: "server = manifest_server m"
    using assms by (auto simp: parseManifest_def split: if_splits option.splits json.splits)
  obtain t where t: "jget m (js ''command'') = JStr t" using c(1) by (auto simp: is_str_iff)
  have "wf_server (manifest_server m)"
    using c t args env
    by (auto simp: wf_server_def manifest_server_def is_arr_iff is_obj_iff split: json.splits list.splits)
  with slug server show ?thesis by simp
qed

definition wf_image :: "image \<Rightarrow> bool" where
  "wf_image im \<longleftrightarrow> list_all (\<lambda>(slug, v). is_slug slug \<and> slug \<notin> set RESERVED \<and> wf_server v) (im_servers im) \<and>
     distinct (map fst (im_servers im)) \<and> set (im_escalate im) \<subseteq> fst ` set (im_servers im)"

lemma jput_list_all:
  "list_all P kvs \<Longrightarrow> P (k, v) \<Longrightarrow> list_all P (jput k v kvs)"
  by (induction kvs) auto

lemma load_one_wf: "wf_image im \<Longrightarrow> wf_image (load_one read name im)"
  using manifest_server_wf [of "take (length name - length json_ext) name" "read name"]
  by (auto simp: wf_image_def load_one_def Let_def jput_list_all [unfolded jput_def] jput_def distinct_update
      dom_update split: sum.splits prod.splits)

text \<open>
  C40: Whatever files an image ships, the servers loaded are well-formed: distinct names that are
  valid and not the platform's, an absolute command, string arguments and environment; and only
  a loaded server escalates.
\<close>

theorem loaded_servers_well_formed:
  "wf_image (loadImageMCPServers names read)"
proof -
  have "wf_image im \<Longrightarrow> wf_image (fold (load_one read) ns im)" for ns im
    by (induction ns arbitrary: im) (simp_all add: load_one_wf)
  then show ?thesis by (auto simp: loadImageMCPServers_def wf_image_def split: option.splits)
qed

section \<open>The control plane's servers win\<close>

lemma merge_keeps:
  assumes "merge_servers rest servers added = (servers', added')" and "truthy (jprop servers slug)"
  shows "jprop servers' slug = jprop servers slug"
  using assms
proof (induction rest servers added rule: merge_servers.induct)
  case (2 s cfg rest servers added)
  then show ?case by (cases "s = slug") (auto simp: shadowed_def split: if_splits)
qed simp

lemma merge_added:
  assumes "merge_servers rest servers added = (servers', added')"
  shows "set added \<subseteq> set added'"
  using assms by (induction rest servers added rule: merge_servers.induct) (auto split: if_splits)

lemma merge_adds:
  assumes "merge_servers rest servers added = (servers', added')"
    and "slug \<in> fst ` set rest" and "distinct (map fst rest)" and "\<not> shadowed servers slug"
  shows "slug \<in> set added'"
  using assms
proof (induction rest servers added rule: merge_servers.induct)
  case (2 s cfg rest servers added)
  show ?case
  proof (cases "s = slug")
    case True
    with 2 merge_added show ?thesis by fastforce
  next
    case False
    then have "shadowed (jput s cfg servers) slug \<longleftrightarrow> shadowed servers slug" by (simp add: shadowed_def)
    with 2 False show ?thesis by (auto split: if_splits)
  qed
qed simp

lemma set_fold_set_add: "set (fold set_add xs ys) = set xs \<union> set ys"
  by (induction xs arbitrary: ys) auto

text \<open>
  An image only adds to a session: under a tool policy the spec is unchanged, a server the
  control plane sent stays as sent, and an added server that escalates is on the escalation list,
  in an unattended session never in a mode that skips it.
\<close>

theorem image_servers_defer:
  assumes "out = withImageServers spec im" and "distinct (map fst (im_servers im))"
  shows "(truthy (jprop spec (js ''tool_policy'')) \<longrightarrow> out = spec) \<and>
    (truthy (jprop (props_or_nil (jprop spec (js ''mcp_servers''))) slug) \<longrightarrow>
      jprop (props_or_nil (jprop out (js ''mcp_servers''))) slug = jprop (props_or_nil (jprop spec (js ''mcp_servers''))) slug) \<and>
    (\<not> truthy (jprop spec (js ''tool_policy'')) \<and> slug \<in> fst ` set (im_servers im) \<and> slug \<in> set (im_escalate im) \<and>
      \<not> shadowed (props_or_nil (jprop spec (js ''mcp_servers''))) slug \<longrightarrow>
      JStr slug \<in> set (arr_or_nil (jprop out (js ''escalate_servers''))) \<and>
      (\<not> truthy (jprop out (js ''interactive'')) \<longrightarrow>
        truthy (jprop out (js ''permission_mode'')) \<and> jprop out (js ''permission_mode'') \<noteq> JStr (js ''bypassPermissions'')))"
proof -
  obtain servers added where m:
    "merge_servers (im_servers im) (props_or_nil (jprop spec (js ''mcp_servers''))) [] = (servers, added)" by fastforce
  have keep: "truthy (jprop (props_or_nil (jprop spec (js ''mcp_servers''))) slug) \<Longrightarrow>
      jprop servers slug = jprop (props_or_nil (jprop spec (js ''mcp_servers''))) slug"
    by (rule merge_keeps [OF m])
  have add: "slug \<in> fst ` set (im_servers im) \<Longrightarrow> \<not> shadowed (props_or_nil (jprop spec (js ''mcp_servers''))) slug \<Longrightarrow>
      slug \<in> set added"
    by (rule merge_adds [OF m _ assms(2)])
  have mode: "truthy (JStr (js ''default''))" "js ''default'' \<noteq> js ''bypassPermissions''" by simp_all
  show ?thesis
    unfolding assms(1) withImageServers_def Let_def m
    using keep add by (auto simp: set_fold_set_add filter_empty_conv)
qed

definition sample_image :: image where
  "sample_image = \<lparr>im_servers = [([0x62], JObj [(js ''type'', JStr (js ''stdio''))])], im_escalate = [[0x62]]\<rparr>"

theorem image_servers_defer_witness:
  "JStr [0x62] \<in> set (arr_or_nil (jprop (withImageServers [] sample_image) (js ''escalate_servers'')))"
  using image_servers_defer [of "withImageServers [] sample_image" "[]" sample_image "[0x62]"]
  by (simp add: sample_image_def shadowed_def js_Cons)

text \<open>
  An image server named \<^verbatim>\<open>constructor\<close> never joins a session: the look-up finds the property
  every object inherits.
\<close>

lemma constructor_never_joins:
  "merge_servers [(js ''constructor'', cfg)] servers added = (servers, added) \<or> jprop servers (js ''constructor'') \<noteq> JUndef"
  by (simp add: shadowed_def)

end
