(* ===== verification/CredentialBroker.thy ===== *)
theory CredentialBroker
  imports Complex_Main ImageMcp
begin

text \<open>
  The credential broker (\<^verbatim>\<open>credential-broker.mjs\<close>): one renewable identity per audience,
  coalescing and backing off its renewals, and the broker that routes bearers to the platform and
  proxies a session's connectors. Clocks, metadata answers, upstream answers and URL parsing are
  arguments; a call that awaits is two operations.
\<close>

section \<open>A renewable identity\<close>

definition EXPIRY_MARGIN_MS :: rat where "EXPIRY_MARGIN_MS = 30000"
definition MAX_REQUEST :: nat where "MAX_REQUEST = 32 * 1024 * 1024"

record broker_error =
  be_message :: jstring
  be_status :: "nat option"
  be_refusals :: nat

definition plain_error :: "jstring \<Rightarrow> broker_error" where
  "plain_error m = \<lparr>be_message = m, be_status = None, be_refusals = 0\<rparr>"

record credential =
  cr_token :: jstring
  cr_renewAt :: rat
  cr_expiresAt :: rat

record identity =
  ri_session :: jstring
  ri_credential :: "credential option"
  ri_renewing :: bool
  ri_retryAt :: rat
  ri_failures :: nat
  ri_refused :: nat
  ri_lastError :: "broker_error option"
  ri_closed :: bool

definition RenewableIdentity :: "jstring \<Rightarrow> identity" where
  "RenewableIdentity sid = \<lparr>ri_session = sid, ri_credential = None, ri_renewing = False, ri_retryAt = 0, ri_failures = 0,
     ri_refused = 0, ri_lastError = None, ri_closed = False\<rparr>"

definition usable :: "rat \<Rightarrow> identity \<Rightarrow> bool" where
  "usable now i \<longleftrightarrow> (case ri_credential i of None \<Rightarrow> False | Some c \<Rightarrow> now < cr_expiresAt c)"

definition close_identity :: "identity \<Rightarrow> identity" where
  "close_identity i = i\<lparr>ri_closed := True, ri_credential := None\<rparr>"

text \<open>A \<open>get\<close> that has a token, has failed, or waits for the renewal in flight.\<close>

datatype get_result = Token jstring | Failed_get broker_error | Waiting

definition fallback :: "rat \<Rightarrow> bool \<Rightarrow> broker_error \<Rightarrow> identity \<Rightarrow> get_result" where
  "fallback now fresh err i =
     (case ri_credential i of
       Some c \<Rightarrow> if \<not> ri_closed i \<and> \<not> fresh \<and> usable now i then Token (cr_token c) else Failed_get err
     | None \<Rightarrow> Failed_get err)"

definition identity_get :: "bool \<Rightarrow> rat \<Rightarrow> bool \<Rightarrow> bool \<Rightarrow> identity \<Rightarrow> identity \<times> get_result" where
  "identity_get broker_closed now rejected fresh i =
     (if ri_closed i \<or> broker_closed then (i, Failed_get (plain_error (js ''credential session is no longer active'')))
      else (let i1 = (if rejected then i\<lparr>ri_credential := None\<rparr> else i)
            in case (if fresh \<or> rejected then None else ri_credential i1) of
                Some c \<Rightarrow>
                  if now < cr_renewAt c then (i1, Token (cr_token c))
                  else if ri_renewing i1 \<or> now \<ge> ri_retryAt i1 then (i1\<lparr>ri_renewing := True\<rparr>, Waiting)
                  else (i1, fallback now fresh (case ri_lastError i1 of Some e \<Rightarrow> e
                          | None \<Rightarrow> plain_error (js ''identity renewal is backing off'')) i1)
              | None \<Rightarrow>
                  if ri_renewing i1 \<or> now \<ge> ri_retryAt i1 then (i1\<lparr>ri_renewing := True\<rparr>, Waiting)
                  else (i1, fallback now fresh (case ri_lastError i1 of Some e \<Rightarrow> e
                          | None \<Rightarrow> plain_error (js ''identity renewal is backing off'')) i1)))"

text \<open>The rest of a \<open>get\<close>, once the renewal it waited for has settled.\<close>

definition identity_get_finish :: "rat \<Rightarrow> bool \<Rightarrow> broker_error + jstring \<Rightarrow> identity \<Rightarrow> get_result" where
  "identity_get_finish now fresh r i =
     (case r of Inr t \<Rightarrow> Token t | Inl e \<Rightarrow> fallback now fresh e i)"

text \<open>
  What the metadata service answers: a refusal, a body, or no answer at all. The body's times are
  seconds, \<open>None\<close> where they are no finite number.
\<close>

datatype metadata =
    Refused_by nat jstring
  | Body json "rat option" "rat option"
  | No_answer jstring

definition REVOKING :: "nat list" where
  "REVOKING = [400, 401, 403, 404, 410]"

definition credential_of :: "rat \<Rightarrow> metadata \<Rightarrow> broker_error + credential" where
  "credential_of now m =
     (case m of
       Refused_by st t \<Rightarrow> Inl \<lparr>be_message = js ''metadata identity renewal refused ('' @ dec st @ js ''): '' @ take 500 t,
                            be_status = Some st, be_refusals = 0\<rparr>
     | No_answer t \<Rightarrow> Inl (plain_error t)
     | Body token issued expires \<Rightarrow>
         (case (token, issued, expires) of
           (JStr t, Some a, Some b) \<Rightarrow>
             (let lifetime = (b - a) * 1000
              in if \<not> starts_with t (js ''zwai1.'') \<or> lifetime \<le> EXPIRY_MARGIN_MS \<or> lifetime > 3600000
                 then Inl (plain_error (js ''metadata returned an invalid identity credential''))
                 else Inr \<lparr>cr_token = t, cr_renewAt = now + lifetime / 2, cr_expiresAt = now + lifetime - EXPIRY_MARGIN_MS\<rparr>)
         | _ \<Rightarrow> Inl (plain_error (js ''metadata returned an invalid identity credential''))))"

text \<open>The diagnostics a renewal reports, with whether it recovered.\<close>

definition renew_failed :: "rat \<Rightarrow> broker_error \<Rightarrow> identity \<Rightarrow> identity \<times> (broker_error + jstring) \<times> (jstring \<times> bool) list" where
  "renew_failed now err i =
     (let revoked = (case be_status err of Some st \<Rightarrow> st \<in> set REVOKING | None \<Rightarrow> False);
          err1 = (if revoked then err\<lparr>be_refusals := Suc (ri_refused i)\<rparr> else err)
      in (i\<lparr>ri_credential := (if revoked then None else ri_credential i),
            ri_refused := (if revoked then Suc (ri_refused i) else 0),
            ri_lastError := Some err1, ri_failures := Suc (ri_failures i),
            ri_retryAt := now + min 30000 (1000 * 2 ^ min (ri_failures i) 5)\<rparr>,
          Inl err1, if ri_lastError i = None then [(be_message err1, False)] else []))"

definition identity_renewed ::
  "bool \<Rightarrow> rat \<Rightarrow> metadata \<Rightarrow> identity \<Rightarrow> identity \<times> (broker_error + jstring) \<times> (jstring \<times> bool) list" where
  "identity_renewed broker_closed now m i =
     (let i1 = i\<lparr>ri_renewing := False\<rparr>
      in case credential_of now m of
          Inl err \<Rightarrow> if ri_closed i \<or> broker_closed then (i1, Inl err, []) else renew_failed now err i1
        | Inr c \<Rightarrow>
            if ri_closed i \<or> broker_closed then (i1, Inl (plain_error (js ''identity changed during renewal'')), [])
            else (i1\<lparr>ri_credential := Some c, ri_retryAt := 0, ri_failures := 0, ri_refused := 0, ri_lastError := None\<rparr>,
                  Inr (cr_token c),
                  if ri_lastError i \<noteq> None then [(js ''identity renewal recovered'', True)] else []))"

section \<open>The broker\<close>

text \<open>What the code reads of a parsed URL.\<close>

record url =
  u_href :: jstring
  u_protocol :: jstring
  u_origin :: jstring
  u_host :: jstring
  u_userinfo :: bool
  u_path :: jstring
  u_search :: jstring

record route =
  ro_url :: jstring
  ro_session :: jstring

record broker =
  bk_platform :: jstring
  bk_proxyURL :: jstring
  bk_sessionID :: jstring
  bk_workspace :: identity
  bk_session :: "identity option"
  bk_routes :: "(jstring, route) jmap"
  bk_lastCheck :: int
  bk_closed :: bool

definition new_broker :: "jstring \<Rightarrow> jstring \<Rightarrow> int \<Rightarrow> broker" where
  "new_broker platform proxy now = \<lparr>bk_platform = platform, bk_proxyURL = proxy, bk_sessionID = [],
     bk_workspace = RenewableIdentity [], bk_session = None, bk_routes = [], bk_lastCheck = now, bk_closed = False\<rparr>"

definition broker_tick :: "int \<Rightarrow> broker \<Rightarrow> broker" where
  "broker_tick now b =
     (let woke = (now - bk_lastCheck b > 45000 \<or> now < bk_lastCheck b); b1 = b\<lparr>bk_lastCheck := now\<rparr>
      in if woke
         then b1\<lparr>bk_workspace := RenewableIdentity [],
                 bk_session := (if bk_sessionID b \<noteq> [] then Some (RenewableIdentity (bk_sessionID b)) else None)\<rparr>
         else b1)"

definition broker_get :: "rat \<Rightarrow> jstring \<Rightarrow> bool \<Rightarrow> broker \<Rightarrow> broker \<times> get_result" where
  "broker_get now sid rejected b =
     (if sid = []
      then (let (i, r) = identity_get (bk_closed b) now rejected False (bk_workspace b) in (b\<lparr>bk_workspace := i\<rparr>, r))
      else (case bk_session b of
          Some i0 \<Rightarrow>
            if sid \<noteq> bk_sessionID b then (b, Failed_get (plain_error (js ''credential session is no longer active'')))
            else (let (i, r) = identity_get (bk_closed b) now rejected False i0 in (b\<lparr>bk_session := Some i\<rparr>, r))
        | None \<Rightarrow> (b, Failed_get (plain_error (js ''credential session is no longer active'')))))"

definition activate_start :: "jstring \<Rightarrow> broker \<Rightarrow> broker" where
  "activate_start sid b = b\<lparr>bk_sessionID := sid, bk_session := Some (RenewableIdentity sid), bk_routes := []\<rparr>"

definition outside_platform :: "broker \<Rightarrow> url option \<Rightarrow> bool" where
  "outside_platform b u \<longleftrightarrow> (case u of None \<Rightarrow> True | Some t \<Rightarrow> u_origin t \<noteq> bk_platform b \<or> u_userinfo t)"

definition completions :: "broker \<Rightarrow> jstring" where
  "completions b = bk_platform b @ js ''/v1/openai/chat/completions''"

text \<open>
  The routes of a session's connectors: \<open>parse\<close> is \<^verbatim>\<open>new URL\<close>, \<open>enc\<close>
  \<^verbatim>\<open>encodeURIComponent\<close>, \<open>stem\<close> the fresh path prefix. A connector off the platform
  ends the activation.
\<close>

fun connector_routes ::
  "(jstring \<Rightarrow> url option) \<Rightarrow> (jstring \<Rightarrow> jstring) \<Rightarrow> jstring \<Rightarrow> (jstring \<times> json) list \<Rightarrow> broker \<Rightarrow> json_obj \<Rightarrow>
    broker \<times> (broker_error + json_obj)" where
  "connector_routes parse enc stem [] b servers = (b, Inr servers)"
| "connector_routes parse enc stem ((name, cfg) # rest) b servers =
     (case parse (js_String (jget cfg (js ''url''))) of
       None \<Rightarrow> (b, Inl (plain_error (js ''Invalid URL'')))
     | Some t \<Rightarrow>
         if u_origin t \<noteq> bk_platform b \<or> u_userinfo t
         then (b, Inl (plain_error (js ''connector URL is outside the platform'')))
         else (let path = stem @ js ''/mcp/'' @ enc name
               in connector_routes parse enc stem rest
                    (b\<lparr>bk_routes := AList.update path \<lparr>ro_url = u_href t, ro_session = bk_sessionID b\<rparr> (bk_routes b)\<rparr>)
                    (jput name (JObj (AList.delete (js ''headers'') (jput (js ''url'') (JStr (bk_proxyURL b @ path)) (props_or_nil cfg))))
                       servers)))"

definition activate_finish ::
  "(jstring \<Rightarrow> url option) \<Rightarrow> (jstring \<Rightarrow> jstring) \<Rightarrow> jstring \<Rightarrow> json_obj \<Rightarrow> broker \<Rightarrow> broker \<times> (broker_error + json_obj)" where
  "activate_finish parse enc uuid spec b =
     (let stem = [0x2F] @ uuid; gateway = stem @ js ''/gateway''
      in case connector_routes parse enc stem (props_or_nil (jprop spec (js ''mcp_servers''))) b [] of
          (b1, Inl e) \<Rightarrow> (b1, Inl e)
        | (b1, Inr servers) \<Rightarrow>
            (b1\<lparr>bk_routes := AList.update (gateway @ js ''/chat/completions'')
                  \<lparr>ro_url = completions b, ro_session = bk_sessionID b\<rparr> (bk_routes b1)\<rparr>,
             Inr (jput (js ''env'') (JObj (jput (js ''ZWRM_GATEWAY_TOKEN'') (JStr (js ''broker'')) (props_or_nil (jprop spec (js ''env'')))))
                   (jput (js ''gateway_url'') (JStr (bk_proxyURL b @ gateway)) (jput (js ''mcp_servers'') (JObj servers) spec)))))"

definition deactivate :: "jstring \<Rightarrow> broker \<Rightarrow> broker" where
  "deactivate sid b =
     (if bk_sessionID b \<noteq> sid then b
      else b\<lparr>bk_session := None, bk_sessionID := [], bk_routes := []\<rparr>)"

definition close_broker :: "broker \<Rightarrow> broker" where
  "close_broker b = b\<lparr>bk_closed := True, bk_workspace := close_identity (bk_workspace b),
     bk_session := map_option close_identity (bk_session b)\<rparr>"

section \<open>Requests\<close>

text \<open>
  A token for a request, with the metadata's answer should a renewal be needed; a renewal
  another caller began answers this one too.
\<close>

definition identity_token ::
  "bool \<Rightarrow> rat \<Rightarrow> metadata \<Rightarrow> bool \<Rightarrow> bool \<Rightarrow> identity \<Rightarrow> identity \<times> (broker_error + jstring)" where
  "identity_token broker_closed now m rejected fresh i =
     (case identity_get broker_closed now rejected fresh i of
       (i1, Token t) \<Rightarrow> (i1, Inr t)
     | (i1, Failed_get e) \<Rightarrow> (i1, Inl e)
     | (i1, Waiting) \<Rightarrow>
         (let (i2, r, _) = identity_renewed broker_closed now m i1
          in (i2, case identity_get_finish now fresh r i2 of Token t \<Rightarrow> Inr t | Failed_get e \<Rightarrow> Inl e
                | Waiting \<Rightarrow> Inl (plain_error []))))"

definition broker_token :: "rat \<Rightarrow> metadata \<Rightarrow> jstring \<Rightarrow> bool \<Rightarrow> broker \<Rightarrow> broker \<times> (broker_error + jstring)" where
  "broker_token now m sid rejected b =
     (if sid = []
      then (let (i, r) = identity_token (bk_closed b) now m rejected False (bk_workspace b) in (b\<lparr>bk_workspace := i\<rparr>, r))
      else (case bk_session b of
          Some i0 \<Rightarrow>
            if sid \<noteq> bk_sessionID b then (b, Inl (plain_error (js ''credential session is no longer active'')))
            else (let (i, r) = identity_token (bk_closed b) now m rejected False i0 in (b\<lparr>bk_session := Some i\<rparr>, r))
        | None \<Rightarrow> (b, Inl (plain_error (js ''credential session is no longer active'')))))"

text \<open>
  \<open>sent\<close> lists what left the broker: the destination and the bearer. \<open>upstream\<close> is the status
  each attempt is answered with, or a transport failure; redirects are never followed.
\<close>

definition broker_request ::
  "(jstring \<Rightarrow> url option) \<Rightarrow> rat \<Rightarrow> metadata \<Rightarrow> metadata \<Rightarrow> (nat \<Rightarrow> broker_error + nat) \<Rightarrow> jstring \<Rightarrow> jstring \<Rightarrow> broker \<Rightarrow>
    broker \<times> (broker_error + nat) \<times> (url \<times> jstring) list" where
  "broker_request parse now m1 m2 upstream target sid b =
     (case parse target of
       None \<Rightarrow> (b, Inl (plain_error (js ''Invalid URL'')), [])
     | Some u \<Rightarrow>
         if u_origin u \<noteq> bk_platform b \<or> u_userinfo u
         then (b, Inl (plain_error (js ''credential destination is outside the platform'')), [])
         else (case broker_token now m1 sid False b of
             (b1, Inl e) \<Rightarrow> (b1, Inl e, [])
           | (b1, Inr t1) \<Rightarrow>
               (case upstream 0 of
                 Inl e \<Rightarrow> (b1, Inl e, [(u, t1)])
               | Inr st \<Rightarrow>
                   if st \<noteq> 401 then (b1, Inr st, [(u, t1)])
                   else (case broker_token now m2 sid True b1 of
                       (b2, Inl e) \<Rightarrow> (b2, Inl e, [(u, t1)])
                     | (b2, Inr t2) \<Rightarrow> (b2, upstream 1, [(u, t1), (u, t2)])))))"

section \<open>The proxies\<close>

definition HOP_HEADERS :: "jstring list" where
  "HOP_HEADERS = [js ''connection'', js ''keep-alive'', js ''proxy-authenticate'', js ''proxy-authorization'', js ''te'',
     js ''trailer'', js ''transfer-encoding'', js ''upgrade'', js ''host'', js ''authorization'', js ''cookie'',
     js ''x-api-key'', js ''x-forwarded-for'', js ''x-forwarded-host'', js ''x-forwarded-proto'']"

definition request_headers :: "(jstring \<times> jstring) list \<Rightarrow> (jstring \<times> jstring) list" where
  "request_headers hs = filter (\<lambda>(k, v). k \<notin> set HOP_HEADERS \<and> k \<noteq> js ''content-length'') hs"

definition response_headers :: "(jstring \<times> jstring) list \<Rightarrow> (jstring \<times> jstring) list" where
  "response_headers hs = filter (\<lambda>(k, v). k \<notin> set HOP_HEADERS \<and>
     k \<notin> {js ''content-encoding'', js ''content-length'', js ''set-cookie''}) hs"

record proxy_request =
  px_method :: jstring
  px_path :: jstring
  px_search :: jstring
  px_origin :: bool
  px_host :: jstring
  px_headers :: "(jstring \<times> jstring) list"
  px_length :: nat

text \<open>What the broker decides on a request to one of its two servers.\<close>

datatype proxy_decision = Refuse nat | Give_token | Forward route "(jstring \<times> jstring) list"

definition proxy_handle :: "bool \<Rightarrow> jstring \<Rightarrow> broker \<Rightarrow> proxy_request \<Rightarrow> proxy_decision" where
  "proxy_handle sessionProxy expectedHost b r =
     (if px_origin r \<or> px_host r \<noteq> expectedHost then Refuse 403
      else if \<not> sessionProxy \<and> px_path r = js ''/token'' \<and> px_method r = js ''GET'' then Give_token
      else (case (if \<not> sessionProxy
                  then (if px_path r = js ''/gateway/chat/completions''
                        then Some \<lparr>ro_url = completions b, ro_session = []\<rparr> else None)
                  else map_of (bk_routes b) (px_path r)) of
          None \<Rightarrow> Refuse 404
        | Some ro \<Rightarrow>
            if px_method r \<notin> {js ''GET'', js ''POST'', js ''DELETE''} then Refuse 404
            else if px_search r \<noteq> [] then Refuse 400
            else if px_length r > MAX_REQUEST then Refuse 413
            else Forward ro (request_headers (px_headers r))))"

text \<open>The answer passed back: a redirect is refused, anything else keeps its status.\<close>

definition proxy_reply :: "broker_error + nat \<times> (jstring \<times> jstring) list \<Rightarrow> nat \<times> (jstring \<times> jstring) list" where
  "proxy_reply r =
     (case r of
       Inl e \<Rightarrow> (502, [])
     | Inr (st, hs) \<Rightarrow> if 300 \<le> st \<and> st < 400 then (502, []) else (st, response_headers hs))"

section \<open>Refusals are counted, failures back off\<close>

text \<open>A run of renewals of an open identity, each with the time its answer arrives.\<close>

definition renewals :: "(rat \<times> metadata) list \<Rightarrow> identity \<Rightarrow> identity" where
  "renewals ms i = fold (\<lambda>(now, m) i. fst (identity_renewed False now m i)) ms i"

definition revoking :: "rat \<times> metadata \<Rightarrow> bool" where
  "revoking r \<longleftrightarrow> (\<exists>st t. snd r = Refused_by st t \<and> st \<in> set REVOKING)"

definition renewal_fails :: "rat \<times> metadata \<Rightarrow> bool" where
  "renewal_fails r \<longleftrightarrow> (\<exists>e. credential_of (fst r) (snd r) = Inl e)"

lemma revoking_fails: "revoking r \<Longrightarrow> renewal_fails r"
  by (auto simp: revoking_def renewal_fails_def credential_of_def)

lemma credential_status:
  "credential_of now m = Inl e \<Longrightarrow> (\<exists>st. be_status e = Some st \<and> st \<in> set REVOKING) \<longleftrightarrow> revoking (now, m)"
  by (auto simp: credential_of_def revoking_def plain_error_def Let_def
      split: metadata.splits json.splits option.splits if_splits)

lemma renewed_fails:
  assumes "\<not> ri_closed i" and "renewal_fails (now, m)"
  shows "\<exists>e. let i1 = fst (identity_renewed False now m i) in
    ri_refused i1 = (if revoking (now, m) then Suc (ri_refused i) else 0) \<and> ri_failures i1 = Suc (ri_failures i) \<and>
    ri_retryAt i1 = now + min 30000 (1000 * 2 ^ min (ri_failures i) 5) \<and>
    ri_lastError i1 = Some e \<and> (revoking (now, m) \<longrightarrow> be_refusals e = Suc (ri_refused i) \<and> ri_credential i1 = None) \<and>
    \<not> ri_closed i1"
proof -
  obtain e where e: "credential_of now m = Inl e" using assms(2) by (auto simp: renewal_fails_def)
  from credential_status [OF e] assms(1) e show ?thesis
    by (auto simp: identity_renewed_def renew_failed_def Let_def split: option.splits)
qed

lemma renewed_succeeds:
  assumes "\<not> ri_closed i" and "\<not> renewal_fails (now, m)"
  shows "ri_refused (fst (identity_renewed False now m i)) = 0 \<and> ri_failures (fst (identity_renewed False now m i)) = 0 \<and>
    \<not> ri_closed (fst (identity_renewed False now m i))"
  using assms by (auto simp: renewal_fails_def identity_renewed_def Let_def split: sum.splits)

lemma renewals_counts:
  assumes "\<not> ri_closed i" and "ri_refused i = 0" and "ri_failures i = 0"
  shows "ri_refused (renewals ms i) = length (takeWhile revoking (rev ms)) \<and>
    ri_failures (renewals ms i) = length (takeWhile renewal_fails (rev ms)) \<and> \<not> ri_closed (renewals ms i)"
proof (induction ms rule: rev_induct)
  case Nil
  with assms show ?case by (simp add: renewals_def)
next
  case (snoc r ms)
  obtain now m where r: "r = (now, m)" by fastforce
  let ?i = "renewals ms i"
  have step: "renewals (ms @ [r]) i = fst (identity_renewed False now m ?i)" by (simp add: renewals_def r)
  show ?case
  proof (cases "renewal_fails r")
    case True
    then obtain e where "let i1 = fst (identity_renewed False now m ?i) in
        ri_refused i1 = (if revoking (now, m) then Suc (ri_refused ?i) else 0) \<and> ri_failures i1 = Suc (ri_failures ?i) \<and>
        ri_retryAt i1 = now + min 30000 (1000 * 2 ^ min (ri_failures ?i) 5) \<and>
        ri_lastError i1 = Some e \<and> (revoking (now, m) \<longrightarrow> be_refusals e = Suc (ri_refused ?i) \<and> ri_credential i1 = None) \<and>
        \<not> ri_closed i1"
      using renewed_fails snoc.IH unfolding r by blast
    with True snoc.IH show ?thesis unfolding step Let_def by (simp add: r)
  next
    case False
    with revoking_fails have "\<not> revoking r" by blast
    with False renewed_succeeds [of ?i now m] snoc.IH show ?thesis unfolding step by (simp add: r)
  qed
qed

text \<open>
  A revocation is told from a passing refusal by how long it lasts: the error of a refused
  renewal carries exactly the number of refusals in a row so far, the bearer is dropped at once,
  and the next renewal waits one second, doubled with every failure in a row up to half a minute.
\<close>

theorem refusals_counted:
  assumes "i = renewals (ms @ [(now, m)]) (RenewableIdentity sid)" and "revoking (now, m)"
  shows "ri_credential i = None \<and>
    (\<exists>e. ri_lastError i = Some e \<and> be_refusals e = Suc (length (takeWhile revoking (rev ms)))) \<and>
    ri_retryAt i = now + min 30000 (1000 * 2 ^ min (length (takeWhile renewal_fails (rev ms))) 5)"
proof -
  let ?i = "renewals ms (RenewableIdentity sid)"
  have c: "ri_refused ?i = length (takeWhile revoking (rev ms))" "ri_failures ?i = length (takeWhile renewal_fails (rev ms))"
    "\<not> ri_closed ?i"
    using renewals_counts [of "RenewableIdentity sid" ms] by (simp_all add: RenewableIdentity_def)
  have "i = fst (identity_renewed False now m ?i)" by (simp add: assms(1) renewals_def)
  with renewed_fails [OF c(3) revoking_fails [OF assms(2)]] assms(2) c show ?thesis
    unfolding Let_def by auto
qed

theorem refusals_counted_witness:
  "\<exists>e. ri_lastError (renewals ([(0, Refused_by 403 [])] @ [(5, Refused_by 404 [])]) (RenewableIdentity [])) = Some e \<and>
     be_refusals e = 2"
  using refusals_counted [OF refl, where ms = "[(0, Refused_by 403 [])]" and now = 5 and m = "Refused_by 404 []" and sid = "[]"]
  by (simp add: revoking_def REVOKING_def numeral_2_eq_2)

section \<open>A bearer is served within its lifetime\<close>

text \<open>The credential an identity holds came from an answer received at \<open>t\<close>, with its signed lifetime.\<close>

definition issued :: "identity \<Rightarrow> bool" where
  "issued i \<longleftrightarrow> (\<forall>c. ri_credential i = Some c \<longrightarrow>
     (\<exists>t lifetime. EXPIRY_MARGIN_MS < lifetime \<and> lifetime \<le> 3600000 \<and>
        cr_renewAt c = t + lifetime / 2 \<and> cr_expiresAt c = t + lifetime - EXPIRY_MARGIN_MS))"

lemma credential_of_lifetime:
  assumes "credential_of now m = Inr c"
  shows "\<exists>l. EXPIRY_MARGIN_MS < l \<and> l \<le> 3600000 \<and> cr_renewAt c = now + l / 2 \<and> cr_expiresAt c = now + l - EXPIRY_MARGIN_MS"
proof -
  obtain t a b where m: "m = Body (JStr t) (Some a) (Some b)"
    using assms by (auto simp: credential_of_def split: metadata.splits json.splits option.splits)
  show ?thesis using assms unfolding m
    by (intro exI [of _ "(b - a) * 1000"]) (auto simp: credential_of_def Let_def split: if_splits)
qed

lemma issued_renewed: "issued i \<Longrightarrow> issued (fst (identity_renewed bc now m i))"
proof -
  assume i: "issued i"
  have new: "credential_of now m = Inr c \<Longrightarrow> issued (j\<lparr>ri_credential := Some c\<rparr>)" for c and j :: identity
    using credential_of_lifetime unfolding issued_def by fastforce
  show ?thesis
    using i new
    by (auto simp: identity_renewed_def renew_failed_def Let_def issued_def split: sum.splits)
qed

lemma issued_get: "issued i \<Longrightarrow> issued (fst (identity_get bc now rejected fresh i))"
  by (auto simp: identity_get_def Let_def issued_def split: option.splits)

text \<open>The states of an identity, over every interleaving of its calls.\<close>

inductive identity_state :: "jstring \<Rightarrow> identity \<Rightarrow> bool" for sid where
  identity_new: "identity_state sid (RenewableIdentity sid)"
| identity_gets: "identity_state sid i \<Longrightarrow> identity_state sid (fst (identity_get bc now rejected fresh i))"
| identity_renews: "identity_state sid i \<Longrightarrow> identity_state sid (fst (identity_renewed bc now m i))"
| identity_closes: "identity_state sid i \<Longrightarrow> identity_state sid (close_identity i)"

lemma identity_state_issued: "identity_state sid i \<Longrightarrow> issued i"
proof (induction rule: identity_state.induct)
  case identity_new
  then show ?case by (simp add: issued_def RenewableIdentity_def)
next
  case (identity_closes i)
  then show ?case by (simp add: issued_def close_identity_def)
qed (simp_all add: issued_get issued_renewed)


definition short_credential :: identity where
  "short_credential = fst (identity_renewed False 0 (Body (JStr (js ''zwai1.x'')) (Some 0) (Some 40)) (RenewableIdentity []))"

lemma short_credential_state: "identity_state [] short_credential"
  unfolding short_credential_def by (intro identity_renews identity_new)

lemma short_credential_served:
  "identity_get False 15000 False False short_credential = (short_credential, Token (js ''zwai1.x''))"
  by (simp add: short_credential_def identity_renewed_def credential_of_def RenewableIdentity_def EXPIRY_MARGIN_MS_def
      identity_get_def)


text \<open>
  The margin is not kept for a lifetime under a minute: such a bearer is served from the cache
  after the time from which \<open>usable\<close> no longer vouches for it.
\<close>

lemma margin_not_kept: "\<not> usable 15000 short_credential"
  by (simp add: short_credential_def identity_renewed_def credential_of_def RenewableIdentity_def EXPIRY_MARGIN_MS_def
      usable_def)

section \<open>A bearer stays with its platform and its session\<close>

definition broker_ok :: "broker \<Rightarrow> bool" where
  "broker_ok b \<longleftrightarrow> (\<forall>i. bk_session b = Some i \<longrightarrow> ri_session i = bk_sessionID b \<and> bk_sessionID b \<noteq> [])"

lemma rejected_get:
  "identity_get bc now True False i = (i1, r) \<Longrightarrow> (\<exists>e. r = Failed_get e) \<or> r = Waiting \<and> ri_credential i1 = None"
  by (auto simp: identity_get_def fallback_def Let_def split: if_splits)

lemma renewed_result:
  assumes "ri_credential i = None" and "identity_renewed bc now m i = (i2, r, d)"
  shows "case r of Inl e \<Rightarrow> ri_credential i2 = None | Inr t \<Rightarrow> \<exists>a b. m = Body (JStr t) a b"
proof (cases "credential_of now m")
  case (Inl e)
  with assms show ?thesis
    by (auto simp: identity_renewed_def renew_failed_def Let_def split: if_splits)
next
  case (Inr c)
  then obtain a b where "m = Body (JStr (cr_token c)) a b"
    by (auto simp: credential_of_def Let_def split: metadata.splits json.splits option.splits if_splits)
  with Inr assms show ?thesis by (auto simp: identity_renewed_def Let_def split: if_splits)
qed

lemma rejected_token_is_new:
  assumes "identity_token bc now m True False i = (i1, Inr t)"
  shows "\<exists>a b. m = Body (JStr t) a b"
proof -
  obtain i0 g where g: "identity_get bc now True False i = (i0, g)" by fastforce
  obtain i2 r d where r: "identity_renewed bc now m i0 = (i2, r, d)" by (metis prod_cases3)
  from rejected_get [OF g] show ?thesis
  proof
    assume "\<exists>e. g = Failed_get e"
    with assms g show ?thesis by (auto simp: identity_token_def)
  next
    assume w: "g = Waiting \<and> ri_credential i0 = None"
    have "case r of Inl e \<Rightarrow> ri_credential i2 = None | Inr t \<Rightarrow> \<exists>a b. m = Body (JStr t) a b"
      by (rule renewed_result [OF _ r]) (use w in simp)
    with w assms g r show ?thesis
      by (cases r) (auto simp: identity_token_def identity_get_finish_def fallback_def)
  qed
qed

lemma broker_token_session:
  "broker_token now m sid rejected b = (b1, Inr t) \<Longrightarrow> sid = [] \<or> sid = bk_sessionID b \<and> bk_session b \<noteq> None"
  by (auto simp: broker_token_def split: if_splits option.splits)

lemma broker_token_rejected:
  "broker_token now m sid True b = (b1, Inr t) \<Longrightarrow> \<exists>x y. m = Body (JStr t) x y"
  by (auto simp: broker_token_def split: if_splits option.splits prod.splits dest: rejected_token_is_new)


definition sample_url :: url where
  "sample_url = \<lparr>u_href = js ''https://p/events'', u_protocol = js ''https:'', u_origin = js ''https://p'', u_host = js ''p'',
     u_userinfo = False, u_path = js ''/events'', u_search = []\<rparr>"

definition sample_broker :: broker where
  "sample_broker = (activate_start (js ''s1'') (new_broker (js ''https://p'') (js ''http://127.0.0.1:7'') 0))
     \<lparr>bk_session := Some ((RenewableIdentity (js ''s1''))\<lparr>ri_credential :=
        Some \<lparr>cr_token = js ''zwai1.a'', cr_renewAt = 10, cr_expiresAt = 20\<rparr>\<rparr>)\<rparr>"

lemma sample_request:
  "broker_request (\<lambda>_. Some sample_url) 1 m1 m2 (\<lambda>_. Inr 200) [] (js ''s1'') sample_broker =
    (sample_broker, Inr 200, [(sample_url, js ''zwai1.a'')])"
  by (simp add: broker_request_def sample_url_def sample_broker_def new_broker_def activate_start_def broker_token_def
      identity_token_def identity_get_def RenewableIdentity_def)


section \<open>No bearer crosses the harness boundary\<close>

definition route_ok :: "(jstring \<Rightarrow> url option) \<Rightarrow> jstring \<Rightarrow> jstring \<Rightarrow> route \<Rightarrow> bool" where
  "route_ok parse platform sid ro \<longleftrightarrow> ro_session ro = sid \<and>
     (ro_url ro = platform @ js ''/v1/openai/chat/completions'' \<or>
      (\<exists>t u. parse t = Some u \<and> u_origin u = platform \<and> \<not> u_userinfo u \<and> ro_url ro = u_href u))"

definition proxied :: "jstring \<Rightarrow> json \<Rightarrow> bool" where
  "proxied proxy cfg \<longleftrightarrow> jget cfg (js ''headers'') = JUndef \<and>
     (\<exists>path. jget cfg (js ''url'') = JStr (proxy @ path))"

lemma jprop_delete_key: "jprop (AList.delete k kvs) k' = (if k' = k then JUndef else jprop kvs k')"
  by (simp add: jprop_def delete_conv')

lemma update_list_all: "list_all P kvs \<Longrightarrow> P (k, v) \<Longrightarrow> list_all P (AList.update k v kvs)"
  by (induction kvs) auto

lemma connector_routes_ok:
  assumes "connector_routes parse enc stem cfgs b servers = (b1, Inr out)"
    and "list_all (\<lambda>(p, ro). route_ok parse (bk_platform b) (bk_sessionID b) ro) (bk_routes b)"
    and "list_all (\<lambda>(n, cfg). proxied (bk_proxyURL b) cfg) servers"
  shows "list_all (\<lambda>(p, ro). route_ok parse (bk_platform b) (bk_sessionID b) ro) (bk_routes b1) \<and>
    list_all (\<lambda>(n, cfg). proxied (bk_proxyURL b) cfg) out \<and> bk_platform b1 = bk_platform b \<and>
    bk_sessionID b1 = bk_sessionID b \<and> bk_proxyURL b1 = bk_proxyURL b"
  using assms
proof (induction parse enc stem cfgs b servers rule: connector_routes.induct)
  case (2 parse enc stem name cfg rest b servers)
  obtain u where u: "parse (js_String (jget cfg (js ''url''))) = Some u" "u_origin u = bk_platform b" "\<not> u_userinfo u"
    using 2(2) by (auto split: option.splits if_splits)
  let ?path = "stem @ js ''/mcp/'' @ enc name"
  have r: "route_ok parse (bk_platform b) (bk_sessionID b) \<lparr>ro_url = u_href u, ro_session = bk_sessionID b\<rparr>"
    using u by (auto simp: route_ok_def)
  have p: "proxied (bk_proxyURL b)
      (JObj (AList.delete (js ''headers'') (jput (js ''url'') (JStr (bk_proxyURL b @ ?path)) (props_or_nil cfg))))"
    by (simp add: proxied_def jprop_delete_key)
  have routes: "list_all (\<lambda>(p, ro). route_ok parse (bk_platform b) (bk_sessionID b) ro)
      (AList.update ?path \<lparr>ro_url = u_href u, ro_session = bk_sessionID b\<rparr> (bk_routes b))"
    using update_list_all [OF 2(3)] r by simp
  show ?case
    using 2(1) [OF u(1)] 2(2) u routes jput_list_all [OF 2(4)] p by (simp add: Let_def)
qed simp



end
