(* ===== verification/ToolPolicy.thy ===== *)
theory ToolPolicy
  imports JsJson
begin

text \<open>
  \<^verbatim>\<open>drivers/tool-policy.mjs\<close>: the verdict of a daemon-enforced policy on one tool call. The
  reasons are text for the model.
\<close>

definition SHELL_META :: "jchar set" where
  "SHELL_META = set (js '';&|<>`$(){}*?[]'') \<union> {10, 13, 0x5C}"

definition DESTRUCTIVE_WORDS :: "jstring set" where
  "DESTRUCTIVE_WORDS = {js ''destroy'', js ''delete'', js ''remove'', js ''rm'', js ''unset'', js ''restore''}"

definition bareToken :: "jstring \<Rightarrow> jstring" where
  "bareToken token = to_lower (dropWhile (\<lambda>u. u = 0x2D) (filter (\<lambda>u. u \<noteq> 0x22 \<and> u \<noteq> 0x27) token))"

text \<open>\<^verbatim>\<open>command.split(/\s+/)\<close> of a trimmed, non-empty command.\<close>

function split_spaces :: "jstring \<Rightarrow> jstring list" where
  "split_spaces s =
     (let w = takeWhile (\<lambda>u. \<not> is_space u) s; r = dropWhile (\<lambda>u. \<not> is_space u) s
      in if r = [] then [w] else w # split_spaces (dropWhile is_space r))"
  by auto
termination
proof (relation "measure length", simp)
  fix s w r :: jstring
  assume "r = dropWhile (\<lambda>u. \<not> is_space u) s" and "r \<noteq> []"
  then have "is_space (hd r)" using hd_dropWhile [of "\<lambda>u. \<not> is_space u" s] by simp
  then have "length (dropWhile is_space r) < length r"
    using \<open>r \<noteq> []\<close> by (cases r) (auto simp: length_dropWhile_le le_imp_less_Suc)
  also have "length r \<le> length s" by (simp add: \<open>r = _\<close> length_dropWhile_le)
  finally show "(dropWhile is_space r, s) \<in> measure length" by simp
qed

declare split_spaces.simps [simp del]

datatype verdict = Allowed | Blocked jstring | Confirm jstring

definition evaluateBash :: "json \<Rightarrow> verdict" where
  "evaluateBash input =
     (let command = trim (str_or [] (jget input (js ''command''))); tokens = split_spaces command
      in if command = [] then Blocked (js ''the platform policy requires a single `zwrm ...` command'')
         else if \<exists>u \<in> set command. u \<in> SHELL_META
         then Blocked (js ''the platform policy allows one plain `zwrm ...` command per call '' @ [0x2014] @
                js '' no pipes, chaining, substitution, redirection, or globs'')
         else if hd tokens \<noteq> js ''zwrm''
         then Blocked ([0x27] @ hd tokens @ [0x27] @
                js '' is not available under the platform policy: only the zwrm CLI can be run'')
         else (case find (\<lambda>t. bareToken t \<in> DESTRUCTIVE_WORDS) (tl tokens) of
             Some t \<Rightarrow> Confirm ([0x27] @ bareToken t @ [0x27] @ js '' is destructive and needs the member'' @ [0x27] @
                         js ''s approval'')
           | None \<Rightarrow> Allowed))"

definition evaluatePlatform :: "jstring \<Rightarrow> json \<Rightarrow> verdict" where
  "evaluatePlatform toolName input =
     (if starts_with toolName (js ''mcp__'') then Allowed
      else if toolName \<in> {js ''sleep'', js ''sleep_until'', js ''wait_for_task''} then Allowed
      else if toolName = js ''tool_search'' then Allowed
      else if toolName = js ''bash'' then evaluateBash input
      else Blocked (js ''the '' @ [0x27] @ toolName @ [0x27] @
        js '' tool is not available under the platform policy: '' @
        js ''this session drives the zwrm platform (single `zwrm ...` bash commands and platform tools only)''))"

definition TOOL_POLICIES :: "jstring list" where
  "TOOL_POLICIES = [js ''platform'']"

definition evaluateToolPolicy :: "jstring \<Rightarrow> jstring \<Rightarrow> json \<Rightarrow> json \<Rightarrow> verdict" where
  "evaluateToolPolicy policy toolName input interactive =
     (if policy \<notin> set TOOL_POLICIES then Blocked (js ''unknown tool policy '' @ [0x27] @ policy @ [0x27])
      else (case evaluatePlatform toolName input of
          Confirm reason \<Rightarrow>
            if interactive = JBool False
            then Blocked (reason @ js '' '' @ [0x2014] @ js '' unavailable in unattended runs; '' @
                   js ''ask the member to run it from the assistant chat'')
            else Confirm reason
        | v \<Rightarrow> v))"

section \<open>What a policied session can run\<close>

lemma split_spaces_not_Nil [simp]: "split_spaces s \<noteq> []"
  by (subst split_spaces.simps) (simp add: Let_def)

text \<open>One plain invocation of the zwrm CLI with no word of the destructive list.\<close>

definition plain_zwrm :: "json \<Rightarrow> bool" where
  "plain_zwrm input \<longleftrightarrow> (\<exists>c args. jget input (js ''command'') = JStr c \<and> set (trim c) \<inter> SHELL_META = {} \<and>
     split_spaces (trim c) = js ''zwrm'' # args \<and> (\<forall>t \<in> set args. bareToken t \<notin> DESTRUCTIVE_WORDS))"

lemma bash_allowed: "evaluateBash input = Allowed \<Longrightarrow> plain_zwrm input"
proof -
  assume a: "evaluateBash input = Allowed"
  let ?c = "trim (str_or [] (jget input (js ''command'')))"
  have c: "?c \<noteq> []" "\<not> (\<exists>u \<in> set ?c. u \<in> SHELL_META)" "hd (split_spaces ?c) = js ''zwrm''"
    "find (\<lambda>t. bareToken t \<in> DESTRUCTIVE_WORDS) (tl (split_spaces ?c)) = None"
    using a by (auto simp: evaluateBash_def Let_def split: if_splits option.splits)
  from c(1) obtain s where s: "jget input (js ''command'') = JStr s"
    by (cases "jget input (js ''command'')") auto
  have "split_spaces ?c = js ''zwrm'' # tl (split_spaces ?c)"
    using c(3) by (metis list.exhaust_sel split_spaces_not_Nil)
  with c s show ?thesis unfolding plain_zwrm_def find_None_iff
    by (intro exI [of _ s] exI [of _ "tl (split_spaces ?c)"]) (auto simp del: split_spaces_not_Nil)
qed



end
