(* ===== verification/SessionStart.thy ===== *)
theory SessionStart
  imports SessionRoutes HostFiles CredentialBroker ToolPolicy
begin

text \<open>
  How \<^verbatim>\<open>server.mjs\<close> starts a session: the checks of a create request, the seed gate, the
  construction of the harness, at once or after the home volume has seeded, and what the
  stand-in driver does meanwhile. An await splits an operation; \<open>error\<close> is how a construction
  threw, with its status, if it has one. The daemon's version is an argument.
\<close>

type_synonym construct_error = "nat option \<times> jstring"

section \<open>The body of a request\<close>

definition MAX_BODY_BYTES :: nat where "MAX_BODY_BYTES = 1024 * 1024"

text \<open>The chunks' lengths as they arrive; \<open>parsed\<close> is \<^verbatim>\<open>JSON.parse\<close> of them joined.\<close>

fun body_size :: "nat list \<Rightarrow> nat \<Rightarrow> http_error + nat" where
  "body_size [] total_bytes = Inr total_bytes"
| "body_size (c # cs) total_bytes =
     (if total_bytes + c > MAX_BODY_BYTES then Inl (bad_request (js ''body too large''))
      else body_size cs (total_bytes + c))"

definition readBody :: "nat list \<Rightarrow> json option \<Rightarrow> http_error + json" where
  "readBody chunk_sizes parsed =
     (case body_size chunk_sizes 0 of
       Inl e \<Rightarrow> Inl e
     | Inr n \<Rightarrow> if n = 0 then Inr (JObj [])
                else (case parsed of None \<Rightarrow> Inl (bad_request (js ''invalid JSON body'')) | Some v \<Rightarrow> Inr v))"

section \<open>A new session\<close>

definition spec_harness :: "json_obj \<Rightarrow> jstring" where
  "spec_harness spec = (if truthy (jprop spec (js ''harness'')) then js_String (jprop spec (js ''harness'')) else js ''claude'')"

definition new_session :: "json_obj \<Rightarrow> session" where
  "new_session spec =
     \<lparr>ss_id = str_or [] (jprop spec (js ''session_id'')), ss_state = Starting, ss_harness = spec_harness spec,
      ss_sdkSessionId = string_or_empty (jprop spec (js ''resume_sdk_session_id'')), ss_pending = [], ss_parks = [],
      ss_ledger = createTaskLedger [], ss_queued = [], ss_deferred = [], ss_pendingContexts = [],
      ss_messageIds = new_recent_ids 256, ss_controlBusy = None,
      ss_pusher = new_pusher (str_or [] (jprop spec (js ''session_id''))), ss_lastResult = JNull, ss_ending = False,
      ss_spec = spec, ss_setup = None, ss_swapping = False, ss_swappingSetupId = None, ss_appliedSetupId = None,
      ss_setupTimer = False, ss_held = [], ss_authorFilter = [], ss_answersFrom = [], ss_idleSince = 0,
      ss_undeliverable = None, ss_current = False, ss_phase = No_swap, ss_effects = []\<rparr>"

definition value_or_null :: "json \<Rightarrow> json" where
  "value_or_null v = (if truthy v then v else JNull)"

definition emitStarted :: "env \<Rightarrow> jstring \<Rightarrow> session \<Rightarrow> session" where
  "emitStarted env version s =
     (let spec = ss_spec s
      in emits env (js ''session.started'')
           [(js ''session_id'', JStr (ss_id s)), (js ''harness'', JStr (ss_harness s)),
            (js ''model'', value_or_null (jprop spec (js ''model''))),
            (js ''effort'', value_or_null (jprop spec (js ''effort''))),
            (js ''permission_mode'', if truthy (jprop spec (js ''permission_mode'')) then jprop spec (js ''permission_mode'')
                                     else JStr (js ''bypassPermissions'')),
            (js ''resumed_from'', value_or_null (jprop spec (js ''resume_sdk_session_id''))),
            (js ''durable_user_messages'', JBool True), (js ''daemon_version'', JStr version)] s)"

definition SEED_FAILED_MESSAGE :: jstring where
  "SEED_FAILED_MESSAGE = js ''workspace home volume seeding failed '' @ [0x2014] @
     js '' $HOME is incomplete (likely out of disk space); check the VM console log for \"volume seeding FAILED\", '' @
     js ''then grow the volume or free space and restart the workspace VM''"

text \<open>
  Up to the construction: the session is refused, waits for the seed with the stand-in driver
  (and is the daemon's from now on), or is to be constructed.
\<close>

datatype start_step = Start_refused http_error | Start_deferred session | Start_construct session

definition startSession :: "env \<Rightarrow> jstring \<Rightarrow> seed_state \<Rightarrow> json_obj \<Rightarrow> start_step" where
  "startSession env version seed spec =
     (case seed of
       Seed_failed \<Rightarrow> Start_refused (http_err 503 SEED_FAILED_MESSAGE)
     | Seeding \<Rightarrow> Start_deferred (emitStarted env version ((new_session spec)\<lparr>ss_current := True\<rparr>))
     | Clear \<Rightarrow> Start_construct (new_session spec))"

text \<open>
  The construction ended. A session that failed to start is never the daemon's: it is left
  with the error it still has to deliver.
\<close>

definition startSession_finish ::
  "env \<Rightarrow> jstring \<Rightarrow> construct_error option \<Rightarrow> session \<Rightarrow> session \<times> http_error option" where
  "startSession_finish env version error s =
     (case error of
       Some (st, message) \<Rightarrow>
         (emits env (js ''session.error'') [(js ''message'', JStr message)] (s\<lparr>ss_state := Errored\<rparr>),
          Some (http_err (case st of Some c \<Rightarrow> if c = 0 then 502 else c | None \<Rightarrow> 502) (js ''failed to start session: '' @ message)))
     | None \<Rightarrow>
         (eff Start_harness
           (emitStarted env version (s\<lparr>ss_current := True, ss_state := Idle, ss_idleSince := en_now env\<rparr>)), None))"

section \<open>The stand-in driver's mode\<close>

text \<open>
  A mode the harness's construction would refuse is refused now, as the running driver would.
\<close>

definition seed_setPermissionMode :: "jstring \<Rightarrow> session \<Rightarrow> http_error + session" where
  "seed_setPermissionMode mode s =
     (case harness_of (ss_harness s) of
       None \<Rightarrow> Inl (http_err 500 (js ''internal error''))
     | Some h \<Rightarrow> if mode_hosted h mode
                  then Inr (s\<lparr>ss_spec := jput (js ''permission_mode'') (JStr mode) (ss_spec s)\<rparr>)
                  else Inl (unsupportedPermissionMode h mode))"

section \<open>The start deferred until the volume has seeded\<close>

definition seed_failure :: "seed_wait \<Rightarrow> jstring" where
  "seed_failure st =
     (if st = Resolved_seed Seed_failed then SEED_FAILED_MESSAGE
      else js ''workspace home volume still seeding after '' @ int_text (SEED_WAIT_MAX_MS div 1000) @
        js ''s '' @ [0x2014] @ js '' not starting the harness; check the VM console log'')"

text \<open>The wait is over: the answer says whether the harness is to be constructed.\<close>

definition deferred_waited :: "env \<Rightarrow> seed_wait \<Rightarrow> session \<Rightarrow> session \<times> bool" where
  "deferred_waited env st s =
     (if \<not> ss_current s \<or> isDone s then (s, False)
      else if st \<noteq> Resolved_seed Clear
      then (emits env (js ''session.error'') [(js ''message'', JStr (seed_failure st))] (s\<lparr>ss_state := Errored\<rparr>), False)
      else (s, True))"

fun replay_queued :: "env \<Rightarrow> driver \<Rightarrow> jstring list \<Rightarrow> session \<Rightarrow> session" where
  "replay_queued env dr [] s = s"
| "replay_queued env dr (t # ts) s =
     (let s1 = fst (queueMessage env dr t s);
          (visible, rest) = (case ss_deferred s1 of
              [] \<Rightarrow> ([(js ''text'', JStr t), (js ''attachments'', JArr [])], [])
            | v # vs \<Rightarrow> (v, vs))
      in replay_queued env dr ts (emitUserMessage env visible (s1\<lparr>ss_deferred := rest\<rparr>)))"

definition deferred_constructed :: "env \<Rightarrow> driver \<Rightarrow> construct_error option \<Rightarrow> session \<Rightarrow> session" where
  "deferred_constructed env dr error s =
     (case error of
       Some (st, message) \<Rightarrow>
         if isDone s then s
         else emits env (js ''session.error'') [(js ''message'', JStr message)] (s\<lparr>ss_state := Errored\<rparr>)
     | None \<Rightarrow>
         if isDone s then dr_shutdownStop dr env s
         else (let s1 = eff Start_harness (setState env Idle [] s)
               in replay_queued env dr (ss_queued s1) (s1\<lparr>ss_queued := []\<rparr>)))"

section \<open>What a session shows\<close>

text \<open>\<open>iso_time\<close> prints a time in milliseconds.\<close>

definition option_json :: "jstring option \<Rightarrow> json" where
  "option_json v = (case v of None \<Rightarrow> JNull | Some t \<Rightarrow> JStr t)"

definition snapshot :: "(int \<Rightarrow> jstring) \<Rightarrow> env \<Rightarrow> session \<Rightarrow> json_obj" where
  "snapshot iso_time env s =
     [(js ''session_id'', JStr (ss_id s)), (js ''state'', JStr (state_text (ss_state s))),
      (js ''harness'', JStr (ss_harness s)), (js ''sdk_session_id'', null_or (ss_sdkSessionId s)),
      (js ''pending_permissions'', JArr (map (\<lambda>(i, p). JObj [(js ''request_id'', JStr i),
         (js ''tool_name'', JStr (pn_toolName p)), (js ''requested_at'', JStr (iso_time (pn_ts p)))]) (ss_pending s))),
      (js ''pending_parks'', JArr (map (\<lambda>(i, p). JObj [(js ''park_id'', JStr i), (js ''kind'', JStr (pk_kind p)),
         (js ''deadline'', null_or (pk_deadline p)), (js ''requested_at'', JStr (iso_time (pk_ts p)))]) (ss_parks s))),
      (js ''last_seq'', JInt (int (seq (ss_pusher s)))),
      (js ''queued_events'', JInt (int (length (queue (ss_pusher s))))),
      (js ''last_result'', ss_lastResult s),
      (js ''background_tasks'', JInt (int (countBackgroundTasks (ss_ledger s) (en_now env)))),
      (js ''active_turn_id'', option_json (activeTurnId (turns (ss_pusher s)))),
      (js ''setup_pending'', JBool (inputHeld s)), (js ''held_messages'', JInt (int (length (ss_held s))))]"

section \<open>Creating\<close>

text \<open>
  The checks of a create request; \<open>protocol\<close> is the protocol of a url that parses. A body that
  is \<^verbatim>\<open>null\<close> has no properties to read.
\<close>

definition bad_mode :: "json \<Rightarrow> bool" where
  "bad_mode v \<longleftrightarrow> truthy v \<and> (case v of JStr m \<Rightarrow> m \<notin> set PERMISSION_MODES | _ \<Rightarrow> True)"

definition create_check :: "(jstring \<Rightarrow> jstring option) \<Rightarrow> json \<Rightarrow> http_error option" where
  "create_check protocol body =
     (let mode = jget body (js ''permission_mode''); policy = jget body (js ''tool_policy'');
          harness = jget body (js ''harness'')
      in if body = JNull then Some (http_err 500 (js ''internal error''))
         else if str_or [] (jget body (js ''session_id'')) = [] then Some (bad_request (js ''missing session_id''))
         else if str_or [] (jget body (js ''callback_url'')) = [] then Some (bad_request (js ''missing callback_url''))
         else (case protocol (str_or [] (jget body (js ''callback_url''))) of
           None \<Rightarrow> Some (bad_request (js ''invalid callback_url''))
         | Some pr \<Rightarrow>
             if pr \<noteq> js ''http:'' \<and> pr \<noteq> js ''https:'' then Some (bad_request (js ''callback_url must be http(s)''))
             else if bad_mode mode then Some (bad_request (js ''invalid permission_mode '' @ js_String mode))
             else if truthy policy \<and> (case policy of JStr p \<Rightarrow> p \<notin> set TOOL_POLICIES | _ \<Rightarrow> True)
             then Some (bad_request (js ''unknown tool_policy '' @ [0x27] @ js_String policy @ [0x27] @
                    js '' (known: '' @ join (js '', '') TOOL_POLICIES @ js '')''))
             else if truthy policy \<and> harness \<noteq> JStr (js ''pi'')
             then Some (bad_request (js ''tool_policy is only enforced on the pi harness, not '' @ [0x27] @
                    (if truthy harness then js_String harness else js ''claude'') @ [0x27]))
             else (case (case harness of JStr h \<Rightarrow> harness_of (if h = [] then js ''claude'' else h)
                         | _ \<Rightarrow> if truthy harness then None else Some Claude) of
                 None \<Rightarrow> Some (bad_request (js ''this daemon build cannot host the '' @ [0x27] @ js_String harness @ [0x27] @
                    js '' harness (hosts: '' @ join (js '', '') (map ImageMcp.harness_text HARNESSES) @
                    js ''); the VM needs a current agent-base image''))
               | Some h \<Rightarrow>
                   if truthy mode \<and> \<not> mode_hosted h (js_String mode)
                   then Some (unsupportedPermissionMode h (js_String mode)) else None)))"

text \<open>
  The daemon: its session, whether a create is in flight, and the finished sessions whose last
  events it still delivers.
\<close>

record daemon =
  dm_session :: "session option"
  dm_creating :: bool
  dm_shuttingDown :: bool
  dm_broker :: broker
  dm_draining :: "session list"

definition live :: "daemon \<Rightarrow> bool" where
  "live d \<longleftrightarrow> (case dm_session d of None \<Rightarrow> False | Some s \<Rightarrow> \<not> isDone s)"

datatype create_step =
    Create_reply nat json_obj
  | Create_activating json_obj
  | Create_constructing session

definition handleCreate_start :: "(jstring \<Rightarrow> jstring option) \<Rightarrow> json \<Rightarrow> daemon \<Rightarrow> daemon \<times> create_step" where
  "handleCreate_start protocol body d =
     (case create_check protocol body of
       Some e \<Rightarrow> (d, Create_reply (he_status e) (error_body (he_message e)))
     | None \<Rightarrow>
         if dm_creating d \<or> live d
         then (d, Create_reply 409 [(js ''error'', JStr (js ''a session is already active'')),
                (js ''active_session'', option_json (map_option ss_id (dm_session d)))])
         else (d\<lparr>dm_creating := True,
                 dm_draining := dm_draining d @ (case dm_session d of None \<Rightarrow> [] | Some s \<Rightarrow> [s])\<rparr>,
               Create_activating (props_or_nil body)))"

text \<open>
  The broker has the session's identity, or could not renew it (\<open>got\<close>); \<open>im\<close> holds the
  image's servers. A start that fails takes the identity back.
\<close>

definition create_failed :: "jstring \<Rightarrow> nat option \<Rightarrow> jstring \<Rightarrow> daemon \<Rightarrow> daemon \<times> create_step" where
  "create_failed sid st message d =
     (d\<lparr>dm_creating := False, dm_broker := deactivate sid (dm_broker d)\<rparr>,
      (case st of
         Some c \<Rightarrow> if c \<noteq> 0 then Create_reply c (error_body message)
                   else Create_reply 500 (error_body (js ''internal error''))
       | None \<Rightarrow> Create_reply 500 (error_body (js ''internal error''))))"

definition create_done :: "session \<Rightarrow> daemon \<Rightarrow> daemon \<times> create_step" where
  "create_done s d =
     (d\<lparr>dm_session := Some s, dm_creating := False\<rparr>,
      Create_reply 201 [(js ''session_id'', JStr (ss_id s)), (js ''state'', JStr (state_text (ss_state s)))])"

definition create_activate :: "json_obj \<Rightarrow> daemon \<Rightarrow> daemon" where
  "create_activate spec d = d\<lparr>dm_broker := activate_start (str_or [] (jprop spec (js ''session_id''))) (dm_broker d)\<rparr>"

definition create_activated ::
  "env \<Rightarrow> jstring \<Rightarrow> (jstring \<Rightarrow> url option) \<Rightarrow> (jstring \<Rightarrow> jstring) \<Rightarrow> jstring \<Rightarrow> image \<Rightarrow> broker_error option \<Rightarrow>
    seed_state \<Rightarrow> json_obj \<Rightarrow> daemon \<Rightarrow> daemon \<times> create_step" where
  "create_activated env version parse enc uuid im got seed spec d =
     (let sid = str_or [] (jprop spec (js ''session_id''))
      in case got of
          Some e \<Rightarrow> create_failed sid (be_status e) (be_message e) d
        | None \<Rightarrow>
            (case activate_finish parse enc uuid spec (dm_broker d) of
              (b, Inl e) \<Rightarrow> create_failed sid (be_status e) (be_message e) (d\<lparr>dm_broker := b\<rparr>)
            | (b, Inr activated) \<Rightarrow>
                (case startSession env version seed (withImageServers activated im) of
                  Start_refused e \<Rightarrow> create_failed sid (Some (he_status e)) (he_message e) (d\<lparr>dm_broker := b\<rparr>)
                | Start_deferred s \<Rightarrow> create_done s (d\<lparr>dm_broker := b\<rparr>)
                | Start_construct s \<Rightarrow> (d\<lparr>dm_broker := b\<rparr>, Create_constructing s))))"

text \<open>
  The harness was constructed or threw; a session that failed to start only delivers its error.
\<close>

definition create_constructed ::
  "env \<Rightarrow> jstring \<Rightarrow> construct_error option \<Rightarrow> session \<Rightarrow> daemon \<Rightarrow> daemon \<times> create_step" where
  "create_constructed env version error s d =
     (case startSession_finish env version error s of
       (s1, None) \<Rightarrow> create_done s1 d
     | (s1, Some e) \<Rightarrow>
         create_failed (ss_id s) (Some (he_status e)) (he_message e) (d\<lparr>dm_draining := dm_draining d @ [s1]\<rparr>))"

section \<open>Shutting down\<close>

definition on_session :: "(session \<Rightarrow> session) \<Rightarrow> daemon \<Rightarrow> daemon" where
  "on_session f d = d\<lparr>dm_session := map_option f (dm_session d)\<rparr>"

definition shutdown_begin :: "env \<Rightarrow> driver \<Rightarrow> daemon \<Rightarrow> daemon" where
  "shutdown_begin env dr d =
     (if dm_shuttingDown d then d
      else on_session (\<lambda>s. if isDone s then s
             else dr_shutdownStop dr env
               (cancelPendingParks env (js ''daemon shutting down'') None
                 (cancelPendingPermissions env (js ''daemon shutting down'') s)))
           (d\<lparr>dm_shuttingDown := True\<rparr>))"

text \<open>One look of the wait for the session's end: whether it is over.\<close>

definition shutdown_settled :: "int \<Rightarrow> int \<Rightarrow> daemon \<Rightarrow> bool" where
  "shutdown_settled now deadline d \<longleftrightarrow> \<not> live d \<or> deadline \<le> now"

section \<open>Winding a harness down\<close>

text \<open>
  \<open>wound\<close> is when, in milliseconds from now, the wind-down settles and whether it worked;
  \<open>force\<close> how long forcing it takes, \<open>Some 0\<close> for a force that throws at once. The answer is
  whether the harness is known to be gone, and whether it was forced.
\<close>

definition force_wait :: "nat option \<Rightarrow> nat" where
  "force_wait force = (case force of None \<Rightarrow> RETIRE_ABORT_MS | Some t \<Rightarrow> min t RETIRE_ABORT_MS)"

definition first_wait :: "(nat \<times> bool) option \<Rightarrow> nat \<Rightarrow> nat" where
  "first_wait wound grace = (case wound of None \<Rightarrow> grace | Some (t, v) \<Rightarrow> min t grace)"

definition retireDriver :: "(nat \<times> bool) option \<Rightarrow> nat option \<Rightarrow> nat \<Rightarrow> bool \<times> bool" where
  "retireDriver wound force grace =
     (if settledWithin wound grace then (True, False)
      else (settledWithin wound (first_wait wound grace + force_wait force + RETIRE_ABORT_MS), True))"

section \<open>Dispatch\<close>

text \<open>\<open>digest\<close> is SHA-256: both sides are hashed, and the digests compared.\<close>

definition tokenMatches :: "(jstring \<Rightarrow> nat list) \<Rightarrow> jstring \<Rightarrow> jstring \<Rightarrow> bool" where
  "tokenMatches digest daemon_token presented \<longleftrightarrow> presented \<noteq> [] \<and> digest presented = digest daemon_token"

definition platformToolsTokenMatches :: "(jstring \<Rightarrow> nat list) \<Rightarrow> jstring option \<Rightarrow> jstring \<Rightarrow> bool" where
  "platformToolsTokenMatches digest tools_token presented \<longleftrightarrow>
     (case tools_token of None \<Rightarrow> False | Some t \<Rightarrow> t \<noteq> [] \<and> presented \<noteq> [] \<and> digest presented = digest t)"

definition bearer_token :: "jstring \<Rightarrow> jstring" where
  "bearer_token authorization = (if starts_with authorization (js ''Bearer '') then trim (drop 7 authorization) else [])"

datatype session_action =
    Get_snapshot | Get_commands | Post_message | Post_command | Post_shell | Post_interrupt
  | Post_permission jstring | Post_park jstring | Post_mode | Post_ask_tools | Post_model | Post_compact
  | Post_end | Post_setup | Post_setup_apply

datatype api_route =
    Platform_tool jstring | Unauthorized_route | Healthz | Desktop_status | No_desktop | Desktop_start | Desktop_control
  | Reclaim | Files_route | Skill_fetch_route | Create_route | Session_route session_action | No_such_session | Not_found

definition path_parts :: "jstring \<Rightarrow> jstring list" where
  "path_parts path = filter (\<lambda>p. p \<noteq> []) (split_on 0x2F path)"

definition session_action :: "jstring \<Rightarrow> jstring list \<Rightarrow> session_action option" where
  "session_action verb rest =
     (if verb = js ''GET'' then
        (if rest = [] then Some Get_snapshot else if rest = [js ''commands''] then Some Get_commands else None)
      else if verb = js ''POST'' then
        (case rest of
          [a] \<Rightarrow>
            if a = js ''messages'' then Some Post_message else if a = js ''command'' then Some Post_command
            else if a = js ''shell'' then Some Post_shell else if a = js ''interrupt'' then Some Post_interrupt
            else if a = js ''mode'' then Some Post_mode else if a = js ''ask-tools'' then Some Post_ask_tools
            else if a = js ''model'' then Some Post_model else if a = js ''compact'' then Some Post_compact
            else if a = js ''end'' then Some Post_end else if a = js ''setup'' then Some Post_setup else None
        | [a, i] \<Rightarrow> if a = js ''permissions'' then Some (Post_permission i)
                     else if a = js ''setup'' \<and> i = js ''apply'' then Some Post_setup_apply else None
        | [a, i, r] \<Rightarrow> if a = js ''parks'' \<and> r = js ''resolve'' then Some (Post_park i) else None
        | _ \<Rightarrow> None)
      else None)"

definition desktop_route :: "bool \<Rightarrow> jstring \<Rightarrow> jstring \<Rightarrow> api_route option" where
  "desktop_route has_desktop verb path =
     (if path = js ''/desktop'' \<or> starts_with path (js ''/desktop/'') then
        (if verb = js ''GET'' \<and> path = js ''/desktop'' then Some Desktop_status
         else if \<not> has_desktop then Some No_desktop
         else if verb = js ''POST'' \<and> path = js ''/desktop/start'' then Some Desktop_start
         else if verb = js ''PUT'' \<and> path = js ''/desktop/control'' then Some Desktop_control
         else None)
      else None)"

definition authorized_route :: "jstring option \<Rightarrow> bool \<Rightarrow> jstring \<Rightarrow> jstring \<Rightarrow> api_route" where
  "authorized_route current has_desktop verb path =
     (if verb = js ''GET'' \<and> path = js ''/healthz'' then Healthz
      else (case desktop_route has_desktop verb path of
        Some r \<Rightarrow> r
      | None \<Rightarrow>
          if verb = js ''POST'' \<and> path = js ''/reclaim'' then Reclaim
          else (case path_parts path of
              v # a # rest \<Rightarrow>
                if v = js ''v1'' \<and> a = js ''files'' \<and> rest = [] then Files_route
                else if verb = js ''POST'' \<and> v = js ''v1'' \<and> a = js ''skills'' \<and> rest = [js ''fetch''] then Skill_fetch_route
                else if v = js ''v1'' \<and> a = js ''sessions''
                then (if verb = js ''POST'' \<and> rest = [] then Create_route
                      else (case rest of
                          [] \<Rightarrow> No_such_session
                        | sid # tail \<Rightarrow>
                            if current \<noteq> Some sid then No_such_session
                            else (case session_action verb tail of Some x \<Rightarrow> Session_route x | None \<Rightarrow> Not_found)))
                else Not_found
            | _ \<Rightarrow> Not_found)))"

text \<open>
  \<open>current\<close> is the daemon's session's id and \<open>tools_token\<close> its bearer for the run tools, which
  is checked before the daemon's own.
\<close>

definition dispatch ::
  "(jstring \<Rightarrow> nat list) \<Rightarrow> jstring \<Rightarrow> jstring option \<Rightarrow> jstring option \<Rightarrow> bool \<Rightarrow> jstring \<Rightarrow> jstring \<Rightarrow> jstring \<Rightarrow> api_route" where
  "dispatch digest daemon_token tools_token current has_desktop verb path authorization =
     (let presented = bearer_token authorization
      in if verb = js ''POST'' \<and> starts_with path (js ''/v1/platform-tools/'') then
           (if current = None \<or> \<not> platformToolsTokenMatches digest tools_token presented then Unauthorized_route
            else Platform_tool (case path_parts path of _ # _ # name # _ \<Rightarrow> name | _ \<Rightarrow> []))
         else if \<not> tokenMatches digest daemon_token presented then Unauthorized_route
         else authorized_route current has_desktop verb path)"

section \<open>Health and memory\<close>

definition DAEMON_CAPS :: "jstring list" where
  "DAEMON_CAPS = [js ''mcp'', js ''escalation'', js ''tool-asks'', js ''files'', js ''file-search'', js ''message-context'',
     js ''bulk-attachments'', js ''park'', js ''reclaim'', js ''skillfetch'', js ''pi-multiprovider'', js ''pi-gateway'',
     js ''opencode-gateway'', js ''background-tasks'', js ''tool-policy'', js ''agent-identity'', js ''commands'',
     js ''shell'', js ''model-switch'', js ''compact'', js ''image-mcp'', js ''desktop'', js ''speaker-attribution'',
     js ''session-instructions'', js ''platform-messages'', js ''task-questions'', js ''task-waits'', js ''session-setup'']"

fun seed_text :: "seed_state \<Rightarrow> jstring" where
  "seed_text Clear = js ''clear''"
| "seed_text Seeding = js ''seeding''"
| "seed_text Seed_failed = js ''failed''"

definition healthz :: "env \<Rightarrow> jstring \<Rightarrow> seed_state \<Rightarrow> image \<Rightarrow> bool \<Rightarrow> daemon \<Rightarrow> json_obj" where
  "healthz env version seed im has_desktop d =
     [(js ''ok'', JBool True), (js ''version'', JStr version),
      (js ''caps'', JArr (map JStr (DAEMON_CAPS @ HARNESS_CAPS))),
      (js ''active_session'', if live d then option_json (map_option ss_id (dm_session d)) else JNull),
      (js ''state'', option_json (map_option (\<lambda>s. state_text (ss_state s)) (dm_session d))),
      (js ''undeliverable_session'', option_json (case dm_session d of
         Some s \<Rightarrow> if ss_undeliverable s \<in> {None, Some []} then None else Some (ss_id s) | None \<Rightarrow> None)),
      (js ''background_tasks'', JInt (case dm_session d of
         Some s \<Rightarrow> int (countBackgroundTasks (ss_ledger s) (en_now env)) | None \<Rightarrow> 0)),
      (js ''home_seed'', JStr (seed_text seed)),
      (js ''image_mcp_servers'', JArr (map (\<lambda>(slug, _). JStr slug) (im_servers im))),
      (js ''desktop'', JBool has_desktop)]"

definition reclaimed :: "int \<Rightarrow> int \<Rightarrow> json_obj" where
  "reclaimed before after =
     [(js ''mem_free_mb_before'', JInt before), (js ''mem_free_mb_after'', JInt after),
      (js ''freed_mb'', JInt (max 0 (after - before)))]"

end
