(* ===== verification/SessionServe.thy ===== *)
theory SessionServe
  imports SessionProps SessionStart
begin

text \<open>
  One session over time: every request, every answer of the harness and every turn of the
  set-up's timer is an event, \<open>serve\<close> takes one of them, and a history is a list of events with
  the clock, the identifiers and the driver each meets. Two locales say what a predicate of the
  session has to survive to hold over every history; the invariants of the session are their
  interpretations.
\<close>

section \<open>Events\<close>

text \<open>
  \<open>_out\<close> is the answer of the call that the event of the same name left in flight; \<open>Asked\<close> to
  \<open>Driver_state\<close> come from the driver. A retired or constructed harness comes with the
  daemon's \<^verbatim>\<open>shuttingDown\<close>.
\<close>

datatype session_event =
    Message_in json
  | Command_in json | Command_out command_call "jstring option call"
  | Shell_in json | Shell_out "shell_result call"
  | Interrupt_in | Interrupt_out "jstring option" "unit call"
  | Permission_in json jstring
  | Park_in json jstring
  | Model_in json | Model_out model_call "unit call"
  | Compact_in json | Compact_out "json_obj call"
  | Mode_in json | Mode_out jstring "unit call"
  | Ask_tools_in json "unit call"
  | End_in
  | Setup_in json | Setup_apply_in json | Setup_tick
  | Retired bool bool | Constructed bool "jstring option"
  | Delivery_lost jstring | Delivery_interrupted "jstring option"
  | Asked jstring json "question list option" json json | Aborted jstring
  | Parked park_request
  | Driver_state session_state json_obj

definition exited :: "session \<Rightarrow> bool" where
  "exited s \<longleftrightarrow> Exit_daemon \<in> set (ss_effects s)"

fun session_step :: "env \<Rightarrow> driver \<Rightarrow> session_event \<Rightarrow> session \<Rightarrow> session" where
  "session_step env dr (Message_in body) s = handleMessage env dr body s"
| "session_step env dr (Command_in body) s = fst (handleCommand_start env dr body s)"
| "session_step env dr (Command_out c out) s = handleCommand_finish env c out s"
| "session_step env dr (Shell_in body) s = fst (handleShell_start env dr body s)"
| "session_step env dr (Shell_out out) s = handleShell_finish env out s"
| "session_step env dr Interrupt_in s = fst (handleInterrupt_start env s)"
| "session_step env dr (Interrupt_out t out) s = handleInterrupt_finish t out s"
| "session_step env dr (Permission_in body i) s = handlePermission env body i s"
| "session_step env dr (Park_in body i) s = handleParkResolve env body i s"
| "session_step env dr (Model_in body) s = fst (handleModel_start env dr body s)"
| "session_step env dr (Model_out c out) s = handleModel_finish env c out s"
| "session_step env dr (Compact_in body) s = fst (handleCompact_start env dr body s)"
| "session_step env dr (Compact_out out) s = handleCompact_finish out s"
| "session_step env dr (Mode_in body) s = fst (handleMode_start body s)"
| "session_step env dr (Mode_out mode out) s = handleMode_finish env mode out s"
| "session_step env dr (Ask_tools_in body out) s = handleAskTools body out s"
| "session_step env dr End_in s = handleEnd env dr s"
| "session_step env dr (Setup_in body) s = handleSetup env dr body s"
| "session_step env dr (Setup_apply_in body) s = handleSetupApply env dr body s"
| "session_step env dr Setup_tick s = maybeApplySetup env dr s"
| "session_step env dr (Retired shutting gone) s = harness_retired env dr shutting gone s"
| "session_step env dr (Constructed shutting error) s = harness_constructed env dr shutting error s"
| "session_step env dr (Delivery_lost reason) s = fst (endUndeliverable env dr reason s)"
| "session_step env dr (Delivery_interrupted t) s = undeliverable_interrupted env dr t s"
| "session_step env dr (Asked tool input qs use reason) s = askPermission env tool input qs use reason s"
| "session_step env dr (Aborted i) s = abortPermission env i s"
| "session_step env dr (Parked r) s = (case parkTurn env r s of Inl _ \<Rightarrow> s | Inr s1 \<Rightarrow> s1)"
| "session_step env dr (Driver_state st extra) s = setState env st extra s"

text \<open>Nothing happens once the daemon has exited.\<close>

definition serve :: "env \<times> driver \<times> session_event \<Rightarrow> session \<Rightarrow> session" where
  "serve = (\<lambda>(env, dr, ev) s. if exited s then s else session_step env dr ev s)"

definition history :: "(env \<times> driver \<times> session_event) list \<Rightarrow> session \<Rightarrow> session" where
  "history evs s = fold serve evs s"

section \<open>Drivers that stay ended\<close>

locale settled_harness = harness +
  assumes queue_done: "isDone s \<Longrightarrow> isDone (fst (dr_queueMessage dr env t s))"
    and end_done: "isDone s \<Longrightarrow> isDone (dr_beginEnd dr env s)"
    and stop_done: "isDone s \<Longrightarrow> isDone (dr_shutdownStop dr env s)"

interpretation stub: settled_harness pendingSeedDriver
  by unfold_locales
    (simp_all add: pendingSeedDriver_def seed_queueMessage_def endNeverStartedSession_def isDone_def)

section \<open>What a predicate of the session has to survive\<close>

definition core :: "session \<Rightarrow> jstring \<times> (jstring, permission) jmap \<times> (jstring, park) jmap \<times> effect list \<times> session_state \<times> swap_phase \<times> bool \<times> jstring option" where
  "core s = (ss_id s, ss_pending s, ss_parks s, ss_effects s, ss_state s, ss_phase s, ss_swapping s, ss_controlBusy s)"

lemma core_updates [simp]:
  "core (s\<lparr>ss_pusher := p\<rparr>) = core s" "core (s\<lparr>ss_held := h\<rparr>) = core s" "core (s\<lparr>ss_messageIds := m\<rparr>) = core s"
  "core (s\<lparr>ss_pendingContexts := c\<rparr>) = core s" "core (s\<lparr>ss_setup := su\<rparr>) = core s"
  "core (s\<lparr>ss_swappingSetupId := i\<rparr>) = core s" "core (s\<lparr>ss_appliedSetupId := i\<rparr>) = core s"
  "core (s\<lparr>ss_setupTimer := b\<rparr>) = core s" "core (s\<lparr>ss_authorFilter := f\<rparr>) = core s"
  "core (s\<lparr>ss_answersFrom := f\<rparr>) = core s" "core (s\<lparr>ss_idleSince := t\<rparr>) = core s" "core (s\<lparr>ss_ledger := l\<rparr>) = core s"
  "core (s\<lparr>ss_deferred := d\<rparr>) = core s" "core (s\<lparr>ss_ending := b\<rparr>) = core s" "core (s\<lparr>ss_spec := sp\<rparr>) = core s"
  "core (s\<lparr>ss_undeliverable := u\<rparr>) = core s" "core (s\<lparr>ss_queued := q\<rparr>) = core s"
  by (simp_all add: core_def)

locale session_blocks =
  fixes P :: "session \<Rightarrow> bool"
  assumes core: "core s' = core s \<Longrightarrow> P s \<Longrightarrow> P s'"
    and moved: "P s \<Longrightarrow> isDone s \<longrightarrow> st \<in> {Ended, Errored} \<Longrightarrow> P (s\<lparr>ss_state := st\<rparr>)"
    and answered: "P s \<Longrightarrow> P (eff (Respond c body) s)"
    and decided: "P s \<Longrightarrow> i \<in> fst ` set (ss_pending s) \<Longrightarrow>
      P (eff (Decide i d) (s\<lparr>ss_pending := AList.delete i (ss_pending s)\<rparr>))"
    and woken: "P s \<Longrightarrow> i \<in> fst ` set (ss_parks s) \<Longrightarrow>
      P (eff (Wake i t) (s\<lparr>ss_parks := AList.delete i (ss_parks s)\<rparr>))"
    and left: "P s \<Longrightarrow> n \<noteq> js ''setup'' \<Longrightarrow> P (s\<lparr>ss_controlBusy := control_leave n h out (ss_controlBusy s)\<rparr>)"
    and keys: "P s \<Longrightarrow> distinct (map fst (ss_pending s)) \<and> distinct (map fst (ss_parks s))"
begin

lemma fields [simp]:
  "P (s\<lparr>ss_pusher := p\<rparr>) = P s" "P (s\<lparr>ss_held := h\<rparr>) = P s" "P (s\<lparr>ss_messageIds := m\<rparr>) = P s"
  "P (s\<lparr>ss_pendingContexts := c\<rparr>) = P s" "P (s\<lparr>ss_setup := su\<rparr>) = P s"
  "P (s\<lparr>ss_swappingSetupId := i\<rparr>) = P s" "P (s\<lparr>ss_appliedSetupId := i\<rparr>) = P s"
  "P (s\<lparr>ss_setupTimer := b\<rparr>) = P s" "P (s\<lparr>ss_authorFilter := f\<rparr>) = P s"
  "P (s\<lparr>ss_answersFrom := f\<rparr>) = P s" "P (s\<lparr>ss_idleSince := t\<rparr>) = P s" "P (s\<lparr>ss_ledger := l\<rparr>) = P s"
  "P (s\<lparr>ss_deferred := d\<rparr>) = P s" "P (s\<lparr>ss_ending := b\<rparr>) = P s" "P (s\<lparr>ss_spec := sp\<rparr>) = P s"
  "P (s\<lparr>ss_undeliverable := u\<rparr>) = P s" "P (s\<lparr>ss_queued := q\<rparr>) = P s"
  by (auto intro: core [rotated] simp: core_updates)

lemma pushed [simp]: "P (with_pusher f s) = P s" "P (emits env ty pl s) = P s" "P (emits_outside env ty pl s) = P s"
    "P (emits_decision env i b s) = P s" "P (emitUserMessage env m s) = P s"
  by (simp_all add: with_pusher_def emits_def emits_outside_def emits_decision_def emitUserMessage_def)

lemma responded: "P s \<Longrightarrow> P (respond c body s)" by (simp add: respond_def answered)

lemma refusals: "P s \<Longrightarrow> P (bad m s)" "P s \<Longrightarrow> P (not_accepting m s)" "P s \<Longrightarrow> P (refuse e s)"
    "P s \<Longrightarrow> P (switchingConflict s)" "P s \<Longrightarrow> P (thrown x s)"
  by (simp_all add: bad_def not_accepting_def refuse_def switchingConflict_def thrown_def responded split: option.split)

lemma stateSet: "P s \<Longrightarrow> P (setState env st extra s)"
proof -
  assume p: "P s"
  have "P (s\<lparr>ss_state := st\<rparr>)" if "\<not> isDone s" using moved [OF p] that by simp
  moreover have "P (with_pusher f s\<lparr>ss_state := st\<rparr>)" if "\<not> isDone s" for f
    using moved [of "with_pusher f s" st] p that by (simp add: isDone_def with_pusher_def)
  ultimately show ?thesis using p by (auto simp: setState_def Let_def)
qed

lemma resumed: "P s \<Longrightarrow> P (resumeIfUnblocked env s)"
  by (simp add: resumeIfUnblocked_def stateSet)

lemma commute: "eff e (with_pusher f s) = with_pusher f (eff e s)"
  by (simp add: eff_def with_pusher_def)

lemma decided_told:
  "P s \<Longrightarrow> i \<in> fst ` set (ss_pending s) \<Longrightarrow>
    P (eff (Decide i d) (emits_decision env j b (s\<lparr>ss_pending := AList.delete i (ss_pending s)\<rparr>)))"
  by (simp add: emits_decision_def emits_def commute decided)

lemma cancelled:
  "P s \<Longrightarrow> distinct (map fst ps) \<Longrightarrow> fst ` set ps \<subseteq> fst ` set (ss_pending s) \<Longrightarrow> P (cancel_permissions env m ps s)"
proof (induction ps arbitrary: s)
  case (Cons x ps)
  obtain i p where x: "x = (i, p)" by fastforce
  have "P (eff (Decide i (Deny m)) (emits_decision env i (cancel_body m) (s\<lparr>ss_pending := AList.delete i (ss_pending s)\<rparr>)))"
    using decided_told [OF Cons.prems(1)] Cons.prems(3) x by simp
  moreover have "fst ` set ps \<subseteq> fst ` set (AList.delete i (ss_pending s))"
    using Cons.prems(2,3) x delete_keys [of i "ss_pending s"] by (auto simp flip: set_map)
  ultimately show ?case using Cons.IH Cons.prems(2) x by simp
qed simp

lemma permissions_cancelled: "P s \<Longrightarrow> P (cancelPendingPermissions env m s)"
  unfolding cancelPendingPermissions_def using keys by (intro cancelled) simp_all

lemma park_resolved: "P s \<Longrightarrow> P (fst (resolvePark env i m t s))"
  by (auto simp: resolvePark_def Let_def emits_def commute intro!: resumed woken split: option.split
      dest!: map_of_SomeD) (metis fst_conv image_eqI)+

lemma parks_cancelled: "P s \<Longrightarrow> P (cancelPendingParks env m ks s)"
proof -
  have "P s \<Longrightarrow> P (resolve_parks env cs s)" for cs s
    by (induction cs arbitrary: s) (auto simp: park_resolved)
  then show "P s \<Longrightarrow> P (cancelPendingParks env m ks s)" by (simp add: cancelPendingParks_def)
qed

lemma dropped: "P (dropHeld s) = P s" "P (abandonSetup s) = P s" "P (dropHeldFrom k s) = P s" "P (forgetHeld xs s) = P s"
    "P (stopSetupTimer s) = P s" "P (armSetupTimer s) = P s"
  by (simp_all add: dropHeld_def forgetHeld_def abandonSetup_def stopSetupTimer_def dropHeldFrom_def armSetupTimer_def
      split: prod.split)

lemma driven:
  assumes "P s" and "driver_keeps s s'" and "isDone s \<Longrightarrow> isDone s'"
  shows "P s'"
proof -
  obtain q p st t where s': "s' = s\<lparr>ss_queued := q, ss_pusher := p, ss_state := st, ss_idleSince := t\<rparr>"
    using assms(2) by (auto simp: driver_keeps_def moves_def)
  have "P (s\<lparr>ss_queued := q, ss_pusher := p, ss_state := st\<rparr>)"
    by (rule moved) (use assms(1,3) s' in \<open>auto simp: isDone_def\<close>)
  then show ?thesis by (simp add: s')
qed

lemma begun_end: "settled_harness dr \<Longrightarrow> P s \<Longrightarrow> P (dr_beginEnd dr env s)"
  and stopped_now: "settled_harness dr \<Longrightarrow> P s \<Longrightarrow> P (dr_shutdownStop dr env s)"
  and queued_on: "settled_harness dr \<Longrightarrow> P s \<Longrightarrow> P (fst (dr_queueMessage dr env t s))"
  by (blast intro: driven settled_harness.axioms harness.end_keeps harness.stop_keeps harness.queue_keeps
      settled_harness.end_done settled_harness.stop_done settled_harness.queue_done)+

lemma ended: "settled_harness dr \<Longrightarrow> P s \<Longrightarrow> P (endSession env dr s)"
  unfolding endSession_def
  by (intro begun_end) (simp_all add: dropped permissions_cancelled parks_cancelled)

lemma never_started: "P s \<Longrightarrow> P (endNeverStartedSession env s)"
  by (simp add: endNeverStartedSession_def moved)

lemma failed: "P s \<Longrightarrow> P (failSetup env m s)"
proof -
  assume "P s"
  then have "P (dropHeld s)" by (simp add: dropped)
  then show ?thesis by (simp add: failSetup_def Let_def moved)
qed

lemma aborted: "P s \<Longrightarrow> P (abortPermission env i s)"
  by (auto simp: abortPermission_def intro!: resumed decided_told dest!: map_of_SomeD) (metis fst_conv image_eqI)

lemma decided_by: "P s \<Longrightarrow> P (handlePermission env body i s)"
proof (cases "map_of (ss_pending s) i")
  case (Some p)
  assume p: "P s"
  have "i \<in> fst ` set (ss_pending s)" using Some by (metis fst_conv image_eqI map_of_SomeD)
  then have "P (eff (Decide i d) (with_pusher g (s\<lparr>ss_pending := AList.delete i (ss_pending s)\<rparr>)))" for d g
    by (simp add: commute decided p)
  then have "P (eff (Decide i d) (emits_decision env j b (with_pusher g (s\<lparr>ss_pending := AList.delete i (ss_pending s)\<rparr>))))"
    for d j b g by (simp add: emits_decision_def emits_def commute)
  with p Some show ?thesis
    by (simp add: handlePermission_def Let_def refusals responded resumed)
qed (simp add: handlePermission_def Let_def refusals responded)

lemma park_woken: "P s \<Longrightarrow> P (handleParkResolve env body i s)"
  using park_resolved [of s env i "str_or [] (jget body (js ''message''))" None]
  by (auto simp: handleParkResolve_def responded split: prod.split bool.split)

lemma command_done: "P s \<Longrightarrow> P (handleCommand_finish env c out s)"
  by (auto simp: handleCommand_finish_def Let_def left responded refusals split: call.split option.split)

lemma shell_done: "P s \<Longrightarrow> P (handleShell_finish env out s)"
  by (auto simp: handleShell_finish_def Let_def left responded refusals split: call.split prod.split)

lemma model_done: "P s \<Longrightarrow> P (handleModel_finish env c out s)"
  by (auto simp: handleModel_finish_def Let_def left responded refusals split: call.split)

lemma compact_done: "P s \<Longrightarrow> P (handleCompact_finish out s)"
  by (auto simp: handleCompact_finish_def left responded refusals split: call.split)

lemma mode_asked: "P s \<Longrightarrow> P (fst (handleMode_start body s))"
  by (auto simp: handleMode_start_def Let_def responded refusals)

lemma mode_done: "P s \<Longrightarrow> P (handleMode_finish env mode out s)"
  by (auto simp: handleMode_finish_def responded refusals split: call.split)

lemma tools_asked: "P s \<Longrightarrow> P (handleAskTools body out s)"
  by (auto simp: handleAskTools_def Let_def responded refusals split: call.split json.split)

lemma interrupted: "P s \<Longrightarrow> P (fst (handleInterrupt_start env s))"
  by (auto simp: handleInterrupt_start_def Let_def parks_cancelled split: prod.split)

lemma interrupt_done: "P s \<Longrightarrow> P (handleInterrupt_finish t out s)"
  by (auto simp: handleInterrupt_finish_def Let_def responded refusals split: call.split)

lemma end_asked: "settled_harness dr \<Longrightarrow> P s \<Longrightarrow> P (handleEnd env dr s)"
  by (simp add: handleEnd_def responded ended)

lemma delivery_lost: "settled_harness dr \<Longrightarrow> P s \<Longrightarrow> P (fst (endUndeliverable env dr reason s))"
  by (auto simp: endUndeliverable_def Let_def parks_cancelled permissions_cancelled begun_end split: prod.split)

lemma delivery_interrupted: "settled_harness dr \<Longrightarrow> P s \<Longrightarrow> P (undeliverable_interrupted env dr t s)"
  by (simp add: undeliverable_interrupted_def Let_def begun_end)

end

text \<open>The same where prompts reach the harness.\<close>

locale session_prompts = session_blocks +
  assumes prompted: "P s \<Longrightarrow> P (eff (Prompt t) s)"
begin

lemma queued: "settled_harness dr \<Longrightarrow> P s \<Longrightarrow> P (fst (queueMessage env dr t s))"
  by (simp add: queueMessage_def queued_on prompted)

lemma replayed: "settled_harness dr \<Longrightarrow> P s \<Longrightarrow> P (replay env dr items s)"
proof (induction items arbitrary: s)
  case (Cons item items)
  let ?q = "queueMessage env dr (with_contexts (in_prompt item) (ss_pendingContexts s)) s"
  have "P (fst ?q)" by (simp add: queued Cons.prems)
  then show ?case using Cons.IH Cons.prems(1) by (cases ?q) (simp add: dropped)
qed simp

lemma replayed_held: "settled_harness dr \<Longrightarrow> P s \<Longrightarrow> P (replayHeld env dr s)"
  by (simp add: replayHeld_def replayed)

lemma message_kept: "P s \<Longrightarrow> P (message_taken env item s)"
  by (auto simp: message_taken_def Let_def responded parks_cancelled)

end

text \<open>The same where a control call reserves the session and a set-up takes it over.\<close>

locale session_steps = session_blocks +
  assumes entered: "P s \<Longrightarrow> \<not> ss_swapping s \<Longrightarrow> name \<noteq> js ''setup'' \<Longrightarrow> P (s\<lparr>ss_controlBusy := control_enter name b\<rparr>)"
    and retiring: "P s \<Longrightarrow> \<not> ss_swapping s \<Longrightarrow> \<not> isDone s \<Longrightarrow>
      P (eff (Retire_harness g) (s\<lparr>ss_swapping := True, ss_controlBusy := Some (js ''setup''), ss_phase := Retiring su k\<rparr>))"
    and building: "P s \<Longrightarrow> ss_phase s = Retiring su k \<Longrightarrow>
      P (eff (Construct_harness spec) (s\<lparr>ss_phase := Constructing su spec r\<rparr>))"
    and exiting: "P s \<Longrightarrow> P (eff Exit_daemon s)"
    and over: "P s \<Longrightarrow> isDone s \<Longrightarrow>
      P (s\<lparr>ss_swapping := False, ss_phase := No_swap, ss_controlBusy := control_release (js ''setup'') (ss_controlBusy s)\<rparr>)"
begin

lemma setup_applied: "P s \<Longrightarrow> \<not> ss_swapping s \<Longrightarrow> \<not> isDone s \<Longrightarrow> P (applySetup env su s)"
  by (rule core [OF _ retiring [of s "retireGrace (countBackgroundTasks (ss_ledger s) (en_now env))" su
        "countBackgroundTasks (ss_ledger s) (en_now env)"]])
    (simp_all add: applySetup_def Let_def stopSetupTimer_def core_def eff_def)

lemma maybe_applied: "settled_harness dr \<Longrightarrow> P s \<Longrightarrow> P (maybeApplySetup env dr s)"
  by (auto simp: maybeApplySetup_def dropped ended setup_applied split: option.split)

lemma waiting_refused: "settled_harness dr \<Longrightarrow> P s \<Longrightarrow> P (fst (refuseWhileSwitching env dr s))"
  by (auto simp: refuseWhileSwitching_def refusals maybe_applied split: option.split)

lemma not_switching: "refuseWhileSwitching env dr s = (s1, False) \<Longrightarrow> s1 = s \<and> \<not> ss_swapping s \<and> ss_setup s = None"
  by (auto simp: refuseWhileSwitching_def inputHeld_def split: if_splits option.splits)

lemma gated:
  assumes "settled_harness dr" and "P s" and "control_gate env dr v ok u s = (s1, halted)"
  shows "P s1 \<and> (\<not> halted \<longrightarrow> \<not> ss_swapping s1)"
proof (cases "refuseWhileSwitching env dr s")
  case (Pair s2 refused)
  then have "P s2" using waiting_refused [OF assms(1,2), of env] by simp
  with Pair not_switching [of env dr s s2] assms(3) show ?thesis
    by (cases refused) (auto simp: control_gate_def refusals split: option.splits if_splits)
qed

lemma command_asked: "settled_harness dr \<Longrightarrow> P s \<Longrightarrow> P (fst (handleCommand_start env dr body s))"
  by (auto simp: handleCommand_start_def refusals entered dest: gated split: sum.split prod.split bool.split)

lemma shell_asked: "settled_harness dr \<Longrightarrow> P s \<Longrightarrow> P (fst (handleShell_start env dr body s))"
  by (auto simp: handleShell_start_def refusals entered dest: gated split: json.split prod.split bool.split)

lemma model_asked: "settled_harness dr \<Longrightarrow> P s \<Longrightarrow> P (fst (handleModel_start env dr body s))"
  by (auto simp: handleModel_start_def Let_def refusals entered dest: gated split: prod.split bool.split)

lemma compact_asked: "settled_harness dr \<Longrightarrow> P s \<Longrightarrow> P (fst (handleCompact_start env dr body s))"
  by (auto simp: handleCompact_start_def Let_def refusals entered dest: gated split: prod.split bool.split)

lemma held: "settled_harness dr \<Longrightarrow> P s \<Longrightarrow> P (holdMessage env dr item s)"
  by (auto simp: holdMessage_def Let_def refusals responded maybe_applied parks_cancelled)

lemma setup_asked: "settled_harness dr \<Longrightarrow> P s \<Longrightarrow> P (handleSetup env dr body s)"
  by (auto simp: handleSetup_def Let_def refusals responded maybe_applied dropped split: sum.split)

lemma setup_signaled: "settled_harness dr \<Longrightarrow> P s \<Longrightarrow> P (handleSetupApply env dr body s)"
  by (auto simp: handleSetupApply_def Let_def refusals responded maybe_applied)

lemma swapped_over: "settled_harness dr \<Longrightarrow> P s \<Longrightarrow> isDone s \<Longrightarrow> P (swap_over env dr s)"
proof -
  assume dr: "settled_harness dr" and p: "P s" "isDone s"
  let ?s1 = "s\<lparr>ss_swapping := False, ss_swappingSetupId := None, ss_phase := No_swap,
                 ss_controlBusy := control_release (js ''setup'') (ss_controlBusy s)\<rparr>"
  have "P ?s1" by (rule core [OF _ over [OF p]]) (simp add: core_def)
  with maybe_applied [OF dr] show ?thesis by (simp add: swap_over_def Let_def dropped)
qed

lemma done_never_started: "isDone (endNeverStartedSession env s)"
  by (simp add: endNeverStartedSession_def) (simp add: isDone_def)

lemma harness_gone:
  assumes dr: "settled_harness dr" and p: "P s"
  shows "P (harness_retired env dr shutting gone s)"
proof (cases "ss_phase s")
  case (Retiring su k)
  show ?thesis
  proof (cases gone)
    case False
    have "P (dropHeld s)" using p by (simp add: dropped)
    with Retiring False show ?thesis by (simp add: harness_retired_def abandonDaemon_def Let_def exiting moved)
  next
    case True
    define s1 where "s1 = s\<lparr>ss_ledger := createTaskLedger []\<rparr>"
    define s2 where "s2 = (if \<not> isDone s1 \<and> ss_state s1 \<noteq> Idle then setState env Idle [] s1
        else if \<not> isDone s1 \<and> max k (countBackgroundTasks (ss_ledger s) (en_now env)) > 0
        then emits env (js ''session.status'') [(js ''state'', JStr (js ''idle'')), (js ''background_tasks'', JInt 0)] s1
        else s1)"
    have p2: "P s2" using p by (simp add: s1_def s2_def stateSet)
    have ph: "ss_phase s2 = Retiring su k" using Retiring by (simp add: s1_def s2_def)
    have ended: "P (swap_over env dr (endNeverStartedSession env (dropHeld s2)))"
      by (rule swapped_over [OF dr _ done_never_started]) (simp add: never_started dropped p2)
    show ?thesis
    proof (cases "ss_ending s2 \<or> shutting \<or> isDone s2")
      case True
      with ended Retiring \<open>gone\<close> show ?thesis
        by (simp add: harness_retired_def s1_def [symmetric] s2_def [symmetric] Let_def)
    next
      case False
      with building [OF p2 ph] Retiring \<open>gone\<close> show ?thesis
        by (simp add: harness_retired_def s1_def [symmetric] s2_def [symmetric] Let_def)
    qed
  qed
qed (simp_all add: harness_retired_def p)

end

text \<open>The events that neither prompt the harness nor pose something new.\<close>

fun routine :: "session_event \<Rightarrow> bool" where
  "routine (Message_in body) = False"
| "routine (Constructed shutting error) = False"
| "routine (Asked tool input qs use reason) = False"
| "routine (Parked r) = False"
| "routine ev = True"

context session_steps begin

lemma stepped:
  assumes dr: "settled_harness dr" and p: "P s" and "routine ev"
  shows "P (session_step env dr ev s)"
  using assms(3)
  by (cases ev) (simp_all add: dr p command_asked command_done shell_asked shell_done interrupted interrupt_done
      decided_by park_woken model_asked model_done compact_asked compact_done mode_asked mode_done tools_asked end_asked
      setup_asked setup_signaled maybe_applied harness_gone delivery_lost delivery_interrupted aborted stateSet)

end

locale session_invariant = session_prompts + session_steps
begin

lemma message_handled:
  assumes dr: "settled_harness dr" and p: "P s"
  shows "P (handleMessage env dr body s)"
proof -
  have "P s1" if "queueMessage env dr t s = (s1, taken)" for t s1 taken
    using queued [OF dr p, of env t] that by simp
  then show ?thesis
    by (auto simp: handleMessage_def Let_def refusals responded held message_kept dr p split: sum.split option.split prod.split)
qed

end

end
