(* ===== verification/SessionLaws.thy ===== *)
theory SessionLaws
  imports SessionServe "HOL-Library.Multiset"
begin

text \<open>
  What holds of a session over every history: the interpretations of \<open>session_blocks\<close> and its
  extensions, and the properties that rest on them.
\<close>

section \<open>Predicates of a session\<close>

definition keyed :: "session \<Rightarrow> bool" where
  "keyed s \<longleftrightarrow> distinct (map fst (ss_pending s)) \<and> distinct (map fst (ss_parks s))"

lemma keyed_updates [simp]:
  "keyed (eff e s) = keyed s" "keyed (s\<lparr>ss_state := st\<rparr>) = keyed s" "keyed (s\<lparr>ss_controlBusy := b\<rparr>) = keyed s"
  "keyed (s\<lparr>ss_swapping := w, ss_controlBusy := b, ss_phase := ph\<rparr>) = keyed s"
  "keyed (s\<lparr>ss_swapping := w, ss_phase := ph, ss_controlBusy := b\<rparr>) = keyed s"
  "keyed (s\<lparr>ss_phase := ph\<rparr>) = keyed s"
  "keyed s \<Longrightarrow> keyed (s\<lparr>ss_pending := AList.delete i (ss_pending s)\<rparr>)"
  "keyed s \<Longrightarrow> keyed (s\<lparr>ss_parks := AList.delete i (ss_parks s)\<rparr>)"
  by (simp_all add: keyed_def distinct_delete)

lemma keyed_core: "core s' = core s \<Longrightarrow> keyed s' = keyed s"
  by (simp add: core_def keyed_def)

text \<open>The prompts the harness was handed.\<close>

fun prompt_of :: "effect \<Rightarrow> jstring list" where
  "prompt_of (Prompt t) = [t]"
| "prompt_of _ = []"

definition prompts :: "session \<Rightarrow> jstring list" where
  "prompts s = concat (map prompt_of (ss_effects s))"

definition same_prompts :: "jstring list \<Rightarrow> session \<Rightarrow> bool" where
  "same_prompts ts s \<longleftrightarrow> keyed s \<and> prompts s = ts"

text \<open>
  The life of the harness, read off the effects: it is being built, runs, or winds down;
  \<open>None\<close> when one was built or started beside another, or retired when none ran.
\<close>

datatype life = Building | Up | Winding

fun life_step :: "effect \<Rightarrow> life option \<Rightarrow> life option" where
  "life_step (Construct_harness spec) st = (if st = Some Winding then Some Building else None)"
| "life_step Start_harness st = (if st = Some Building then Some Up else None)"
| "life_step (Retire_harness g) st = (if st = Some Up then Some Winding else None)"
| "life_step e st = st"

definition harness_life :: "session \<Rightarrow> life option" where
  "harness_life s = fold life_step (ss_effects s) (Some Building)"

fun phase_life :: "swap_phase \<Rightarrow> life" where
  "phase_life No_swap = Up"
| "phase_life (Retiring su n) = Winding"
| "phase_life (Constructing su spec r) = Building"

definition one_harness :: "session \<Rightarrow> bool" where
  "one_harness s \<longleftrightarrow> keyed s \<and> (ss_swapping s \<longleftrightarrow> ss_phase s \<noteq> No_swap) \<and>
     (ss_swapping s \<longrightarrow> ss_controlBusy s = Some (js ''setup'')) \<and>
     (harness_life s = Some (phase_life (ss_phase s)) \<or> isDone s \<and> \<not> ss_swapping s \<and> harness_life s \<noteq> None)"

text \<open>What a step that has nothing to do with a swap leaves as it is.\<close>

definition calm :: "session \<Rightarrow> session \<Rightarrow> bool" where
  "calm s0 s \<longleftrightarrow> keyed s \<and> ss_phase s = ss_phase s0 \<and> ss_swapping s = ss_swapping s0 \<and>
     harness_life s = harness_life s0 \<and> (isDone s0 \<longrightarrow> isDone s) \<and>
     (ss_controlBusy s0 = Some (js ''setup'') \<longrightarrow> ss_controlBusy s = Some (js ''setup''))"

text \<open>The paused calls that were answered, and those that were woken.\<close>

fun decided_of :: "effect \<Rightarrow> jstring list" where
  "decided_of (Decide i d) = [i]"
| "decided_of _ = []"

fun woken_of :: "effect \<Rightarrow> jstring list" where
  "woken_of (Wake i t) = [i]"
| "woken_of _ = []"

definition decided_ids :: "session \<Rightarrow> jstring list" where
  "decided_ids s = concat (map decided_of (ss_effects s))"

definition woken_ids :: "session \<Rightarrow> jstring list" where
  "woken_ids s = concat (map woken_of (ss_effects s))"

definition accounts :: "jstring multiset \<Rightarrow> jstring multiset \<Rightarrow> session \<Rightarrow> bool" where
  "accounts asked parked s \<longleftrightarrow> keyed s \<and>
     mset (decided_ids s) + mset (map fst (ss_pending s)) = asked \<and>
     mset (woken_ids s) + mset (map fst (ss_parks s)) = parked"

definition stays_done :: "jstring \<Rightarrow> bool \<Rightarrow> session \<Rightarrow> bool" where
  "stays_done i b s \<longleftrightarrow> keyed s \<and> ss_id s = i \<and> (b \<longrightarrow> isDone s)"

lemma log_updates [simp]:
  "ss_effects (s\<lparr>ss_state := st\<rparr>) = ss_effects s"
  "prompts (eff e s) = prompts s @ prompt_of e" "decided_ids (eff e s) = decided_ids s @ decided_of e"
  "woken_ids (eff e s) = woken_ids s @ woken_of e" "harness_life (eff e s) = life_step e (harness_life s)"
  by (simp_all add: prompts_def decided_ids_def woken_ids_def harness_life_def eff_def)

lemma mset_delete: "(i, v) \<in> set al \<Longrightarrow> distinct (map fst al) \<Longrightarrow>
    add_mset i (image_mset fst (mset (AList.delete i al))) = image_mset fst (mset al)"
  by (induction al) (auto simp: delete_id image_iff)

lemmas log_defs = prompts_def decided_ids_def woken_ids_def harness_life_def eff_def

lemma leave_setup: "n \<noteq> js ''setup'' \<Longrightarrow> b = Some (js ''setup'') \<Longrightarrow> control_leave n h out b = Some (js ''setup'')"
  by (simp add: control_leave_def control_release_def split: fn_outcome.split)

section \<open>Interpretations\<close>

interpretation calm: session_prompts "calm s0"
  by unfold_locales (auto simp: calm_def keyed_def core_def isDone_def leave_setup distinct_delete log_defs)

interpretation ending: session_invariant "stays_done i b"
  by unfold_locales (auto simp: stays_done_def keyed_def core_def isDone_def distinct_delete eff_def)

interpretation prompting: session_steps "same_prompts ts"
  by unfold_locales (auto simp: same_prompts_def keyed_def core_def distinct_delete log_defs)

interpretation life: session_invariant one_harness
  by unfold_locales
    (auto simp: one_harness_def keyed_def core_def isDone_def leave_setup control_release_def distinct_delete log_defs)

interpretation accounting: session_invariant "accounts asked parked"
  by unfold_locales (auto simp: accounts_def keyed_def core_def distinct_delete log_defs mset_delete)

section \<open>Constructed harnesses\<close>

lemma reset_core: "core (s\<lparr>ss_swapping := False, ss_swappingSetupId := None, ss_phase := No_swap, ss_controlBusy := b\<rparr>) =
    core (s\<lparr>ss_swapping := False, ss_phase := No_swap, ss_controlBusy := b\<rparr>)"
  by (simp add: core_def)

context session_steps begin

lemma swapped_back:
  assumes "settled_harness dr"
    and "P (s\<lparr>ss_swapping := False, ss_phase := No_swap, ss_controlBusy := control_release (js ''setup'') (ss_controlBusy s)\<rparr>)"
  shows "P (swap_over env dr s)"
proof -
  have "P (s\<lparr>ss_swapping := False, ss_swappingSetupId := None, ss_phase := No_swap,
      ss_controlBusy := control_release (js ''setup'') (ss_controlBusy s)\<rparr>)"
    by (rule core [OF reset_core assms(2)])
  with maybe_applied [OF assms(1)] show ?thesis by (simp add: swap_over_def Let_def dropped)
qed

end

fun poses :: "session_event \<Rightarrow> bool" where
  "poses (Asked tool input qs use reason) = True"
| "poses (Parked r) = True"
| "poses ev = False"

text \<open>A predicate that does not look at the swap.\<close>

locale session_free = session_invariant +
  assumes begun: "P s \<Longrightarrow> P (eff Start_harness s)"
    and reset: "P s \<Longrightarrow> P (s\<lparr>ss_swapping := False, ss_phase := No_swap, ss_controlBusy := b\<rparr>)"
begin

lemma restored: "settled_harness dr \<Longrightarrow> P s \<Longrightarrow> P (swap_over env dr s)"
  by (rule swapped_back) (simp_all add: reset)

lemma harness_built: "settled_harness dr \<Longrightarrow> P s \<Longrightarrow> P (harness_constructed env dr shutting error s)"
  by (auto simp: harness_constructed_def Let_def failed begun_end stopped_now dropped replayed_held begun intro!: restored
      split: swap_phase.split option.split)

lemma replayed_queued: "settled_harness dr \<Longrightarrow> P s \<Longrightarrow> P (replay_queued env dr ts s)"
  by (induction ts arbitrary: s) (simp_all add: Let_def queued split: list.split)

lemma deferred_waited: "P s \<Longrightarrow> P (fst (deferred_waited env st s))"
  by (simp add: deferred_waited_def moved)

lemma deferred_built: "settled_harness dr \<Longrightarrow> P s \<Longrightarrow> P (deferred_constructed env dr error s)"
  by (auto simp: deferred_constructed_def Let_def moved stopped_now stateSet begun replayed_queued split: option.split)

lemma unposed:
  assumes "settled_harness dr" and "P s" and "\<not> poses ev"
  shows "P (serve (env, dr, ev) s)"
proof (cases "routine ev")
  case True
  then show ?thesis using stepped [OF assms(1,2)] assms(2) by (simp add: serve_def)
next
  case False
  then show ?thesis using assms by (cases ev) (simp_all add: serve_def message_handled harness_built)
qed

end

interpretation accounting: session_free "accounts asked parked"
  by unfold_locales (auto simp: accounts_def keyed_def log_defs)

interpretation ending: session_free "stays_done i b"
  by unfold_locales (auto simp: stays_done_def keyed_def isDone_def eff_def)

section \<open>What the driver poses\<close>

lemma setState_done: "isDone s \<Longrightarrow> isDone (setState env st extra s)"
  by (simp add: setState_def)

context session_blocks begin

text \<open>A call that is posed: everything up to the new entry survives.\<close>

lemma posed_permission:
  "P s \<Longrightarrow> \<exists>s2 p. askPermission env tool input qs use reason s =
      s2\<lparr>ss_pending := AList.update (en_id env) p (ss_pending s2)\<rparr> \<and>
    P s2 \<and> ss_pending s2 = ss_pending s \<and> (isDone s \<longrightarrow> isDone s2)"
  unfolding askPermission_def Let_def
  by (intro exI conjI) (rule refl, simp_all add: stateSet setState_done)

lemma posed_park:
  "P s \<Longrightarrow> parkTurn env r s = Inr s1 \<Longrightarrow>
    \<exists>s2 p. s1 = s2\<lparr>ss_parks := AList.update (en_id env) p (ss_parks s2)\<rparr> \<and>
    P s2 \<and> ss_parks s2 = ss_parks s \<and> (isDone s \<longrightarrow> isDone s2)"
proof (cases "parkDeadlineError (en_parse env) (null_or (pr_deadline r)) MAX_SLEEP_SECONDS (en_now env)")
  case None
  assume p: "P s" and "parkTurn env r s = Inr s1"
  then show ?thesis
    unfolding parkTurn_def Let_def None option.case sum.inject
    by (elim subst) (intro exI conjI, rule refl, simp_all add: stateSet setState_done p)
qed (simp add: parkTurn_def)

end

section \<open>Every paused call is answered once\<close>

fun asked_ids :: "env \<times> driver \<times> session_event \<Rightarrow> jstring list" where
  "asked_ids (env, dr, Asked tool input qs use reason) = [en_id env]"
| "asked_ids _ = []"

fun parked_ids :: "env \<times> driver \<times> session_event \<Rightarrow> jstring list" where
  "parked_ids (env, dr, Parked r) = [en_id env]"
| "parked_ids _ = []"

abbreviation all_ids :: "('a \<Rightarrow> jstring list) \<Rightarrow> 'a list \<Rightarrow> jstring list" where
  "all_ids f evs \<equiv> concat (map f evs)"

abbreviation harnessed :: "(env \<times> driver \<times> session_event) list \<Rightarrow> bool" where
  "harnessed evs \<equiv> list_all (\<lambda>(env, dr, ev). settled_harness dr) evs"

lemma history_snoc [simp]: "history (evs @ [x]) s = serve x (history evs s)" "history [] s = s"
  by (simp_all add: history_def)

lemma keys_update_new: "i \<notin> fst ` set al \<Longrightarrow> map fst (AList.update i p al) = map fst al @ [i]"
  by (simp add: update_keys)

lemma accounts_step:
  assumes "settled_harness dr" and a: "accounts A B s"
    and "set (asked_ids (env, dr, ev)) \<inter> set_mset A = {}" and "set (parked_ids (env, dr, ev)) \<inter> set_mset B = {}"
  shows "\<exists>B'. accounts (if exited s then A else A + mset (asked_ids (env, dr, ev))) B' (serve (env, dr, ev) s) \<and>
    B' \<subseteq># B + mset (parked_ids (env, dr, ev))"
proof (cases "poses ev \<and> \<not> exited s")
  case False
  have "accounts A B (serve (env, dr, ev) s)"
  proof (cases "poses ev")
    case False
    then show ?thesis using accounting.unposed [OF assms(1) a] by simp
  next
    case True
    then show ?thesis using False a by (simp add: serve_def)
  qed
  with False show ?thesis by (cases ev) (auto intro!: exI [of _ B])
next
  case True
  have keys: "fst ` set (ss_pending s) \<subseteq> set_mset A" "fst ` set (ss_parks s) \<subseteq> set_mset B"
    using a by (auto simp: accounts_def rev_image_eqI)
  from True consider tool input qs use reason where "ev = Asked tool input qs use reason" | r where "ev = Parked r"
    by (cases ev) auto
  then show ?thesis
  proof cases
    case 1
    obtain s2 p where s2: "askPermission env tool input qs use reason s =
        s2\<lparr>ss_pending := AList.update (en_id env) p (ss_pending s2)\<rparr>" "accounts A B s2" "ss_pending s2 = ss_pending s"
      using accounting.posed_permission [OF a] by blast
    have "en_id env \<notin> fst ` set (ss_pending s2)" using assms(3) keys(1) s2(3) by (auto simp: 1)
    then have "accounts (A + {#en_id env#}) B (s2\<lparr>ss_pending := AList.update (en_id env) p (ss_pending s2)\<rparr>)"
      using s2(2) by (auto simp: accounts_def keyed_def log_defs keys_update_new simp flip: mset_map)
    then show ?thesis using True s2(1) by (auto simp: 1 serve_def intro!: exI [of _ B])
  next
    case 2
    show ?thesis
    proof (cases "parkTurn env r s")
      case (Inl b)
      then show ?thesis using True a by (auto simp: 2 serve_def intro!: exI [of _ B])
    next
      case (Inr s1)
      then obtain s2 p where s2: "s1 = s2\<lparr>ss_parks := AList.update (en_id env) p (ss_parks s2)\<rparr>" "accounts A B s2"
          "ss_parks s2 = ss_parks s"
        using accounting.posed_park [OF a] by blast
      have "en_id env \<notin> fst ` set (ss_parks s2)" using assms(4) keys(2) s2(3) by (auto simp: 2)
      then have "accounts A (B + {#en_id env#}) s1"
        using s2(1,2) by (auto simp: accounts_def keyed_def log_defs keys_update_new simp flip: mset_map)
      then show ?thesis using True Inr by (auto simp: 2 serve_def intro!: exI [of _ "B + {#en_id env#}"])
    qed
  qed
qed

text \<open>A session as it starts, its harness just constructed.\<close>

definition started :: "env \<Rightarrow> jstring \<Rightarrow> json_obj \<Rightarrow> session" where
  "started env version spec = fst (startSession_finish env version None (new_session spec))"

lemma started_fields [simp]:
  "ss_pending (started env version spec) = []" "ss_parks (started env version spec) = []"
  "ss_effects (started env version spec) = [Start_harness]" "ss_phase (started env version spec) = No_swap"
  "\<not> ss_swapping (started env version spec)" "\<not> exited (started env version spec)"
  by (simp_all add: started_def startSession_finish_def emitStarted_def Let_def new_session_def exited_def)

lemma distinct_sub: "mset ys \<subseteq># mset xs \<Longrightarrow> distinct xs \<Longrightarrow> distinct ys"
proof -
  assume "mset ys \<subseteq># mset xs" and d: "distinct xs"
  then obtain M where "mset xs = mset ys + M" by (auto simp: subset_mset.le_iff_add)
  moreover obtain zs where "M = mset zs" by (metis ex_mset)
  ultimately have "mset xs = mset (ys @ zs)" by simp
  with d show ?thesis by (metis distinct_append mset_eq_imp_distinct_iff)
qed

lemma accounts_history:
  assumes "harnessed evs" and "distinct (all_ids asked_ids evs)" and "distinct (all_ids parked_ids evs)"
  shows "\<exists>A B. accounts A B (history evs (started env version spec)) \<and> A \<subseteq># mset (all_ids asked_ids evs) \<and>
    (\<not> exited (history evs (started env version spec)) \<longrightarrow> A = mset (all_ids asked_ids evs)) \<and>
    B \<subseteq># mset (all_ids parked_ids evs)"
  using assms
proof (induction evs rule: rev_induct)
  case Nil
  show ?case by (intro exI [of _ "{#}"]) (simp add: accounts_def keyed_def log_defs)
next
  case (snoc x evs)
  obtain env' dr ev where x: "x = (env', dr, ev)" by (metis prod_cases3)
  let ?s = "history evs (started env version spec)"
  obtain A B where ab: "accounts A B ?s" "A \<subseteq># mset (all_ids asked_ids evs)"
    "\<not> exited ?s \<Longrightarrow> A = mset (all_ids asked_ids evs)" "B \<subseteq># mset (all_ids parked_ids evs)"
    using snoc by auto
  have "set (asked_ids x) \<inter> set_mset A = {}" "set (parked_ids x) \<inter> set_mset B = {}"
    using snoc.prems(2,3) set_mset_mono [OF ab(2)] set_mset_mono [OF ab(4)] by auto
  then obtain B' where b: "accounts (if exited ?s then A else A + mset (asked_ids x)) B' (serve x ?s)"
      "B' \<subseteq># B + mset (parked_ids x)"
    using accounts_step [of dr A B ?s env' ev] ab(1) snoc.prems(1) x by auto
  have "B + mset (parked_ids x) \<subseteq># mset (all_ids parked_ids (evs @ [x]))" using ab(4) by simp
  with b(2) have "B' \<subseteq># mset (all_ids parked_ids (evs @ [x]))" by (rule subset_mset.trans)
  moreover have "(if exited ?s then A else A + mset (asked_ids x)) \<subseteq># mset (all_ids asked_ids (evs @ [x]))"
    using ab(2) by (auto intro: subset_mset.trans)
  moreover have "exited ?s \<Longrightarrow> exited (serve x ?s)" by (simp add: serve_def x)
  ultimately show ?case using b(1) ab(3) by (intro exI [of _ B'] exI conjI) auto
qed

text \<open>
  C4: A tool call that waits for a person or for its time is answered exactly once. Whatever
  requests, answers and set-ups come in whatever order, as long as fresh identifiers are fresh:
  the permission requests decided and those still pending are distinct, and while the daemon
  lives they are all that were asked; the parks woken and those still open are distinct, and
  every one of them was asked for.
\<close>

theorem calls_answered_once:
  assumes "s = history evs (started env version spec)" and "harnessed evs"
    and "distinct (all_ids asked_ids evs)" and "distinct (all_ids parked_ids evs)"
  shows "distinct (decided_ids s @ map fst (ss_pending s)) \<and> distinct (woken_ids s @ map fst (ss_parks s)) \<and>
    set (decided_ids s @ map fst (ss_pending s)) \<subseteq> set (all_ids asked_ids evs) \<and>
    (\<not> exited s \<longrightarrow> set (decided_ids s @ map fst (ss_pending s)) = set (all_ids asked_ids evs)) \<and>
    set (woken_ids s @ map fst (ss_parks s)) \<subseteq> set (all_ids parked_ids evs)"
proof -
  obtain A B where ab: "accounts A B s" "A \<subseteq># mset (all_ids asked_ids evs)"
      "\<not> exited s \<Longrightarrow> A = mset (all_ids asked_ids evs)" "B \<subseteq># mset (all_ids parked_ids evs)"
    using accounts_history [OF assms(2-4), of env version spec] assms(1) by blast
  have a: "mset (decided_ids s @ map fst (ss_pending s)) = A" and b: "mset (woken_ids s @ map fst (ss_parks s)) = B"
    using ab(1) by (simp_all add: accounts_def)
  note sets = arg_cong [OF a, of set_mset] arg_cong [OF b, of set_mset]
  have "set (decided_ids s @ map fst (ss_pending s)) \<subseteq> set (all_ids asked_ids evs)"
    "set (woken_ids s @ map fst (ss_parks s)) \<subseteq> set (all_ids parked_ids evs)"
    using set_mset_mono [OF ab(2)] set_mset_mono [OF ab(4)] sets by simp_all
  moreover have "\<not> exited s \<Longrightarrow> set (decided_ids s @ map fst (ss_pending s)) = set (all_ids asked_ids evs)"
    using sets(1) ab(3) by simp
  moreover have "distinct (decided_ids s @ map fst (ss_pending s))" "distinct (woken_ids s @ map fst (ss_parks s))"
    using distinct_sub [OF _ assms(3)] distinct_sub [OF _ assms(4)] ab(2,4) a b by metis+
  ultimately show ?thesis by blast
qed

definition sample_env :: "jstring \<Rightarrow> env" where
  "sample_env i = \<lparr>en_clk = (\<lambda>n. dec n), en_now = 1000, en_id = i, en_parse = (\<lambda>_. None)\<rparr>"

definition sample_history :: "(env \<times> driver \<times> session_event) list" where
  "sample_history =
     [(sample_env (js ''t1''), pendingSeedDriver, Driver_state Working []),
      (sample_env (js ''r1''), pendingSeedDriver, Asked (js ''Bash'') JNull None JNull JNull),
      (sample_env (js ''r2''), pendingSeedDriver, Asked (js ''Edit'') JNull None JNull JNull),
      (sample_env (js ''x''), pendingSeedDriver, Permission_in (JObj [(js ''behavior'', JStr (js ''deny''))]) (js ''r1'')),
      (sample_env (js ''y''), pendingSeedDriver, Retired False True),
      (sample_env (js ''z''), pendingSeedDriver, End_in)]"

lemma sample_harnessed: "harnessed sample_history"
  by (simp add: sample_history_def stub.settled_harness_axioms)

theorem calls_answered_once_witness:
  "distinct (decided_ids (history sample_history (started (sample_env []) [] [])) @
     map fst (ss_pending (history sample_history (started (sample_env []) [] []))))"
  using calls_answered_once [OF refl sample_harnessed, of "sample_env []" "[]" "[]"]
  by (simp add: sample_history_def sample_env_def)

section \<open>One harness at a time\<close>

lemma release_setup [simp]: "control_release (js ''setup'') (Some (js ''setup'')) = None"
  by (simp add: control_release_def)

lemma harness_replaced:
  assumes dr: "settled_harness dr" and p: "one_harness s"
  shows "one_harness (harness_constructed env dr shutting error s)"
proof (cases "ss_phase s")
  case (Constructing su spec r)
  have live: "harness_life s = Some Building" "ss_swapping s" "keyed s" "ss_controlBusy s = Some (js ''setup'')"
    using p Constructing by (auto simp: one_harness_def)
  show ?thesis
  proof (cases error)
    case (Some m)
    have "one_harness (swap_over env dr (failSetup env m s))"
      by (rule life.swapped_over [OF dr life.failed [OF p]]) (simp add: failSetup_def Let_def isDone_def)
    with Constructing Some show ?thesis by (simp add: harness_constructed_def)
  next
    case None
    define s1 where "s1 = eff Start_harness (s\<lparr>ss_spec := spec\<rparr>)"
    have calm: "calm s1 s1" using live by (simp add: calm_def s1_def keyed_def)
    have up: "harness_life s1 = Some Up" "ss_controlBusy s1 = Some (js ''setup'')"
      using live by (simp_all add: s1_def log_defs)
    have done_with: "one_harness (swap_over env dr s')" if "calm s1 s'" for s'
    proof (rule life.swapped_back [OF dr])
      show "one_harness (s'\<lparr>ss_swapping := False, ss_phase := No_swap,
          ss_controlBusy := control_release (js ''setup'') (ss_controlBusy s')\<rparr>)"
        using that up by (simp add: calm_def one_harness_def) (simp add: log_defs keyed_def)
    qed
    have "one_harness (swap_over env dr (dr_shutdownStop dr env (dropHeld s1)))"
      "one_harness (swap_over env dr (dr_beginEnd dr env (dropHeld s1)))"
      using calm by (auto intro!: done_with calm.stopped_now [OF dr] calm.begun_end [OF dr] simp: calm.dropped)
    moreover have "one_harness (swap_over env dr (if ss_setup s2 = None then replayHeld env dr s2 else s2))"
      if "s2 = emits env ty pl (s1\<lparr>ss_appliedSetupId := i\<rparr>)" for s2 ty pl i
      using calm by (auto intro!: done_with calm.replayed_held [OF dr] simp: that)
    ultimately show ?thesis using Constructing None
      by (simp add: harness_constructed_def s1_def [symmetric] Let_def)
  qed
qed (simp_all add: harness_constructed_def p)

lemma one_entry:
  "one_harness s \<Longrightarrow> one_harness (s\<lparr>ss_pending := AList.update i p (ss_pending s)\<rparr>)"
  "one_harness s \<Longrightarrow> one_harness (s\<lparr>ss_parks := AList.update i q (ss_parks s)\<rparr>)"
  by (auto simp: one_harness_def keyed_def isDone_def harness_life_def distinct_update)

lemma posed_keeps_life: "one_harness s \<Longrightarrow> one_harness (askPermission env tool input qs use reason s)"
    "one_harness s \<Longrightarrow> parkTurn env r s = Inr s1 \<Longrightarrow> one_harness s1"
  by (metis life.posed_permission one_entry(1)) (metis life.posed_park one_entry(2))

lemma served_one:
  assumes dr: "settled_harness dr" and p: "one_harness s"
  shows "one_harness (serve (env, dr, ev) s)"
proof (cases "routine ev")
  case True
  then show ?thesis using life.stepped [OF dr p] p by (simp add: serve_def)
next
  case False
  then show ?thesis using p
    by (cases ev) (auto simp: serve_def life.message_handled dr harness_replaced posed_keeps_life split: sum.split)
qed

lemma history_one: "harnessed evs \<Longrightarrow> one_harness s \<Longrightarrow> one_harness (history evs s)"
  by (induction evs rule: rev_induct) (auto simp: served_one)

lemma started_one: "one_harness (started env version spec)"
  by (simp add: one_harness_def keyed_def harness_life_def)

text \<open>
  C3: Two harnesses never run on one conversation. Over every interleaving of set-ups with
  requests, ends and lost deliveries, the new harness is constructed only after the old one was
  retired, and started only once it was constructed; while a swap runs the session is reserved
  for it. An old harness that is not known to be gone ends the daemon instead.
\<close>

theorem no_second_harness:
  assumes "s = history evs (started env version spec)" and "harnessed evs"
  shows "harness_life s \<noteq> None \<and> (\<not> isDone s \<longrightarrow> harness_life s = Some (phase_life (ss_phase s))) \<and>
    (ss_swapping s \<longrightarrow> ss_controlBusy s = Some (js ''setup'')) \<and>
    (ss_phase s = Retiring su k \<longrightarrow>
      exited (harness_retired env' dr shutting False s) \<and> harness_life (harness_retired env' dr shutting False s) = Some Winding)"
proof -
  have p: "one_harness s" using history_one [OF assms(2) started_one] assms(1) by simp
  moreover have "exited (harness_retired env' dr shutting False s) \<and>
      harness_life (harness_retired env' dr shutting False s) = harness_life s" if "ss_phase s = Retiring su k"
    using that by (simp add: harness_retired_def abandonDaemon_def Let_def exited_def dropHeld_def forgetHeld_def)
      (simp add: log_defs dropHeld_def forgetHeld_def emits_def with_pusher_def)
  ultimately show ?thesis by (auto simp: one_harness_def)
qed

theorem no_second_harness_witness:
  "harness_life (history sample_history (started (sample_env []) [] [])) \<noteq> None"
  using no_second_harness [OF refl sample_harnessed] by blast

section \<open>Input waits for the new set-up\<close>

fun constructs :: "session_event \<Rightarrow> bool" where
  "constructs (Constructed shutting error) = True"
| "constructs ev = False"

lemma prompts_entry: "same_prompts ts s \<Longrightarrow> prompts (s\<lparr>ss_pending := ps\<rparr>) = ts"
    "same_prompts ts s \<Longrightarrow> prompts (s\<lparr>ss_parks := qs\<rparr>) = ts"
  by (simp_all add: same_prompts_def prompts_def)

lemma posed_prompts: "same_prompts ts s \<Longrightarrow> prompts (askPermission env tool input qs use reason s) = ts"
    "same_prompts ts s \<Longrightarrow> parkTurn env r s = Inr s1 \<Longrightarrow> prompts s1 = ts"
  by (metis prompting.posed_permission prompts_entry(1)) (metis prompting.posed_park prompts_entry(2))


lemma queue_effects:
  assumes "settled_harness dr"
  shows "ss_effects (fst (queueMessage env dr t s)) = ss_effects s @ [Prompt t]"
    "ss_pendingContexts (fst (queueMessage env dr t s)) = ss_pendingContexts s"
    "ss_setup (fst (queueMessage env dr t s)) = ss_setup s" "ss_ending (fst (queueMessage env dr t s)) = ss_ending s"
  using driver_keeps_fields [OF harness.queue_keeps [OF settled_harness.axioms(1) [OF assms],
      where s = "eff (Prompt t) s" and env = env and t = t]]
  by (simp_all add: queueMessage_def)

lemma replay_prompts:
  assumes "settled_harness dr" and "\<And>t s. \<not> ss_ending s \<Longrightarrow> snd (dr_queueMessage dr env t s)" and "\<not> ss_ending s"
  shows "prompts (replay env dr items s) = prompts s @
    (case items of [] \<Rightarrow> [] | i # is \<Rightarrow> with_contexts (in_prompt i) (ss_pendingContexts s) # map in_prompt is)"
  using assms(3)
proof (induction items arbitrary: s)
  case (Cons item items)
  let ?t = "with_contexts (in_prompt item) (ss_pendingContexts s)"
  obtain s1 where q: "queueMessage env dr ?t s = (s1, True)"
    using assms(2) [of "eff (Prompt ?t) s" ?t] Cons.prems by (cases "queueMessage env dr ?t s") (auto simp: queueMessage_def)
  have s1: "prompts s1 = prompts s @ [?t]" "\<not> ss_ending s1"
    using queue_effects [OF assms(1), of env ?t s] q Cons.prems by (simp_all add: prompts_def)
  let ?s = "emitUserMessage env (heldMessage (in_visible item)) (s1\<lparr>ss_pendingContexts := []\<rparr>)"
  have "prompts ?s = prompts s1" by (simp add: prompts_def)
  moreover have "with_contexts u [] = u" for u by (simp add: with_contexts_def)
  ultimately show ?case using Cons.IH [of ?s] q s1 by (cases items) simp_all
qed simp

lemma swap_over_prompts:
  assumes "settled_harness dr" and "keyed s"
  shows "prompts (swap_over env dr s) = prompts s"
proof -
  have "same_prompts (prompts s)
      (s\<lparr>ss_swapping := False, ss_phase := No_swap, ss_controlBusy := control_release (js ''setup'') (ss_controlBusy s)\<rparr>)"
    using assms(2) by (simp add: same_prompts_def prompts_def keyed_def)
  from prompting.swapped_back [OF assms(1) this] show ?thesis by (simp add: same_prompts_def)
qed

text \<open>
  When the new harness is there the held messages reach it in the order they came, each once,
  the first with the operator's pending shell context.
\<close>

theorem held_input_replayed:
  assumes "settled_harness dr" and "\<And>t s. \<not> ss_ending s \<Longrightarrow> snd (dr_queueMessage dr env t s)" and "keyed s"
    and "ss_phase s = Constructing su spec r" and "\<not> ss_ending s" and "ss_setup s = None"
  shows "prompts (harness_constructed env dr False None s) = prompts s @
    (case ss_held s of [] \<Rightarrow> [] | i # is \<Rightarrow> with_contexts (in_prompt i) (ss_pendingContexts s) # map in_prompt is)"
proof -
  define s2 where "s2 = emits env (js ''session.setup_applied'')
      [(js ''setup_id'', JStr (su_id su)), (js ''instructions_scope'', JStr (str_or [] (jprop spec (js ''instructions_scope'')))),
       (js ''resumed_from'', r)] ((eff Start_harness (s\<lparr>ss_spec := spec\<rparr>))\<lparr>ss_appliedSetupId := Some (su_id su)\<rparr>)"
  have s2: "ss_setup s2 = None" "prompts s2 = prompts s" "ss_held s2 = ss_held s" "ss_pendingContexts s2 = ss_pendingContexts s"
      "keyed s2" "\<not> ss_ending s2" using assms(3,5,6) by (simp_all add: s2_def log_defs keyed_def)
  have "keyed (replayHeld env dr s2)"
    using calm.replayed_held [OF assms(1), of s2 s2] s2(5) by (simp add: calm_def)
  then have "prompts (swap_over env dr (replayHeld env dr s2)) = prompts (replayHeld env dr s2)"
    by (rule swap_over_prompts [OF assms(1)])
  moreover have "harness_constructed env dr False None s = swap_over env dr (replayHeld env dr s2)"
    using assms(4-6) by (simp add: harness_constructed_def Let_def s2_def)
  moreover have "prompts (s2\<lparr>ss_held := []\<rparr>) = prompts s2" by (simp add: prompts_def)
  ultimately show ?thesis
    using replay_prompts [OF assms(1,2), of "s2\<lparr>ss_held := []\<rparr>" "ss_held s2"] s2
    by (cases "ss_held s") (simp_all add: replayHeld_def)
qed

section \<open>Ending releases everything\<close>

lemma resolved_park:
  assumes "i \<in> fst ` set (ss_parks s)"
  shows "ss_parks (fst (resolvePark env i m t s)) = AList.delete i (ss_parks s)"
    "\<exists>t'. ss_effects (fst (resolvePark env i m t s)) = ss_effects s @ [Wake i t']"
    "ss_pending (fst (resolvePark env i m t s)) = ss_pending s" "ss_held (fst (resolvePark env i m t s)) = ss_held s"
proof -
  obtain p where "map_of (ss_parks s) i = Some p" using assms by (metis map_of_eq_None_iff not_None_eq)
  then show "ss_parks (fst (resolvePark env i m t s)) = AList.delete i (ss_parks s)"
    "\<exists>t'. ss_effects (fst (resolvePark env i m t s)) = ss_effects s @ [Wake i t']"
    "ss_pending (fst (resolvePark env i m t s)) = ss_pending s" "ss_held (fst (resolvePark env i m t s)) = ss_held s"
    by (simp_all add: resolvePark_def Let_def)
qed

lemma resolved_parks:
  assumes "distinct (map fst cs)" and "fst ` set cs \<subseteq> fst ` set (ss_parks s)"
  shows "ss_parks (resolve_parks env cs s) = fold (\<lambda>(i, _). AList.delete i) cs (ss_parks s) \<and>
    woken_ids (resolve_parks env cs s) = woken_ids s @ map fst cs \<and>
    decided_ids (resolve_parks env cs s) = decided_ids s \<and> ss_pending (resolve_parks env cs s) = ss_pending s"
  using assms
proof (induction cs arbitrary: s)
  case (Cons c cs)
  obtain i r t where c: "c = (i, r, t)" by (metis prod_cases3)
  let ?s = "fst (resolvePark env i r (Some t) s)"
  have i: "i \<in> fst ` set (ss_parks s)" using Cons.prems(2) c by simp
  have "fst ` set cs \<subseteq> fst ` set (ss_parks ?s)"
    using Cons.prems c delete_keys [of i "ss_parks s"] by (auto simp: resolved_park(1) [OF i] simp flip: set_map)
  then have "ss_parks (resolve_parks env cs ?s) = fold (\<lambda>(i, _). AList.delete i) cs (ss_parks ?s) \<and>
      woken_ids (resolve_parks env cs ?s) = woken_ids ?s @ map fst cs \<and>
      decided_ids (resolve_parks env cs ?s) = decided_ids ?s \<and> ss_pending (resolve_parks env cs ?s) = ss_pending ?s"
    using Cons.IH Cons.prems(1) by simp
  moreover obtain t' where "ss_effects ?s = ss_effects s @ [Wake i t']" using resolved_park(2) [OF i] by blast
  ultimately show ?case using resolved_park(1,3) [OF i, of env r "Some t"] c
    by (simp add: woken_ids_def decided_ids_def)
qed simp

lemma deleted_all: "fst ` set al \<subseteq> fst ` set ps \<Longrightarrow> fold (\<lambda>(i, _). AList.delete i) ps al = []"
  unfolding delete_all by (auto simp: filter_empty_conv subset_iff rev_image_eqI)

lemma end_kept:
  assumes "settled_harness dr"
  shows "driver_keeps s (dr_beginEnd dr env s)"
  by (rule harness.end_keeps [OF settled_harness.axioms(1) [OF assms]])

text \<open>
  C6: Ending a session releases everything that waits in it: every pending permission request
  is denied and every park woken, each once and in order, and nothing stays held, pending or
  parked, whatever its driver does.
\<close>

theorem end_releases_everything:
  assumes "settled_harness dr" and "keyed s" and "s' = handleEnd env dr s"
  shows "ss_pending s' = [] \<and> ss_parks s' = [] \<and> ss_held s' = [] \<and> ss_setup s' = None \<and>
    decided_ids s' = decided_ids s @ map fst (ss_pending s) \<and> woken_ids s' = woken_ids s @ map fst (ss_parks s)"
proof -
  define s1 where "s1 = cancelPendingPermissions env (js ''session ended'') (s\<lparr>ss_ending := True\<rparr>)"
  have s1: "ss_pending s1 = []" "ss_parks s1 = ss_parks s" "decided_ids s1 = decided_ids s @ map fst (ss_pending s)"
      "woken_ids s1 = woken_ids s"
    using deleted_all [of "ss_pending s" "ss_pending s"]
    by (simp_all add: s1_def cancelPendingPermissions_def cancel_permissions_effects decided_ids_def woken_ids_def
        split_def comp_def)
  define cs where "cs = parkCancellations (ss_parks s1) (js ''session ended'') None"
  have cs: "map fst cs = map fst (ss_parks s)"
    by (simp add: cs_def parkCancellations_def s1(2) split_def comp_def)
  then have keys: "fst ` set cs = fst ` set (ss_parks s)" by (metis set_map)
  define s2 where "s2 = resolve_parks env cs s1"
  have "distinct (map fst cs)" using cs assms(2) by (simp add: keyed_def)
  moreover have "fst ` set cs \<subseteq> fst ` set (ss_parks s1)" using keys s1(2) by simp
  ultimately have "ss_parks s2 = fold (\<lambda>(i, _). AList.delete i) cs (ss_parks s1) \<and>
      woken_ids s2 = woken_ids s1 @ map fst cs \<and> decided_ids s2 = decided_ids s1 \<and> ss_pending s2 = ss_pending s1"
    unfolding s2_def by (rule resolved_parks)
  then have s2: "ss_parks s2 = []" "ss_pending s2 = []" "decided_ids s2 = decided_ids s @ map fst (ss_pending s)"
      "woken_ids s2 = woken_ids s @ map fst (ss_parks s)"
    using s1 cs deleted_all [of "ss_parks s1" cs] keys by simp_all
  have s': "s' = respond 202 [(js ''ending'', JBool True)] (dr_beginEnd dr env (abandonSetup s2))"
    by (simp add: assms(3) handleEnd_def endSession_def cancelPendingParks_def s1_def s2_def cs_def)
  show ?thesis
    using driver_keeps_fields [OF end_kept [OF assms(1), where s = "abandonSetup s2" and env = env]] s2
    by (simp add: s' respond_def log_defs abandonSetup_def dropHeld_def forgetHeld_def stopSetupTimer_def)
qed

text \<open>A session whose set-up is swapping, with two messages held.\<close>

definition sample_swap :: session where
  "sample_swap = (started (sample_env []) [] [])
     \<lparr>ss_phase := Constructing sample_setup [] JNull, ss_swapping := True, ss_controlBusy := Some (js ''setup''),
      ss_pending := [(js ''r1'', \<lparr>pn_toolName = [], pn_input = JNull, pn_questions = None, pn_ts = 0\<rparr>)],
      ss_held := [\<lparr>in_prompt = js ''a'', in_visible = [], in_authorId = [], in_platform = False, in_messageId = []\<rparr>,
        \<lparr>in_prompt = js ''b'', in_visible = [], in_authorId = [], in_platform = False, in_messageId = []\<rparr>]\<rparr>"

lemma sample_swap_fields [simp]:
  "keyed sample_swap" "inputHeld sample_swap" "\<not> ss_ending sample_swap" "ss_setup sample_swap = None"
  "ss_phase sample_swap = Constructing sample_setup [] JNull" "prompts sample_swap = []"
  "map in_prompt (ss_held sample_swap) = [js ''a'', js ''b'']" "ss_pendingContexts sample_swap = []"
  "map fst (ss_pending sample_swap) = [js ''r1'']" "decided_ids sample_swap = []"
  by (simp_all add: sample_swap_def keyed_def inputHeld_def started_def startSession_finish_def emitStarted_def Let_def
      new_session_def prompts_def decided_ids_def)


theorem held_input_replayed_witness:
  "prompts (harness_constructed (sample_env []) pendingSeedDriver False None sample_swap) = [js ''a'', js ''b'']"
  using held_input_replayed [OF stub.settled_harness_axioms, of "sample_env []" sample_swap sample_setup "[]" JNull]
  by (cases "ss_held sample_swap")
    (auto simp: with_contexts_def pendingSeedDriver_def seed_queueMessage_def dest: arg_cong [where f = "map in_prompt"])

theorem end_releases_everything_witness:
  "ss_pending (handleEnd (sample_env []) pendingSeedDriver sample_swap) = [] \<and>
   decided_ids (handleEnd (sample_env []) pendingSeedDriver sample_swap) = [js ''r1'']"
  using end_releases_everything [OF stub.settled_harness_axioms _ refl, of sample_swap "sample_env []"] by simp

end
