(* ===== verification/DaemonLaws.thy ===== *)
theory DaemonLaws
  imports SessionLaws
begin

text \<open>
  The daemon: one session at a time over every interleaving of creates, session events, the
  seed wait and the shutdown; the deferred start; and what a request needs to reach a route.
\<close>

section \<open>Steps of the daemon\<close>

inductive daemon_step :: "daemon \<Rightarrow> daemon \<Rightarrow> bool" where
  asked: "handleCreate_start protocol body d = (d', r) \<Longrightarrow> daemon_step d d'"
| activating: "dm_creating d \<Longrightarrow> daemon_step d (create_activate spec d)"
| activated: "dm_creating d \<Longrightarrow> create_activated env version parse enc uuid im got seed spec d = (d', r) \<Longrightarrow> daemon_step d d'"
| constructed: "dm_creating d \<Longrightarrow> create_constructed env version error (new_session spec) d = (d', r) \<Longrightarrow> daemon_step d d'"
| served: "settled_harness dr \<Longrightarrow> daemon_step d (on_session (serve (env, dr, ev)) d)"
| waited: "daemon_step d (on_session (\<lambda>s. fst (deferred_waited env st s)) d)"
| deferred: "settled_harness dr \<Longrightarrow> daemon_step d (on_session (deferred_constructed env dr error) d)"
| stopping: "settled_harness dr \<Longrightarrow> daemon_step d (shutdown_begin env dr d)"

inductive_cases daemon_stepE: "daemon_step d d'"

inductive daemon_reachable :: "daemon \<Rightarrow> bool" where
  fresh: "dm_session d = None \<Longrightarrow> \<not> dm_creating d \<Longrightarrow> daemon_reachable d"
| step: "daemon_reachable d \<Longrightarrow> daemon_step d d' \<Longrightarrow> daemon_reachable d'"

definition daemon_ok :: "daemon \<Rightarrow> bool" where
  "daemon_ok d \<longleftrightarrow> (dm_creating d \<longrightarrow> \<not> live d) \<and> (\<forall>s. dm_session d = Some s \<longrightarrow> keyed s)"

text \<open>What an operation on the live session keeps: its id, its keys, and that it is over.\<close>

definition keeps_session :: "(session \<Rightarrow> session) \<Rightarrow> bool" where
  "keeps_session f \<longleftrightarrow> (\<forall>s. keyed s \<longrightarrow> stays_done (ss_id s) (isDone s) (f s))"

lemma keeps_by:
  assumes "\<And>i b s. stays_done i b s \<Longrightarrow> stays_done i b (f s)"
  shows "keeps_session f"
  unfolding keeps_session_def by (intro allI impI assms) (simp add: stays_done_def)

lemma keeps_session_ok:
  assumes "keeps_session f" and "daemon_ok d"
  shows "daemon_ok (on_session f d) \<and> map_option ss_id (dm_session (on_session f d)) = map_option ss_id (dm_session d)"
  using assms by (cases "dm_session d") (auto simp: daemon_ok_def on_session_def live_def keeps_session_def stays_done_def)

lemma stays_done_posed:
  "stays_done i b s \<Longrightarrow> stays_done i b (askPermission env tool input qs use reason s)"
  "stays_done i b s \<Longrightarrow> parkTurn env r s = Inr s1 \<Longrightarrow> stays_done i b s1"
proof -
  have entry: "stays_done i b s \<Longrightarrow> stays_done i b (s\<lparr>ss_pending := AList.update j p (ss_pending s)\<rparr>)"
    "stays_done i b s \<Longrightarrow> stays_done i b (s\<lparr>ss_parks := AList.update j q (ss_parks s)\<rparr>)" for s j p q
    by (auto simp: stays_done_def keyed_def isDone_def distinct_update)
  show "stays_done i b s \<Longrightarrow> stays_done i b (askPermission env tool input qs use reason s)"
    by (metis ending.posed_permission entry(1))
  show "stays_done i b s \<Longrightarrow> parkTurn env r s = Inr s1 \<Longrightarrow> stays_done i b s1"
    by (metis ending.posed_park entry(2))
qed

lemma keeps_served: "settled_harness dr \<Longrightarrow> keeps_session (serve (env, dr, ev))"
proof -
  assume dr: "settled_harness dr"
  have "stays_done i b (serve (env, dr, ev) s)" if p: "stays_done i b s" for i b s
  proof (cases "poses ev")
    case False
    then show ?thesis by (rule ending.unposed [OF dr p])
  next
    case True
    then show ?thesis using p stays_done_posed [OF p]
      by (cases ev) (auto simp: serve_def split: sum.split)
  qed
  then show ?thesis by (rule keeps_by)
qed

lemma keeps_others:
  "keeps_session (\<lambda>s. fst (deferred_waited env st s))"
  "settled_harness dr \<Longrightarrow> keeps_session (deferred_constructed env dr error)"
  "settled_harness dr \<Longrightarrow> keeps_session (\<lambda>s. if isDone s then s else dr_shutdownStop dr env
     (cancelPendingParks env m None (cancelPendingPermissions env m s)))"
  by (auto intro!: keeps_by ending.deferred_waited ending.deferred_built ending.stopped_now ending.parks_cancelled
      ending.permissions_cancelled)

lemma daemon_step_ok:
  assumes "daemon_step d d'" and ok: "daemon_ok d"
  shows "daemon_ok d' \<and> (live d \<longrightarrow> map_option ss_id (dm_session d') = map_option ss_id (dm_session d))"
  using assms(1)
proof (cases rule: daemon_step.cases)
  case (asked protocol body r)
  then show ?thesis using ok
    by (auto simp: handleCreate_start_def daemon_ok_def live_def split: option.splits if_splits)
next
  case (activating spec)
  then show ?thesis using ok by (auto simp: create_activate_def daemon_ok_def live_def)
next
  case (activated env version parse enc uuid im got seed spec r)
  have "keyed (new_session sp)" for sp by (simp add: keyed_def new_session_def)
  then have start: "startSession env version seed sp = Start_deferred s \<Longrightarrow> keyed s" for sp s
    by (auto simp: startSession_def emitStarted_def Let_def keyed_def split: seed_state.splits)
  show ?thesis using activated ok start
    by (auto simp: create_activated_def create_failed_def create_done_def Let_def daemon_ok_def live_def
        split: option.splits prod.splits sum.splits start_step.splits if_splits)
next
  case (constructed env version error spec r)
  then show ?thesis using ok
    by (auto simp: create_constructed_def create_failed_def create_done_def startSession_finish_def emitStarted_def Let_def
        daemon_ok_def live_def keyed_def new_session_def split: option.splits prod.splits)
next
  case (stopping dr env)
  have "daemon_ok (d\<lparr>dm_shuttingDown := True\<rparr>)" using ok by (simp add: daemon_ok_def live_def)
  with stopping keeps_session_ok [OF keeps_others(3) [OF stopping(2)]] ok show ?thesis
    by (auto simp: shutdown_begin_def)
qed (use ok in \<open>auto dest: keeps_session_ok [OF keeps_served] keeps_session_ok [OF keeps_others(1)]
      keeps_session_ok [OF keeps_others(2)]\<close>)

lemma daemon_reachable_ok: "daemon_reachable d \<Longrightarrow> daemon_ok d"
  by (induction rule: daemon_reachable.induct) (auto simp: daemon_step_ok, auto simp: daemon_ok_def)

text \<open>
  C5: One session at a time. Over every interleaving of create requests, their awaited steps,
  session events, the seed wait and the shutdown, no create is in flight while a session is
  live, and no step puts another session in the place of a live one.
\<close>

theorem live_session_never_displaced:
  assumes "daemon_reachable d" and "daemon_step d d'" and "live d"
  shows "map_option ss_id (dm_session d') = map_option ss_id (dm_session d) \<and> \<not> dm_creating d"
  using daemon_step_ok [OF assms(2) daemon_reachable_ok [OF assms(1)]] daemon_reachable_ok [OF assms(1)] assms(3)
  by (auto simp: daemon_ok_def)

definition sample_daemon :: daemon where
  "sample_daemon = \<lparr>dm_session = None, dm_creating = False, dm_shuttingDown = False,
     dm_broker = new_broker (js ''https://p'') (js ''http://127.0.0.1:7'') 0, dm_draining = []\<rparr>"

definition sample_create :: json_obj where
  "sample_create = [(js ''session_id'', JStr (js ''s1'')), (js ''callback_url'', JStr (js ''https://p/cb''))]"

lemma sample_created:
  "\<exists>d r. create_activated (sample_env []) (js ''1'') (\<lambda>_. None) id (js ''u'') \<lparr>im_servers = [], im_escalate = []\<rparr> None Seeding
     sample_create (create_activate sample_create (sample_daemon\<lparr>dm_creating := True\<rparr>)) = (d, r) \<and> live d"
  by (simp add: create_activated_def activate_finish_def create_activate_def activate_start_def sample_daemon_def
      sample_create_def new_broker_def Let_def withImageServers_def startSession_def create_done_def live_def
      emitStarted_def isDone_def new_session_def)

lemma sample_live: "\<exists>d. daemon_reachable d \<and> live d"
proof -
  have "handleCreate_start (\<lambda>_. Some (js ''https:'')) (JObj sample_create) sample_daemon =
      (sample_daemon\<lparr>dm_creating := True\<rparr>, Create_activating sample_create)"
    by (simp add: handleCreate_start_def create_check_def sample_create_def sample_daemon_def live_def bad_mode_def Let_def
        mode_hosted_def)
  then have "daemon_reachable (sample_daemon\<lparr>dm_creating := True\<rparr>)"
    by (auto intro!: daemon_reachable.step [OF daemon_reachable.fresh, of sample_daemon] daemon_step.asked
        simp: sample_daemon_def)
  then have r: "daemon_reachable (create_activate sample_create (sample_daemon\<lparr>dm_creating := True\<rparr>))"
    by (rule daemon_reachable.step) (simp add: daemon_step.activating)
  obtain d r where d: "create_activated (sample_env []) (js ''1'') (\<lambda>_. None) id (js ''u'') \<lparr>im_servers = [], im_escalate = []\<rparr>
      None Seeding sample_create (create_activate sample_create (sample_daemon\<lparr>dm_creating := True\<rparr>)) = (d, r)" "live d"
    using sample_created by blast
  have "daemon_reachable d"
    by (rule daemon_reachable.step [OF r daemon_step.activated [OF _ d(1)]]) (simp add: create_activate_def)
  with d(2) show ?thesis by blast
qed

theorem live_session_never_displaced_witness:
  "\<exists>d. live d \<and> map_option ss_id (dm_session (shutdown_begin (sample_env []) pendingSeedDriver d)) = map_option ss_id (dm_session d)"
proof -
  obtain d where d: "daemon_reachable d" "live d" using sample_live by blast
  from live_session_never_displaced [OF d(1) daemon_step.stopping [OF stub.settled_harness_axioms] d(2)] d(2)
  show ?thesis by blast
qed

section \<open>The deferred start\<close>

lemma replayed_prompts:
  assumes "settled_harness dr"
  shows "prompts (replay_queued env dr ts s) = prompts s @ ts \<and>
    ss_deferred (replay_queued env dr ts s) = drop (length ts) (ss_deferred s)"
proof (induction ts arbitrary: s)
  case (Cons t ts)
  let ?s1 = "fst (queueMessage env dr t s)"
  have s1: "prompts ?s1 = prompts s @ [t]" using queue_effects(1) [OF assms, of env t s] by (simp add: prompts_def)
  have "driver_keeps (eff (Prompt t) s) ?s1"
    by (simp add: queueMessage_def harness.queue_keeps [OF settled_harness.axioms(1) [OF assms]])
  then have "ss_deferred ?s1 = ss_deferred s" by (auto simp: driver_keeps_def moves_def eff_def)
  then show ?case using Cons.IH s1
    by (cases "ss_deferred s") (simp_all add: Let_def prompts_def emitUserMessage_def emits_def with_pusher_def)
qed simp

text \<open>
  What was accepted while the home volume seeded is what the harness gets: when it is
  constructed, every queued prompt is handed to it in order, each once and after its start, and
  each consumed the visible message that was put aside for it. A session that ended meanwhile
  gets none.
\<close>

theorem deferred_prompts_replayed:
  assumes "settled_harness dr" and "s' = deferred_constructed env dr None s"
  shows "if isDone s then prompts s' = prompts s
    else prompts s' = prompts s @ ss_queued s \<and> ss_deferred s' = drop (length (ss_queued s)) (ss_deferred s)"
proof (cases "isDone s")
  case True
  then show ?thesis
    using driver_keeps_fields(9) [OF harness.stop_keeps [OF settled_harness.axioms(1) [OF assms(1)], where s = s and env = env]]
    by (simp add: assms(2) deferred_constructed_def prompts_def)
next
  case False
  let ?s1 = "eff Start_harness (setState env Idle [] s)"
  have "ss_deferred (setState env Idle [] s) = ss_deferred s" using moves_setState [of s env Idle "[]"] by (auto simp: moves_def)
  then have "ss_queued ?s1 = ss_queued s" "prompts (?s1\<lparr>ss_queued := []\<rparr>) = prompts s" "ss_deferred (?s1\<lparr>ss_queued := []\<rparr>) = ss_deferred s"
    by (simp_all add: prompts_def) (simp_all add: eff_def)
  with False replayed_prompts [OF assms(1), of env "ss_queued ?s1" "?s1\<lparr>ss_queued := []\<rparr>"] show ?thesis
    by (simp add: assms(2) deferred_constructed_def Let_def)
qed

theorem deferred_prompts_replayed_witness:
  "prompts (deferred_constructed (sample_env []) pendingSeedDriver None ((new_session [])\<lparr>ss_queued := [js ''a'', js ''b'']\<rparr>)) =
    [js ''a'', js ''b'']"
  using deferred_prompts_replayed [OF stub.settled_harness_axioms refl, of "(new_session [])\<lparr>ss_queued := [js ''a'', js ''b'']\<rparr>" "sample_env []"]
  by (simp add: new_session_def isDone_def prompts_def)

section \<open>What a request needs\<close>

lemma desktop_routes: "desktop_route desk verb path = Some r \<Longrightarrow> r \<in> {Desktop_status, No_desktop, Desktop_start, Desktop_control}"
  by (simp add: desktop_route_def split: if_splits)

lemma authorized_routes:
  assumes "authorized_route current desk verb path = r"
  shows "r \<noteq> Unauthorized_route \<and> (\<forall>name. r \<noteq> Platform_tool name) \<and>
    (\<forall>x. r = Session_route x \<longrightarrow> (\<exists>sid rest. current = Some sid \<and>
       path_parts path = js ''v1'' # js ''sessions'' # sid # rest \<and> session_action verb rest = Some x))"
proof (cases "desktop_route desk verb path")
  case None
  show ?thesis
  proof (cases "path_parts path")
    case (Cons v more)
    show ?thesis
    proof (cases more)
      case more: (Cons a rest)
      show ?thesis
        using assms unfolding authorized_route_def None Cons more option.case list.case
        by (cases rest; cases "session_action verb (tl rest)") (auto split: if_splits)
    qed (use assms None Cons in \<open>simp_all add: authorized_route_def split: if_splits\<close>)
  qed (use assms None in \<open>simp_all add: authorized_route_def split: if_splits\<close>)
next
  case (Some x)
  with desktop_routes [OF Some] assms show ?thesis
    unfolding authorized_route_def Some option.case by (auto split: if_splits)
qed



end
