(* ===== verification/Desktop.thy ===== *)
theory Desktop
  imports SessionStart
begin

text \<open>
  \<^verbatim>\<open>desktop.mjs\<close> and its routes: the image's desktop manifest, who holds its input, and its
  start. Control is a lease in a file that the image's tools read too; the file's content is
  the state. The relay of the VNC stream itself only moves bytes between sockets.
\<close>

section \<open>The manifest\<close>

record desktop =
  dk_start :: "jstring list"
  dk_vncPort :: int
  dk_controlFile :: jstring
  dk_width :: "int option"
  dk_height :: "int option"

fun dim :: "json \<Rightarrow> int option" where
  "dim (JInt v) = (if v > 0 then Some v else None)"
| "dim _ = None"

fun is_port :: "json \<Rightarrow> bool" where
  "is_port (JInt p) = (1 \<le> p \<and> p \<le> 65535)"
| "is_port _ = False"

fun int_of :: "json \<Rightarrow> int" where
  "int_of (JInt p) = p"
| "int_of _ = 0"

definition parseDesktopManifest :: "json \<Rightarrow> jstring + desktop" where
  "parseDesktopManifest m =
     (let start = jget m (js ''start''); file = jget m (js ''control_file'')
      in if \<not> is_obj m then Inl (js ''manifest must be a JSON object'')
         else if \<not> is_arr start \<or> arr_or_nil start = [] \<or> \<not> all_strings start \<or>
                 \<not> is_absolute (str_or [] (hd (arr_or_nil start)))
         then Inl (js ''start must be an argv array whose first element is an absolute path'')
         else if \<not> is_port (jget m (js ''vnc_port'')) then Inl (js ''vnc_port must be a TCP port'')
         else if \<not> is_str file \<or> \<not> is_absolute (str_or [] file) then Inl (js ''control_file must be an absolute path'')
         else Inr \<lparr>dk_start = strings_of (arr_or_nil start), dk_vncPort = int_of (jget m (js ''vnc_port'')),
                dk_controlFile = str_or [] file, dk_width = dim (jget m (js ''width'')), dk_height = dim (jget m (js ''height''))\<rparr>)"

text \<open>What the image's file reads as: nothing readable, no JSON, or a value.\<close>

definition loadDesktop :: "json option option \<Rightarrow> desktop option" where
  "loadDesktop file = (case file of
       Some (Some m) \<Rightarrow> (case parseDesktopManifest m of Inr d \<Rightarrow> Some d | Inl _ \<Rightarrow> None)
     | _ \<Rightarrow> None)"

section \<open>Who holds the input\<close>

definition CONTROL_LEASE_MS :: int where "CONTROL_LEASE_MS = 90000"
definition LEASE_SLACK_MS :: int where "LEASE_SLACK_MS = 5000"

datatype control = Agent_holds | User_holds json

text \<open>
  \<open>number_within s lo hi\<close>: \<^verbatim>\<open>Number(s)\<close> is a number above \<open>lo\<close> and at most \<open>hi\<close>, its exact
  decimal value taken before rounding to a double.
\<close>

definition above :: "int \<Rightarrow> int \<Rightarrow> int \<Rightarrow> bool" where
  "above m k n \<longleftrightarrow> (if k \<ge> 0 then n < m * 10 ^ nat k else n * 10 ^ nat (- k) < m)"

definition decimal_parts :: "jstring \<Rightarrow> (int \<times> int) option" where
  "decimal_parts s =
     (let (sg, t) = signed s;
          mant = takeWhile (\<lambda>u. u \<noteq> 0x65 \<and> u \<noteq> 0x45) t;
          rest = drop (length mant) t;
          ip = takeWhile (\<lambda>u. u \<noteq> 0x2E) mant;
          fp = drop (Suc (length ip)) mant;
          (esg, ed) = signed (tl rest);
          k = (if rest = [] then 0 else esg * int (dec_value ed)) - int (length fp)
      in if \<not> digits_or_empty ip \<or> \<not> digits_or_empty fp \<or> ip @ fp = [] \<or>
            rest \<noteq> [] \<and> (ed = [] \<or> \<not> digits_or_empty ed) then None
         else Some (sg * int (dec_value (ip @ fp)), k))"

definition decimal_within :: "jstring \<Rightarrow> int \<Rightarrow> int \<Rightarrow> bool" where
  "decimal_within s lo hi = (case decimal_parts s of
       None \<Rightarrow> False | Some (m, k) \<Rightarrow> above m k lo \<and> \<not> above m k hi)"

definition number_within :: "jstring \<Rightarrow> int \<Rightarrow> int \<Rightarrow> bool" where
  "number_within s lo hi =
     (let whole = (\<lambda>v. case v of None \<Rightarrow> False | Some n \<Rightarrow> lo < n \<and> n \<le> hi); t = trim s
      in if t = [] then lo < 0 \<and> 0 \<le> hi
         else if hd t = 0x30 \<and> length t > 1 \<and> t ! 1 \<in> {0x78, 0x58} then whole (radix_literal 16 (drop 2 t))
         else if hd t = 0x30 \<and> length t > 1 \<and> t ! 1 \<in> {0x6F, 0x4F} then whole (radix_literal 8 (drop 2 t))
         else if hd t = 0x30 \<and> length t > 1 \<and> t ! 1 \<in> {0x62, 0x42} then whole (radix_literal 2 (drop 2 t))
         else decimal_within t lo hi)"

definition parseControl :: "jstring \<Rightarrow> int \<Rightarrow> control" where
  "parseControl t now =
     (case split_spaces (trim t) of
        holder # expiry # rest \<Rightarrow>
          if holder = js ''user'' \<and> number_within expiry now (now + CONTROL_LEASE_MS + LEASE_SLACK_MS)
          then User_holds (JStr (case rest of [] \<Rightarrow> [] | u # _ \<Rightarrow> u)) else Agent_holds
      | _ \<Rightarrow> Agent_holds)"

text \<open>\<open>None\<close> is a file that cannot be read.\<close>

definition readControl :: "jstring option \<Rightarrow> int \<Rightarrow> control" where
  "readControl file now = (case file of None \<Rightarrow> Agent_holds | Some t \<Rightarrow> parseControl t now)"

definition is_user_id :: "jstring \<Rightarrow> bool" where
  "is_user_id s \<longleftrightarrow> 1 \<le> length s \<and> length s \<le> 128 \<and> list_all (\<lambda>u. is_alnum u \<or> u = 0x5F \<or> u = 0x2D) s"

definition lease_text :: "int \<Rightarrow> jstring \<Rightarrow> jstring" where
  "lease_text now u = js ''user '' @ int_text (now + CONTROL_LEASE_MS) @ js '' '' @ u @ [10]"

text \<open>
  A change is asked for by the fields of a request; \<open>write_fails\<close> is the error of the write, if
  it fails. The queue of \<^verbatim>\<open>writeControl\<close> lets one change read, check and write before the next.
\<close>

definition write_file :: "jstring option \<Rightarrow> jstring \<Rightarrow> control \<Rightarrow> jstring option \<Rightarrow> (http_error + control) \<times> jstring option" where
  "write_file write_fails content c file = (case write_fails of
       Some m \<Rightarrow> (Inl (http_err 500 m), file)
     | None \<Rightarrow> (Inr c, Some content))"

definition writeControlNow ::
    "jstring option \<Rightarrow> json \<Rightarrow> json \<Rightarrow> bool \<Rightarrow> int \<Rightarrow> jstring option \<Rightarrow> (http_error + control) \<times> jstring option" where
  "writeControlNow write_fails holder user_id renew now file =
     (let user = (if user_id = JUndef then JStr [] else user_id); current = readControl file now
      in if holder \<noteq> JStr (js ''user'') \<and> holder \<noteq> JStr (js ''agent'')
         then (Inl (bad_request (js ''holder must be '' @ [0x27] @ js ''user'' @ [0x27] @ js '' or '' @ [0x27] @ js ''agent'' @ [0x27])), file)
         else if holder = JStr (js ''user'') \<and> \<not> is_user_id (js_String user)
         then (Inl (bad_request (js ''user_id is required to take control'')), file)
         else if holder = JStr (js ''user'')
         then (if renew \<and> current \<noteq> User_holds user then (Inr current, file)
               else if \<not> renew \<and> current \<noteq> Agent_holds \<and> current \<noteq> User_holds user
               then (Inl (http_err 409 (js ''another person has control of the desktop'')), file)
               else write_file write_fails (lease_text now (js_String user)) (User_holds user) file)
         else write_file write_fails (js ''agent'' @ [10]) Agent_holds file)"

section \<open>Status, start and routes\<close>

definition held_by :: "control \<Rightarrow> json" where
  "held_by c = (case c of Agent_holds \<Rightarrow> JStr [] | User_holds u \<Rightarrow> u)"

definition holder_text :: "control \<Rightarrow> jstring" where
  "holder_text c = (case c of Agent_holds \<Rightarrow> js ''agent'' | User_holds u \<Rightarrow> js ''user'')"

definition control_user :: "control \<Rightarrow> json_obj" where
  "control_user c = (if truthy (held_by c) then [(js ''control_user_id'', held_by c)] else [])"

definition dim_field :: "jstring \<Rightarrow> int option \<Rightarrow> json_obj" where
  "dim_field k d = (case d of None \<Rightarrow> [] | Some v \<Rightarrow> [(k, JInt v)])"

definition desktopStatus :: "desktop option \<Rightarrow> jstring option \<Rightarrow> bool \<Rightarrow> int \<Rightarrow> json_obj" where
  "desktopStatus desktop file listening now = (case desktop of
       None \<Rightarrow> [(js ''available'', JBool False), (js ''running'', JBool False), (js ''control'', JStr (js ''agent''))]
     | Some d \<Rightarrow> (let c = readControl file now
         in [(js ''available'', JBool True), (js ''running'', JBool listening), (js ''control'', JStr (holder_text c))] @
            control_user c @ dim_field (js ''width'') (dk_width d) @ dim_field (js ''height'') (dk_height d)))"

text \<open>How the start command ended, then the probes of the port, each with the time after it.\<close>

datatype start_outcome = Start_exited json jstring | Start_timed_out | Start_error jstring

fun await_port :: "int \<Rightarrow> (bool \<times> int) list \<Rightarrow> (jstring + unit) option" where
  "await_port deadline [] = None"
| "await_port deadline ((listening, now) # probes) =
     (if listening then Some (Inr ())
      else if now > deadline then Some (Inl (js ''desktop started but its VNC server is not listening''))
      else await_port deadline probes)"

definition startDesktop :: "start_outcome \<Rightarrow> int \<Rightarrow> (bool \<times> int) list \<Rightarrow> (jstring + unit) option" where
  "startDesktop child now probes = (case child of
       Start_error m \<Rightarrow> Some (Inl m)
     | Start_timed_out \<Rightarrow> Some (Inl (js ''desktop start timed out''))
     | Start_exited code stderr \<Rightarrow>
         if code = JInt 0 then await_port (now + 5000) probes
         else Some (Inl (js ''desktop start exited '' @ js_String code @ js '': '' @ trim stderr)))"

definition start_reply :: "jstring + unit \<Rightarrow> nat \<times> json_obj" where
  "start_reply r = (case r of
       Inl m \<Rightarrow> (502, [(js ''error'', JStr m)])
     | Inr _ \<Rightarrow> (200, [(js ''running'', JBool True)]))"

definition NO_DESKTOP :: "json_obj" where
  "NO_DESKTOP = [(js ''error'', JStr (js ''this workspace image has no desktop''))]"

text \<open>The \<^verbatim>\<open>PUT /desktop/control\<close> handler, on the body it read.\<close>

definition control_request ::
    "desktop option \<Rightarrow> jstring option \<Rightarrow> json \<Rightarrow> int \<Rightarrow> jstring option \<Rightarrow> (http_error + nat \<times> json_obj) \<times> jstring option" where
  "control_request desktop write_fails body now file = (case desktop of
       None \<Rightarrow> (Inr (409, NO_DESKTOP), file)
     | Some d \<Rightarrow>
         (case writeControlNow write_fails (jget body (js ''holder'')) (jget body (js ''user_id''))
             (jget body (js ''renew'') = JBool True) now file of
            (Inl e, f) \<Rightarrow> (Inl e, f)
          | (Inr c, f) \<Rightarrow> (Inr (200, (js ''control'', JStr (holder_text c)) # control_user c), f)))"

text \<open>The upgrade handler: \<open>None\<close> lets the relay begin.\<close>

definition upgrade_refused ::
    "(jstring \<Rightarrow> nat list) \<Rightarrow> jstring \<Rightarrow> jstring \<Rightarrow> jstring \<Rightarrow> jstring \<Rightarrow> jstring \<Rightarrow> desktop option \<Rightarrow> (nat \<times> json_obj) option" where
  "upgrade_refused digest daemon_token authorization verb path upgrade desktop =
     (if \<not> tokenMatches digest daemon_token (bearer_token authorization)
      then Some (401, [(js ''error'', JStr (js ''unauthorized''))])
      else if verb \<noteq> js ''GET'' \<or> path \<noteq> js ''/desktop/vnc'' \<or> to_lower upgrade \<noteq> js ''zwrm-vnc''
      then Some (404, [(js ''error'', JStr (js ''not found''))])
      else case desktop of None \<Rightarrow> Some (409, NO_DESKTOP) | Some d \<Rightarrow> None)"

section \<open>A lease is read back, and lapses\<close>

lemma digit_not: "is_digit u \<Longrightarrow> u \<noteq> 0x2D \<and> u \<noteq> 0x2B \<and> u \<noteq> 0x2E \<and> u \<noteq> 0x65 \<and> u \<noteq> 0x45 \<and> u \<noteq> 0x78 \<and> u \<noteq> 0x58 \<and>
    u \<noteq> 0x6F \<and> u \<noteq> 0x4F \<and> u \<noteq> 0x62 \<and> u \<noteq> 0x42 \<and> \<not> is_space u"
  by (auto simp: is_digit_def is_space_def word_le_nat_alt)

lemma dec_plain: "u \<in> set (dec n) \<Longrightarrow> is_digit u"
  using dec_digits [of n] by (simp add: list_all_iff)

lemma signed_digits: "s \<noteq> [] \<Longrightarrow> is_digit (hd s) \<Longrightarrow> signed s = (1, s)"
  using digit_not by (cases s) (auto simp: signed_def)

lemma decimal_within_dec: "decimal_within (dec n) lo hi \<longleftrightarrow> lo < int n \<and> int n \<le> hi"
proof -
  have d: "is_digit (hd (dec n))" by (rule dec_plain [of _ n]) (simp add: hd_in_set)
  have sg: "signed (dec n) = (1, dec n)" by (rule signed_digits [OF dec_not_Nil d])
  have t: "takeWhile (\<lambda>u. u \<noteq> 0x65 \<and> u \<noteq> 0x45) (dec n) = dec n" "takeWhile (\<lambda>u. u \<noteq> 0x2E) (dec n) = dec n"
    by (auto simp: takeWhile_eq_all_conv dest!: dec_plain dest: digit_not)
  have dg: "digits_or_empty (dec n)" "digits_or_empty []" using dec_digits [of n] by (simp_all add: digits_or_empty_def)
  have "signed (tl []) = (1, [])" by (simp add: signed_def)
  then show ?thesis
    unfolding decimal_within_def decimal_parts_def sg prod.case Let_def t
    by (simp add: dg above_def dec_value_dec not_less)
qed

lemma number_within_dec: "number_within (dec n) lo hi \<longleftrightarrow> lo < int n \<and> int n \<le> hi"
proof -
  have t: "trim (dec n) = dec n" using dec_plain digit_not by (intro trim_no_space) blast
  have "length (dec n) > 1 \<Longrightarrow> is_digit (dec n ! 1)" by (rule dec_plain [of _ n]) simp
  then have "length (dec n) > 1 \<Longrightarrow> dec n ! 1 \<notin> {0x78, 0x58} \<and> dec n ! 1 \<notin> {0x6F, 0x4F} \<and> dec n ! 1 \<notin> {0x62, 0x42}"
    using digit_not by blast
  then show ?thesis by (auto simp: number_within_def t decimal_within_dec Let_def)
qed

lemma split_word: "list_all (\<lambda>u. \<not> is_space u) w \<Longrightarrow> split_spaces w = [w]"
  by (subst split_spaces.simps) (simp add: Let_def list_all_iff takeWhile_eq_all_conv dropWhile_eq_Nil_conv)

lemma split_words:
  assumes "list_all (\<lambda>u. \<not> is_space u) w" and "r \<noteq> []" and "\<not> is_space (hd r)"
  shows "split_spaces (w @ 0x20 # r) = w # split_spaces r"
proof -
  have sp: "is_space 0x20" by (simp add: is_space_def)
  have "takeWhile (\<lambda>u. \<not> is_space u) (w @ 0x20 # r) = w" "dropWhile (\<lambda>u. \<not> is_space u) (w @ 0x20 # r) = 0x20 # r"
    using assms(1) sp by (simp_all add: list_all_iff takeWhile_append2 dropWhile_append2)
  moreover have "dropWhile is_space (0x20 # r) = r" using assms(2,3) sp by (cases r) simp_all
  ultimately show ?thesis by (subst split_spaces.simps) (simp add: Let_def)
qed

lemma user_id_plain: "is_user_id u \<Longrightarrow> list_all (\<lambda>u. \<not> is_space u) u \<and> u \<noteq> []"
proof -
  have "is_alnum v \<or> v = 0x5F \<or> v = 0x2D \<Longrightarrow> \<not> is_space v" for v
    by (auto simp: is_alnum_def is_digit_def is_space_def word_le_nat_alt)
  moreover assume "is_user_id u"
  ultimately show ?thesis by (auto simp: is_user_id_def list_all_iff)
qed

lemma lease_read:
  assumes "is_user_id u" and "0 \<le> now"
  shows "readControl (Some (lease_text now u)) t =
    (if now - LEASE_SLACK_MS \<le> t \<and> t < now + CONTROL_LEASE_MS then User_holds (JStr u) else Agent_holds)"
proof -
  note u = user_id_plain [OF assms(1)]
  let ?d = "dec (nat (now + CONTROL_LEASE_MS))" and ?w = "js ''user''"
  let ?s = "?w @ 0x20 # ?d @ 0x20 # u"
  have n: "int_text (now + CONTROL_LEASE_MS) = ?d" using assms(2) by (simp add: int_text_def CONTROL_LEASE_MS_def)
  have sp: "js '' '' = [0x20]" "js ''user '' = ?w @ [0x20]" by (simp_all add: js_def)
  have w: "list_all (\<lambda>u. \<not> is_space u) ?w" "list_all (\<lambda>u. \<not> is_space u) ?d"
    using digit_not dec_plain by (auto simp: list_all_iff js_def is_space_def)
  have ends: "?s \<noteq> []" "\<not> is_space (hd ?s)" "\<not> is_space (last ?s)"
    using u by (auto simp: js_def is_space_def list_all_iff)
  have "dropWhile is_space (?s @ [10]) = ?s @ [10]" using ends(2) by (simp add: dropWhile_eq_self_iff)
  moreover have "dropWhile is_space (rev ?s) = rev ?s" using ends by (simp only: dropWhile_eq_self_iff hd_rev) simp
  moreover have "is_space 10" by (simp add: is_space_def)
  ultimately have tr: "trim (?s @ [10]) = ?s" by (simp add: trim_def)
  have content: "lease_text now u = ?s @ [10]" by (simp add: lease_text_def n sp)
  have "hd (?d @ 0x20 # u) = hd ?d" by simp
  then have "split_spaces (trim (lease_text now u)) = ?w # ?d # [u]"
    unfolding content tr using w u digit_not [OF dec_plain [OF hd_in_set]] dec_not_Nil
    by (simp add: split_words split_word list_all_iff)
  then show ?thesis
    using assms(2) by (auto simp: readControl_def parseControl_def number_within_dec CONTROL_LEASE_MS_def LEASE_SLACK_MS_def)
qed

lemma above_mono: "above m k n' \<Longrightarrow> n \<le> n' \<Longrightarrow> above m k n"
  using order.strict_trans1 [OF mult_right_mono [of n n' "10 ^ nat (- k)"], of m] by (cases "0 \<le> k") (simp_all add: above_def)

lemma within_later:
  assumes "number_within s lo hi" and "hi \<le> lo'"
  shows "\<not> number_within s lo' hi'"
proof -
  have "decimal_within t lo hi \<Longrightarrow> \<not> decimal_within t lo' hi'" for t
    using above_mono [OF _ assms(2)] by (auto simp: decimal_within_def split: option.splits)
  with assms show ?thesis by (auto simp: number_within_def Let_def split: option.splits if_splits)
qed

text \<open>
  No content of the control file keeps the agent from its input for longer than one lease:
  whatever it says, it names a member at two moments at most a lease and its slack apart.
\<close>

theorem lease_lapses:
  assumes "parseControl t now \<noteq> Agent_holds" and "now + CONTROL_LEASE_MS + LEASE_SLACK_MS \<le> later"
  shows "parseControl t later = Agent_holds"
  using assms within_later by (auto simp: parseControl_def split: list.splits if_splits)

lemma ann: "is_user_id (js ''ann'')"
  by (simp add: is_user_id_def js_def is_alnum_def is_digit_def)

theorem lease_lapses_witness:
  "parseControl (lease_text 1000 (js ''ann'')) 1000 = User_holds (JStr (js ''ann'')) \<and>
   parseControl (lease_text 1000 (js ''ann'')) 96000 = Agent_holds"
proof -
  have now: "parseControl (lease_text 1000 (js ''ann'')) 1000 = User_holds (JStr (js ''ann''))"
    using lease_read [OF ann, of 1000 1000] by (simp add: readControl_def CONTROL_LEASE_MS_def LEASE_SLACK_MS_def)
  then show ?thesis using lease_lapses [of "lease_text 1000 (js ''ann'')" 1000 96000]
    by (simp add: CONTROL_LEASE_MS_def LEASE_SLACK_MS_def)
qed



end
