(* ===== verification/JsRegex.thy ===== *)
theory JsRegex
  imports JsPrelude
begin

text \<open>
  The regular expressions the drivers classify errors with: literals, \<^verbatim>\<open>.\<close>, alternatives,
  sequences and repetitions, searched anywhere in a text and ignoring case.
\<close>

datatype re = Lit jstring | Dot | Cat re re | Or re re | Upto nat re | Many re

definition line_end :: "jchar \<Rightarrow> bool" where
  "line_end c \<longleftrightarrow> c \<in> {10, 13, 0x2028, 0x2029}"

text \<open>What is left after up to \<open>n\<close> matches.\<close>

primrec upto_left :: "(jstring \<Rightarrow> jstring list) \<Rightarrow> nat \<Rightarrow> jstring \<Rightarrow> jstring list" where
  "upto_left f 0 s = [s]"
| "upto_left f (Suc n) s = s # concat (map (upto_left f n) (f s))"

text \<open>
  What is left of a text after a match at its start, one entry per way to match. A repetition
  that matches more often than the text is long repeats an empty match.
\<close>

primrec left_after :: "re \<Rightarrow> jstring \<Rightarrow> jstring list" where
  "left_after (Lit p) s = (if starts_with s p then [drop (length p) s] else [])"
| "left_after Dot s = (case s of [] \<Rightarrow> [] | c # cs \<Rightarrow> if line_end c then [] else [cs])"
| "left_after (Cat a b) s = concat (map (left_after b) (left_after a s))"
| "left_after (Or a b) s = left_after a s @ left_after b s"
| "left_after (Upto n a) s = upto_left (left_after a) n s"
| "left_after (Many a) s = upto_left (left_after a) (length s) s"

text \<open>\<^verbatim>\<open>/re/i.test(s)\<close>, for an expression in lower case.\<close>

fun tails :: "'a list \<Rightarrow> 'a list list" where
  "tails [] = [[]]"
| "tails (x # xs) = (x # xs) # tails xs"

definition re_test :: "re \<Rightarrow> jstring \<Rightarrow> bool" where
  "re_test r s \<longleftrightarrow> (\<exists>t \<in> set (tails (to_lower s)). left_after r t \<noteq> [])"

definition word :: "string \<Rightarrow> re" where
  "word s = Lit (js s)"

fun seq :: "re list \<Rightarrow> re" where
  "seq [] = Lit []"
| "seq [r] = r"
| "seq (r # rs) = Cat r (seq rs)"

fun any_of :: "re \<Rightarrow> re list \<Rightarrow> re" where
  "any_of r [] = r"
| "any_of r (x # xs) = Or r (any_of x xs)"

text \<open>What is left is an end of the text.\<close>

lemma upto_left_suffix: "(\<And>s t. t \<in> set (f s) \<Longrightarrow> suffix t s) \<Longrightarrow> t \<in> set (upto_left f n s) \<Longrightarrow> suffix t s"
  by (induction n arbitrary: s) (auto intro: suffix_order.trans)

lemma left_after_suffix: "t \<in> set (left_after r s) \<Longrightarrow> suffix t s"
proof (induction r arbitrary: s t)
  case (Lit p)
  then show ?case by (auto simp: suffix_drop split: if_splits)
next
  case Dot
  then show ?case by (auto simp: suffix_def split: list.splits if_splits)
next
  case (Cat a b)
  from Cat.prems obtain x where "x \<in> set (left_after a s)" "t \<in> set (left_after b x)" by auto
  with Cat.IH show ?case by (blast intro: suffix_order.trans)
next
  case (Upto n a)
  then show ?case by (auto intro: upto_left_suffix)
next
  case (Many a)
  then show ?case by (auto intro: upto_left_suffix)
qed auto

lemma set_tails: "set (tails s) = {t. suffix t s}"
  by (induction s) (auto simp: suffix_Cons)

lemma re_test_word: "re_test (word p) s \<longleftrightarrow> (\<exists>a b. to_lower s = a @ js p @ b)"
  by (auto simp: re_test_def word_def set_tails suffix_def starts_with_prefix prefix_def)

lemma re_test_Or [simp]: "re_test (Or a b) s \<longleftrightarrow> re_test a s \<or> re_test b s"
  by (auto simp: re_test_def)

end
