(* ===== verification/CodexTranslate.thy ===== *)
theory CodexTranslate
  imports SessionState JsRegex
begin

text \<open>
  \<^verbatim>\<open>drivers/codex-translate.mjs\<close> and the naming and result rules of
  \<^verbatim>\<open>drivers/codex-tools.mjs\<close>: how codex items become the transcript every harness shares, under
  which names its tools run, and how its errors are told. Items come as codex's JSON; a list
  the protocol promises is taken as one.
\<close>

section \<open>Tool names and results\<close>

definition CODEX_TOOL_PREFIX :: jstring where "CODEX_TOOL_PREFIX = js ''zwrm__''"

definition codexToolName :: "jstring \<Rightarrow> jstring \<Rightarrow> jstring" where
  "codexToolName slug tool = CODEX_TOOL_PREFIX @ slug @ js ''__'' @ tool"

definition canonicalToolName :: "json \<Rightarrow> jstring" where
  "canonicalToolName wireName =
     (let name = string_or_empty wireName
      in if \<not> starts_with name CODEX_TOOL_PREFIX then name
         else js ''mcp__'' @ drop (length CODEX_TOOL_PREFIX) name)"

definition or_falsy :: "json \<Rightarrow> json \<Rightarrow> json" where
  "or_falsy a b = (if truthy a then a else b)"

definition codexToolSpec :: "jstring \<Rightarrow> json \<Rightarrow> json_obj" where
  "codexToolSpec slug tool =
     (let name = js_String (jget tool (js ''name''))
      in [(js ''type'', JStr (js ''function'')), (js ''name'', JStr (codexToolName slug name)),
          (js ''description'', or_falsy (jget tool (js ''description'')) (JStr (name @ js '' (via '' @ slug @ js '')''))),
          (js ''inputSchema'', or_falsy (jget tool (js ''inputSchema''))
             (JObj [(js ''type'', JStr (js ''object'')), (js ''properties'', JObj [])]))])"

definition input_text :: "jstring \<Rightarrow> json" where
  "input_text t = JObj [(js ''type'', JStr (js ''inputText'')), (js ''text'', JStr t)]"

definition toolCallResponse :: "json \<Rightarrow> bool \<Rightarrow> json_obj" where
  "toolCallResponse t success =
     [(js ''contentItems'', JArr [input_text (js_String (or_nullish t (JStr [])))]), (js ''success'', JBool success)]"

fun mcp_item :: "json \<Rightarrow> json list" where
  "mcp_item c =
     (if \<not> is_object_type c then []
      else if jget c (js ''type'') = JStr (js ''text'') \<and> is_str (jget c (js ''text''))
      then [JObj [(js ''type'', JStr (js ''inputText'')), (js ''text'', jget c (js ''text''))]]
      else if jget c (js ''type'') = JStr (js ''image'') \<and> is_str (jget c (js ''data''))
      then [JObj [(js ''type'', JStr (js ''inputImage'')),
              (js ''imageUrl'', JStr (js ''data:'' @ js_String (or_falsy (jget c (js ''mimeType'')) (JStr (js ''image/png''))) @
                 js '';base64,'' @ str_or [] (jget c (js ''data''))))]]
      else [])"

definition mcpResultToCodex :: "json \<Rightarrow> json_obj" where
  "mcpResultToCodex res =
     (let items = concat (map mcp_item (arr_or_nil (jget res (js ''content''))))
      in [(js ''contentItems'', JArr (if items = [] then [input_text []] else items)),
          (js ''success'', JBool (\<not> truthy (jget res (js ''isError''))))])"

definition lex_less :: "jstring \<Rightarrow> jstring \<Rightarrow> bool" where
  "lex_less a b \<longleftrightarrow> (a, b) \<in> lexord {(x, y). unat x < unat y}"

fun insert_sorted :: "jstring \<Rightarrow> jstring list \<Rightarrow> jstring list" where
  "insert_sorted x [] = [x]"
| "insert_sorted x (y # ys) = (if lex_less y x then y # insert_sorted x ys else x # y # ys)"

definition connectorFingerprint :: "json_obj \<Rightarrow> jstring" where
  "connectorFingerprint servers = join [0x2C] (foldr insert_sorted (map fst servers) [])"

section \<open>Items\<close>

definition item_type :: "json \<Rightarrow> jstring" where
  "item_type item = str_or [] (jget item (js ''type''))"

definition text_field :: "json \<Rightarrow> jstring \<Rightarrow> json" where
  "text_field item k = or_nullish (jget item k) (JStr [])"

definition initPayload :: "json \<Rightarrow> json \<Rightarrow> json_obj" where
  "initPayload threadId model =
     [(js ''type'', JStr (js ''system'')), (js ''subtype'', JStr (js ''init'')), (js ''session_id'', or_falsy threadId (JStr [])),
      (js ''model'', or_falsy model (JStr [])), (js ''harness'', JStr (js ''codex''))]"

definition toolNameFor :: "json \<Rightarrow> json" where
  "toolNameFor item =
     (let t = item_type item
      in if t = js ''commandExecution'' then JStr (js ''shell'')
         else if t = js ''fileChange'' then JStr (js ''apply_patch'')
         else if t = js ''mcpToolCall''
         then JStr (js ''mcp__'' @ js_String (text_field item (js ''server'')) @ js ''__'' @ js_String (text_field item (js ''tool'')))
         else if t = js ''dynamicToolCall'' then JStr (canonicalToolName (text_field item (js ''tool'')))
         else if t = js ''webSearch'' then JStr (js ''web_search'')
         else text_field item (js ''type''))"

definition toolInputFor :: "json \<Rightarrow> json" where
  "toolInputFor item =
     (let t = item_type item
      in if t = js ''commandExecution''
         then JObj [(js ''command'', text_field item (js ''command'')), (js ''cwd'', text_field item (js ''cwd''))]
         else if t = js ''fileChange''
         then JObj [(js ''changes'', JArr (map (\<lambda>c. JObj [(js ''path'', text_field c (js ''path'')), (js ''kind'', text_field c (js ''kind''))])
                (arr_or_nil (jget item (js ''changes'')))))]
         else if t = js ''mcpToolCall'' \<or> t = js ''dynamicToolCall'' then or_nullish (jget item (js ''arguments'')) (JObj [])
         else if t = js ''webSearch'' then JObj [(js ''query'', text_field item (js ''query''))]
         else JObj [])"

definition TOOL_ITEMS :: "jstring list" where
  "TOOL_ITEMS = [js ''commandExecution'', js ''fileChange'', js ''mcpToolCall'', js ''dynamicToolCall'', js ''webSearch'']"

definition isToolItem :: "json \<Rightarrow> bool" where
  "isToolItem item \<longleftrightarrow> item_type item \<in> set TOOL_ITEMS"

fun mcpContentText :: "json \<Rightarrow> jstring" where
  "mcpContentText (JStr s) = s"
| "mcpContentText (JArr cs) = join [10] (filter (\<lambda>t. t \<noteq> []) (map (\<lambda>c. str_or [] (jget c (js ''text''))) cs))"
| "mcpContentText _ = []"

text \<open>An exit code that is a number other than zero.\<close>

fun failed_exit :: "json \<Rightarrow> bool" where
  "failed_exit (JInt i) = (i \<noteq> 0)"
| "failed_exit (JFrac t) = True"
| "failed_exit _ = False"

definition toolResultText :: "json \<Rightarrow> json" where
  "toolResultText item =
     (let t = item_type item
      in if t = js ''commandExecution''
         then (let out = text_field item (js ''aggregatedOutput''); code = jget item (js ''exitCode'')
               in if failed_exit code then JStr (trim (js_String out @ [10] @ js ''(exit code '' @ js_String code @ js '')'')) else out)
         else if t = js ''fileChange''
         then JStr (join [10] (map (\<lambda>c. js_String (or_nullish (jget c (js ''kind'')) (JStr (js ''update''))) @ [0x20] @
                js_String (text_field c (js ''path''))) (arr_or_nil (jget item (js ''changes'')))))
         else if t = js ''mcpToolCall''
         then (if truthy (jget item (js ''error'')) then JStr (js_String (text_field (jget item (js ''error'')) (js ''message'')))
               else JStr (mcpContentText (jget (jget item (js ''result'')) (js ''content''))))
         else if t = js ''dynamicToolCall''
         then JStr (join [10] (map js_String (filter truthy (map (\<lambda>c. if jget c (js ''type'') = JStr (js ''inputText'')
                then text_field c (js ''text'') else JStr []) (arr_or_nil (jget item (js ''contentItems'')))))))
         else if t = js ''webSearch'' then text_field item (js ''query'')
         else JStr [])"

definition toolFailed :: "json \<Rightarrow> bool" where
  "toolFailed item =
     (let t = item_type item; st = jget item (js ''status'')
      in if t = js ''commandExecution''
         then st = JStr (js ''failed'') \<or> st = JStr (js ''declined'') \<or> failed_exit (jget item (js ''exitCode''))
         else if t = js ''fileChange'' then st = JStr (js ''failed'') \<or> st = JStr (js ''declined'')
         else if t = js ''mcpToolCall'' then st = JStr (js ''failed'') \<or> truthy (jget item (js ''error''))
         else if t = js ''dynamicToolCall'' then jget item (js ''success'') = JBool False
         else False)"

definition assistant :: "json list \<Rightarrow> json \<Rightarrow> json_obj" where
  "assistant blocks model =
     [(js ''type'', JStr (js ''assistant'')),
      (js ''message'', JObj [(js ''role'', JStr (js ''assistant'')), (js ''content'', JArr blocks), (js ''model'', or_falsy model (JStr []))])]"

definition toolUsePayload :: "json \<Rightarrow> json \<Rightarrow> json_obj" where
  "toolUsePayload item model =
     assistant [JObj [(js ''type'', JStr (js ''tool_use'')), (js ''id'', text_field item (js ''id'')),
       (js ''name'', toolNameFor item), (js ''input'', toolInputFor item)]] model"

definition toolResultPayload :: "json \<Rightarrow> json_obj" where
  "toolResultPayload item =
     [(js ''type'', JStr (js ''user'')),
      (js ''message'', JObj [(js ''role'', JStr (js ''user'')), (js ''content'', JArr [JObj (
         [(js ''type'', JStr (js ''tool_result'')), (js ''tool_use_id'', text_field item (js ''id'')),
          (js ''content'', toolResultText item)] @
         (if toolFailed item then [(js ''is_error'', JBool True)] else []))])])]"

definition reasoning_parts :: "json \<Rightarrow> json list" where
  "reasoning_parts item =
     (let summary = arr_or_nil (jget item (js ''summary''))
      in if summary \<noteq> [] then summary else arr_or_nil (jget item (js ''content'')))"

definition messagePayload :: "json \<Rightarrow> json \<Rightarrow> json_obj" where
  "messagePayload item model =
     assistant (if item_type item = js ''agentMessage''
       then [JObj [(js ''type'', JStr (js ''text'')), (js ''text'', text_field item (js ''text''))]]
       else if item_type item = js ''reasoning''
       then [JObj [(js ''type'', JStr (js ''thinking'')),
              (js ''thinking'', JStr (join [10] (filter (\<lambda>t. t \<noteq> []) (strings_of (reasoning_parts item)))))]]
       else []) model"

section \<open>Usage and results\<close>

definition usagePayload :: "json \<Rightarrow> json" where
  "usagePayload u =
     (if \<not> is_object_type u then JUndef
      else JObj [(js ''input_tokens'', or_nullish (jget u (js ''inputTokens'')) (JInt 0)),
        (js ''output_tokens'', or_nullish (jget u (js ''outputTokens'')) (JInt 0)),
        (js ''cache_read_input_tokens'', or_nullish (jget u (js ''cachedInputTokens'')) (JInt 0)),
        (js ''cache_creation_input_tokens'', JInt 0)])"

definition partialPayload :: "json \<Rightarrow> json_obj option" where
  "partialPayload params =
     (case jget params (js ''delta'') of
       JStr d \<Rightarrow> if d = [] then None
         else Some [(js ''type'', JStr (js ''stream_event'')),
           (js ''event'', JObj [(js ''type'', JStr (js ''content_block_delta'')),
              (js ''delta'', JObj [(js ''type'', JStr (js ''text_delta'')), (js ''text'', JStr d)])])]
     | _ \<Rightarrow> None)"

definition resultPayload :: "jstring \<Rightarrow> json \<Rightarrow> json \<Rightarrow> json \<Rightarrow> json \<Rightarrow> json_obj" where
  "resultPayload subtype result_text usage numTurns durationMS =
     [(js ''type'', JStr (js ''result'')), (js ''subtype'', JStr subtype), (js ''result'', result_text)] @
     (if subtype \<noteq> js ''success'' then [(js ''is_error'', JBool True)] else []) @
     [(js ''total_cost_usd'', JInt 0), (js ''num_turns'', numTurns), (js ''duration_ms'', durationMS)] @
     (if truthy usage then [(js ''usage'', usagePayload usage)] else [])"

section \<open>Errors\<close>

text \<open>What an error carries, and its \<^verbatim>\<open>String(err)\<close>.\<close>

record js_error =
  je_stack :: json
  je_message :: json
  je_name :: json
  je_code :: json
  je_data :: json
  je_info :: json
  je_string :: jstring

definition error_raw :: "js_error \<Rightarrow> jstring" where
  "error_raw e = (if truthy (je_stack e) then js_String (je_stack e)
     else if truthy (je_message e) then js_String (je_message e) else je_string e)"

definition error_short :: "js_error \<Rightarrow> jstring" where
  "error_short e = (if truthy (je_message e) then js_String (je_message e) else je_string e)"

record diagnosis =
  di_cause :: jstring
  di_message :: jstring
  di_detail :: jstring

fun codexErrorCode :: "json \<Rightarrow> jstring" where
  "codexErrorCode (JStr s) = s"
| "codexErrorCode (JObj ((k, v) # kvs)) = k"
| "codexErrorCode (JArr (x # xs)) = js ''0''"
| "codexErrorCode _ = []"

definition error_code :: "js_error \<Rightarrow> jstring" where
  "error_code e =
     (if codexErrorCode (je_info e) \<noteq> [] then codexErrorCode (je_info e)
      else if str_or [] (je_code e) \<noteq> [] then str_or [] (je_code e)
      else codexErrorCode (je_data e))"

definition gap80 :: re where "gap80 = Upto 80 Dot"
definition gap :: re where "gap = Many Dot"
definition opt_char :: re where "opt_char = Upto 1 Dot"

definition model_unavailable :: re where
  "model_unavailable = Or
     (seq [word ''model'', gap80, any_of (word ''not found'') [word ''does not exist'', word ''not available'', word ''access'']])
     (seq [word ''do not have access'', gap80, word ''model''])"

definition auth_error :: re where
  "auth_error = any_of (word ''401'') [word ''unauthorized'',
     seq [word ''invalid'', gap, word ''api'', gap, word ''key''], word ''authentication'']"

definition rate_error :: re where
  "rate_error = any_of (word ''429'') [seq [word ''rate'', opt_char, word ''limit''], word ''overloaded'']"

definition billing_error :: re where
  "billing_error = any_of (seq [word ''insufficient'', gap, any_of (word ''quota'') [word ''credit'']])
     [word ''billing'', word ''payment'']"

definition diagnose :: "string \<Rightarrow> jstring \<Rightarrow> js_error \<Rightarrow> diagnosis" where
  "diagnose cause message e = \<lparr>di_cause = js cause, di_message = message, di_detail = error_raw e\<rparr>"

definition classifyCodexError :: "js_error \<Rightarrow> diagnosis" where
  "classifyCodexError e =
     (let raw = error_raw e; code = error_code e
      in if re_test model_unavailable raw
         then diagnose ''error'' (js ''The selected OpenAI model is unavailable to this account '' @ [0x2014] @
                js '' check model access or choose another Codex model.'') e
         else if code = js ''unauthorized'' \<or> re_test auth_error raw
         then diagnose ''auth'' (js ''OpenAI authentication failed '' @ [0x2014] @ js '' check the agent'' @ [0x27] @
                js ''s OPENAI_API_KEY or OPENAI_CODEX_AUTH secret.'') e
         else if code = js ''usageLimitExceeded'' \<or> code = js ''serverOverloaded'' \<or> re_test rate_error raw
         then diagnose ''rate_limited'' (js ''The OpenAI API rate-limited or usage-limited the session. Retry shortly.'') e
         else if re_test billing_error raw
         then diagnose ''billing'' (js ''The OpenAI API rejected the request for billing reasons '' @ [0x2014] @
                js '' check the OpenAI account.'') e
         else if code = js ''contextWindowExceeded''
         then diagnose ''error'' (js ''The conversation exceeded the model'' @ [0x27] @ js ''s context window.'') e
         else if code = js ''processExit''
         then diagnose ''crashed'' (js ''The codex app-server exited unexpectedly.'') e
         else diagnose ''error'' (error_short e) e)"

section \<open>Effort and sandbox\<close>

definition CODEX_EFFORTS :: "jstring list" where
  "CODEX_EFFORTS = [js ''low'', js ''medium'', js ''high'', js ''xhigh'', js ''max'']"

definition mapEffort :: "json \<Rightarrow> json" where
  "mapEffort effort = (if effort \<in> JStr ` set CODEX_EFFORTS then effort else JUndef)"

definition approvalPolicyFor :: "json \<Rightarrow> jstring \<times> jstring" where
  "approvalPolicyFor mode =
     (if mode = JStr (js ''bypassPermissions'') then (js ''never'', js ''danger-full-access'')
      else (js ''on-request'', js ''workspace-write''))"

definition sandboxConfigFor :: "json \<Rightarrow> json_obj" where
  "sandboxConfigFor mode =
     (if mode = JStr (js ''bypassPermissions'') then []
      else [(js ''sandbox_workspace_write'', JObj [(js ''network_access'', JBool True)])])"

definition sandboxPolicyFor :: "json \<Rightarrow> json \<Rightarrow> json_obj" where
  "sandboxPolicyFor mode cwd =
     (if mode = JStr (js ''bypassPermissions'') then [(js ''type'', JStr (js ''dangerFullAccess''))]
      else [(js ''type'', JStr (js ''workspaceWrite'')), (js ''writableRoots'', JArr (if truthy cwd then [cwd] else [])),
            (js ''networkAccess'', JBool True), (js ''excludeTmpdirEnvVar'', JBool False), (js ''excludeSlashTmp'', JBool False)])"

section \<open>Names reach the gate\<close>

lemma canonical_codex: "canonicalToolName (JStr (codexToolName slug tool)) = js ''mcp__'' @ slug @ js ''__'' @ tool"
  by (simp add: canonicalToolName_def codexToolName_def CODEX_TOOL_PREFIX_def string_or_empty_def Let_def)

lemma codex_not_reserved: "\<not> starts_with (codexToolName slug tool) (js ''mcp__'')"
  by (simp add: codexToolName_def CODEX_TOOL_PREFIX_def starts_with_def js_Cons)

text \<open>
  A connector tool keeps its identity across the codex wire: the name codex is given is none
  codex reserves, and mapped back it is the platform's \<^verbatim>\<open>mcp__<slug>__<tool>\<close>, under which the
  transcript shows the call and the escalation gate stops it whenever its connector is on the
  policy.
\<close>

theorem codex_tools_escalate:
  assumes "wire = codexToolName slug tool" and "item_type item = js ''dynamicToolCall''" and "jget item (js ''tool'') = JStr wire"
  shows "\<not> starts_with wire (js ''mcp__'') \<and> canonicalToolName (JStr wire) = js ''mcp__'' @ slug @ js ''__'' @ tool \<and>
    toolNameFor item = JStr (js ''mcp__'' @ slug @ js ''__'' @ tool) \<and>
    (JStr slug \<in> set policy \<longrightarrow> isEscalatedTool (canonicalToolName (JStr wire)) (JArr policy))"
proof -
  have name: "toolNameFor item = JStr (js ''mcp__'' @ slug @ js ''__'' @ tool)"
    using assms(2,3) by (simp add: toolNameFor_def text_field_def or_nullish_def nullish_def assms(1) canonical_codex)
  have "starts_with (js ''mcp__'' @ slug @ js ''__'' @ tool) (js ''mcp__'' @ slug @ js ''__'')"
    using starts_with_append [of "js ''mcp__'' @ slug @ js ''__''" tool] by simp
  then have "JStr slug \<in> set policy \<Longrightarrow> isEscalatedTool (js ''mcp__'' @ slug @ js ''__'' @ tool) (JArr policy)"
    by (auto simp: isEscalatedTool_def Let_def intro!: bexI [of _ "JStr slug"])
  with name show ?thesis by (simp add: assms(1) codex_not_reserved canonical_codex)
qed

theorem codex_tools_escalate_witness:
  "isEscalatedTool (canonicalToolName (JStr (codexToolName (js ''gh'') (js ''open'')))) (JArr [JStr (js ''gh'')])"
  using codex_tools_escalate [OF refl, of "JObj [(js ''type'', JStr (js ''dynamicToolCall'')),
      (js ''tool'', JStr (codexToolName (js ''gh'') (js ''open'')))]" "js ''gh''" "js ''open''" "[JStr (js ''gh'')]"]
  by (simp add: item_type_def canonical_codex)

section \<open>The transcript\<close>

definition block_of :: "json_obj \<Rightarrow> json" where
  "block_of payload = (case jget (jprop payload (js ''message'')) (js ''content'') of JArr [b] \<Rightarrow> b | _ \<Rightarrow> JUndef)"

text \<open>
  The transcript of a codex item pairs up and never turns a denial into a success: the result
  carries the id its call was shown under, it is marked an error exactly when the item failed,
  and a declined or failed command or patch, a failed connector call and a dynamic call without
  success are failures.
\<close>

theorem codex_denial_is_error:
  assumes "use = block_of (toolUsePayload item model)" and "res = block_of (toolResultPayload item)"
  shows "jget res (js ''tool_use_id'') = jget use (js ''id'') \<and>
    (jget res (js ''is_error'') = (if toolFailed item then JBool True else JUndef)) \<and>
    (item_type item \<in> {js ''commandExecution'', js ''fileChange''} \<and> jget item (js ''status'') \<in> {JStr (js ''declined''), JStr (js ''failed'')} \<or>
     item_type item = js ''mcpToolCall'' \<and> (jget item (js ''status'') = JStr (js ''failed'') \<or> truthy (jget item (js ''error''))) \<or>
     item_type item = js ''dynamicToolCall'' \<and> jget item (js ''success'') = JBool False \<or>
     item_type item = js ''commandExecution'' \<and> failed_exit (jget item (js ''exitCode'')) \<longleftrightarrow> toolFailed item)"
proof -
  have ids: "jget res (js ''tool_use_id'') = jget use (js ''id'')"
    "jget res (js ''is_error'') = (if toolFailed item then JBool True else JUndef)"
    by (simp_all add: assms block_of_def toolUsePayload_def toolResultPayload_def assistant_def)
  have "toolFailed item \<longleftrightarrow>
     item_type item \<in> {js ''commandExecution'', js ''fileChange''} \<and> jget item (js ''status'') \<in> {JStr (js ''declined''), JStr (js ''failed'')} \<or>
     item_type item = js ''mcpToolCall'' \<and> (jget item (js ''status'') = JStr (js ''failed'') \<or> truthy (jget item (js ''error''))) \<or>
     item_type item = js ''dynamicToolCall'' \<and> jget item (js ''success'') = JBool False \<or>
     item_type item = js ''commandExecution'' \<and> failed_exit (jget item (js ''exitCode''))"
    by (auto simp: toolFailed_def Let_def)
  with ids show ?thesis by blast
qed

theorem codex_denial_is_error_witness:
  "jget (block_of (toolResultPayload (JObj [(js ''type'', JStr (js ''fileChange'')), (js ''id'', JStr (js ''i1'')),
     (js ''status'', JStr (js ''declined''))]))) (js ''is_error'') = JBool True"
  using codex_denial_is_error [OF refl refl, of "JObj [(js ''type'', JStr (js ''fileChange'')), (js ''id'', JStr (js ''i1'')),
     (js ''status'', JStr (js ''declined''))]"]
  by (simp add: toolFailed_def item_type_def)

end
