(* ===== verification/CodexRpc.thy ===== *)
theory CodexRpc
  imports CodexTranslate "HOL-Library.Multiset"
begin

text \<open>
  \<^verbatim>\<open>drivers/codex-rpc.mjs\<close>: the JSON-RPC client of the codex app-server. A request becomes
  pending until its answer, its timer or the end of the child settles it; the server's own
  requests wait for the driver's handler. What the client does outside is a log: the lines
  written (or lost, when the pipe takes none), the promises settled, the callbacks called.
  \<^verbatim>\<open>JSON.parse\<close> is an argument, and every write is told whether the pipe takes it.
\<close>

record rpc_error =
  re_message :: jstring
  re_code :: json
  re_data :: json

datatype rpc_out =
    Wrote json_obj
  | Lost json_obj
  | Settled nat "rpc_error + json"
  | Refused rpc_error
  | Notified jstring json
  | Served json jstring json
  | Reader_closed
  | Exit_told rpc_error
  | Stdin_ended
  | Child_killed jstring

record rpc =
  rp_nextId :: nat
  rp_pending :: "nat list"
  rp_timers :: "(nat \<times> jstring \<times> nat) list"
  rp_exited :: "(json \<times> json) option"
  rp_stderr :: "jstring list"
  rp_serving :: "json list"
  rp_out :: "rpc_out list"

definition new_rpc :: rpc where
  "new_rpc = \<lparr>rp_nextId = 1, rp_pending = [], rp_timers = [], rp_exited = None, rp_stderr = [],
     rp_serving = [], rp_out = []\<rparr>"

definition tell :: "rpc_out \<Rightarrow> rpc \<Rightarrow> rpc" where
  "tell e s = s\<lparr>rp_out := rp_out s @ [e]\<rparr>"

definition process_exit :: "jstring \<Rightarrow> json \<Rightarrow> rpc_error" where
  "process_exit m d = \<lparr>re_message = m, re_code = JStr (js ''processExit''), re_data = d\<rparr>"

definition settle :: "rpc_error + json \<Rightarrow> nat \<Rightarrow> rpc \<Rightarrow> rpc" where
  "settle r i s = tell (Settled i r)
     (s\<lparr>rp_pending := set_del i (rp_pending s), rp_timers := filter (\<lambda>t. fst t \<noteq> i) (rp_timers s)\<rparr>)"

section \<open>The child's output and its end\<close>

definition trim_end :: "jstring \<Rightarrow> jstring" where
  "trim_end s = rev (dropWhile is_space (rev s))"

definition STDERR_LINES :: nat where "STDERR_LINES = 20"

definition stderr_data :: "jstring \<Rightarrow> rpc \<Rightarrow> rpc" where
  "stderr_data d s =
     (let t = trim_end d; kept = rp_stderr s @ [t]
      in if t = [] then s
         else s\<lparr>rp_stderr := if length kept > STDERR_LINES then tl kept else kept\<rparr>)"

definition exit_detail :: "json \<Rightarrow> json \<Rightarrow> jstring option \<Rightarrow> jstring" where
  "exit_detail code signal err = (case err of
       Some m \<Rightarrow> m
     | None \<Rightarrow> js ''codex app-server exited ('' @
         (if truthy signal then js ''signal '' @ js_String signal else js ''code '' @ js_String code) @ js '')'')"

definition exit_error :: "json \<Rightarrow> json \<Rightarrow> jstring option \<Rightarrow> jstring list \<Rightarrow> rpc_error" where
  "exit_error code signal err lines =
     (let detail = exit_detail code signal err; tail = join [10] lines
      in process_exit (if tail \<noteq> [] then detail @ js '': '' @ tail else detail)
           (JObj [(js ''code'', code), (js ''signal'', signal)]))"

definition handleExit :: "json \<Rightarrow> json \<Rightarrow> jstring option \<Rightarrow> rpc \<Rightarrow> rpc" where
  "handleExit code signal err s =
     (if rp_exited s \<noteq> None then s
      else let e = exit_error code signal err (rp_stderr s);
               s1 = fold (settle (Inl e)) (rp_pending s) (s\<lparr>rp_exited := Some (code, signal)\<rparr>)
           in tell (Exit_told e) (tell Reader_closed s1))"

section \<open>Writing and answering\<close>

definition write_line :: "bool \<Rightarrow> json_obj \<Rightarrow> rpc \<Rightarrow> bool \<times> rpc" where
  "write_line takes obj s =
     (if rp_exited s \<noteq> None \<or> \<not> takes then (False, tell (Lost obj) s) else (True, tell (Wrote obj) s))"

definition serveRequest :: "json \<Rightarrow> jstring \<Rightarrow> json \<Rightarrow> rpc \<Rightarrow> rpc" where
  "serveRequest i meth params s = tell (Served i meth params) (s\<lparr>rp_serving := rp_serving s @ [i]\<rparr>)"

definition reply_body :: "json \<Rightarrow> js_error + json \<Rightarrow> json_obj" where
  "reply_body i outcome = (case outcome of
       Inl e \<Rightarrow> [(js ''id'', i), (js ''error'', JObj [(js ''code'', JInt (-32603)), (js ''message'', JStr (error_short e))])]
     | Inr v \<Rightarrow> [(js ''id'', i), (js ''result'', or_nullish v (JObj []))])"

definition serveRequest_finish :: "bool \<Rightarrow> json \<Rightarrow> js_error + json \<Rightarrow> rpc \<Rightarrow> rpc" where
  "serveRequest_finish takes i outcome s =
     (if i \<notin> set (rp_serving s) then s
      else snd (write_line takes (reply_body i outcome) (s\<lparr>rp_serving := remove1 i (rp_serving s)\<rparr>)))"

definition answer_of :: "json \<Rightarrow> rpc_error + json" where
  "answer_of msg =
     (let e = jget msg (js ''error'')
      in if truthy e
         then Inl \<lparr>re_message = js_String (or_falsy (jget e (js ''message'')) (JStr (js ''codex app-server error''))),
                   re_code = jget e (js ''code''), re_data = jget e (js ''data'')\<rparr>
         else Inr (jget msg (js ''result'')))"

fun pending_id :: "json \<Rightarrow> nat option" where
  "pending_id (JInt n) = (if 0 \<le> n then Some (nat n) else None)"
| "pending_id _ = None"

definition handleLine :: "(jstring \<Rightarrow> json option) \<Rightarrow> jstring \<Rightarrow> rpc \<Rightarrow> rpc" where
  "handleLine parse line s =
     (if trim line = [] then s
      else case parse (trim line) of
        None \<Rightarrow> s
      | Some msg \<Rightarrow>
          if \<not> is_object_type msg then s
          else if is_str (jget msg (js ''method''))
          then (let meth = str_or [] (jget msg (js ''method'')); i = jget msg (js ''id''); params = jget msg (js ''params'')
                in if nullish i then tell (Notified meth params) s else serveRequest i meth params s)
          else case pending_id (jget msg (js ''id'')) of
            None \<Rightarrow> s
          | Some i \<Rightarrow> if i \<in> set (rp_pending s) then settle (answer_of msg) i s else s)"

section \<open>Requests, notifications and the way out\<close>

definition request_body :: "nat \<Rightarrow> jstring \<Rightarrow> json \<Rightarrow> json_obj" where
  "request_body i meth params = [(js ''jsonrpc'', JStr (js ''2.0'')), (js ''id'', JInt (int i)),
     (js ''method'', JStr meth), (js ''params'', or_nullish params (JObj []))]"

definition request :: "bool \<Rightarrow> jstring \<Rightarrow> json \<Rightarrow> nat \<Rightarrow> rpc \<Rightarrow> rpc" where
  "request takes meth params timeoutMS s =
     (if rp_exited s \<noteq> None
      then tell (Refused (process_exit (js ''codex app-server is not running'') JUndef)) s
      else let i = rp_nextId s;
               (ok, s1) = write_line takes (request_body i meth params)
                 (s\<lparr>rp_nextId := i + 1, rp_pending := rp_pending s @ [i]\<rparr>)
           in if \<not> ok then settle (Inl (process_exit (js ''failed to write to codex app-server'') JUndef)) i s1
              else if timeoutMS \<noteq> 0 then s1\<lparr>rp_timers := rp_timers s1 @ [(i, meth, timeoutMS)]\<rparr>
              else s1)"

definition timeout_error :: "jstring \<Rightarrow> nat \<Rightarrow> rpc_error" where
  "timeout_error meth ms =
     \<lparr>re_message = js ''codex app-server did not answer '' @ meth @ js '' within '' @ dec ms @ js ''ms'',
      re_code = JStr (js ''timeout''), re_data = JUndef\<rparr>"

definition timer_fires :: "nat \<Rightarrow> rpc \<Rightarrow> rpc" where
  "timer_fires i s = (case map_of (rp_timers s) i of
       None \<Rightarrow> s
     | Some (meth, ms) \<Rightarrow>
         if i \<in> set (rp_pending s) then settle (Inl (timeout_error meth ms)) i s
         else s\<lparr>rp_timers := filter (\<lambda>t. fst t \<noteq> i) (rp_timers s)\<rparr>)"

definition notify :: "bool \<Rightarrow> jstring \<Rightarrow> json \<Rightarrow> rpc \<Rightarrow> rpc" where
  "notify takes meth params s = snd (write_line takes [(js ''jsonrpc'', JStr (js ''2.0'')),
     (js ''method'', JStr meth), (js ''params'', or_nullish params (JObj []))] s)"

definition close_rpc :: "rpc \<Rightarrow> rpc" where
  "close_rpc s = (if rp_exited s \<noteq> None then s else tell (Child_killed (js ''SIGTERM'')) (tell Stdin_ended s))"

definition kill_rpc :: "rpc \<Rightarrow> rpc" where
  "kill_rpc s = (if rp_exited s \<noteq> None then s else tell (Child_killed (js ''SIGKILL'')) s)"

text \<open>
  \<^verbatim>\<open>waitGone\<close> waits for the end of the child twice, with a kill between; \<open>Waited b\<close> is its
  answer. A wait hears of an exit at once, of its timer otherwise.
\<close>

datatype gone_wait = First_wait | Second_wait | Waited bool

definition waitGone :: "rpc \<Rightarrow> gone_wait" where
  "waitGone s = (if rp_exited s \<noteq> None then Waited True else First_wait)"

fun wait_exit :: "gone_wait \<Rightarrow> gone_wait" where
  "wait_exit (Waited b) = Waited b"
| "wait_exit _ = Waited True"

fun wait_timer :: "gone_wait \<times> rpc \<Rightarrow> gone_wait \<times> rpc" where
  "wait_timer (First_wait, s) = (Second_wait, tell (Child_killed (js ''SIGKILL'')) s)"
| "wait_timer (Second_wait, s) = (Waited False, s)"
| "wait_timer (Waited b, s) = (Waited b, s)"

section \<open>The client over time\<close>

datatype rpc_event =
    Ev_stderr jstring
  | Ev_exit json json "jstring option"
  | Ev_line jstring
  | Ev_answer bool json "js_error + json"
  | Ev_request bool jstring json nat
  | Ev_timer nat
  | Ev_notify bool jstring json
  | Ev_close
  | Ev_kill

fun rpc_step :: "(jstring \<Rightarrow> json option) \<Rightarrow> rpc_event \<Rightarrow> rpc \<Rightarrow> rpc" where
  "rpc_step parse (Ev_stderr d) = stderr_data d"
| "rpc_step parse (Ev_exit code signal err) = handleExit code signal err"
| "rpc_step parse (Ev_line l) = handleLine parse l"
| "rpc_step parse (Ev_answer takes i r) = serveRequest_finish takes i r"
| "rpc_step parse (Ev_request takes meth params ms) = request takes meth params ms"
| "rpc_step parse (Ev_timer i) = timer_fires i"
| "rpc_step parse (Ev_notify takes meth params) = notify takes meth params"
| "rpc_step parse Ev_close = close_rpc"
| "rpc_step parse Ev_kill = kill_rpc"

definition rpc_run :: "(jstring \<Rightarrow> json option) \<Rightarrow> rpc_event list \<Rightarrow> rpc" where
  "rpc_run parse evs = fold (rpc_step parse) evs new_rpc"

fun settled_ids :: "rpc_out list \<Rightarrow> nat list" where
  "settled_ids [] = []"
| "settled_ids (Settled i r # es) = i # settled_ids es"
| "settled_ids (_ # es) = settled_ids es"

fun served_ids :: "rpc_out list \<Rightarrow> json list" where
  "served_ids [] = []"
| "served_ids (Served i m p # es) = i # served_ids es"
| "served_ids (_ # es) = served_ids es"

definition reply_to :: "json_obj \<Rightarrow> json list" where
  "reply_to obj = (if jprop obj (js ''method'') = JUndef then [jprop obj (js ''id'')] else [])"

fun replied_ids :: "rpc_out list \<Rightarrow> json list" where
  "replied_ids [] = []"
| "replied_ids (Wrote obj # es) = reply_to obj @ replied_ids es"
| "replied_ids (Lost obj # es) = reply_to obj @ replied_ids es"
| "replied_ids (_ # es) = replied_ids es"

fun exits_told :: "rpc_out list \<Rightarrow> rpc_error list" where
  "exits_told [] = []"
| "exits_told (Exit_told e # es) = e # exits_told es"
| "exits_told (_ # es) = exits_told es"

lemma settled_append [simp]: "settled_ids (xs @ ys) = settled_ids xs @ settled_ids ys"
  by (induction xs rule: settled_ids.induct) simp_all

lemma served_append [simp]: "served_ids (xs @ ys) = served_ids xs @ served_ids ys"
  by (induction xs rule: served_ids.induct) simp_all

lemma replied_append [simp]: "replied_ids (xs @ ys) = replied_ids xs @ replied_ids ys"
  by (induction xs rule: replied_ids.induct) simp_all

lemma exits_append [simp]: "exits_told (xs @ ys) = exits_told xs @ exits_told ys"
  by (induction xs rule: exits_told.induct) simp_all

lemma settle_all:
  fixes s :: rpc
  defines "t xs r \<equiv> fold (settle r) xs s"
  shows "settled_ids (rp_out (t xs r)) = settled_ids (rp_out s) @ xs"
    and "rp_pending (t xs r) = filter (\<lambda>i. i \<notin> set xs) (rp_pending s)"
    and "rp_timers (t xs r) = filter (\<lambda>x. fst x \<notin> set xs) (rp_timers s)"
    and "served_ids (rp_out (t xs r)) = served_ids (rp_out s)"
    and "replied_ids (rp_out (t xs r)) = replied_ids (rp_out s)"
    and "exits_told (rp_out (t xs r)) = exits_told (rp_out s)"
    and "rp_nextId (t xs r) = rp_nextId s" and "rp_exited (t xs r) = rp_exited s"
    and "rp_serving (t xs r) = rp_serving s" and "rp_stderr (t xs r) = rp_stderr s"
  unfolding t_def
  by (induction xs rule: rev_induct) (simp_all add: settle_def tell_def set_del_def conj_commute)

definition accounted :: "rpc \<Rightarrow> bool" where
  "accounted s \<longleftrightarrow> distinct (settled_ids (rp_out s) @ rp_pending s) \<and>
     set (settled_ids (rp_out s) @ rp_pending s) = {1..<rp_nextId s} \<and> 1 \<le> rp_nextId s"

definition replies_owed :: "rpc \<Rightarrow> bool" where
  "replies_owed s \<longleftrightarrow> mset (served_ids (rp_out s)) = mset (replied_ids (rp_out s)) + mset (rp_serving s)"

definition exit_settled :: "rpc \<Rightarrow> bool" where
  "exit_settled s \<longleftrightarrow> (if rp_exited s = None then exits_told (rp_out s) = []
     else rp_pending s = [] \<and> length (exits_told (rp_out s)) = 1)"

definition timers_armed :: "rpc \<Rightarrow> bool" where
  "timers_armed s \<longleftrightarrow> list_all (\<lambda>t. fst t \<in> set (rp_pending s)) (rp_timers s)"

lemmas rpc_invs = accounted_def replies_owed_def exit_settled_def timers_armed_def

definition rpc_inv :: "rpc \<Rightarrow> bool" where
  "rpc_inv s \<longleftrightarrow> accounted s \<and> replies_owed s \<and> exit_settled s \<and> timers_armed s \<and> length (rp_stderr s) \<le> STDERR_LINES"

lemma inv_new: "rpc_inv new_rpc"
  by (simp add: rpc_inv_def rpc_invs new_rpc_def)

lemma inv_settle: "rpc_inv s \<Longrightarrow> i \<in> set (rp_pending s) \<Longrightarrow> rpc_inv (settle r i s)"
  by (auto simp: rpc_inv_def rpc_invs settle_def tell_def set_del_def list_all_iff split: if_splits)

lemma inv_tell:
  assumes "rpc_inv s" and "settled_ids [e] = []" and "served_ids [e] = []" and "replied_ids [e] = []" and "exits_told [e] = []"
  shows "rpc_inv (tell e s)"
  using assms by (simp add: rpc_inv_def rpc_invs tell_def)

lemma inv_exit: "rpc_inv s \<Longrightarrow> rpc_inv (handleExit code signal err s)"
  by (auto simp: handleExit_def Let_def rpc_inv_def rpc_invs tell_def settle_all list_all_iff)

lemma inv_stderr: "rpc_inv s \<Longrightarrow> rpc_inv (stderr_data d s)"
  by (auto simp: stderr_data_def Let_def rpc_inv_def rpc_invs STDERR_LINES_def)

lemma inv_serve: "rpc_inv s \<Longrightarrow> rpc_inv (serveRequest i meth params s)"
  by (auto simp: serveRequest_def rpc_inv_def rpc_invs tell_def)

lemma inv_line: "rpc_inv s \<Longrightarrow> rpc_inv (handleLine parse l s)"
  by (auto simp: handleLine_def Let_def inv_settle inv_tell inv_serve split: option.splits)

lemma reply_to_body: "reply_to (reply_body i r) = [i]"
  by (simp add: reply_to_def reply_body_def split: sum.splits)

lemma reply_to_request: "reply_to (request_body i m p) = []"
  by (simp add: reply_to_def request_body_def)

lemma inv_reply: "rpc_inv s \<Longrightarrow> rpc_inv (serveRequest_finish takes i r s)"
  by (auto simp: serveRequest_finish_def write_line_def rpc_inv_def rpc_invs tell_def reply_to_body)

lemma accounted_next:
  assumes "distinct (xs @ ys)" and "set (xs @ ys) = {1..<n}" and "1 \<le> n"
  shows "distinct (xs @ ys @ [n]) \<and> set (xs @ ys @ [n]) = {1..<Suc n}"
proof -
  have "n \<notin> set (xs @ ys)" unfolding assms(2) by simp
  moreover have "set (xs @ ys @ [n]) = insert n {1..<n}" using assms(2) by simp
  ultimately show ?thesis using assms(1,3) by (auto simp: atLeastLessThanSuc)
qed

lemma inv_asked:
  assumes "rpc_inv s" and "rp_exited s = None" and "e = Wrote (request_body i m p) \<or> e = Lost (request_body i m p)"
  shows "rpc_inv (tell e (s\<lparr>rp_nextId := Suc (rp_nextId s), rp_pending := rp_pending s @ [rp_nextId s]\<rparr>))"
proof -
  have "distinct (settled_ids (rp_out s) @ rp_pending s @ [rp_nextId s]) \<and>
      set (settled_ids (rp_out s) @ rp_pending s @ [rp_nextId s]) = {1..<Suc (rp_nextId s)}"
    using assms(1) by (intro accounted_next) (simp_all add: rpc_inv_def accounted_def)
  then show ?thesis using assms by (auto simp: rpc_inv_def rpc_invs tell_def reply_to_request list_all_iff)
qed

lemma inv_armed: "rpc_inv s \<Longrightarrow> fst t \<in> set (rp_pending s) \<Longrightarrow> rpc_inv (s\<lparr>rp_timers := rp_timers s @ [t]\<rparr>)"
  by (simp add: rpc_inv_def rpc_invs)

lemma inv_request: "rpc_inv s \<Longrightarrow> rpc_inv (request takes meth params ms s)"
proof (cases "rp_exited s = None")
  case True
  let ?s = "\<lambda>e. tell e (s\<lparr>rp_nextId := Suc (rp_nextId s), rp_pending := rp_pending s @ [rp_nextId s]\<rparr>)"
  assume "rpc_inv s"
  then have inv: "rpc_inv (?s (Wrote (request_body (rp_nextId s) meth params)))"
    "rpc_inv (?s (Lost (request_body (rp_nextId s) meth params)))"
    using True by (auto intro: inv_asked)
  moreover have "rp_nextId s \<in> set (rp_pending (?s e))" for e by (simp add: tell_def)
  ultimately show ?thesis
    using True by (auto simp: request_def write_line_def Let_def intro!: inv_settle inv_armed)
next
  case False
  assume "rpc_inv s"
  with False show ?thesis by (simp add: request_def inv_tell)
qed

lemma inv_timer: "rpc_inv s \<Longrightarrow> rpc_inv (timer_fires i s)"
  by (auto simp: timer_fires_def inv_settle split: option.splits) (auto simp: rpc_inv_def rpc_invs list_all_iff)

lemma inv_notify: "rpc_inv s \<Longrightarrow> rpc_inv (notify takes meth params s)"
  by (auto simp: notify_def write_line_def reply_to_def intro!: inv_tell)

lemma inv_ways_out: "rpc_inv s \<Longrightarrow> rpc_inv (close_rpc s)" "rpc_inv s \<Longrightarrow> rpc_inv (kill_rpc s)"
  by (auto simp: close_rpc_def kill_rpc_def intro!: inv_tell)

lemmas inv_ops = inv_exit inv_stderr inv_line inv_reply inv_request inv_timer inv_notify inv_ways_out

lemma inv_run: "rpc_inv (rpc_run parse evs)"
proof -
  have step: "rpc_inv s \<Longrightarrow> rpc_inv (rpc_step parse ev s)" for ev s by (cases ev) (simp_all add: inv_ops)
  have "rpc_inv s \<Longrightarrow> rpc_inv (fold (rpc_step parse) evs s)" for s by (induction evs arbitrary: s) (simp_all add: step)
  then show ?thesis by (simp add: rpc_run_def inv_new)
qed

text \<open>
  C25: Whatever the app-server prints, answers or fails to answer, and whenever it ends, every
  request of the driver settles at most once and stays pending until it does; the end of the
  child is told once and leaves none pending; a timer is armed only for a pending request.
  Each request of the server is answered once, or still with the driver's handler. The
  diagnosis kept from the standard error stays bounded.
\<close>

theorem codex_requests_settle_once:
  "let s = rpc_run parse evs
   in distinct (settled_ids (rp_out s) @ rp_pending s) \<and>
      set (settled_ids (rp_out s) @ rp_pending s) = {1..<rp_nextId s} \<and>
      (if rp_exited s = None then exits_told (rp_out s) = []
       else rp_pending s = [] \<and> length (exits_told (rp_out s)) = 1) \<and>
      list_all (\<lambda>t. fst t \<in> set (rp_pending s)) (rp_timers s) \<and>
      mset (served_ids (rp_out s)) = mset (replied_ids (rp_out s)) + mset (rp_serving s) \<and>
      length (rp_stderr s) \<le> STDERR_LINES"
  using inv_run [of parse evs] by (simp add: Let_def rpc_inv_def rpc_invs)

text \<open>
  A wait that ends with yes heard of the end of the child, one that ends with no killed it
  outright and waited again; it ends after two timers at the latest.
\<close>

lemma wait_ends: "fst (wait_timer (wait_timer (waitGone s, s))) = Waited (rp_exited s \<noteq> None)"
  by (simp add: waitGone_def)

lemma wait_no_killed:
  "waitGone s = First_wait \<Longrightarrow> wait_timer (wait_timer (waitGone s, s)) = (Waited False, tell (Child_killed (js ''SIGKILL'')) s)"
  by simp

end
