(* ===== verification/OpencodeClient.thy ===== *)
theory OpencodeClient
  imports CodexRpc
begin

text \<open>
  \<^verbatim>\<open>drivers/opencode-client.mjs\<close>: the client of an opencode server. Its event stream is read in
  frames, reconnected when it drops and given up after ten streams in a row that delivered
  nothing; prompts wait on a gate until the stream is first connected. \<^verbatim>\<open>fetch\<close> and the child
  are events, \<^verbatim>\<open>JSON.parse\<close> is an argument.
\<close>

definition START_TIMEOUT_MS :: nat where "START_TIMEOUT_MS = 30000"
definition MAX_SSE_FAILURES :: nat where "MAX_SSE_FAILURES = 10"

section \<open>Requests and the listen address\<close>

definition http_failure :: "nat \<Rightarrow> jstring \<Rightarrow> jstring \<Rightarrow> jstring" where
  "http_failure code body path = js ''opencode '' @ path @ js '' failed: HTTP '' @ dec code @
     (if body \<noteq> [] then js '' '' @ take 300 body else [])"

definition request_result :: "(jstring \<Rightarrow> json option) \<Rightarrow> jstring \<Rightarrow> nat \<Rightarrow> jstring \<Rightarrow> jstring + json" where
  "request_result parse path code body =
     (if \<not> (200 \<le> code \<and> code \<le> 299) then Inl (http_failure code body path)
      else if body = [] then Inr JNull
      else case parse body of Some v \<Rightarrow> Inr v | None \<Rightarrow> Inr (JStr body))"

definition LISTENING :: jstring where "LISTENING = js ''listening on ''"

definition strip_slash :: "jstring \<Rightarrow> jstring" where
  "strip_slash s = (if s \<noteq> [] \<and> last s = 0x2F then butlast s else s)"

text \<open>\<^verbatim>\<open>out.match(/listening on (http:\/\/[^\s]+)/)\<close>, without the final slash.\<close>

fun listen_address :: "jstring \<Rightarrow> jstring option" where
  "listen_address [] = None"
| "listen_address (c # cs) =
     (let rest = drop (length LISTENING) (c # cs); url = takeWhile (\<lambda>u. \<not> is_space u) rest
      in if starts_with (c # cs) LISTENING \<and> starts_with url (js ''http://'') \<and> length url > 7
         then Some (strip_slash url) else listen_address cs)"

section \<open>Frames\<close>

fun next_frame :: "jstring \<Rightarrow> (jstring \<times> jstring) option" where
  "next_frame (c # d # r) =
     (if c = 10 \<and> d = 10 then Some ([], r)
      else map_option (\<lambda>(f, q). (c # f, q)) (next_frame (d # r)))"
| "next_frame _ = None"

lemma next_frame_shorter: "next_frame s = Some (f, r) \<Longrightarrow> length r < length s"
  by (induction s arbitrary: f rule: next_frame.induct) (auto split: if_splits)

function frames :: "jstring \<Rightarrow> jstring list \<times> jstring" where
  "frames s = (case next_frame s of
       None \<Rightarrow> ([], s)
     | Some (f, r) \<Rightarrow> (f # fst (frames r), snd (frames r)))"
  by auto
termination by (relation "measure length") (auto simp: next_frame_shorter)

declare frames.simps [simp del]

definition line_event :: "(jstring \<Rightarrow> json option) \<Rightarrow> jstring \<Rightarrow> json list" where
  "line_event parse l =
     (if starts_with l (js ''data: '') then (case parse (drop 6 l) of Some v \<Rightarrow> [v] | None \<Rightarrow> []) else [])"

definition frame_events :: "(jstring \<Rightarrow> json option) \<Rightarrow> jstring \<Rightarrow> json list" where
  "frame_events parse f = concat (map (line_event parse) (split_on 10 f))"

section \<open>The event loop\<close>

datatype client_out =
    Event_passed json
  | Exit_reported
  | Retry_in nat
  | Stream_aborted
  | Signalled jstring

record client =
  oc_closed :: bool
  oc_child :: bool
  oc_subscribed :: bool
  oc_gate :: "bool option"
  oc_failures :: nat
  oc_stream :: bool
  oc_delivered :: bool
  oc_buf :: jstring
  oc_out :: "client_out list"

definition started_client :: "bool \<Rightarrow> client" where
  "started_client spawned = \<lparr>oc_closed = False, oc_child = spawned, oc_subscribed = False, oc_gate = None,
     oc_failures = 0, oc_stream = False, oc_delivered = False, oc_buf = [], oc_out = []\<rparr>"

definition puts :: "client_out list \<Rightarrow> client \<Rightarrow> client" where
  "puts es c = c\<lparr>oc_out := oc_out c @ es\<rparr>"

text \<open>A promise settles once.\<close>

definition settle_gate :: "bool \<Rightarrow> client \<Rightarrow> client" where
  "settle_gate b c = c\<lparr>oc_gate := (case oc_gate c of None \<Rightarrow> Some b | g \<Rightarrow> g)\<rparr>"

definition reject_unsubscribed :: "client \<Rightarrow> client" where
  "reject_unsubscribed c = (if oc_subscribed c then c else settle_gate False c)"

definition give_up :: "client \<Rightarrow> client" where
  "give_up c = puts [Exit_reported] (reject_unsubscribed (c\<lparr>oc_closed := True, oc_stream := False\<rparr>))"

definition retry_delay :: "client \<Rightarrow> client" where
  "retry_delay c = (if oc_closed c then c else puts [Retry_in (min (500 * (oc_failures c + 1)) 3000)] c)"

definition stream_opened :: "client \<Rightarrow> client" where
  "stream_opened c =
     (let c1 = c\<lparr>oc_stream := True, oc_delivered := False, oc_buf := []\<rparr>
      in if oc_subscribed c then c1 else settle_gate True (c1\<lparr>oc_subscribed := True\<rparr>))"

definition stream_chunk :: "(jstring \<Rightarrow> json option) \<Rightarrow> nat list \<Rightarrow> client \<Rightarrow> client" where
  "stream_chunk parse chunk c =
     (if \<not> oc_stream c then c
      else let (fs, rest) = frames (oc_buf c @ utf8_decode chunk);
               evs = concat (map (frame_events parse) fs)
           in puts (map Event_passed evs) (c\<lparr>oc_buf := rest,
                oc_delivered := (oc_delivered c \<or> evs \<noteq> []),
                oc_failures := (if \<not> oc_delivered c \<and> evs \<noteq> [] then 0 else oc_failures c)\<rparr>))"

definition stream_ended :: "client \<Rightarrow> client" where
  "stream_ended c =
     (if \<not> oc_stream c then c
      else let c1 = c\<lparr>oc_stream := False\<rparr>
           in if \<not> oc_delivered c \<and> \<not> oc_closed c
              then (let c2 = c1\<lparr>oc_failures := oc_failures c + 1\<rparr>
                    in if oc_failures c2 \<ge> MAX_SSE_FAILURES then give_up c2 else retry_delay c2)
              else retry_delay c1)"

definition stream_failed :: "client \<Rightarrow> client" where
  "stream_failed c =
     (let c1 = c\<lparr>oc_stream := False\<rparr>
      in if oc_closed c then c1
         else let c2 = c1\<lparr>oc_failures := oc_failures c + 1\<rparr>
              in if oc_failures c2 \<ge> MAX_SSE_FAILURES then give_up c2 else retry_delay c2)"

definition child_exited :: "client \<Rightarrow> client" where
  "child_exited c =
     (if oc_closed c then c
      else puts [Exit_reported] (reject_unsubscribed (puts [Stream_aborted] (c\<lparr>oc_closed := True\<rparr>))))"

definition close_client :: "client \<Rightarrow> client" where
  "close_client c =
     (if oc_closed c \<and> \<not> oc_child c then c
      else let c1 = puts [Stream_aborted] (reject_unsubscribed (c\<lparr>oc_closed := True\<rparr>))
           in if oc_child c then puts [Signalled (js ''SIGTERM'')] (c1\<lparr>oc_child := False\<rparr>) else c1)"

definition kill_client :: "client \<Rightarrow> client" where
  "kill_client c = puts [Signalled (js ''SIGKILL'')] c"

datatype client_event =
    Stream_opened | Stream_chunk "nat list" | Stream_ended | Stream_failed | Child_exited | Close_called | Kill_called

fun client_step :: "(jstring \<Rightarrow> json option) \<Rightarrow> client_event \<Rightarrow> client \<Rightarrow> client" where
  "client_step parse Stream_opened c = (if oc_stream c \<or> oc_closed c then c else stream_opened c)"
| "client_step parse (Stream_chunk b) c = stream_chunk parse b c"
| "client_step parse Stream_ended c = stream_ended c"
| "client_step parse Stream_failed c = stream_failed c"
| "client_step parse Child_exited c = child_exited c"
| "client_step parse Close_called c = close_client c"
| "client_step parse Kill_called c = kill_client c"

definition client_run :: "(jstring \<Rightarrow> json option) \<Rightarrow> client_event list \<Rightarrow> client \<Rightarrow> client" where
  "client_run parse evs = fold (client_step parse) evs"

section \<open>Frames do not depend on the chunks\<close>

lemma next_frame_append: "next_frame s = Some (f, r) \<Longrightarrow> next_frame (s @ t) = Some (f, r @ t)"
  by (induction s arbitrary: f rule: next_frame.induct) (auto split: if_splits)

lemma frames_append:
  "frames (s @ t) = (fst (frames s) @ fst (frames (snd (frames s) @ t)), snd (frames (snd (frames s) @ t)))"
proof (induction s rule: frames.induct)
  case (1 s)
  show ?case
  proof (cases "next_frame s")
    case None
    then have "frames s = ([], s)" by (subst frames.simps) simp
    then show ?thesis by simp
  next
    case (Some x)
    obtain f r where x: "x = (f, r)" by (cases x)
    have "frames s = (f # fst (frames r), snd (frames r))" using Some x by (subst frames.simps) simp
    moreover have "frames (s @ t) = (f # fst (frames (r @ t)), snd (frames (r @ t)))"
      using next_frame_append Some x by (subst frames.simps) simp
    moreover have "frames (r @ t) = (fst (frames r) @ fst (frames (snd (frames r) @ t)), snd (frames (snd (frames r) @ t)))"
      using Some x [symmetric] by (rule 1)
    ultimately show ?thesis by (simp only: fst_conv snd_conv append_Cons)
  qed
qed

definition passed :: "client_out list \<Rightarrow> json list" where
  "passed = List.map_filter (\<lambda>e. case e of Event_passed v \<Rightarrow> Some v | _ \<Rightarrow> None)"

lemma passed_append: "passed (xs @ map Event_passed vs) = passed xs @ vs"
proof -
  have "passed (map Event_passed vs) = vs" by (induction vs) (simp_all add: passed_def map_filter_simps)
  moreover have "passed (xs @ ys) = passed xs @ passed ys" for ys
    by (induction xs) (simp_all add: passed_def map_filter_simps split: option.splits client_out.splits)
  ultimately show ?thesis by simp
qed

lemma frames_rest: "frames (snd (frames s)) = ([], snd (frames s))"
proof (induction s rule: frames.induct)
  case (1 s)
  show ?case
  proof (cases "next_frame s")
    case None
    then have "frames s = ([], s)" by (subst frames.simps) simp
    then show ?thesis by simp
  next
    case (Some x)
    obtain f r where x: "x = (f, r)" by (cases x)
    have "frames s = (f # fst (frames r), snd (frames r))" using Some x by (subst frames.simps) simp
    moreover have "frames (snd (frames r)) = ([], snd (frames r))" using Some x [symmetric] by (rule 1)
    ultimately show ?thesis by (simp only: snd_conv)
  qed
qed

lemma chunk_passed:
  assumes "oc_stream c" and "utf8_decode b = t"
  shows "passed (oc_out (stream_chunk parse b c)) =
      passed (oc_out c) @ concat (map (frame_events parse) (fst (frames (oc_buf c @ t))))"
    and "oc_buf (stream_chunk parse b c) = snd (frames (oc_buf c @ t))" and "oc_stream (stream_chunk parse b c)"
  using assms by (simp_all add: stream_chunk_def puts_def passed_append Let_def split: prod.split)

lemma chunks_passed:
  assumes "oc_stream c" and "frames (oc_buf c) = ([], oc_buf c)" and "list_all (\<lambda>t. to_well_formed t = t) ts"
  shows "passed (oc_out (fold (stream_chunk parse) (map utf8 ts) c)) =
      passed (oc_out c) @ concat (map (frame_events parse) (fst (frames (oc_buf c @ concat ts)))) \<and>
    oc_buf (fold (stream_chunk parse) (map utf8 ts) c) = snd (frames (oc_buf c @ concat ts))"
  using assms
proof (induction ts arbitrary: c)
  case (Cons t ts)
  let ?c = "stream_chunk parse (utf8 t) c"
  have "utf8_decode (utf8 t) = t" using Cons.prems(3) by (simp add: utf8_decode_utf8)
  note chunk = chunk_passed [OF Cons.prems(1) this, of parse]
  have "frames (oc_buf ?c) = ([], oc_buf ?c)" unfolding chunk(2) by (rule frames_rest)
  from Cons.IH [OF chunk(3) this] Cons.prems(3) chunk(1,2) show ?case
    by (simp add: frames_append [of "oc_buf c @ t" "concat ts", simplified])
qed simp

text \<open>
  Where the network cuts the event stream does not matter, as long as it cuts between
  characters: the events passed on are those of the whole text's frames, in order, each once,
  and what is left over waits for the rest of its frame.
\<close>

theorem sse_chunking_immaterial:
  assumes "oc_stream c" and "oc_buf c = []" and "list_all (\<lambda>t. to_well_formed t = t) ts"
    and "c' = fold (stream_chunk parse) (map utf8 ts) c"
  shows "passed (oc_out c') = passed (oc_out c) @ concat (map (frame_events parse) (fst (frames (concat ts)))) \<and>
    oc_buf c' = snd (frames (concat ts))"
proof -
  have "frames [] = ([], [])" by (subst frames.simps) simp
  with chunks_passed [of c ts parse] assms show ?thesis by simp
qed

theorem sse_chunking_immaterial_witness:
  "passed (oc_out (fold (stream_chunk (\<lambda>t. Some (JStr t))) (map utf8 [js ''data: '', js ''hi'' @ [10], [10]])
     (stream_opened (started_client True)))) = [JStr (js ''hi'')]"
proof -
  let ?ts = "[js ''data: '', js ''hi'' @ [10], [10]]"
  have wf: "list_all (\<lambda>t. to_well_formed t = t) ?ts"
    by (simp add: to_well_formed_def js_def high_surrogate_def low_surrogate_def units_cp_def)
  have st: "oc_stream (stream_opened (started_client True))" "oc_buf (stream_opened (started_client True)) = []"
    "passed (oc_out (stream_opened (started_client True))) = []"
    by (simp_all add: stream_opened_def started_client_def settle_gate_def passed_def map_filter_simps)
  have "concat (map (frame_events (\<lambda>t. Some (JStr t))) (fst (frames (concat ?ts)))) = [JStr (js ''hi'')]"
    by (simp add: js_def frames.simps frame_events_def line_event_def starts_with_def)
  with sse_chunking_immaterial [OF st(1,2) wf refl] st(3) show ?thesis by simp
qed

text \<open>Cut inside a character, its bytes are lost.\<close>

lemma sse_cut_character: "utf8_decode [0xC3, 0xA9] = [0xE9] \<and> utf8_decode [0xC3] @ utf8_decode [0xA9] = [0xFFFD, 0xFFFD]"
  by (simp add: utf8_decode_def units_cp_def cont_def)

section \<open>The gate, and a dead stream\<close>

definition exits_reported :: "client \<Rightarrow> nat" where
  "exits_reported c = count_list (oc_out c) Exit_reported"

definition client_inv :: "client \<Rightarrow> bool" where
  "client_inv c \<longleftrightarrow> (if oc_closed c then oc_gate c \<noteq> None else oc_gate c \<noteq> Some False) \<and>
     (oc_gate c = Some True \<longleftrightarrow> oc_subscribed c) \<and>
     exits_reported c \<le> (if oc_closed c then 1 else 0) \<and> (oc_closed c \<or> oc_failures c < MAX_SSE_FAILURES)"

lemmas client_prims = puts_def settle_gate_def reject_unsubscribed_def give_up_def retry_delay_def exits_reported_def

lemma count_passed [simp]: "count_list (map Event_passed vs) Exit_reported = 0"
  by (induction vs) simp_all

lemma inv_chunk: "client_inv c \<Longrightarrow> client_inv (stream_chunk parse b c)"
  by (auto simp: stream_chunk_def client_inv_def puts_def exits_reported_def MAX_SSE_FAILURES_def split: prod.split)

lemma inv_opened: "client_inv c \<Longrightarrow> \<not> oc_closed c \<Longrightarrow> client_inv (stream_opened c)"
  by (auto simp: stream_opened_def client_inv_def client_prims Let_def split: option.splits)

lemma inv_lap: "client_inv c \<Longrightarrow> client_inv (stream_ended c)" "client_inv c \<Longrightarrow> client_inv (stream_failed c)"
  by (auto simp: stream_ended_def stream_failed_def client_inv_def client_prims Let_def split: option.splits)

lemma inv_ends: "client_inv c \<Longrightarrow> client_inv (child_exited c)" "client_inv c \<Longrightarrow> client_inv (close_client c)"
  "client_inv c \<Longrightarrow> client_inv (kill_client c)"
  by (auto simp: child_exited_def close_client_def kill_client_def client_inv_def client_prims Let_def split: option.splits if_splits)

lemma inv_client_step: "client_inv c \<Longrightarrow> client_inv (client_step parse ev c)"
  by (cases ev) (simp_all add: inv_chunk inv_opened inv_lap inv_ends)

lemma inv_client_run: "client_inv (client_run parse evs (started_client b))"
proof -
  have "client_inv c \<Longrightarrow> client_inv (fold (client_step parse) evs c)" for c
    by (induction evs arbitrary: c) (simp_all add: inv_client_step)
  then show ?thesis by (simp add: client_run_def client_inv_def started_client_def exits_reported_def MAX_SSE_FAILURES_def)
qed

text \<open>
  Whatever happens to the stream, the child and the client, the gate the first prompt waits
  on opens exactly when the stream has been connected, and a client that is closed leaves no
  prompt waiting; the end is reported to the session at most once, and while the client is open
  fewer than ten streams in a row have delivered nothing.
\<close>

theorem client_gate_settles:
  "let c = client_run parse evs (started_client spawned)
   in (if oc_closed c then oc_gate c \<noteq> None else oc_failures c < MAX_SSE_FAILURES \<and> oc_gate c \<noteq> Some False) \<and>
      (oc_gate c = Some True \<longleftrightarrow> oc_subscribed c) \<and> exits_reported c \<le> 1"
  using inv_client_run [of parse evs spawned] by (auto simp: Let_def client_inv_def split: if_splits)

text \<open>A stream that fails, or is accepted and ends empty.\<close>

definition dead_lap :: "bool \<Rightarrow> client_event list" where
  "dead_lap accepted = (if accepted then [Stream_opened, Stream_ended] else [Stream_failed])"

lemma dead_lap_counts:
  assumes "\<not> oc_closed c" and "\<not> oc_stream c"
  shows "let c' = client_run parse (dead_lap b) c
         in \<not> oc_stream c' \<and> (if MAX_SSE_FAILURES \<le> oc_failures c + 1 then oc_closed c' \<and> Exit_reported \<in> set (oc_out c')
            else \<not> oc_closed c' \<and> oc_failures c' = oc_failures c + 1)"
  using assms
  by (auto simp: client_run_def dead_lap_def stream_opened_def stream_ended_def stream_failed_def client_prims Let_def
      split: option.splits)

lemma closed_stays: "oc_closed c \<Longrightarrow> Exit_reported \<in> set (oc_out c) \<Longrightarrow>
    oc_closed (client_step parse ev c) \<and> Exit_reported \<in> set (oc_out (client_step parse ev c))"
  by (cases ev) (auto simp: stream_chunk_def stream_ended_def stream_failed_def child_exited_def close_client_def
      kill_client_def client_prims Let_def split: option.splits prod.split)

lemma closed_stays_run: "oc_closed c \<Longrightarrow> Exit_reported \<in> set (oc_out c) \<Longrightarrow>
    oc_closed (client_run parse evs c) \<and> Exit_reported \<in> set (oc_out (client_run parse evs c))"
  unfolding client_run_def by (induction evs arbitrary: c) (simp_all add: closed_stays)

text \<open>
  A server whose stream is dead does not leave the session wedged: after ten streams in a
  row that fail or end without an event, in any mixture, the client is closed and the session
  is told.
\<close>

theorem dead_stream_reported:
  assumes "\<not> oc_closed c" and "\<not> oc_stream c" and "MAX_SSE_FAILURES \<le> oc_failures c + length laps" and "laps \<noteq> []"
  shows "oc_closed (client_run parse (concat (map dead_lap laps)) c) \<and>
    Exit_reported \<in> set (oc_out (client_run parse (concat (map dead_lap laps)) c))"
  using assms
proof (induction laps arbitrary: c)
  case (Cons b laps)
  let ?c = "client_run parse (dead_lap b) c"
  have run: "client_run parse (concat (map dead_lap (b # laps))) c = client_run parse (concat (map dead_lap laps)) ?c"
    by (simp add: client_run_def)
  note lap = dead_lap_counts [OF Cons.prems(1,2), of parse b, unfolded Let_def]
  show ?case
  proof (cases "MAX_SSE_FAILURES \<le> oc_failures c + 1")
    case True
    with lap have "oc_closed ?c \<and> Exit_reported \<in> set (oc_out ?c)" by simp
    then show ?thesis unfolding run by (simp add: closed_stays_run)
  next
    case False
    with lap have "\<not> oc_closed ?c" "\<not> oc_stream ?c" "oc_failures ?c = oc_failures c + 1" by simp_all
    moreover have "laps \<noteq> []" using False Cons.prems(3) by auto
    ultimately show ?thesis unfolding run using Cons.prems(3) by (intro Cons.IH) simp_all
  qed
qed simp

theorem dead_stream_reported_witness:
  "oc_closed (client_run (\<lambda>_. None) (concat (map dead_lap (replicate 10 True))) (started_client True)) \<and>
   Exit_reported \<in> set (oc_out (client_run (\<lambda>_. None) (concat (map dead_lap (replicate 10 True))) (started_client True)))"
  by (rule dead_stream_reported) (simp_all add: started_client_def MAX_SSE_FAILURES_def)

end
