(* ===== verification/OpencodeTranslate.thy ===== *)
theory OpencodeTranslate
  imports CodexTranslate
begin

text \<open>
  \<^verbatim>\<open>drivers/opencode-translate.mjs\<close>: opencode's parts as transcript blocks, its errors, the
  canonical names of its tools, and the configuration a session's \<^verbatim>\<open>opencode serve\<close> gets.
\<close>

definition OPENCODE_PROVIDER_ID :: jstring where "OPENCODE_PROVIDER_ID = js ''zwrm''"
definition MCP_TOOL_TIMEOUT_MS :: int where "MCP_TOOL_TIMEOUT_MS = 120000"

section \<open>Transcript\<close>

definition opencode_init :: "json \<Rightarrow> json \<Rightarrow> json_obj" where
  "opencode_init i model =
     [(js ''type'', JStr (js ''system'')), (js ''subtype'', JStr (js ''init'')), (js ''session_id'', or_falsy i (JStr [])),
      (js ''model'', or_falsy model (JStr [])), (js ''harness'', JStr (js ''opencode''))]"

definition opencode_partial :: "json \<Rightarrow> json_obj option" where
  "opencode_partial delta =
     (case delta of
       JStr d \<Rightarrow> if d = [] then None
         else Some [(js ''type'', JStr (js ''stream_event'')),
           (js ''event'', JObj [(js ''type'', JStr (js ''content_block_delta'')),
              (js ''delta'', JObj [(js ''type'', JStr (js ''text_delta'')), (js ''text'', JStr d)])])]
     | _ \<Rightarrow> None)"

definition textPayload :: "json \<Rightarrow> json \<Rightarrow> json_obj" where
  "textPayload t model =
     assistant [JObj [(js ''type'', JStr (js ''text'')), (js ''text'', or_nullish t (JStr []))]] model"

definition reasoningPayload :: "json \<Rightarrow> json \<Rightarrow> json_obj" where
  "reasoningPayload t model =
     assistant [JObj [(js ''type'', JStr (js ''thinking'')), (js ''thinking'', or_nullish t (JStr []))]] model"

definition part_use :: "json \<Rightarrow> json \<Rightarrow> json_obj" where
  "part_use part model =
     assistant [JObj [(js ''type'', JStr (js ''tool_use'')), (js ''id'', text_field part (js ''callID'')),
       (js ''name'', text_field part (js ''tool'')),
       (js ''input'', or_nullish (jget (jget part (js ''state'')) (js ''input'')) (JObj []))]] model"

definition state_text :: "json \<Rightarrow> jstring" where
  "state_text st =
     (if \<not> is_object_type st then []
      else if jget st (js ''status'') = JStr (js ''error'') then js_String (text_field st (js ''error''))
      else str_or [] (jget st (js ''output'')))"

definition part_result :: "json \<Rightarrow> json_obj" where
  "part_result part =
     (let st = or_nullish (jget part (js ''state'')) (JObj [])
      in [(js ''type'', JStr (js ''user'')),
          (js ''message'', JObj [(js ''role'', JStr (js ''user'')), (js ''content'', JArr [JObj (
             [(js ''type'', JStr (js ''tool_result'')), (js ''tool_use_id'', text_field part (js ''callID'')),
              (js ''content'', JStr (state_text st))] @
             (if jget st (js ''status'') = JStr (js ''error'') then [(js ''is_error'', JBool True)] else []))])])])"

definition token_usage :: "json \<Rightarrow> json" where
  "token_usage tokens =
     (if \<not> is_object_type tokens then JUndef
      else JObj [(js ''input_tokens'', or_nullish (jget tokens (js ''input'')) (JInt 0)),
        (js ''output_tokens'', or_nullish (jget tokens (js ''output'')) (JInt 0)),
        (js ''cache_read_input_tokens'', or_nullish (jget (jget tokens (js ''cache'')) (js ''read'')) (JInt 0)),
        (js ''cache_creation_input_tokens'', or_nullish (jget (jget tokens (js ''cache'')) (js ''write'')) (JInt 0))])"

definition opencode_result :: "jstring \<Rightarrow> json \<Rightarrow> json \<Rightarrow> json \<Rightarrow> json \<Rightarrow> json \<Rightarrow> json_obj" where
  "opencode_result subtype result_text cost tokens numTurns durationMS =
     [(js ''type'', JStr (js ''result'')), (js ''subtype'', JStr subtype), (js ''result'', result_text)] @
     (if subtype \<noteq> js ''success'' then [(js ''is_error'', JBool True)] else []) @
     [(js ''total_cost_usd'', cost), (js ''num_turns'', numTurns), (js ''duration_ms'', durationMS)] @
     (if truthy tokens then [(js ''usage'', token_usage tokens)] else [])"

text \<open>\<^verbatim>\<open>{ ...a, ...b }\<close>.\<close>

definition spread :: "json_obj \<Rightarrow> json_obj \<Rightarrow> json_obj" where
  "spread a b = fold (\<lambda>(k, v). jput k v) b a"

fun fields_of :: "json \<Rightarrow> json_obj" where
  "fields_of (JObj kvs) = kvs"
| "fields_of (JArr xs) = map (\<lambda>(i, x). (dec i, x)) (List.enumerate 0 xs)"
| "fields_of (JStr s) = map (\<lambda>(i, c). (dec i, JStr [c])) (List.enumerate 0 s)"
| "fields_of _ = []"

definition gateInputFor :: "json \<Rightarrow> json_obj" where
  "gateInputFor ask =
     spread (fields_of (jget ask (js ''metadata'')))
       (case jget ask (js ''patterns'') of
         JArr (x # xs) \<Rightarrow> [(js ''patterns'', JArr (x # xs))]
       | _ \<Rightarrow> [])"

section \<open>Errors\<close>

definition gateway_auth :: re where
  "gateway_auth = any_of (word ''401'') [word ''unauthorized'', seq [word ''invalid'', gap, word ''key''], word ''authentication'']"

definition gateway_rate :: re where
  "gateway_rate = any_of (word ''429'') [seq [word ''rate'', opt_char, word ''limit''], word ''overloaded'', word ''quota'']"

definition server_gone :: re where
  "server_gone = any_of (word ''exited'') [word ''spawn'', word ''econnrefused'', word ''socket hang up'']"

definition error_name :: "js_error \<Rightarrow> jstring" where
  "error_name e = string_or_empty (or_falsy (je_name e) (jget (je_data e) (js ''name'')))"

definition classifyOpenCodeError :: "js_error \<Rightarrow> diagnosis" where
  "classifyOpenCodeError e =
     (let raw = error_raw e; name = error_name e;
          short = (if truthy (je_message e) then js_String (je_message e)
                   else if truthy (jget (je_data e) (js ''message'')) then js_String (jget (je_data e) (js ''message''))
                   else je_string e)
      in if re_test gateway_auth raw
         then diagnose ''auth'' (js ''The model gateway rejected the session credential. Reconnect the workspace to mint a fresh one.'') e
         else if re_test gateway_rate raw
         then diagnose ''rate_limited'' (js ''The model gateway rate-limited the session. Retry shortly.'') e
         else if name = js ''MessageAbortedError'' \<or> re_test (word ''aborted'') name
         then diagnose ''error'' (js ''The turn was aborted.'') e
         else if re_test server_gone raw
         then diagnose ''crashed'' (js ''The opencode server exited unexpectedly.'') e
         else diagnose ''error'' short e)"

section \<open>Names\<close>

definition isReservedMCPServer :: "jstring \<Rightarrow> bool" where
  "isReservedMCPServer slug \<longleftrightarrow> slug = js ''zwrm''"

definition RUN_TOOL_NAMES :: "jstring list" where
  "RUN_TOOL_NAMES = [SLEEP, SLEEP_UNTIL, WAIT_FOR_TASK]"

text \<open>The longest slug the name goes on from.\<close>

definition best_slug :: "jstring \<Rightarrow> jstring list \<Rightarrow> jstring" where
  "best_slug name slugs =
     fold (\<lambda>slug best. if length slug + 1 < length name \<and> starts_with name (slug @ [0x5F]) \<and> length best < length slug
                       then slug else best) slugs []"

definition canonicalOpenCodeToolName :: "json \<Rightarrow> jstring list \<Rightarrow> jstring" where
  "canonicalOpenCodeToolName wireName slugs =
     (let name = string_or_empty wireName; best = best_slug name slugs
      in if name \<in> set RUN_TOOL_NAMES then name
         else if best = [] then name
         else js ''mcp__'' @ best @ js ''__'' @ drop (length best + 1) name)"

section \<open>A session's configuration\<close>

definition GATED_PERMISSIONS :: json_obj where
  "GATED_PERMISSIONS = [(js ''bash'', JStr (js ''ask'')), (js ''edit'', JStr (js ''ask'')), (js ''webfetch'', JStr (js ''ask'')),
     (js ''websearch'', JStr (js ''ask''))]"

record opencode_spec =
  oc_platform :: json
  oc_mcpServers :: json_obj
  oc_interactive :: json
  oc_questions :: json
  oc_taskWaits :: json
  oc_instructionsPath :: json
  oc_models :: json
  oc_catalogLive :: json

text \<open>The live catalogue's models take the place of the seeded external ones.\<close>

definition merged_provider :: "opencode_spec \<Rightarrow> json_obj \<Rightarrow> json_obj" where
  "merged_provider os cfg =
     (let live = (case oc_models os of JObj kvs \<Rightarrow> kvs | _ \<Rightarrow> []);
          providers = jprop cfg (js ''provider''); seeded = jget providers OPENCODE_PROVIDER_ID
      in if (truthy (oc_catalogLive os) \<or> live \<noteq> []) \<and> is_object_type seeded
         then (let models = fields_of (jget seeded (js ''models''));
                   base = (if truthy (oc_catalogLive os) then filter (\<lambda>(slug, _). \<not> starts_with slug (js ''ext/'')) models
                           else models)
               in jput (js ''provider'')
                    (JObj (jput OPENCODE_PROVIDER_ID
                      (JObj (jput (js ''models'') (JObj (spread base live)) (fields_of seeded))) (fields_of providers))) cfg)
         else cfg)"

definition mcp_entry :: "json \<Rightarrow> json_obj option" where
  "mcp_entry server =
     (if jget server (js ''type'') = JStr (js ''http'') \<and> truthy (jget server (js ''url''))
      then Some ([(js ''type'', JStr (js ''remote'')), (js ''url'', jget server (js ''url''))] @
        (if is_object_type (jget server (js ''headers'')) then [(js ''headers'', jget server (js ''headers''))] else []) @
        [(js ''enabled'', JBool True)])
      else if jget server (js ''type'') = JStr (js ''stdio'') \<and> truthy (jget server (js ''command''))
      then Some ([(js ''type'', JStr (js ''local'')),
                  (js ''command'', JArr (jget server (js ''command'') # arr_or_nil (jget server (js ''args''))))] @
        (if truthy (jget server (js ''env'')) then [(js ''environment'', jget server (js ''env''))] else []) @
        [(js ''enabled'', JBool True)])
      else None)"

fun mcp_entries :: "json_obj \<Rightarrow> json_obj \<times> json_obj \<Rightarrow> json_obj \<times> json_obj" where
  "mcp_entries [] (mcp, permission) = (mcp, permission)"
| "mcp_entries ((slug, server) # rest) (mcp, permission) =
     (case mcp_entry server of
       None \<Rightarrow> mcp_entries rest (mcp, permission)
     | Some entry \<Rightarrow> mcp_entries rest
         (jput slug (JObj entry) mcp, jput (slug @ js ''_*'') (JStr (js ''ask'')) permission))"

definition spec_tools :: "opencode_spec \<Rightarrow> jstring list" where
  "spec_tools os = platformToolNames (JObj [(js ''interactive'', oc_interactive os),
     (js ''task_waits'', JBool (oc_taskWaits os = JBool True))]) []"

definition session_tools :: "opencode_spec \<Rightarrow> json_obj" where
  "session_tools os =
     (js ''question'', JBool (truthy (oc_interactive os) \<or> truthy (oc_questions os))) #
     (if \<not> truthy (oc_interactive os) \<and> WAIT_FOR_TASK \<notin> set (spec_tools os) then [(WAIT_FOR_TASK, JBool False)] else [])"

definition allow_all :: "jstring list \<Rightarrow> json_obj \<Rightarrow> json_obj" where
  "allow_all names permission = fold (\<lambda>name. jput name (JStr (js ''allow''))) names permission"

definition buildSessionConfig :: "opencode_spec \<Rightarrow> json_obj" where
  "buildSessionConfig os =
     (let cfg1 = merged_provider os (fields_of (oc_platform os));
          (mcp, permission) = mcp_entries (oc_mcpServers os) ([], GATED_PERMISSIONS);
          cfg2 = (if mcp \<noteq> [] then jput (js ''mcp'') (JObj (spread (fields_of (jprop cfg1 (js ''mcp''))) mcp)) cfg1 else cfg1);
          cfg3 = jput (js ''permission'')
            (JObj (spread (fields_of (jprop cfg2 (js ''permission''))) (allow_all (spec_tools os) permission))) cfg2;
          cfg4 = jput (js ''tools'') (JObj (spread (fields_of (jprop cfg3 (js ''tools''))) (session_tools os))) cfg3;
          cfg5 = jput (js ''experimental'')
            (JObj (spread (fields_of (jprop cfg4 (js ''experimental''))) [(js ''mcp_timeout'', JInt MCP_TOOL_TIMEOUT_MS)])) cfg4
      in if truthy (oc_instructionsPath os)
         then jput (js ''instructions'') (JArr (arr_or_nil (jprop cfg5 (js ''instructions'')) @ [oc_instructionsPath os])) cfg5
         else cfg5)"

section \<open>Objects spread over each other\<close>

lemma jprop_spread:
  "distinct (map fst b) \<Longrightarrow> jprop (spread a b) k = (if k \<in> fst ` set b then jprop b k else jprop a k)"
proof (induction b arbitrary: a)
  case (Cons x b)
  obtain j v where x: "x = (j, v)" by fastforce
  have "jprop (spread a (x # b)) k = jprop (spread (jput j v a) b) k" by (simp add: spread_def x)
  with Cons x show ?case by (auto simp: rev_image_eqI)
qed (simp add: spread_def)

lemma keys_jput: "fst ` set (jput k v kvs) = insert k (fst ` set kvs)"
  unfolding jput_def by (induction kvs) auto

lemma distinct_jput: "distinct (map fst kvs) \<Longrightarrow> distinct (map fst (jput k v kvs))"
  by (simp add: jput_def distinct_update)

lemma allow_all_props:
  "jprop (allow_all names p) k = (if k \<in> set names then JStr (js ''allow'') else jprop p k) \<and>
    fst ` set (allow_all names p) = set names \<union> fst ` set p \<and>
    (distinct (map fst p) \<longrightarrow> distinct (map fst (allow_all names p)))"
proof (induction names arbitrary: p)
  case (Cons n names)
  have "allow_all (n # names) p = allow_all names (jput n (JStr (js ''allow'')) p)" by (simp add: allow_all_def)
  with Cons [of "jput n (JStr (js ''allow'')) p"] show ?case by (auto simp: keys_jput distinct_jput)
qed (simp add: allow_all_def)

lemma spec_tools_run: "set (spec_tools os) \<subseteq> set RUN_TOOL_NAMES"
  by (auto simp: spec_tools_def platformToolNames_def RUN_TOOL_NAMES_def)

definition ask :: json where "ask = JStr (js ''ask'')"

definition gate :: "jstring \<Rightarrow> jstring" where "gate slug = slug @ js ''_*''"

lemma mcp_entries_props:
  assumes "mcp_entries rest (mcp, perm) = (mcp', perm')" and "distinct (map fst mcp)" "distinct (map fst perm)"
    and "distinct (map fst rest)"
  shows "distinct (map fst mcp') \<and> distinct (map fst perm') \<and>
    (\<forall>k. k \<in> fst ` set perm \<and> jprop perm k = ask \<longrightarrow> k \<in> fst ` set perm' \<and> jprop perm' k = ask) \<and>
    (\<forall>k. k \<notin> fst ` set rest \<longrightarrow> jprop mcp' k = jprop mcp k \<and> (k \<in> fst ` set mcp' \<longleftrightarrow> k \<in> fst ` set mcp)) \<and>
    (\<forall>slug server e. (slug, server) \<in> set rest \<and> mcp_entry server = Some e \<longrightarrow>
       gate slug \<in> fst ` set perm' \<and> jprop perm' (gate slug) = ask \<and> slug \<in> fst ` set mcp' \<and> jprop mcp' slug = JObj e)"
  using assms
proof (induction rest "(mcp, perm)" arbitrary: mcp perm rule: mcp_entries.induct)
  case (2 slug server rest mcp perm)
  show ?case
  proof (cases "mcp_entry server")
    case None
    then show ?thesis using "2.hyps"(1) [OF None] "2.prems" by auto
  next
    case (Some e)
    have run: "mcp_entries rest (jput slug (JObj e) mcp, jput (gate slug) ask perm) = (mcp', perm')"
      using "2.prems"(1) Some by (simp add: gate_def ask_def)
    have ih: "distinct (map fst mcp') \<and> distinct (map fst perm') \<and>
      (\<forall>k. k \<in> fst ` set (jput (gate slug) ask perm) \<and> jprop (jput (gate slug) ask perm) k = ask \<longrightarrow>
         k \<in> fst ` set perm' \<and> jprop perm' k = ask) \<and>
      (\<forall>k. k \<notin> fst ` set rest \<longrightarrow> jprop mcp' k = jprop (jput slug (JObj e) mcp) k \<and>
         (k \<in> fst ` set mcp' \<longleftrightarrow> k \<in> fst ` set (jput slug (JObj e) mcp))) \<and>
      (\<forall>slug server e. (slug, server) \<in> set rest \<and> mcp_entry server = Some e \<longrightarrow>
         gate slug \<in> fst ` set perm' \<and> jprop perm' (gate slug) = ask \<and> slug \<in> fst ` set mcp' \<and> jprop mcp' slug = JObj e)"
      using "2.hyps"(2) [OF Some] run "2.prems"(2-4) by (simp add: gate_def ask_def distinct_jput)
    have "slug \<notin> fst ` set rest" using "2.prems"(4) by simp
    with ih Some show ?thesis by (auto simp: keys_jput)
  qed
qed simp

text \<open>
  Whatever the platform's configuration says, an opencode session asks before what every
  harness asks before: the native tools that change or fetch, and every tool of every connector
  it mounts. The platform's own tools are let through, no call can wait for a dead connector
  for ever, and a run that nobody watches has no question tool.
\<close>

theorem connector_calls_gated:
  assumes "cfg = buildSessionConfig os" and "distinct (map fst (oc_mcpServers os))"
    and "(slug, server) \<in> set (oc_mcpServers os)" and "mcp_entry server = Some e"
  shows "jget (jprop cfg (js ''permission'')) (slug @ js ''_*'') = JStr (js ''ask'') \<and>
    jget (jprop cfg (js ''mcp'')) slug = JObj e \<and>
    list_all (\<lambda>t. jget (jprop cfg (js ''permission'')) t = JStr (js ''ask'')) (map fst GATED_PERMISSIONS) \<and>
    list_all (\<lambda>t. jget (jprop cfg (js ''permission'')) t = JStr (js ''allow'')) (spec_tools os) \<and>
    jget (jprop cfg (js ''experimental'')) (js ''mcp_timeout'') = JInt MCP_TOOL_TIMEOUT_MS \<and>
    jget (jprop cfg (js ''tools'')) (js ''question'') = JBool (truthy (oc_interactive os) \<or> truthy (oc_questions os))"
proof -
  define cfg1 where "cfg1 = merged_provider os (fields_of (oc_platform os))"
  obtain mcp permission where m: "mcp_entries (oc_mcpServers os) ([], GATED_PERMISSIONS) = (mcp, permission)" by fastforce
  have gated: "distinct (map fst GATED_PERMISSIONS)" "fst ` set GATED_PERMISSIONS = {js ''bash'', js ''edit'', js ''webfetch'', js ''websearch''}"
    "k \<in> fst ` set GATED_PERMISSIONS \<Longrightarrow> jprop GATED_PERMISSIONS k = ask" for k
    by (auto simp: GATED_PERMISSIONS_def ask_def)
  note props = mcp_entries_props [OF m _ gated(1) assms(2)]
  have perm: "distinct (map fst permission)" "k \<in> fst ` set GATED_PERMISSIONS \<Longrightarrow> jprop permission k = ask"
      "k \<in> fst ` set GATED_PERMISSIONS \<Longrightarrow> k \<in> fst ` set permission"
      "jprop permission (gate slug) = ask" "gate slug \<in> fst ` set permission" "distinct (map fst mcp)"
      "jprop mcp slug = JObj e" "slug \<in> fst ` set mcp" for k
    using props gated(3) assms(3,4) by simp_all
  have not_run: "gate slug \<notin> set (spec_tools os)" "k \<in> fst ` set GATED_PERMISSIONS \<Longrightarrow> k \<notin> set (spec_tools os)" for k
  proof -
    have "last (gate slug) = ch CHR ''*''" by (simp add: gate_def js_Cons)
    moreover have "k \<in> set RUN_TOOL_NAMES \<Longrightarrow> last k \<noteq> ch CHR ''*''" for k
      by (auto simp: RUN_TOOL_NAMES_def SLEEP_def SLEEP_UNTIL_def WAIT_FOR_TASK_def js_Cons)
    ultimately show "gate slug \<notin> set (spec_tools os)" using spec_tools_run by blast
    show "k \<in> fst ` set GATED_PERMISSIONS \<Longrightarrow> k \<notin> set (spec_tools os)"
      unfolding gated(2) using spec_tools_run [of os] by (auto simp: RUN_TOOL_NAMES_def SLEEP_def SLEEP_UNTIL_def WAIT_FOR_TASK_def)
  qed
  let ?p = "allow_all (spec_tools os) permission"
  have p: "jprop (spread a ?p) k = (if k \<in> set (spec_tools os) then JStr (js ''allow'')
      else if k \<in> fst ` set permission then jprop permission k else jprop a k)" for a k
    using allow_all_props [of "spec_tools os" permission] perm(1) by (subst jprop_spread) auto
  have mcp: "mcp \<noteq> []" using perm(8) by auto
  have tools: "jprop (spread a (session_tools os)) (js ''question'') =
      JBool (truthy (oc_interactive os) \<or> truthy (oc_questions os))" for a
    by (subst jprop_spread) (auto simp: session_tools_def WAIT_FOR_TASK_def)
  have time: "jprop (spread a [(js ''mcp_timeout'', v)]) (js ''mcp_timeout'') = v" for a v
    by (subst jprop_spread) simp_all
  have parts: "\<exists>a b c d. jprop cfg (js ''permission'') = JObj (spread a ?p) \<and> jprop cfg (js ''mcp'') = JObj (spread b mcp) \<and>
      jprop cfg (js ''tools'') = JObj (spread c (session_tools os)) \<and>
      jprop cfg (js ''experimental'') = JObj (spread d [(js ''mcp_timeout'', JInt MCP_TOOL_TIMEOUT_MS)])"
    unfolding assms(1) buildSessionConfig_def Let_def m prod.case cfg1_def [symmetric]
    using mcp by (cases "truthy (oc_instructionsPath os)") (simp_all, blast+)
  then show ?thesis
    using perm p not_run tools time gated(2) by (elim exE conjE) (simp add: gate_def ask_def list_all_iff jprop_spread)
qed

definition sample_spec :: opencode_spec where
  "sample_spec = \<lparr>oc_platform = JObj [(js ''permission'', JObj [(js ''bash'', JStr (js ''allow''))])],
     oc_mcpServers = [(js ''gh'', JObj [(js ''type'', JStr (js ''http'')), (js ''url'', JStr (js ''http://127.0.0.1/mcp''))])],
     oc_interactive = JBool False, oc_questions = JUndef, oc_taskWaits = JUndef, oc_instructionsPath = JUndef,
     oc_models = JUndef, oc_catalogLive = JUndef\<rparr>"

theorem connector_calls_gated_witness:
  "jget (jprop (buildSessionConfig sample_spec) (js ''permission'')) (js ''gh'' @ js ''_*'') = JStr (js ''ask'') \<and>
   list_all (\<lambda>t. jget (jprop (buildSessionConfig sample_spec) (js ''permission'')) t = JStr (js ''ask'')) (map fst GATED_PERMISSIONS)"
  using connector_calls_gated [OF refl, of sample_spec "js ''gh''"
      "JObj [(js ''type'', JStr (js ''http'')), (js ''url'', JStr (js ''http://127.0.0.1/mcp''))]"]
  by (simp add: sample_spec_def mcp_entry_def)

section \<open>Names reach the gate\<close>

definition names_slug :: "jstring \<Rightarrow> jstring \<Rightarrow> bool" where
  "names_slug name slug \<longleftrightarrow> length slug + 1 < length name \<and> starts_with name (slug @ [0x5F])"

lemma take_start: "starts_with w (b @ r) \<Longrightarrow> take (length b) w = b"
  by (auto simp: starts_with_prefix prefix_def)

lemma best_slug_step: "best_slug name (slugs @ [slug]) =
    (if names_slug name slug \<and> length (best_slug name slugs) < length slug then slug else best_slug name slugs)"
  by (simp add: best_slug_def names_slug_def)

lemma best_slug_props:
  "(best_slug name slugs = [] \<or> best_slug name slugs \<in> set slugs \<and> names_slug name (best_slug name slugs)) \<and>
   (\<forall>slug \<in> set slugs. names_slug name slug \<longrightarrow> length slug \<le> length (best_slug name slugs))"
  by (induction slugs rule: rev_induct) (auto simp: best_slug_step best_slug_def [of _ "[]"])

text \<open>
  An opencode connector call keeps its identity too. Of the session's connectors the one with
  the longest name the call's name goes on from is taken, the platform's own tools keep their
  names, and a call so attributed to a connector on the policy escalates.
\<close>

theorem opencode_tools_escalate:
  assumes "wire = slug @ [0x5F] @ tool" and "slug \<in> set slugs" and "slug \<noteq> []" and "tool \<noteq> []"
    and "wire \<notin> set RUN_TOOL_NAMES"
    and "\<And>s. s \<in> set slugs \<Longrightarrow> starts_with wire (s @ [0x5F]) \<Longrightarrow> length s \<le> length slug"
  shows "canonicalOpenCodeToolName (JStr wire) slugs = js ''mcp__'' @ slug @ js ''__'' @ tool \<and>
    isEscalatedTool (canonicalOpenCodeToolName (JStr wire) slugs) (JArr [JStr slug])"
proof -
  let ?b = "best_slug wire slugs"
  have "names_slug wire slug" using assms(1,4) by (simp add: names_slug_def starts_with_prefix prefix_def)
  then have len: "length slug \<le> length ?b" and ne: "?b \<noteq> []"
    using best_slug_props [of wire slugs] assms(2,3) by auto
  with best_slug_props [of wire slugs] have b: "?b \<in> set slugs" "names_slug wire ?b" by auto
  with assms(6) have "length ?b \<le> length slug" by (simp add: names_slug_def)
  with len have "length ?b = length slug" by simp
  moreover have "take (length ?b) wire = ?b" by (rule take_start [OF conjunct2 [OF b(2) [unfolded names_slug_def]]])
  moreover have "take (length slug) wire = slug" by (simp add: assms(1))
  ultimately have "?b = slug" by metis
  then have name: "canonicalOpenCodeToolName (JStr wire) slugs = js ''mcp__'' @ slug @ js ''__'' @ tool"
    using assms(3,5) by (simp add: canonicalOpenCodeToolName_def Let_def string_or_empty_def assms(1))
  have "starts_with (js ''mcp__'' @ slug @ js ''__'' @ tool) (js ''mcp__'' @ slug @ js ''__'')"
    using starts_with_append [of "js ''mcp__'' @ slug @ js ''__''" tool] by simp
  with name show ?thesis by (simp add: isEscalatedTool_def Let_def)
qed

theorem opencode_tools_escalate_witness:
  "canonicalOpenCodeToolName (JStr (js ''gh_app'' @ [0x5F] @ js ''open'')) [js ''gh'', js ''gh_app''] =
     js ''mcp__'' @ js ''gh_app'' @ js ''__'' @ js ''open''"
  by (rule opencode_tools_escalate [OF refl, THEN conjunct1])
    (auto simp: RUN_TOOL_NAMES_def SLEEP_def SLEEP_UNTIL_def WAIT_FOR_TASK_def js_Cons)

end
