(* ===== verification/CodexHistory.thy ===== *)
theory CodexHistory
  imports CodexRpc OpencodeTranslate HostFiles
begin

text \<open>
  The rollout of a codex thread and the conversation a rebuilt thread carries of it
  (\<^verbatim>\<open>drivers/codex.mjs\<close>, from \<^verbatim>\<open>fileExists\<close> on): finding and joining the rollout files,
  replaying their records the way codex resumes a thread, and leaving behind the instructions
  the old thread ran on. \<open>parse\<close> is \<^verbatim>\<open>JSON.parse\<close>. Orders and counts are the integers codex
  writes; where two retained messages of one role share an order, the stable one is taken.
\<close>

section \<open>Scopes and records\<close>

text \<open>\<^verbatim>\<open>/^\s*cli_auth_credentials_store\s*=\s*["'](keyring|auto)["']/m\<close> on one line's text.\<close>

definition keeps_store :: "jstring \<Rightarrow> bool" where
  "keeps_store t =
     (let key = js ''cli_auth_credentials_store''; u = dropWhile is_space t;
          v = dropWhile is_space (drop (length key) u); w = dropWhile is_space (tl v);
          quoted = (\<lambda>q x. starts_with (tl w) x \<and> take 1 (drop (length x) (tl w)) \<in> {[0x22], [0x27]})
      in starts_with u key \<and> take 1 v = [0x3D] \<and> take 1 w \<in> {[0x22], [0x27]} \<and>
         (quoted w (js ''keyring'') \<or> quoted w (js ''auto'')))"

text \<open>A line starts at the start of the text or after a line end; the white space may span lines.\<close>

fun line_starts :: "jstring \<Rightarrow> jstring list" where
  "line_starts [] = []"
| "line_starts (u # s) = (if line_end u then s # line_starts s else line_starts s)"

definition usesCredentialStore :: "jstring option \<Rightarrow> bool" where
  "usesCredentialStore config = (case config of
       None \<Rightarrow> False
     | Some cfg \<Rightarrow> list_ex keeps_store (cfg # line_starts cfg))"

definition isSharedScope :: "json \<Rightarrow> bool" where
  "isSharedScope scope = (case scope of
       JStr t \<Rightarrow> t = js ''shared'' \<or> starts_with t (js ''shared;'')
     | _ \<Rightarrow> False)"

record thread_record =
  tr_tools :: json
  tr_scope :: json

definition threadRecord :: "json \<Rightarrow> thread_record option" where
  "threadRecord value = (case value of
       JStr t \<Rightarrow> Some \<lparr>tr_tools = JStr t, tr_scope = JUndef\<rparr>
     | JObj kvs \<Rightarrow> Some \<lparr>
         tr_tools = (if is_str (jprop kvs (js ''tools'')) then jprop kvs (js ''tools'') else JUndef),
         tr_scope = (if is_str (jprop kvs (js ''scope'')) \<and> truthy (jprop kvs (js ''scope''))
                     then jprop kvs (js ''scope'') else JUndef)\<rparr>
     | _ \<Rightarrow> None)"

section \<open>Rollout files\<close>

text \<open>A file's bytes and what decompresses them, where this runtime can.\<close>

definition readRolloutBytes ::
    "(jstring \<Rightarrow> jstring + nat list) \<Rightarrow> (nat list \<Rightarrow> jstring + nat list) option \<Rightarrow> jstring \<Rightarrow> jstring + nat list" where
  "readRolloutBytes readFile zstd path = (case readFile path of
       Inl e \<Rightarrow> Inl e
     | Inr raw \<Rightarrow>
         if \<not> ends_with path (js ''.zst'') then Inr raw
         else (case zstd of
             None \<Rightarrow> Inl (js ''this node cannot read the compressed rollout '' @ path)
           | Some decompress \<Rightarrow> decompress raw))"

text \<open>The ids of a name; a digit of the time stamp stands as \<^verbatim>\<open>0\<close>.\<close>

definition stamp_like :: "jstring \<Rightarrow> bool" where
  "stamp_like t = list_all2 (\<lambda>p u. if p = 0x30 then is_digit u else u = p) (js ''0000-00-00T00-00-00-'') t"

definition plain_id :: "jstring \<Rightarrow> bool" where
  "plain_id t \<longleftrightarrow> t \<noteq> [] \<and> 0x2F \<notin> set t"

definition rolloutNameIds :: "jstring \<Rightarrow> (jstring \<times> jstring) option" where
  "rolloutNameIds name =
     (let body = drop 8 name; ids = drop 20 body;
          stem = (if ends_with ids (js ''.jsonl'') then take (length ids - 6) ids
                  else if ends_with ids (js ''.jsonl.zst'') then take (length ids - 10) ids else [])
      in if \<not> starts_with name (js ''rollout-'') \<or> \<not> stamp_like (take 20 body) then None
         else (case split_on 0x5F stem of
             [t] \<Rightarrow> if plain_id t then Some (t, t) else None
           | [t, r] \<Rightarrow> if plain_id t \<and> plain_id r then Some (t, r) else None
           | _ \<Rightarrow> None))"

text \<open>\<open>entries\<close> lists a directory with all below it, relative to it.\<close>

definition findRollouts :: "(jstring \<Rightarrow> jstring list) \<Rightarrow> jstring \<Rightarrow> (jstring \<Rightarrow> bool) \<Rightarrow> jstring list" where
  "findRollouts entries codexHome fits =
     concat (map (\<lambda>dir. map (\<lambda>e. dir @ [0x2F] @ e) (filter (\<lambda>e. fits (last (split_on 0x2F e))) (entries dir)))
       [codexHome @ js ''/sessions'', codexHome @ js ''/archived_sessions''])"

text \<open>Where the app-server's path leads, or the one file named for the thread.\<close>

definition locateRollout ::
    "(jstring \<Rightarrow> bool) \<Rightarrow> (jstring \<Rightarrow> jstring list) \<Rightarrow> jstring \<Rightarrow> json option \<Rightarrow> jstring \<Rightarrow> jstring + jstring" where
  "locateRollout exists entries codexHome read threadId =
     (let path = (case read of None \<Rightarrow> [] | Some r \<Rightarrow> str_or [] (jget (jget r (js ''thread'')) (js ''path'')));
          candidates = (if path \<noteq> [] then [path, path @ js ''.zst''] else []);
          found = findRollouts entries codexHome (\<lambda>name. map_option fst (rolloutNameIds name) = Some threadId)
      in case find exists candidates of
           Some p \<Rightarrow> Inr p
         | None \<Rightarrow>
             (case found of
                [p] \<Rightarrow> Inr p
              | [] \<Rightarrow> Inl (js ''no rollout for thread '' @ threadId)
              | _ \<Rightarrow> Inl (js ''thread '' @ threadId @ js '' has '' @ dec (length found) @
                         js '' rollout files and the app-server did not say which is current'')))"

section \<open>Records\<close>

definition compactedLineReadable :: "json \<Rightarrow> bool" where
  "compactedLineReadable payload =
     (let meta = jget payload (js ''replacement_history_metadata''); items = jget payload (js ''replacement_history'')
      in is_object_type payload \<and>
         (nullish meta \<or> is_arr meta \<and> is_arr items \<and> length (arr_or_nil meta) = length (arr_or_nil items)))"

definition rec_type :: "json \<Rightarrow> json" where "rec_type r = jget r (js ''type'')"
definition rec_payload :: "json \<Rightarrow> json" where "rec_payload r = jget r (js ''payload'')"
definition rec_metadata :: "json \<Rightarrow> json" where "rec_metadata r = jget r (js ''metadata'')"

definition rec_is :: "string \<Rightarrow> json \<Rightarrow> bool" where
  "rec_is t r \<longleftrightarrow> rec_type r = JStr (js t)"

definition readable_record :: "json \<Rightarrow> bool" where
  "readable_record r \<longleftrightarrow> is_object_type r \<and> is_str (rec_type r) \<and>
     \<not> (rec_is ''compacted'' r \<and> \<not> compactedLineReadable (rec_payload r))"

fun record_lines :: "(jstring \<Rightarrow> json option) \<Rightarrow> jstring list \<Rightarrow> json list" where
  "record_lines parse [] = []"
| "record_lines parse (line # lines) =
     (if trim line = [] then record_lines parse lines
      else case parse line of
          None \<Rightarrow> record_lines parse lines
        | Some r \<Rightarrow> if readable_record r then r # record_lines parse lines else record_lines parse lines)"

definition parseRolloutLines :: "(jstring \<Rightarrow> json option) \<Rightarrow> jstring \<Rightarrow> json list" where
  "parseRolloutLines parse s = record_lines parse (split_on 10 s)"

definition rolloutSessionMeta :: "(jstring \<Rightarrow> json option) \<Rightarrow> jstring \<Rightarrow> json" where
  "rolloutSessionMeta parse s = (case find (rec_is ''session_meta'') (parseRolloutLines parse s) of
       None \<Rightarrow> JUndef
     | Some r \<Rightarrow> rec_payload r)"

text \<open>The rollouts a thread continues, oldest first; \<open>seen\<close> has those already joined.\<close>

function lineage_from ::
    "(jstring \<Rightarrow> json option) \<Rightarrow> (jstring \<Rightarrow> jstring + nat list) \<Rightarrow> (jstring \<Rightarrow> jstring list) \<Rightarrow>
     jstring list \<Rightarrow> jstring list \<Rightarrow> jstring \<Rightarrow> jstring + jstring list" where
  "lineage_from parse bytes rollouts seen segments s =
     (let base = jget (rolloutSessionMeta parse s) (js ''history_base'');
          rolloutId = str_or [] (jget base (js ''thread_id''))
      in if \<not> truthy base then Inr (s # segments)
         else if \<not> is_str (jget base (js ''thread_id'')) \<or> rolloutId \<in> set seen \<or> length seen \<ge> 64
         then Inl (js ''the rollout lineage is malformed (a cycle, or deeper than 64)'')
         else (case rollouts rolloutId of
             [p] \<Rightarrow>
               (case bytes p of
                  Inl e \<Rightarrow> Inl e
                | Inr bs \<Rightarrow>
                    (case safe_number (jget base (js ''end_byte_offset'')) of
                       Some n \<Rightarrow>
                         if n < 0 \<or> n > int (length bs)
                         then Inl (js ''rollout '' @ rolloutId @ js '' is shorter than the history that continues it'')
                         else lineage_from parse bytes rollouts (rolloutId # seen) (s # segments)
                                (utf8_decode (take (nat n) bs))
                     | None \<Rightarrow> Inl (js ''rollout '' @ rolloutId @ js '' is shorter than the history that continues it'')))
           | _ \<Rightarrow> Inl (js ''cannot find the single rollout '' @ rolloutId @ js '' the history continues'')))"
  by pat_completeness auto
termination by (relation "measure (\<lambda>(parse, bytes, rollouts, seen, segments, s). 64 - length seen)") auto

declare lineage_from.simps [simp del]

definition readCodexRolloutLineage ::
    "(jstring \<Rightarrow> json option) \<Rightarrow> (jstring \<Rightarrow> jstring + nat list) \<Rightarrow> (jstring \<Rightarrow> jstring list) \<Rightarrow>
     jstring \<Rightarrow> jstring \<Rightarrow> jstring + jstring list" where
  "readCodexRolloutLineage parse bytes entries codexHome path = (case bytes path of
       Inl e \<Rightarrow> Inl e
     | Inr bs \<Rightarrow> lineage_from parse bytes
         (\<lambda>i. findRollouts entries codexHome (\<lambda>name. map_option snd (rolloutNameIds name) = Some i)) [] [] (utf8_decode bs))"

section \<open>Context codex wrote itself\<close>

definition is_word_char :: "jchar \<Rightarrow> bool" where
  "is_word_char u \<longleftrightarrow> is_alnum u \<or> u = 0x5F"

text \<open>
  The hook prompt's expression: what may be left after a quoted value with a character other
  than white space, and the attribute at some place between word boundaries.
\<close>

definition after_value :: "jstring \<Rightarrow> jstring list" where
  "after_value s =
     (let v = takeWhile (\<lambda>u. u \<noteq> 0x22) s; r = drop (length v) s;
          w = takeWhile (\<lambda>u. u \<noteq> 0x22) (tl r); q = drop (length w) (tl r)
      in (if list_ex (\<lambda>u. \<not> is_space u) v \<and> r \<noteq> [] then [tl r] else []) @
         (if r \<noteq> [] \<and> q \<noteq> [] then [tl q] else []))"

definition closes_prompt :: "jstring \<Rightarrow> bool" where
  "closes_prompt s =
     (let r = dropWhile (\<lambda>u. u \<noteq> 0x3E) s in r \<noteq> [] \<and> ends_with (tl r) (js ''</hook_prompt>''))"

definition hook_prompt :: "jstring \<Rightarrow> bool" where
  "hook_prompt t =
     (let s = drop 12 t; key = js ''hook_run_id='' @ [0x22]
      in starts_with t (js ''<hook_prompt'') \<and>
         list_ex (\<lambda>k. let a = take k s; r = drop k s
           in a \<noteq> [] \<and> 0x3E \<notin> set a \<and> \<not> is_word_char (hd a) \<and> \<not> is_word_char (last a) \<and>
              starts_with r key \<and> list_ex closes_prompt (after_value (drop (length key) r))) [0..<length s])"

definition CONTEXTUAL_USER_MARKERS :: "(jstring \<times> jstring) list" where
  "CONTEXTUAL_USER_MARKERS =
     [(js ''# AGENTS.md instructions'', js ''</INSTRUCTIONS>''),
      (js ''<environment_context>'', js ''</environment_context>''),
      (js ''<agent_message_board_notification>'', js ''</agent_message_board_notification>''),
      (js ''<skill>'', js ''</skill>''),
      (js ''<user_shell_command>'', js ''</user_shell_command>''),
      (js ''<turn_aborted>'', js ''</turn_aborted>''),
      (js ''<subagent_notification>'', js ''</subagent_notification>''),
      (js ''<recommended_plugins>'', js ''</recommended_plugins>'')]"

definition markedText :: "jstring \<Rightarrow> jstring \<Rightarrow> jstring \<Rightarrow> bool" where
  "markedText start ending s =
     (let head = dropWhile is_space s; whole = trim_end head
      in to_lower (take (length start) head) = to_lower start \<and> length whole \<ge> length ending \<and>
         to_lower (drop (length whole - length ending) whole) = to_lower ending)"

definition external_context :: "jstring \<Rightarrow> bool" where
  "external_context t =
     (let r = drop 10 t; k = takeWhile (\<lambda>u. u \<noteq> 0x3E) r
      in starts_with t (js ''<external_'') \<and> drop (length k) r \<noteq> [] \<and>
         ends_with t (js ''</external_'' @ k @ [0x3E]))"

definition internal_context :: "jstring \<Rightarrow> bool" where
  "internal_context t =
     (let start = js ''<codex_internal_context source='' @ [0x22]; r = drop (length start) t;
          k = takeWhile (\<lambda>u. is_lower_alnum u \<or> u = 0x5F) r
      in starts_with t start \<and> k \<noteq> [] \<and> 97 \<le> hd k \<and> hd k \<le> 122 \<and>
         starts_with (drop (length k) r) [0x22, 0x3E] \<and> ends_with t (js ''</codex_internal_context>''))"

definition isCodexContextualUserText :: "json \<Rightarrow> bool" where
  "isCodexContextualUserText v = (case v of
       JStr s \<Rightarrow> (let t = trim s
         in hook_prompt t \<or> list_ex (\<lambda>(start, ending). markedText start ending s) CONTEXTUAL_USER_MARKERS \<or>
            external_context t \<or>
            starts_with t (js ''<goal_context>'') \<and> ends_with t (js ''</goal_context>'') \<or>
            internal_context t \<or>
            starts_with t (js ''Warning: apply_patch was requested via '') \<and>
              ends_with t (js ''Use the apply_patch tool instead of exec_command.'') \<or>
            starts_with t (js ''Warning: Your account was flagged for potentially high-risk cyber activity'') \<or>
            starts_with t (js ''Warning: The maximum number of unified exec processes you can keep open is''))
     | _ \<Rightarrow> False)"

definition isContextualUserContent :: "json \<Rightarrow> bool" where
  "isContextualUserContent content = (case content of
       JArr cs \<Rightarrow> list_ex (\<lambda>c. jget c (js ''type'') = JStr (js ''input_text'') \<and>
                               isCodexContextualUserText (jget c (js ''text''))) cs
     | _ \<Rightarrow> False)"

section \<open>Items\<close>

definition CODEX_SUMMARY_PREFIX :: jstring where
  "CODEX_SUMMARY_PREFIX = js ''Another language model started to solve this problem and produced a summary '' @
     js ''of its thinking process. You also have access to the state of the tools that were used by that language '' @
     js ''model. Use this to build on the work that has already been done and avoid duplicating work. Here is the '' @
     js ''summary produced by the other language model, use the information in this summary to assist with your '' @
     js ''own analysis:''"

definition HISTORY_ITEM_TYPES :: "jstring list" where
  "HISTORY_ITEM_TYPES = map js
     [''message'', ''agent_message'', ''reasoning'', ''local_shell_call'', ''function_call'', ''function_call_output'',
      ''tool_search_call'', ''tool_search_output'', ''custom_tool_call'', ''custom_tool_call_output'', ''web_search_call'',
      ''image_generation_call'', ''compaction'', ''compaction_summary'', ''context_compaction'', ''additional_tools'']"

definition item_is :: "string \<Rightarrow> json \<Rightarrow> bool" where
  "item_is t item \<longleftrightarrow> jget item (js ''type'') = JStr (js t)"

definition role_is :: "string \<Rightarrow> json \<Rightarrow> bool" where
  "role_is r item \<longleftrightarrow> jget item (js ''role'') = JStr (js r)"

definition isEncryptedCompaction :: "json \<Rightarrow> bool" where
  "isEncryptedCompaction item \<longleftrightarrow>
     item_is ''compaction'' item \<or> item_is ''compaction_summary'' item \<or> item_is ''context_compaction'' item"

definition isHistoryItem :: "json \<Rightarrow> json \<Rightarrow> bool" where
  "isHistoryItem item metadata =
     (if \<not> is_object_type item then False
      else if item_is ''message'' item then \<not> role_is ''system'' item
      else if item_is ''configuration_update'' item
      then truthy (jget metadata (js ''harness_authored_configuration''))
      else jget item (js ''type'') \<in> JStr ` set HISTORY_ITEM_TYPES)"

definition isDeliveredAssistantMessage :: "json \<Rightarrow> json \<Rightarrow> bool" where
  "isDeliveredAssistantMessage item metadata =
     (case jget metadata (js ''delivered_assistant_message'') of
        JStr marker \<Rightarrow> \<not> nullish (jget metadata (js ''user_input_order'')) \<and>
          (marker = js ''codex:code-mode-delivery:v1:complete'' \<or>
           starts_with marker (js ''codex:code-mode-delivery:v1:incomplete:'')) \<and>
          item_is ''message'' item \<and> role_is ''assistant'' item \<and>
          (case jget item (js ''content'') of
             JArr [c] \<Rightarrow> item_is ''output_text'' c
           | _ \<Rightarrow> False) \<and>
          \<not> nullish (jget (jget item (js ''internal_chat_message_metadata_passthrough'')) (js ''turn_id''))
      | _ \<Rightarrow> False)"

definition isInterAgentContent :: "(jstring \<Rightarrow> json option) \<Rightarrow> json list \<Rightarrow> bool" where
  "isInterAgentContent parse content = (case content of
       [c] \<Rightarrow> (case jget c (js ''text'') of
           JStr t \<Rightarrow> (item_is ''input_text'' c \<or> item_is ''output_text'' c) \<and>
             (case parse t of
                None \<Rightarrow> False
              | Some v \<Rightarrow> is_str (jget v (js ''author'')) \<and> is_str (jget v (js ''recipient'')) \<and>
                  is_str (jget v (js ''content'')) \<and>
                  (case jget v (js ''trigger_turn'') of JBool b \<Rightarrow> True | _ \<Rightarrow> False))
         | _ \<Rightarrow> False)
     | _ \<Rightarrow> False)"

definition summary_part :: "json \<Rightarrow> bool" where
  "summary_part c = (case jget c (js ''text'') of
       JStr t \<Rightarrow> item_is ''input_text'' c \<and> starts_with t (CODEX_SUMMARY_PREFIX @ [10])
     | _ \<Rightarrow> False)"

definition isUserTurnBoundary :: "(jstring \<Rightarrow> json option) \<Rightarrow> json \<Rightarrow> bool" where
  "isUserTurnBoundary parse item =
     (let content = arr_or_nil (jget item (js ''content''))
      in if item_is ''agent_message'' item then True
         else if \<not> item_is ''message'' item then False
         else if role_is ''user'' item
         then \<not> isContextualUserContent (JArr content) \<and> \<not> list_ex summary_part content
         else role_is ''assistant'' item \<and> isInterAgentContent parse content)"

text \<open>\<^verbatim>\<open>Number.isFinite\<close> of an order, and the count of turns of a rollback.\<close>

fun int_option :: "json \<Rightarrow> int option" where
  "int_option (JInt n) = Some n"
| "int_option _ = None"

definition acceptanceOrder :: "json \<Rightarrow> int option" where
  "acceptanceOrder metadata =
     (if truthy (jget metadata (js ''inherited_user_message'')) then None
      else int_option (jget metadata (js ''user_input_order'')))"

definition turn_count :: "json \<Rightarrow> nat" where
  "turn_count v = (case safe_number v of None \<Rightarrow> 0 | Some n \<Rightarrow> nat n)"

section \<open>What a compaction leaves\<close>

text \<open>An item of the history with its metadata.\<close>

type_synonym kept_item = "json \<times> json"

fun paired :: "json list \<Rightarrow> json list \<Rightarrow> kept_item list" where
  "paired [] metas = []"
| "paired (item # items) [] = (item, JUndef) # paired items []"
| "paired (item # items) (m # metas) = (item, if nullish m then JUndef else m) # paired items metas"

definition replacementHistory :: "json \<Rightarrow> kept_item list" where
  "replacementHistory compacted =
     paired (arr_or_nil (jget compacted (js ''replacement_history'')))
            (arr_or_nil (jget compacted (js ''replacement_history_metadata'')))"

definition retained_item :: "string \<Rightarrow> json \<Rightarrow> json" where
  "retained_item role m =
     JObj ([(js ''type'', JStr (js ''message'')), (js ''role'', JStr (js role)),
       (js ''content'', JArr [JObj [
          (js ''type'', JStr (js (if role = ''user'' then ''input_text'' else ''output_text''))),
          (js ''text'', jget m (js ''text''))]])] @
       (if role = ''assistant'' \<and> is_str (jget m (js ''phase'')) \<and> truthy (jget m (js ''phase''))
        then [(js ''phase'', jget m (js ''phase''))] else []))"

definition retainable :: "json \<Rightarrow> bool" where
  "retainable m \<longleftrightarrow> is_str (jget m (js ''text'')) \<and> truthy (jget m (js ''text'')) \<and>
     int_option (jget m (js ''order'')) \<noteq> None \<and> \<not> truthy (jget m (js ''inherited''))"

definition retained_order :: "json \<Rightarrow> int" where
  "retained_order m = the (int_option (jget m (js ''order'')))"

definition retainedMessages :: "json \<Rightarrow> string \<Rightarrow> (int \<times> json) list" where
  "retainedMessages ms role =
     map (\<lambda>m. (retained_order m, retained_item role m)) (sort_key retained_order (filter retainable (arr_or_nil ms)))"

definition plain_user :: "kept_item \<Rightarrow> bool" where
  "plain_user e \<longleftrightarrow> item_is ''message'' (fst e) \<and> role_is ''user'' (fst e) \<and>
     \<not> isContextualUserContent (jget (fst e) (js ''content''))"

definition user_order :: "kept_item \<Rightarrow> int option" where
  "user_order e = (if plain_user e then acceptanceOrder (snd e) else None)"

fun interleave :: "kept_item list \<Rightarrow> (int \<times> json) list \<Rightarrow> kept_item list" where
  "interleave [] replies = map (\<lambda>r. (snd r, JUndef)) replies"
| "interleave (e # kept) replies =
     (let before = (case user_order e of None \<Rightarrow> [] | Some k \<Rightarrow> takeWhile (\<lambda>r. fst r < k) replies)
      in map (\<lambda>r. (snd r, JUndef)) before @ e # interleave kept (drop (length before) replies))"

text \<open>The sort is stable: users come before replies of the same order.\<close>

definition merged :: "(int \<times> json) list \<Rightarrow> (int \<times> json) list \<Rightarrow> kept_item list" where
  "merged users replies =
     map (\<lambda>r. (snd r, JUndef)) (sort_key fst (users @ replies))"

definition checkpointHistory :: "json \<Rightarrow> kept_item list" where
  "checkpointHistory compacted =
     (let replaced = replacementHistory compacted;
          kept = filter (\<lambda>e. \<not> isEncryptedCompaction (fst e)) replaced;
          retained = jget compacted (js ''retained_context'');
          replies = retainedMessages (jget retained (js ''assistant_messages'')) ''assistant''
      in if \<not> list_ex (\<lambda>e. isEncryptedCompaction (fst e)) replaced then replaced
         else if replies = [] then kept
         else if list_ex (\<lambda>e. plain_user e \<and> acceptanceOrder (snd e) = None) kept
         then merged (retainedMessages (jget retained (js ''user_messages'')) ''user'') replies
         else interleave kept replies)"

section \<open>Where the replay starts\<close>

record turn_segment =
  sg_turnId :: json
  sg_userTurn :: bool
  sg_checkpoint :: "nat option"

record replay_scan =
  rs_rollback :: nat
  rs_found :: "nat option"
  rs_segment :: "turn_segment option"

definition fresh_segment :: turn_segment where
  "fresh_segment = \<lparr>sg_turnId = JUndef, sg_userTurn = False, sg_checkpoint = None\<rparr>"

definition opened :: "(turn_segment \<Rightarrow> turn_segment) \<Rightarrow> replay_scan \<Rightarrow> replay_scan" where
  "opened f c = c\<lparr>rs_segment := Some (f (case rs_segment c of Some g \<Rightarrow> g | None \<Rightarrow> fresh_segment))\<rparr>"

definition close_segment :: "replay_scan \<Rightarrow> replay_scan" where
  "close_segment c = (case rs_segment c of
       None \<Rightarrow> c
     | Some g \<Rightarrow>
         if rs_rollback c > 0
         then c\<lparr>rs_segment := None, rs_rollback := rs_rollback c - (if sg_userTurn g then 1 else 0)\<rparr>
         else c\<lparr>rs_segment := None, rs_found := (if rs_found c = None then sg_checkpoint g else rs_found c)\<rparr>)"

definition name_turn :: "json \<Rightarrow> turn_segment \<Rightarrow> turn_segment" where
  "name_turn i g = (if nullish (sg_turnId g) then g\<lparr>sg_turnId := i\<rparr> else g)"

definition user_turn :: "turn_segment \<Rightarrow> turn_segment" where
  "user_turn g = g\<lparr>sg_userTurn := True\<rparr>"

definition scan_event :: "json \<Rightarrow> replay_scan \<Rightarrow> replay_scan" where
  "scan_event payload c =
     (let turnId = jget payload (js ''turn_id'')
      in if item_is ''thread_rolled_back'' payload
         then c\<lparr>rs_rollback := rs_rollback c + turn_count (jget payload (js ''num_turns''))\<rparr>
         else if item_is ''task_complete'' payload \<or> item_is ''turn_complete'' payload then opened (name_turn turnId) c
         else if item_is ''turn_aborted'' payload
         then (if rs_segment c \<noteq> None \<or> \<not> nullish turnId then opened (name_turn turnId) c else c)
         else if item_is ''user_message'' payload then opened user_turn c
         else if item_is ''task_started'' payload \<or> item_is ''turn_started'' payload
         then (case rs_segment c of
             None \<Rightarrow> c
           | Some g \<Rightarrow> if nullish (sg_turnId g) \<or> nullish turnId \<or> sg_turnId g = turnId then close_segment c else c)
         else c)"

definition scan_record :: "(jstring \<Rightarrow> json option) \<Rightarrow> nat \<times> json \<Rightarrow> replay_scan \<Rightarrow> replay_scan" where
  "scan_record parse ir c =
     (let r = snd ir; payload = rec_payload r
      in if rec_is ''compacted'' r
         then opened (\<lambda>g. if sg_checkpoint g = None \<and> is_arr (jget payload (js ''replacement_history''))
                          then g\<lparr>sg_checkpoint := Some (fst ir)\<rparr> else g) c
         else if rec_is ''turn_context'' r then opened (name_turn (jget payload (js ''turn_id''))) c
         else if rec_is ''world_state'' r then opened id c
         else if rec_is ''response_item'' r
         then (if isDeliveredAssistantMessage payload (rec_metadata r) then c
               else if isUserTurnBoundary parse payload then opened user_turn c else opened id c)
         else if rec_is ''inter_agent_communication'' r then opened user_turn c
         else if rec_is ''event_msg'' r then scan_event payload c
         else c)"

definition newest_compaction :: "json list \<Rightarrow> nat option" where
  "newest_compaction records = find (\<lambda>i. rec_is ''compacted'' (records ! i)) (rev [0..<length records])"

definition bounds_replay :: "jstring \<Rightarrow> json \<Rightarrow> bool" where
  "bounds_replay historyMode c \<longleftrightarrow> is_arr (jget c (js ''replacement_history'')) \<and> \<not> nullish (jget c (js ''window_number'')) \<and>
     (\<not> nullish (jget c (js ''resume_metadata'')) \<or> historyMode = js ''paginated'')"

definition replayCheckpoint :: "(jstring \<Rightarrow> json option) \<Rightarrow> json list \<Rightarrow> jstring \<Rightarrow> nat option" where
  "replayCheckpoint parse records historyMode = (case newest_compaction records of
       None \<Rightarrow> None
     | Some newest \<Rightarrow>
         if bounds_replay historyMode (rec_payload (records ! newest)) then Some newest
         else rs_found (close_segment (fold (scan_record parse) (rev (List.enumerate 0 records))
                \<lparr>rs_rollback = 0, rs_found = None, rs_segment = None\<rparr>)))"

section \<open>The history and what is carried of it\<close>

definition boundary_positions :: "(jstring \<Rightarrow> json option) \<Rightarrow> kept_item list \<Rightarrow> nat list" where
  "boundary_positions parse history = filter (\<lambda>i. isUserTurnBoundary parse (fst (history ! i))) [0..<length history]"

definition is_reply :: "json \<Rightarrow> bool" where
  "is_reply item \<longleftrightarrow> item_is ''message'' item \<and> role_is ''assistant'' item \<or> item_is ''function_call'' item"

definition dropLastUserTurns :: "(jstring \<Rightarrow> json option) \<Rightarrow> kept_item list \<Rightarrow> nat \<Rightarrow> kept_item list" where
  "dropLastUserTurns parse history n =
     (let positions = boundary_positions parse history;
          cut = (if n \<ge> length positions then hd positions else positions ! (length positions - n));
          boundary = acceptanceOrder (snd (history ! cut))
      in if n = 0 \<or> positions = [] then history
         else filter (\<lambda>e. case boundary of
                None \<Rightarrow> True
              | Some b \<Rightarrow> (case acceptanceOrder (snd e) of
                    None \<Rightarrow> True
                  | Some k \<Rightarrow> \<not> (is_reply (fst e) \<and> k \<ge> b))) (take cut history))"

fun replay :: "(jstring \<Rightarrow> json option) \<Rightarrow> json list \<Rightarrow> kept_item list \<Rightarrow> jstring + kept_item list" where
  "replay parse [] history = Inr history"
| "replay parse (r # records) history =
     (let payload = rec_payload r; metadata = rec_metadata r
      in if rec_is ''response_item'' r
         then replay parse records
                (if isHistoryItem payload metadata \<and> \<not> isDeliveredAssistantMessage payload metadata
                 then history @ [(payload, metadata)] else history)
         else if rec_is ''compacted'' r
         then (if is_arr (jget payload (js ''replacement_history'')) then replay parse records history
               else Inl (js ''a legacy compaction without replacement_history''))
         else if rec_is ''event_msg'' r \<and> item_is ''thread_rolled_back'' payload
         then replay parse records (dropLastUserTurns parse history (turn_count (jget payload (js ''num_turns''))))
         else if rec_is ''inter_agent_communication'' r
         then Inl (js ''multi-agent messages, which this driver never starts'')
         else replay parse records history)"

definition WITHHELD_OUTPUT :: jstring where
  "WITHHELD_OUTPUT = js ''[This output was encrypted for another session and is not carried over.]''"

definition open_parts :: "json list \<Rightarrow> json list" where
  "open_parts cs = filter (\<lambda>c. \<not> item_is ''encrypted_content'' c) cs"

definition plain_content :: "json_obj \<Rightarrow> json_obj" where
  "plain_content kvs = (case jprop kvs (js ''content'') of
       JArr cs \<Rightarrow> jput (js ''content'') (JArr (open_parts cs)) kvs
     | _ \<Rightarrow> kvs)"

definition plain_output :: "json_obj \<Rightarrow> json_obj" where
  "plain_output kvs = (case jprop kvs (js ''output'') of
       JArr cs \<Rightarrow> jput (js ''output'')
         (if open_parts cs = [] \<and> cs \<noteq> [] then JStr WITHHELD_OUTPUT else JArr (open_parts cs)) kvs
     | _ \<Rightarrow> kvs)"

definition plainItem :: "json \<Rightarrow> json list" where
  "plainItem item =
     (if \<not> is_object_type item then []
      else if role_is ''developer'' item \<or> role_is ''system'' item then []
      else if item_is ''message'' item \<and> role_is ''user'' item \<and>
              isContextualUserContent (jget item (js ''content'')) then []
      else if item_is ''reasoning'' item \<or> item_is ''configuration_update'' item \<or> item_is ''agent_message'' item \<or>
              isEncryptedCompaction item then []
      else [JObj (plain_output (plain_content
              (AList.delete (js ''encrypted_function_args'') (AList.delete (js ''id'') (fields_of item)))))])"

definition history_mode :: "json \<Rightarrow> jstring + jstring" where
  "history_mode meta =
     (let m = or_nullish (jget meta (js ''history_mode'')) (JStr (js ''legacy''))
      in if m = JStr (js ''legacy'') \<or> m = JStr (js ''paginated'') then Inr (str_or [] m)
         else Inl (js ''unknown codex history mode '' @ [0x22] @ js_String m @ [0x22]))"

definition carried_history :: "(jstring \<Rightarrow> json option) \<Rightarrow> jstring \<Rightarrow> json list \<Rightarrow> jstring + json list" where
  "carried_history parse mode records =
     (let checkpoint = replayCheckpoint parse records mode;
          start = (case checkpoint of None \<Rightarrow> [] | Some i \<Rightarrow> checkpointHistory (rec_payload (records ! i)));
          rest = (case checkpoint of None \<Rightarrow> records | Some i \<Rightarrow> drop (i + 1) records)
      in map_sum id (\<lambda>history. concat (map (plainItem \<circ> fst) history)) (replay parse rest start))"

definition lineage_records :: "(jstring \<Rightarrow> json option) \<Rightarrow> jstring list \<Rightarrow> json list" where
  "lineage_records parse segments = concat (map (parseRolloutLines parse) segments)"

definition codexRolloutHistory ::
    "(jstring \<Rightarrow> json option) \<Rightarrow> jstring list \<Rightarrow> jstring \<Rightarrow> jstring + json list" where
  "codexRolloutHistory parse segments threadId =
     (let own = parseRolloutLines parse (if segments = [] then [] else last segments);
          meta = (case find (rec_is ''session_meta'') own of None \<Rightarrow> JUndef | Some r \<Rightarrow> rec_payload r);
          records = lineage_records parse (butlast segments) @ own
      in if \<not> is_object_type meta then Inl (js ''not a codex rollout (no session_meta)'')
         else if threadId \<noteq> [] \<and> jget meta (js ''id'') \<noteq> JStr threadId
         then Inl (js ''the rollout is thread '' @ js_String (jget meta (js ''id'')) @ [0x27] @ js ''s, not '' @
                   threadId @ [0x27] @ js ''s'')
         else (case history_mode meta of
             Inl e \<Rightarrow> Inl e
           | Inr mode \<Rightarrow>
               if length segments > 1 \<and> mode \<noteq> js ''paginated''
               then Inl (js ''a history base on a thread that is not paginated'')
               else carried_history parse mode records))"

section \<open>What a rebuilt thread carries\<close>

definition carried :: "json \<Rightarrow> bool" where
  "carried item \<longleftrightarrow>
     \<not> role_is ''developer'' item \<and> \<not> role_is ''system'' item \<and>
     \<not> (item_is ''message'' item \<and> role_is ''user'' item \<and> isContextualUserContent (jget item (js ''content''))) \<and>
     \<not> item_is ''reasoning'' item \<and> \<not> item_is ''agent_message'' item \<and> \<not> isEncryptedCompaction item \<and>
     jget item (js ''id'') = JUndef \<and> jget item (js ''encrypted_function_args'') = JUndef \<and>
     list_all (\<lambda>c. \<not> item_is ''encrypted_content'' c)
       (arr_or_nil (jget item (js ''content'')) @ arr_or_nil (jget item (js ''output'')))"

lemma jprop_content:
  "jprop (plain_content kvs) k = (if k = js ''content'' \<and> is_arr (jprop kvs k)
     then JArr (open_parts (arr_or_nil (jprop kvs k))) else jprop kvs k)"
  by (auto simp: plain_content_def split: json.splits)

lemma jprop_output:
  "k \<noteq> js ''output'' \<Longrightarrow> jprop (plain_output kvs) k = jprop kvs k"
  "list_all (\<lambda>c. \<not> item_is ''encrypted_content'' c) (arr_or_nil (jprop (plain_output kvs) (js ''output'')))"
  by (auto simp: plain_output_def open_parts_def list_all_iff split: json.splits)

lemma fields_of_get:
  assumes "\<not> list_all is_digit k" and "is_object_type v"
  shows "jprop (fields_of v) k = jget v k"
proof (cases v)
  case (JArr xs)
  have "dec i \<noteq> k" for i using assms(1) dec_digits [of i] by (auto simp: list_all_iff)
  then have "map_of (map (\<lambda>(i, x). (dec i, x)) (List.enumerate 0 xs)) k = None"
    by (force simp: map_of_eq_None_iff)
  then show ?thesis by (simp add: JArr jprop_def)
qed (use assms(2) in \<open>simp_all add: is_object_type_def\<close>)

lemma non_digit_keys:
  "\<not> list_all is_digit (js ''role'')" "\<not> list_all is_digit (js ''type'')" "\<not> list_all is_digit (js ''content'')"
  "\<not> list_all is_digit (js ''output'')" "\<not> list_all is_digit (js ''id'')" "\<not> list_all is_digit (js ''encrypted_function_args'')"
  by (simp_all add: js_def is_digit_def)

lemma contextual_open: "isContextualUserContent (JArr (open_parts cs)) = isContextualUserContent (JArr cs)"
  by (induction cs) (auto simp: isContextualUserContent_def open_parts_def item_is_def)

lemma plainItem_carried: "list_all carried (plainItem item)"
proof (cases "plainItem item")
  case (Cons i rest)
  let ?kvs = "AList.delete (js ''encrypted_function_args'') (AList.delete (js ''id'') (fields_of item))"
  have obj: "is_object_type item" and i: "i = JObj (plain_output (plain_content ?kvs))" "rest = []"
    using Cons by (auto simp: plainItem_def split: if_splits)
  have get: "jget i k = jget item k" if "k = js ''role'' \<or> k = js ''type''" for k
    using that obj i fields_of_get [of k item] non_digit_keys
    by (auto simp: jprop_output jprop_content jprop_delete)
  have content: "jget i (js ''content'') = (let c = jget item (js ''content'') in if is_arr c then JArr (open_parts (arr_or_nil c)) else c)"
    using obj i fields_of_get [of "js ''content''" item] non_digit_keys
    by (simp add: jprop_output jprop_content jprop_delete Let_def)
  have gone: "jget i (js ''id'') = JUndef" "jget i (js ''encrypted_function_args'') = JUndef"
    by (simp_all add: i jprop_output jprop_content jprop_delete)
  have same: "role_is r i = role_is r item" "item_is t i = item_is t item" "isEncryptedCompaction i = isEncryptedCompaction item" for r t
    by (simp_all add: role_is_def item_is_def isEncryptedCompaction_def get)
  have ctx: "isContextualUserContent (jget i (js ''content'')) = isContextualUserContent (jget item (js ''content''))"
    using contextual_open [of "arr_or_nil (jget item (js ''content''))"]
    by (cases "jget item (js ''content'')") (simp_all add: content Let_def)
  have parts: "list_all (\<lambda>c. \<not> item_is ''encrypted_content'' c) (arr_or_nil (jget i (js ''content'')) @ arr_or_nil (jget i (js ''output'')))"
  proof -
    have "list_all (\<lambda>c. \<not> item_is ''encrypted_content'' c) (arr_or_nil (jget i (js ''content'')))"
      by (cases "jget item (js ''content'')") (simp_all add: content Let_def open_parts_def list_all_iff)
    with jprop_output(2) [of "plain_content ?kvs"] show ?thesis by (simp add: i(1))
  qed
  have "carried i"
    using Cons obj parts by (simp add: carried_def same gone ctx plainItem_def split: if_splits)
  then show ?thesis using Cons i(2) by simp
qed simp

lemma rebuilt_items_carried: "codexRolloutHistory parse segments threadId = Inr items \<Longrightarrow> list_all carried items"
proof -
  have "list_all carried (concat (map (plainItem \<circ> fst) h))" for h :: "kept_item list"
    using plainItem_carried by (induction h) auto
  then show "codexRolloutHistory parse segments threadId = Inr items \<Longrightarrow> list_all carried items"
    by (auto simp: codexRolloutHistory_def carried_history_def Let_def map_sum_def split: sum.splits if_splits)
qed


section \<open>Where the replay starts\<close>

definition replaceable :: "json \<Rightarrow> bool" where
  "replaceable r \<longleftrightarrow> rec_is ''compacted'' r \<and> is_arr (jget (rec_payload r) (js ''replacement_history''))"

definition newest_replaceable :: "json list \<Rightarrow> nat option" where
  "newest_replaceable records = find (\<lambda>i. replaceable (records ! i)) (rev [0..<length records])"

definition rolls_back :: "json \<Rightarrow> bool" where
  "rolls_back r \<longleftrightarrow> rec_is ''event_msg'' r \<and> item_is ''thread_rolled_back'' (rec_payload r)"

text \<open>What a scan has found, the open segment's compaction included.\<close>

definition scan_sees :: "replay_scan \<Rightarrow> nat option" where
  "scan_sees c = (if rs_found c \<noteq> None then rs_found c
     else case rs_segment c of None \<Rightarrow> None | Some g \<Rightarrow> sg_checkpoint g)"

lemma sees_opened:
  "scan_sees (opened f c) = (if rs_found c \<noteq> None then rs_found c
     else sg_checkpoint (f (case rs_segment c of Some g \<Rightarrow> g | None \<Rightarrow> fresh_segment)))"
  "rs_rollback (opened f c) = rs_rollback c"
  by (auto simp: scan_sees_def opened_def)

lemma sg_checkpoint_marks [simp]:
  "sg_checkpoint (name_turn i g) = sg_checkpoint g" "sg_checkpoint (user_turn g) = sg_checkpoint g"
  "sg_checkpoint fresh_segment = None"
  by (simp_all add: name_turn_def user_turn_def fresh_segment_def)

lemma sees_marked:
  "(\<And>g. sg_checkpoint (f g) = sg_checkpoint g) \<Longrightarrow> scan_sees (opened f c) = scan_sees c"
  by (auto simp: sees_opened(1)) (auto simp: scan_sees_def split: option.splits)

lemma sees_close: "rs_rollback c = 0 \<Longrightarrow> scan_sees (close_segment c) = scan_sees c \<and> rs_rollback (close_segment c) = 0"
  by (auto simp: scan_sees_def close_segment_def split: option.splits)

lemma scan_event_sees:
  assumes "rs_rollback c = 0" and "\<not> item_is ''thread_rolled_back'' payload"
  shows "scan_sees (scan_event payload c) = scan_sees c \<and> rs_rollback (scan_event payload c) = 0"
  using assms sees_close [of c]
  by (simp add: scan_event_def Let_def sees_marked sees_opened(2) split: option.splits)

lemma scan_record_sees:
  assumes "rs_rollback c = 0" and "\<not> rolls_back (snd ir)"
  shows "rs_rollback (scan_record parse ir c) = 0 \<and>
    scan_sees (scan_record parse ir c) =
      (if scan_sees c \<noteq> None then scan_sees c else if replaceable (snd ir) then Some (fst ir) else None)"
proof (cases "rec_is ''compacted'' (snd ir)")
  case True
  then show ?thesis using assms(1)
    by (auto simp: scan_record_def Let_def sees_opened replaceable_def)
       (auto simp: scan_sees_def split: option.splits)
next
  case False
  then have no: "\<not> replaceable (snd ir)" by (simp add: replaceable_def)
  have ev: "rec_is ''event_msg'' (snd ir) \<Longrightarrow> \<not> item_is ''thread_rolled_back'' (rec_payload (snd ir))"
    using assms(2) by (simp add: rolls_back_def)
  show ?thesis
    using False no assms(1) ev scan_event_sees [OF assms(1), of "rec_payload (snd ir)"]
    by (simp add: scan_record_def Let_def sees_marked sees_opened(2))
qed

lemma scan_fold_sees:
  assumes "rs_rollback c = 0" and "list_all (\<lambda>ir. \<not> rolls_back (snd ir)) irs"
  shows "rs_rollback (fold (scan_record parse) irs c) = 0 \<and>
    scan_sees (fold (scan_record parse) irs c) =
      (if scan_sees c \<noteq> None then scan_sees c else map_option fst (find (\<lambda>ir. replaceable (snd ir)) irs))"
  using assms
proof (induction irs arbitrary: c)
  case (Cons ir irs)
  with scan_record_sees [of c ir parse] show ?case by (simp split: if_splits)
qed simp

text \<open>Rollbacks or not, only a compaction with a replacement is ever chosen.\<close>

definition scan_ok :: "(nat \<Rightarrow> bool) \<Rightarrow> replay_scan \<Rightarrow> bool" where
  "scan_ok P c \<longleftrightarrow> pred_option P (rs_found c) \<and> pred_option (\<lambda>g. pred_option P (sg_checkpoint g)) (rs_segment c)"

lemma scan_ok_opened:
  "scan_ok P c \<Longrightarrow> (\<And>g. pred_option P (sg_checkpoint g) \<Longrightarrow> pred_option P (sg_checkpoint (f g))) \<Longrightarrow> scan_ok P (opened f c)"
  by (auto simp: scan_ok_def opened_def split: option.splits)

lemma scan_ok_rollback: "scan_ok P (c\<lparr>rs_rollback := n\<rparr>) = scan_ok P c"
  by (simp add: scan_ok_def)

lemma scan_ok_close: "scan_ok P c \<Longrightarrow> scan_ok P (close_segment c)"
  by (auto simp: scan_ok_def close_segment_def split: option.splits)

lemma scan_ok_record:
  assumes "scan_ok P c" and "replaceable (snd ir) \<Longrightarrow> P (fst ir)"
  shows "scan_ok P (scan_record parse ir c)"
proof -
  have "scan_ok P (scan_event p c)" for p
    using assms(1) by (simp add: scan_event_def Let_def scan_ok_opened scan_ok_close scan_ok_rollback split: option.splits)
  moreover have "scan_ok P (opened (\<lambda>g. if sg_checkpoint g = None \<and> is_arr (jget (rec_payload (snd ir)) (js ''replacement_history''))
      then g\<lparr>sg_checkpoint := Some (fst ir)\<rparr> else g) c)" if "rec_is ''compacted'' (snd ir)"
    using assms that by (intro scan_ok_opened) (auto simp: replaceable_def)
  ultimately show ?thesis using assms(1) by (simp add: scan_record_def Let_def scan_ok_opened)
qed

lemma scan_ok_fold:
  "scan_ok P c \<Longrightarrow> list_all (\<lambda>ir. replaceable (snd ir) \<longrightarrow> P (fst ir)) irs \<Longrightarrow> scan_ok P (fold (scan_record parse) irs c)"
  by (induction irs arbitrary: c) (auto intro: scan_ok_record)

lemma find_enumerated:
  "map_option fst (find (\<lambda>ir. p (snd ir)) (rev (List.enumerate 0 xs))) = find (\<lambda>i. p (xs ! i)) (rev [0..<length xs])"
proof -
  have "List.enumerate 0 xs = map (\<lambda>i. (i, xs ! i)) [0..<length xs]"
    by (rule nth_equalityI) (simp_all add: nth_enumerate_eq)
  then have "rev (List.enumerate 0 xs) = map (\<lambda>i. (i, xs ! i)) (rev [0..<length xs])"
    by (simp add: rev_map)
  moreover have "map_option fst (find (\<lambda>ir. p (snd ir)) (map (\<lambda>i. (i, xs ! i)) ns)) = find (\<lambda>i. p (xs ! i)) ns" for ns
    by (induction ns) auto
  ultimately show ?thesis by simp
qed

lemma find_in: "find P xs = Some x \<Longrightarrow> x \<in> set xs \<and> P x"
  by (induction xs) (auto split: if_splits)

lemma find_stronger: "find P xs = Some x \<Longrightarrow> Q x \<Longrightarrow> (\<And>y. Q y \<Longrightarrow> P y) \<Longrightarrow> find Q xs = Some x"
  by (induction xs) (auto split: if_splits)

text \<open>
  C21: The replay starts, if anywhere, at a compaction that says what the history becomes; when
  nothing was rolled back that is the newest one, whichever of the two ways found it.
\<close>

theorem replay_starts_at_newest:
  "(case replayCheckpoint parse records mode of
      None \<Rightarrow> True
    | Some i \<Rightarrow> i < length records \<and> replaceable (records ! i)) \<and>
   (if list_ex rolls_back records then True else replayCheckpoint parse records mode = newest_replaceable records)"
proof -
  let ?c = "\<lparr>rs_rollback = 0, rs_found = None, rs_segment = None\<rparr> :: replay_scan"
  let ?irs = "rev (List.enumerate 0 records)"
  let ?scan = "fold (scan_record parse) ?irs ?c"
  let ?P = "\<lambda>i. i < length records \<and> replaceable (records ! i)"
  have "list_all (\<lambda>ir. replaceable (snd ir) \<longrightarrow> ?P (fst ir)) ?irs"
    by (auto simp: list_all_iff in_set_enumerate_eq)
  then have "scan_ok ?P (close_segment ?scan)"
    by (intro scan_ok_close scan_ok_fold) (simp_all add: scan_ok_def)
  then have found: "pred_option ?P (rs_found (close_segment ?scan))" by (simp add: scan_ok_def)
  have newest: "i < length records" "rec_is ''compacted'' (records ! i)" if "newest_compaction records = Some i" for i
    using find_in [OF that [unfolded newest_compaction_def]] by simp_all
  have plain: "rs_found (close_segment ?scan) = newest_replaceable records" if "\<not> list_ex rolls_back records"
  proof -
    have "list_all (\<lambda>ir. \<not> rolls_back (snd ir)) ?irs"
      using that by (auto simp: list_all_iff list_ex_iff in_set_enumerate_eq)
    from scan_fold_sees [OF _ this, of ?c parse] have "rs_rollback ?scan = 0" "scan_sees ?scan = newest_replaceable records"
      by (simp_all add: scan_sees_def newest_replaceable_def find_enumerated)
    then show ?thesis
      by (auto simp: scan_sees_def close_segment_def split: option.splits if_splits)
  qed
  show ?thesis
  proof (cases "newest_compaction records")
    case None
    then have "newest_replaceable records = None"
      by (auto simp: newest_compaction_def newest_replaceable_def find_None_iff replaceable_def)
    with None show ?thesis by (simp add: replayCheckpoint_def)
  next
    case (Some n)
    show ?thesis
    proof (cases "bounds_replay mode (rec_payload (records ! n))")
      case True
      with newest [OF Some] have n: "replaceable (records ! n)" "n < length records"
        by (simp_all add: bounds_replay_def replaceable_def)
      then have "newest_replaceable records = Some n"
        using find_stronger [OF Some [unfolded newest_compaction_def], of "\<lambda>i. replaceable (records ! i)"]
        by (simp add: newest_replaceable_def) (simp add: replaceable_def)
      with Some True n show ?thesis by (simp add: replayCheckpoint_def)
    next
      case False
      with Some found plain show ?thesis
        by (auto simp: replayCheckpoint_def split: option.splits)
    qed
  qed
qed

section \<open>A plain conversation is carried whole\<close>

definition history_record :: "json \<Rightarrow> bool" where
  "history_record r \<longleftrightarrow> rec_is ''response_item'' r \<and> isHistoryItem (rec_payload r) (rec_metadata r) \<and>
     \<not> isDeliveredAssistantMessage (rec_payload r) (rec_metadata r)"

definition changes_history :: "json \<Rightarrow> bool" where
  "changes_history r \<longleftrightarrow> rec_is ''compacted'' r \<or> rolls_back r \<or> rec_is ''inter_agent_communication'' r"

lemma replay_plain:
  assumes "\<not> list_ex changes_history records"
  shows "replay parse records history =
    Inr (history @ map (\<lambda>r. (rec_payload r, rec_metadata r)) (filter history_record records))"
  using assms
proof (induction records arbitrary: history)
  case (Cons r records)
  then show ?case
    by (cases "rec_is ''response_item'' r") (auto simp: changes_history_def rolls_back_def history_record_def Let_def)
qed simp

lemma lineage_last:
  "segments \<noteq> [] \<Longrightarrow> lineage_records parse (butlast segments) @ parseRolloutLines parse (last segments) = lineage_records parse segments"
  by (induction segments) (auto simp: lineage_records_def)

lemma history_carried:
  assumes "codexRolloutHistory parse segments threadId = Inr items" and "segments \<noteq> []"
  shows "\<exists>mode. carried_history parse mode (lineage_records parse segments) = Inr items"
  using assms by (auto simp: codexRolloutHistory_def Let_def lineage_last split: if_splits sum.splits)

text \<open>
  The conversation of a thread that was never compacted or rolled back is carried whole: the
  items of its rollouts in order, each as what may be carried of it.
\<close>

theorem plain_conversation_carried:
  assumes "codexRolloutHistory parse segments threadId = Inr items" and "segments \<noteq> []"
    and "\<not> list_ex changes_history (lineage_records parse segments)"
  shows "items = concat (map plainItem (map rec_payload (filter history_record (lineage_records parse segments))))"
proof -
  obtain mode where carried: "carried_history parse mode (lineage_records parse segments) = Inr items"
    using history_carried [OF assms(1,2)] by blast
  have "newest_compaction (lineage_records parse segments) = None"
    using assms(3) by (auto simp: newest_compaction_def find_None_iff list_ex_iff changes_history_def)
  with carried replay_plain [OF assms(3), of parse "[]"] show ?thesis
    by (simp add: carried_history_def replayCheckpoint_def comp_def)
qed

theorem plain_conversation_carried_witness:
  "let meta = JObj [(js ''type'', JStr (js ''session_meta'')), (js ''payload'', JObj [(js ''id'', JStr (js ''t''))])];
       reply = JObj [(js ''type'', JStr (js ''message'')), (js ''role'', JStr (js ''assistant'')), (js ''id'', JStr (js ''m''))];
       parse = (\<lambda>t. if t = js ''a'' then Some meta
         else Some (JObj [(js ''type'', JStr (js ''response_item'')), (js ''payload'', reply)]))
   in codexRolloutHistory parse [js ''a'' @ [10] @ js ''b''] (js ''t'') =
      Inr [JObj [(js ''type'', JStr (js ''message'')), (js ''role'', JStr (js ''assistant''))]]"
proof -
  define meta reply parse src where "meta = JObj [(js ''type'', JStr (js ''session_meta'')), (js ''payload'', JObj [(js ''id'', JStr (js ''t''))])]"
    and "reply = JObj [(js ''type'', JStr (js ''message'')), (js ''role'', JStr (js ''assistant'')), (js ''id'', JStr (js ''m''))]"
    and "parse = (\<lambda>t. if t = js ''a'' then Some meta
         else Some (JObj [(js ''type'', JStr (js ''response_item'')), (js ''payload'', reply)]))"
    and "src = js ''a'' @ [10] @ js ''b''"
  let ?r = "JObj [(js ''type'', JStr (js ''response_item'')), (js ''payload'', reply)]"
  have records: "parseRolloutLines parse src = [meta, ?r]"
    by (simp add: parseRolloutLines_def src_def parse_def meta_def readable_record_def rec_is_def rec_type_def js_def trim_def
        is_space_def is_object_type_def)
  have kinds: "\<not> history_record meta \<and> history_record ?r" "\<not> list_ex changes_history [meta, ?r]"
    by (simp_all add: history_record_def changes_history_def rolls_back_def rec_is_def rec_type_def rec_payload_def rec_metadata_def
        meta_def reply_def isHistoryItem_def isDeliveredAssistantMessage_def item_is_def role_is_def js_eq_iff
        is_object_type_def)
  have found: "rec_is ''session_meta'' meta" "rec_payload meta = JObj [(js ''id'', JStr (js ''t''))]"
    by (simp_all add: rec_is_def rec_type_def rec_payload_def meta_def js_eq_iff)
  have "replayCheckpoint parse [meta, ?r] (js ''legacy'') = None"
    by (simp add: replayCheckpoint_def newest_compaction_def rec_is_def rec_type_def meta_def js_eq_iff)
  with replay_plain [OF kinds(2), of parse "[]"] have "\<exists>items. codexRolloutHistory parse [src] (js ''t'') = Inr items"
    unfolding codexRolloutHistory_def carried_history_def
    by (simp add: lineage_records_def records found history_mode_def or_nullish_def nullish_def is_object_type_def js_eq_iff del: replay.simps)
  then obtain items where items: "codexRolloutHistory parse [src] (js ''t'') = Inr items" by blast
  have "items = concat (map plainItem (map rec_payload (filter history_record (lineage_records parse [src]))))"
    by (rule plain_conversation_carried [OF items]) (use kinds(2) in \<open>simp_all add: lineage_records_def records\<close>)
  also have "\<dots> = [JObj [(js ''type'', JStr (js ''message'')), (js ''role'', JStr (js ''assistant''))]]"
    using kinds(1) by (simp add: lineage_records_def records) (simp add: rec_payload_def reply_def plainItem_def plain_content_def plain_output_def
        is_object_type_def role_is_def item_is_def isEncryptedCompaction_def js_eq_iff)
  finally show ?thesis
    using items unfolding src_def by (simp add: Let_def flip: meta_def reply_def parse_def)
qed

section \<open>The rollouts a thread continues\<close>

definition history_base :: "(jstring \<Rightarrow> json option) \<Rightarrow> jstring \<Rightarrow> json" where
  "history_base parse s = jget (rolloutSessionMeta parse s) (js ''history_base'')"

definition continues ::
    "(jstring \<Rightarrow> json option) \<Rightarrow> (jstring \<Rightarrow> jstring + nat list) \<Rightarrow> (jstring \<Rightarrow> jstring list) \<Rightarrow> jstring \<Rightarrow> jstring \<Rightarrow> bool" where
  "continues parse bytes rollouts a b \<longleftrightarrow>
     (\<exists>p bs n. rollouts (str_or [] (jget (history_base parse b) (js ''thread_id''))) = [p] \<and> bytes p = Inr bs \<and>
        safe_number (jget (history_base parse b) (js ''end_byte_offset'')) = Some n \<and> 0 \<le> n \<and> n \<le> int (length bs) \<and>
        a = utf8_decode (take (nat n) bs))"

lemma lineage_from_chain:
  "lineage_from parse bytes rollouts seen segments s = Inr out \<Longrightarrow> length seen \<le> 64 \<Longrightarrow>
   \<exists>pre. out = pre @ s # segments \<and> length pre + length seen \<le> 64 \<and>
     successively (continues parse bytes rollouts) (pre @ [s]) \<and> \<not> truthy (history_base parse (hd (pre @ [s])))"
proof (induction parse bytes rollouts seen segments s arbitrary: out rule: lineage_from.induct)
  case (1 parse bytes rollouts seen segments s)
  let ?base = "history_base parse s" and ?id = "str_or [] (jget (history_base parse s) (js ''thread_id''))"
  show ?case
  proof (cases "truthy ?base")
    case False
    with 1(2,3) show ?thesis
      by (intro exI [of _ "[]"]) (simp add: lineage_from.simps history_base_def Let_def)
  next
    case True
    with 1(2) obtain p bs n where step: "rollouts ?id = [p]" "bytes p = Inr bs"
        "safe_number (jget ?base (js ''end_byte_offset'')) = Some n" "0 \<le> n" "n \<le> int (length bs)"
        "is_str (jget ?base (js ''thread_id''))" "?id \<notin> set seen" "length seen < 64"
        "lineage_from parse bytes rollouts (?id # seen) (s # segments) (utf8_decode (take (nat n) bs)) = Inr out"
      by (subst (asm) lineage_from.simps)
         (auto simp: history_base_def Let_def split: if_splits list.splits sum.splits option.splits)
    let ?t = "utf8_decode (take (nat n) bs)"
    have "\<exists>pre. out = pre @ ?t # s # segments \<and> length pre + length (?id # seen) \<le> 64 \<and>
        successively (continues parse bytes rollouts) (pre @ [?t]) \<and> \<not> truthy (history_base parse (hd (pre @ [?t])))"
      using step True by (intro 1(1)) (auto simp: history_base_def)
    then obtain pre where pre: "out = pre @ ?t # s # segments" "length pre + length (?id # seen) \<le> 64"
        "successively (continues parse bytes rollouts) (pre @ [?t])" "\<not> truthy (history_base parse (hd (pre @ [?t])))"
      by blast
    have "continues parse bytes rollouts ?t s" using step by (auto simp: continues_def)
    with pre(3) have "successively (continues parse bytes rollouts) ((pre @ [?t]) @ [s])"
      by (subst successively_append_iff) simp
    with pre show ?thesis
      by (intro exI [of _ "pre @ [?t]"]) (cases pre; simp)
  qed
qed

text \<open>
  The history of a thread that continues others is read to its beginning or not at all: every
  piece is the prefix the next one names of the one rollout of that id, the last is the thread's
  own rollout, the first continues nothing, and there are at most 65, cycles or not.
\<close>

theorem lineage_is_whole:
  "case readCodexRolloutLineage parse bytes entries codexHome path of
     Inl e \<Rightarrow> True
   | Inr segments \<Rightarrow>
       length segments \<le> 65 \<and> segments \<noteq> [] \<and> map_sum id utf8_decode (bytes path) = Inr (last segments) \<and>
       successively (continues parse bytes (\<lambda>i. findRollouts entries codexHome (\<lambda>name. map_option snd (rolloutNameIds name) = Some i))) segments \<and>
       \<not> truthy (history_base parse (hd segments))"
proof (cases "readCodexRolloutLineage parse bytes entries codexHome path")
  case (Inr segments)
  then obtain bs where bs: "bytes path = Inr bs" "lineage_from parse bytes
      (\<lambda>i. findRollouts entries codexHome (\<lambda>name. map_option snd (rolloutNameIds name) = Some i)) [] [] (utf8_decode bs) = Inr segments"
    by (auto simp: readCodexRolloutLineage_def split: sum.splits)
  from lineage_from_chain [OF bs(2)] show ?thesis by (auto simp: Inr bs(1))
qed simp

end
