(* ===== verification/McpBridge.thy ===== *)
theory McpBridge
  imports CodexRpc OpencodeTranslate
begin

text \<open>
  \<^verbatim>\<open>drivers/mcp-bridge.mjs\<close>: how a session's MCP servers become tools. Which transport a server
  gets, how its results are told, which connectors are declared with every request and which
  are deferred behind the tool search, and the prompt section that names the deferred ones.
  The client library of MCP is not part of the repository: a server's listing is an argument.
\<close>

section \<open>Errors, results and definitions\<close>

definition connection_lost :: re where
  "connection_lost = any_of (word ''not connected'') [word ''connection closed'', word ''fetch failed'',
     word ''econnrefused'', word ''econnreset'', word ''socket hang up'', word ''terminated'']"

text \<open>\<open>closed_code\<close> is the library's code of a closed connection.\<close>

definition isConnectionError :: "int \<Rightarrow> js_error \<Rightarrow> bool" where
  "isConnectionError closed_code e \<longleftrightarrow> je_code e = JInt closed_code \<or> re_test connection_lost (error_short e)"

fun bridge_item :: "json \<Rightarrow> json list" where
  "bridge_item c =
     (if \<not> is_object_type c then []
      else if jget c (js ''type'') = JStr (js ''text'') \<and> is_str (jget c (js ''text''))
      then [JObj [(js ''type'', JStr (js ''text'')), (js ''text'', jget c (js ''text''))]]
      else if jget c (js ''type'') = JStr (js ''image'') \<and> is_str (jget c (js ''data''))
      then [JObj [(js ''type'', JStr (js ''image'')), (js ''data'', jget c (js ''data'')),
              (js ''mimeType'', or_falsy (jget c (js ''mimeType'')) (JStr (js ''image/png'')))]]
      else [])"

definition result_error :: "json list \<Rightarrow> jstring" where
  "result_error content =
     (let msg = join [10] (filter (\<lambda>t. t \<noteq> []) (map (\<lambda>c. str_or [] (jget c (js ''text''))) content))
      in if msg \<noteq> [] then msg else js ''tool call failed'')"

definition mapMCPResult :: "json \<Rightarrow> jstring + json_obj" where
  "mapMCPResult res =
     (let content = concat (map bridge_item (arr_or_nil (jget res (js ''content''))))
      in if truthy (jget res (js ''isError'')) then Inl (result_error content)
         else Inr [(js ''content'', JArr (if content = []
                      then [JObj [(js ''type'', JStr (js ''text'')), (js ''text'', JStr [])]] else content)),
                   (js ''details'', JNull)])"

definition toolDefinitionFor :: "jstring \<Rightarrow> json \<Rightarrow> bool \<Rightarrow> json_obj" where
  "toolDefinitionFor slug tool deferred =
     (let name = js_String (jget tool (js ''name''))
      in [(js ''name'', JStr (js ''mcp__'' @ slug @ js ''__'' @ name)), (js ''label'', JStr (slug @ js '': '' @ name)),
          (js ''description'', or_falsy (jget tool (js ''description'')) (JStr (name @ js '' (via '' @ slug @ js '')''))),
          (js ''parameters'', or_falsy (jget tool (js ''inputSchema''))
             (JObj [(js ''type'', JStr (js ''object'')), (js ''properties'', JObj [])]))] @
         (if deferred then [(js ''exposure'', JStr (js ''deferred'')),
             (js ''namespace'', JObj [(js ''name'', JStr (js ''mcp__'' @ slug))])] else []))"

section \<open>Transports\<close>

definition bridgeUserAgent :: "jstring \<Rightarrow> jstring \<Rightarrow> jstring" where
  "bridgeUserAgent version harness = js ''zwrm-agentd/'' @ version @ js '' ('' @ harness @ js '')''"

datatype transport =
    Http_transport json json_obj
  | Stdio_transport json json json_obj

text \<open>
  The headers of an HTTP server are named on the object they come in, so that a bearer renewed
  there is the one every later request carries.
\<close>

definition named_headers :: "jstring \<Rightarrow> json_obj \<Rightarrow> json_obj" where
  "named_headers agent headers =
     (if list_ex (\<lambda>(k, v). to_lower k = js ''user-agent'') headers then headers
      else jput (js ''User-Agent'') (JStr agent) headers)"

definition connectServer :: "jstring \<Rightarrow> json_obj \<Rightarrow> json_obj \<Rightarrow> json \<Rightarrow> transport option" where
  "connectServer agent process_env session_env cfg =
     (if jget cfg (js ''type'') = JStr (js ''http'') \<and> truthy (jget cfg (js ''url''))
      then Some (Http_transport (jget cfg (js ''url'')) (named_headers agent (fields_of (jget cfg (js ''headers'')))))
      else if jget cfg (js ''type'') = JStr (js ''stdio'') \<and> truthy (jget cfg (js ''command''))
      then Some (Stdio_transport (jget cfg (js ''command'')) (or_falsy (jget cfg (js ''args'')) (JArr []))
             (spread (spread process_env session_env) (fields_of (jget cfg (js ''env'')))))
      else None)"

section \<open>What is deferred\<close>

definition PLATFORM_SERVER :: jstring where "PLATFORM_SERVER = js ''zwrm''"
definition TOOL_BUDGET_MIN_CHARS :: nat where "TOOL_BUDGET_MIN_CHARS = 40000"
definition TOOL_BUDGET_MAX_CHARS :: nat where "TOOL_BUDGET_MAX_CHARS = 160000"

text \<open>
  A tenth of the window at four characters a token; of a whole number of tokens the code's
  floating-point product has this floor.
\<close>

fun toolBudgetChars :: "json \<Rightarrow> nat" where
  "toolBudgetChars (JInt w) =
     min TOOL_BUDGET_MAX_CHARS (max TOOL_BUDGET_MIN_CHARS (if w > 0 then nat (2 * w div 5) else 0))"
| "toolBudgetChars _ = TOOL_BUDGET_MIN_CHARS"

record bridge_entry =
  be_slug :: jstring
  be_type :: json
  be_tools :: "json list"
  be_instructions :: "jstring option"

definition toolSize :: "json \<Rightarrow> nat" where
  "toolSize tool = length (json_text (JObj [(js ''name'', jget tool (js ''name'')),
     (js ''description'', or_nullish (jget tool (js ''description'')) (JStr [])),
     (js ''inputSchema'', or_nullish (jget tool (js ''inputSchema'')) (JObj []))]))"

definition entry_size :: "bridge_entry \<Rightarrow> nat" where
  "entry_size e = sum_list (map toolSize (be_tools e))"

text \<open>A stable sort by a comparison; \<open>by_locale a b\<close> is \<^verbatim>\<open>a.localeCompare(b) <= 0\<close>.\<close>

fun insert_by :: "('a \<Rightarrow> 'a \<Rightarrow> bool) \<Rightarrow> 'a \<Rightarrow> 'a list \<Rightarrow> 'a list" where
  "insert_by le x [] = [x]"
| "insert_by le x (y # ys) = (if le x y then x # y # ys else y # insert_by le x ys)"

definition sort_by :: "('a \<Rightarrow> 'a \<Rightarrow> bool) \<Rightarrow> 'a list \<Rightarrow> 'a list" where
  "sort_by le xs = foldr (insert_by le) xs []"

definition smaller_first :: "(jstring \<Rightarrow> jstring \<Rightarrow> bool) \<Rightarrow> jstring \<times> nat \<Rightarrow> jstring \<times> nat \<Rightarrow> bool" where
  "smaller_first by_locale a b \<longleftrightarrow> snd a < snd b \<or> snd a = snd b \<and> by_locale (fst a) (fst b)"

definition connectors :: "bridge_entry list \<Rightarrow> bridge_entry list" where
  "connectors entries = filter (\<lambda>e. be_slug e \<noteq> PLATFORM_SERVER \<and> be_type e \<noteq> JStr (js ''stdio'')) entries"

fun defer_from :: "nat \<Rightarrow> nat \<Rightarrow> jstring list \<Rightarrow> (jstring \<times> nat) list \<Rightarrow> jstring list" where
  "defer_from budget used deferred [] = deferred"
| "defer_from budget used deferred ((slug, n) # rest) =
     (if deferred = [] \<and> used + n \<le> budget then defer_from budget (used + n) deferred rest
      else defer_from budget used (set_add slug deferred) rest)"

definition sized_connectors :: "(jstring \<Rightarrow> jstring \<Rightarrow> bool) \<Rightarrow> bridge_entry list \<Rightarrow> (jstring \<times> nat) list" where
  "sized_connectors by_locale entries =
     sort_by (smaller_first by_locale) (map (\<lambda>e. (be_slug e, entry_size e)) (connectors entries))"

definition deferredServers :: "(jstring \<Rightarrow> jstring \<Rightarrow> bool) \<Rightarrow> bridge_entry list \<Rightarrow> nat \<Rightarrow> jstring list" where
  "deferredServers by_locale entries budget = defer_from budget 0 [] (sized_connectors by_locale entries)"

section \<open>The section that names them\<close>

definition SECTION_MAX_CHARS :: int where "SECTION_MAX_CHARS = 4096"
definition SERVER_SUMMARY_MAX_CHARS :: nat where "SERVER_SUMMARY_MAX_CHARS = 200"
definition LISTED_TOOLS_MAX :: nat where "LISTED_TOOLS_MAX = 40"

record deferred_server =
  ds_slug :: jstring
  ds_tools :: nat
  ds_names :: "jstring list"
  ds_instructions :: jstring

definition section_intro :: jstring where
  "section_intro =
     js ''To keep each request small, the tools of these connectors are not declared to you up front. '' @
     js ''Load the ones you need with `tool_search` before calling them: describe the action '' @
     js ''(for example \"upload a file to OneDrive\"), or give a tool'' @ [0x27] @ js ''s exact name with limit 1. '' @
     js ''A tool that has not been loaded yet answers \"not found\"; that does not mean it is missing. '' @
     js ''Loaded tools stay available for the rest of this chat.''"

definition server_summary :: "jstring \<Rightarrow> jstring" where
  "server_summary instructions =
     (let line = trim (hd (split_on 10 (trim instructions)))
      in if length line > SERVER_SUMMARY_MAX_CHARS
         then trim_end (take (SERVER_SUMMARY_MAX_CHARS - 1) line) @ [0x2026] else line)"

definition server_head :: "deferred_server \<Rightarrow> jstring" where
  "server_head s =
     (let summary = server_summary (ds_instructions s)
      in js ''- mcp__'' @ ds_slug s @ js '' ('' @ dec (ds_tools s) @ js '' tool'' @ (if ds_tools s = 1 then [] else js ''s'') @
         js '')'' @ (if summary \<noteq> [] then js '': '' @ summary else []))"

definition server_named :: "deferred_server \<Rightarrow> jstring" where
  "server_named s = (if ds_names s \<noteq> [] then server_head s @ [10] @ js ''  '' @ join (js '', '') (ds_names s)
     else server_head s)"

definition closing_line :: "nat \<Rightarrow> jstring" where
  "closing_line n = js ''- '' @ [0x2026] @ js '' '' @ dec n @ js '' more; find their tools with tool_search''"

fun section_lines :: "int \<Rightarrow> deferred_server list \<Rightarrow> jstring list" where
  "section_lines used [] = []"
| "section_lines used (s # rest) =
     (let room = SECTION_MAX_CHARS - used - 80;
          line = (if int (length (server_named s)) + 1 \<le> room then server_named s else server_head s)
      in if int (length line) + 1 > room then [closing_line (length (s # rest))]
         else line # section_lines (used + int (length line) + 1) rest)"

definition deferredToolsSection :: "(jstring \<Rightarrow> jstring \<Rightarrow> bool) \<Rightarrow> deferred_server list \<Rightarrow> jstring option" where
  "deferredToolsSection by_locale servers =
     (if servers = [] then None
      else Some (join [10] (section_intro # section_lines (int (length section_intro))
             (sort_by (\<lambda>a b. by_locale (ds_slug a) (ds_slug b)) servers))))"

section \<open>All of a session's tools\<close>

definition bridged_name :: "jstring \<Rightarrow> json \<Rightarrow> jstring" where
  "bridged_name slug tool = js ''mcp__'' @ slug @ js ''__'' @ js_String (jget tool (js ''name''))"

definition deferred_server_of :: "bridge_entry \<Rightarrow> deferred_server" where
  "deferred_server_of e = \<lparr>ds_slug = be_slug e, ds_tools = length (be_tools e),
     ds_names = (if length (be_tools e) \<le> LISTED_TOOLS_MAX then map (bridged_name (be_slug e)) (be_tools e) else []),
     ds_instructions = (case be_instructions e of None \<Rightarrow> [] | Some t \<Rightarrow> t)\<rparr>"

definition buildBridgedTools ::
    "(jstring \<Rightarrow> jstring \<Rightarrow> bool) \<Rightarrow> bridge_entry list \<Rightarrow> nat option \<Rightarrow> json_obj list \<times> deferred_server list" where
  "buildBridgedTools by_locale entries budget =
     (let deferred = deferredServers by_locale entries (case budget of None \<Rightarrow> TOOL_BUDGET_MIN_CHARS | Some b \<Rightarrow> b)
      in (concat (map (\<lambda>e. map (\<lambda>t. toolDefinitionFor (be_slug e) t (be_slug e \<in> set deferred)) (be_tools e)) entries),
          map deferred_server_of (filter (\<lambda>e. be_slug e \<in> set deferred) entries)))"

text \<open>The tools a resumed session had loaded: those a successful tool search names.\<close>

definition loaded_by :: "jstring \<Rightarrow> json \<Rightarrow> jstring list" where
  "loaded_by tool_search e =
     (let m = (if jget e (js ''type'') = JStr (js ''message'') then jget e (js ''message'') else JUndef)
      in if jget m (js ''role'') \<noteq> JStr (js ''toolResult'') \<or> jget m (js ''toolName'') \<noteq> JStr tool_search \<or>
            truthy (jget m (js ''isError'')) then []
         else strings_of (arr_or_nil (jget (jget m (js ''details'')) (js ''loaded''))))"

definition searchLoadedToolNames :: "json list \<Rightarrow> jstring \<Rightarrow> jstring list" where
  "searchLoadedToolNames entries tool_search = fold set_add (concat (map (loaded_by tool_search) entries)) []"

section \<open>What is shown\<close>

lemma mset_insert_by [simp]: "mset (insert_by le x xs) = add_mset x (mset xs)"
  by (induction xs) auto

lemma mset_sort_by [simp]: "mset (sort_by le xs) = mset xs"
  by (induction xs) (simp_all add: sort_by_def)

lemma set_sort_by [simp]: "set (sort_by le xs) = set xs"
  using mset_sort_by [of le xs] by (metis set_mset_mset)

lemma length_sort_by [simp]: "length (sort_by le xs) = length xs"
  using mset_sort_by [of le xs] by (metis size_mset)

lemma sort_by_sorted:
  assumes "\<And>x y. le x y \<Longrightarrow> f x \<le> (f y :: nat)" and "\<And>x y. \<not> le x y \<Longrightarrow> f y \<le> f x"
  shows "sorted (map f (sort_by le xs))"
proof -
  have "sorted (map f ys) \<Longrightarrow> sorted (map f (insert_by le x ys))" for x ys
  proof (induction ys)
    case (Cons y ys)
    have "set (insert_by le x ys) = insert x (set ys)" by (metis mset_insert_by set_mset_add_mset_insert set_mset_mset)
    with Cons assms(1) [of x y] assms(2) [of x y] show ?case by (force intro: order_trans)
  qed simp
  then show ?thesis by (induction xs) (simp_all add: sort_by_def)
qed

lemma defer_all: "deferred \<noteq> [] \<Longrightarrow> set (defer_from b u deferred xs) = set deferred \<union> fst ` set xs"
proof (induction xs arbitrary: deferred)
  case (Cons x xs)
  have "set_add (fst x) deferred \<noteq> []" using set_set_add [of "fst x" deferred] by (metis insert_not_empty set_empty)
  with Cons show ?case by (cases x) auto
qed simp

lemma defer_split:
  assumes "u \<le> b"
  shows "\<exists>as bs. xs = as @ bs \<and> u + sum_list (map snd as) \<le> b \<and> set (defer_from b u [] xs) = fst ` set bs \<and>
    (bs = [] \<or> b < u + sum_list (map snd as) + snd (hd bs))"
  using assms
proof (induction xs arbitrary: u)
  case (Cons x xs)
  obtain slug n where x: "x = (slug, n)" by (cases x)
  show ?case
  proof (cases "u + n \<le> b")
    case True
    with Cons.IH [of "u + n"] obtain as bs where "xs = as @ bs" "u + n + sum_list (map snd as) \<le> b"
      "set (defer_from b (u + n) [] xs) = fst ` set bs" "bs = [] \<or> b < u + n + sum_list (map snd as) + snd (hd bs)" by auto
    with x True show ?thesis by (intro exI [of _ "x # as"] exI [of _ bs]) (simp add: add.assoc)
  next
    case False
    with x Cons.prems show ?thesis
      by (intro exI [of _ "[]"] exI [of _ "x # xs"]) (simp add: defer_all set_add_def)
  qed
qed simp

lemma filtered_sort_sum: "sum_list (map g (filter P (sort_by le xs))) = sum_list (map g (filter P xs))" for g :: "'a \<Rightarrow> nat"
  by (metis mset_filter mset_map mset_sort_by sum_mset_sum_list)

text \<open>
  The connector tools declared with every request stay within the budget: the platform's own
  server and the image's are never deferred, the connectors that are declared fit the budget
  together, none of them is larger than a deferred one, and connectors are deferred only when
  the next one in order of size does not fit.
\<close>

theorem deferral_fits_budget:
  assumes "distinct (map be_slug entries)" and "deferred = deferredServers by_locale entries budget"
    and "declared = filter (\<lambda>e. be_slug e \<notin> set deferred) (connectors entries)"
  shows "set deferred \<subseteq> be_slug ` set (connectors entries) \<and>
    sum_list (map entry_size declared) \<le> budget \<and>
    list_all (\<lambda>d. list_all (\<lambda>e. be_slug e \<in> set deferred \<longrightarrow> entry_size d \<le> entry_size e) (connectors entries)) declared \<and>
    (deferred \<noteq> [] \<longrightarrow> (\<exists>e \<in> set (connectors entries). be_slug e \<in> set deferred \<and>
       budget < sum_list (map entry_size declared) + entry_size e))"
proof -
  let ?f = "\<lambda>e. (be_slug e, entry_size e)" and ?c = "connectors entries"
  have dc: "distinct (map be_slug ?c)" using assms(1) by (simp add: connectors_def distinct_map_filter)
  have "\<exists>as bs. sized_connectors by_locale entries = as @ bs \<and> sum_list (map snd as) \<le> budget \<and>
      set deferred = fst ` set bs \<and> (bs = [] \<or> budget < sum_list (map snd as) + snd (hd bs))"
    using defer_split [of 0 budget "sized_connectors by_locale entries"] assms(2) by (simp add: deferredServers_def)
  then obtain as bs where ab: "sized_connectors by_locale entries = as @ bs" "sum_list (map snd as) \<le> budget"
    "set deferred = fst ` set bs" "bs = [] \<or> budget < sum_list (map snd as) + snd (hd bs)" by blast
  have all: "set (as @ bs) = ?f ` set ?c" unfolding ab(1) [symmetric] by (simp add: sized_connectors_def)
  have "mset (map fst (as @ bs)) = mset (map be_slug ?c)"
    unfolding ab(1) [symmetric] by (simp add: sized_connectors_def image_mset.compositionality comp_def)
  then have dist: "distinct (map fst (as @ bs))" using dc by (metis mset_eq_imp_distinct_iff)
  have "filter (\<lambda>x. fst x \<notin> set deferred) (as @ bs) = as" using dist ab(3) by (force simp: filter_id_conv filter_empty_conv)
  then have as: "sum_list (map snd as) = sum_list (map entry_size declared)"
    using filtered_sort_sum [of snd "\<lambda>x. fst x \<notin> set deferred" "smaller_first by_locale" "map ?f ?c"]
    by (simp add: ab(1) [symmetric] sized_connectors_def assms(3) filter_map comp_def)
  have "sorted (map snd (as @ bs))" unfolding ab(1) [symmetric] sized_connectors_def
    by (rule sort_by_sorted) (auto simp: smaller_first_def)
  then have ord: "x \<in> set as \<Longrightarrow> y \<in> set bs \<Longrightarrow> snd x \<le> snd y" for x y by (auto simp: sorted_append)
  have "d \<in> set declared \<Longrightarrow> ?f d \<in> set as" for d using all ab(3) assms(3) by force
  moreover have inbs: "e \<in> set ?c \<Longrightarrow> be_slug e \<in> set deferred \<Longrightarrow> ?f e \<in> set bs" for e
  proof -
    assume e: "e \<in> set ?c" "be_slug e \<in> set deferred"
    then obtain n where "(be_slug e, n) \<in> set bs" using ab(3) by auto
    moreover have "?f e \<in> set (as @ bs)" using e(1) all by auto
    ultimately show ?thesis using dist by (auto simp: rev_image_eqI)
  qed
  ultimately have ordered: "d \<in> set declared \<Longrightarrow> e \<in> set ?c \<Longrightarrow> be_slug e \<in> set deferred \<Longrightarrow> entry_size d \<le> entry_size e" for d e
    using ord [of "?f d" "?f e"] by simp
  have "deferred \<noteq> [] \<Longrightarrow> \<exists>e \<in> set ?c. be_slug e \<in> set deferred \<and> budget < sum_list (map entry_size declared) + entry_size e"
  proof -
    assume "deferred \<noteq> []"
    then have bs: "bs \<noteq> []" using ab(3) by auto
    then have "hd bs \<in> ?f ` set ?c" using all by (metis UnCI hd_in_set set_append)
    then obtain e where e: "e \<in> set ?c" "hd bs = ?f e" by blast
    moreover have "be_slug e \<in> set deferred" using bs e(2) ab(3) by (metis fst_conv hd_in_set imageI)
    ultimately show ?thesis using ab(4) bs as by auto
  qed
  moreover have "set deferred \<subseteq> be_slug ` set ?c" using ab(3) all by force
  ultimately show ?thesis using as ab(2) ordered by (auto simp: list_all_iff)
qed

definition sample_entry :: "string \<Rightarrow> nat \<Rightarrow> bridge_entry" where
  "sample_entry slug n = \<lparr>be_slug = js slug, be_type = JStr (js ''http''),
     be_tools = [JObj [(js ''name'', JStr (replicate n 0x61))]], be_instructions = None\<rparr>"

theorem deferral_fits_budget_witness:
  "deferredServers (\<lambda>a b. True) [sample_entry ''drive'' 40, sample_entry ''mail'' 9, sample_entry ''zwrm'' 90] 80 = [js ''drive''] \<and>
   set [js ''drive''] \<subseteq> be_slug ` set (connectors [sample_entry ''drive'' 40, sample_entry ''mail'' 9, sample_entry ''zwrm'' 90])"
proof -
  let ?e = "[sample_entry ''drive'' 40, sample_entry ''mail'' 9, sample_entry ''zwrm'' 90]"
  have d: "deferredServers (\<lambda>a b. True) ?e 80 = [js ''drive'']" by code_simp
  have "distinct (map be_slug ?e)" by (simp add: sample_entry_def)
  from deferral_fits_budget [OF this d [symmetric] refl] show ?thesis by (simp only: d)
qed

lemma length_join: "length (join [10] (x # xs)) = length x + sum_list (map (\<lambda>l. length l + 1) xs)"
  by (induction xs arbitrary: x) simp_all

lemma length_closing: "n < 10 ^ 35 \<Longrightarrow> length (closing_line n) + 1 \<le> 80"
  using length_dec [of n 35] by (simp add: closing_line_def)

lemma section_lines_length:
  assumes "length ss < 10 ^ 35" and "used + 80 \<le> SECTION_MAX_CHARS"
  shows "used + int (sum_list (map (\<lambda>l. length l + 1) (section_lines used ss))) \<le> SECTION_MAX_CHARS"
  using assms
proof (induction ss arbitrary: used)
  case (Cons s ss)
  define line where "line = (if int (length (server_named s)) + 1 \<le> SECTION_MAX_CHARS - used - 80 then server_named s else server_head s)"
  have lines: "section_lines used (s # ss) = (if int (length line) + 1 > SECTION_MAX_CHARS - used - 80
      then [closing_line (length (s # ss))] else line # section_lines (used + int (length line) + 1) ss)"
    by (simp add: line_def Let_def)
  show ?case
  proof (cases "int (length line) + 1 > SECTION_MAX_CHARS - used - 80")
    case True
    with lines length_closing [OF Cons.prems(1)] Cons.prems(2) show ?thesis by simp
  next
    case False
    with Cons.IH [of "used + int (length line) + 1"] Cons.prems show ?thesis unfolding lines by simp
  qed
qed simp

text \<open>
  The prompt section that names the deferred connectors keeps to its limit however many
  there are and whatever they say of themselves, and it is there exactly when there are any.
\<close>

theorem deferred_section_bounded:
  assumes "length servers < 10 ^ 35"
  shows "case deferredToolsSection by_locale servers of
      None \<Rightarrow> servers = []
    | Some t \<Rightarrow> servers \<noteq> [] \<and> starts_with t section_intro \<and> int (length t) \<le> SECTION_MAX_CHARS"
proof -
  let ?s = "sort_by (\<lambda>a b. by_locale (ds_slug a) (ds_slug b)) servers"
  have "int (length section_intro) + 80 \<le> SECTION_MAX_CHARS" by (simp add: section_intro_def SECTION_MAX_CHARS_def)
  then have "int (length section_intro) + int (sum_list (map (\<lambda>l. length l + 1) (section_lines (int (length section_intro)) ?s)))
      \<le> SECTION_MAX_CHARS"
    using assms by (intro section_lines_length) simp_all
  moreover have "starts_with (join [10] (x # xs)) x" for x and xs :: "jstring list"
    by (cases xs) (simp_all add: starts_with_prefix)
  ultimately show ?thesis by (simp add: deferredToolsSection_def length_join)
qed

theorem deferred_section_bounded_witness:
  "case deferredToolsSection (\<lambda>a b. True) [deferred_server_of (sample_entry ''drive'' 40)] of
     None \<Rightarrow> False | Some t \<Rightarrow> int (length t) \<le> SECTION_MAX_CHARS"
  using deferred_section_bounded [of "[deferred_server_of (sample_entry ''drive'' 40)]" "\<lambda>a b. True"]
  by (simp split: option.splits)

end
