(* ===== verification/CodexStart.thy ===== *)
theory CodexStart
  imports CodexHistory McpBridge ToolPolicy
begin

text \<open>
  How a codex session starts (\<^verbatim>\<open>createCodexDriver\<close> in \<^verbatim>\<open>drivers/codex.mjs\<close>): the permission mode,
  the child's environment, the login file and its revocation, the tools, and the thread: a new
  one, one resumed, or one rebuilt from another's conversation, with the record of what each
  thread was made for. A failed write or removal leaves its file as it was.
\<close>

definition codex_modes :: "jstring list" where
  "codex_modes = [js ''default'', js ''bypassPermissions'']"

definition codex_mode_error :: "jstring \<Rightarrow> http_error" where
  "codex_mode_error mode = bad_request (js ''the codex harness supports permission modes '' @ [0x27] @ js ''default'' @ [0x27] @
     js '' and '' @ [0x27] @ js ''bypassPermissions'' @ [0x27] @ js '', not '' @ [0x27] @ mode @ [0x27])"

definition codex_mode :: "json \<Rightarrow> http_error + jstring" where
  "codex_mode requested =
     (let mode = js_String (or_falsy requested (JStr (js ''bypassPermissions'')))
      in if mode \<in> set codex_modes then Inr mode else Inl (codex_mode_error mode))"

definition child_env :: "json_obj \<Rightarrow> json_obj \<Rightarrow> json_obj" where
  "child_env process spec_env = fold (\<lambda>(k, v) e. if k = js ''HOME'' then e else jput k v e) spec_env process"

section \<open>The login\<close>

definition credential_text :: "jstring \<Rightarrow> json_obj \<Rightarrow> json_obj \<Rightarrow> jstring" where
  "credential_text k spec_env process = trim (string_or_empty (or_falsy (jprop spec_env k) (jprop process k)))"

definition looks_jwt :: "json \<Rightarrow> bool" where
  "looks_jwt v \<longleftrightarrow> length (split_on 0x2E (str_or [] v)) = 3"

definition codex_auth_record :: "json \<Rightarrow> bool" where
  "codex_auth_record r =
     (let t = jget r (js ''tokens'')
      in is_object_type r \<and> truthy (jget r (js ''auth_mode'')) \<and> is_obj t \<and> looks_jwt (jget t (js ''id_token'')))"

definition bad_auth_record :: http_error where
  "bad_auth_record = bad_request
     (js ''OPENAI_CODEX_AUTH is not a codex auth record. It must be the ENTIRE contents of '' @
      js ''~/.codex/auth.json after `codex login` '' @ [0x2014] @ js '' an object with auth_mode and a tokens '' @
      js ''object containing id_token (a JWT), access_token and refresh_token '' @ [0x2014] @ js '' not a bare token. '' @
      js ''Set it with: zwrm secrets set OPENAI_CODEX_AUTH \"$(jq -c . ~/.codex/auth.json)\"'')"

definition no_credential :: http_error where
  "no_credential = bad_request
     (js ''No OpenAI credential for the codex harness. Set OPENAI_API_KEY (an OpenAI API key) or '' @
      js ''OPENAI_CODEX_AUTH (the contents of ~/.codex/auth.json after `codex login`) as an organization '' @
      js ''or agent secret; it reaches the agent when its workspace next boots.'')"

record codex_files =
  cf_auth :: "jstring option"
  cf_marker :: "jstring option"

datatype auth_step = Make_home | Write_auth | Write_marker | Remove_auth | Remove_marker

type_synonym io_failures = "auth_step \<Rightarrow> js_error option"

definition marker_text :: "(jstring \<Rightarrow> jstring) \<Rightarrow> jstring \<Rightarrow> jstring \<Rightarrow> jstring" where
  "marker_text digest body source = source @ [0x20] @ digest body @ [10]"

definition writeAuth :: "(jstring \<Rightarrow> jstring) \<Rightarrow> io_failures \<Rightarrow> json \<Rightarrow> jstring \<Rightarrow> codex_files \<Rightarrow> js_error option \<times> codex_files" where
  "writeAuth digest fails r source f =
     (let body = json_text r @ [10]
      in case fails Make_home of
           Some e \<Rightarrow> (Some e, f)
         | None \<Rightarrow>
             (case fails Write_auth of
                Some e \<Rightarrow> (Some e, f)
              | None \<Rightarrow>
                  (let f1 = f\<lparr>cf_auth := Some body\<rparr>
                   in case fails Write_marker of
                        Some e \<Rightarrow> (Some e, f1)
                      | None \<Rightarrow> (None, f1\<lparr>cf_marker := Some (marker_text digest body source)\<rparr>))))"

text \<open>The login is ours when it is, byte for byte, the one the marker says we wrote.\<close>

definition our_login :: "(jstring \<Rightarrow> jstring) \<Rightarrow> codex_files \<Rightarrow> bool" where
  "our_login digest f = (case (cf_marker f, cf_auth f) of
       (Some m, Some a) \<Rightarrow> (case split_spaces (trim m) of
           _ # recorded # _ \<Rightarrow> recorded \<noteq> [] \<and> recorded = digest a
         | _ \<Rightarrow> False)
     | _ \<Rightarrow> False)"

definition remove_marker :: "io_failures \<Rightarrow> codex_files \<Rightarrow> js_error option \<times> codex_files" where
  "remove_marker fails f = (case fails Remove_marker of
       Some e \<Rightarrow> (Some e, f)
     | None \<Rightarrow> (None, f\<lparr>cf_marker := None\<rparr>))"

definition revokeAuth :: "(jstring \<Rightarrow> jstring) \<Rightarrow> io_failures \<Rightarrow> codex_files \<Rightarrow> js_error option \<times> codex_files" where
  "revokeAuth digest fails f =
     (if our_login digest f
      then (case fails Remove_auth of
          Some e \<Rightarrow> (Some e, f)
        | None \<Rightarrow> remove_marker fails (f\<lparr>cf_auth := None\<rparr>))
      else remove_marker fails f)"

definition api_key_record :: "jstring \<Rightarrow> json" where
  "api_key_record key = JObj [(js ''auth_mode'', JStr (js ''apikey'')), (js ''OPENAI_API_KEY'', JStr key)]"

definition update_login ::
    "(jstring \<Rightarrow> jstring) \<Rightarrow> io_failures \<Rightarrow> json option \<Rightarrow> jstring \<Rightarrow> codex_files \<Rightarrow> js_error option \<times> codex_files" where
  "update_login digest fails subscription apiKey f = (case subscription of
       Some r \<Rightarrow> writeAuth digest fails r (js ''OPENAI_CODEX_AUTH'') f
     | None \<Rightarrow> if apiKey \<noteq> [] then writeAuth digest fails (api_key_record apiKey) (js ''OPENAI_API_KEY'') f
               else revokeAuth digest fails f)"

definition codex_login ::
    "(jstring \<Rightarrow> json option) \<Rightarrow> (jstring \<Rightarrow> jstring) \<Rightarrow> io_failures \<Rightarrow> jstring \<Rightarrow> jstring option \<Rightarrow> jstring \<Rightarrow> jstring \<Rightarrow>
     codex_files \<Rightarrow> http_error option \<times> codex_files" where
  "codex_login parse digest fails authPath config subscription apiKey f =
     (let record = (if subscription = [] then None else parse subscription);
          refused = (subscription \<noteq> [] \<and> (case record of None \<Rightarrow> True | Some r \<Rightarrow> \<not> codex_auth_record r));
          (failed, f1) = update_login digest fails record apiKey f
      in if refused then (Some bad_auth_record, f)
         else if cf_auth f1 \<noteq> None \<or> usesCredentialStore config then (None, f1)
         else (case failed of
             Some e \<Rightarrow>
               if record \<noteq> None \<or> apiKey \<noteq> []
               then (Some (http_err (if je_code e = JStr (js ''ENOSPC'') then 507 else 500)
                       (js ''could not write the codex login to '' @ authPath @ js '': '' @ error_short e)), f1)
               else (Some no_credential, f1)
           | None \<Rightarrow> (Some no_credential, f1)))"

section \<open>Tools\<close>

text \<open>What a wire name calls: a tool of a connector, or one of the run tools.\<close>

datatype tool_handler = Connector_tool jstring json | Run_tool jstring

definition connector_specs :: "bridge_entry list \<Rightarrow> json_obj list" where
  "connector_specs entries = concat (map (\<lambda>e. map (codexToolSpec (be_slug e)) (be_tools e)) entries)"

definition connector_handlers :: "bridge_entry list \<Rightarrow> (jstring, tool_handler) jmap \<Rightarrow> (jstring, tool_handler) jmap" where
  "connector_handlers entries hs =
     fold (\<lambda>e m. fold (\<lambda>t. AList.update (codexToolName (be_slug e) (js_String (jget t (js ''name''))))
            (Connector_tool (be_slug e) t)) (be_tools e) m) entries hs"

text \<open>\<open>run_specs\<close> describes the run tools; those the session has are added last.\<close>

definition codex_handlers :: "bridge_entry list \<Rightarrow> json \<Rightarrow> (jstring, tool_handler) jmap" where
  "codex_handlers entries spec =
     fold (\<lambda>name. AList.update (codexToolName (js ''platform'') name) (Run_tool name)) (platformToolNames spec [])
       (connector_handlers entries [])"

definition codex_tool_specs :: "(jstring \<Rightarrow> json_obj) \<Rightarrow> bridge_entry list \<Rightarrow> json \<Rightarrow> json_obj list" where
  "codex_tool_specs run_specs entries spec = connector_specs entries @ map run_specs (platformToolNames spec [])"

text \<open>A run tool's outcome in codex's envelope: a rejection is thrown, a park answers when it is resolved.\<close>

datatype codex_reply = Tool_error jstring | Tool_answer json_obj | Tool_parked park_request

fun codexOutcome :: "outcome \<Rightarrow> codex_reply" where
  "codexOutcome (outcome.Refused e fin) = Tool_error e"
| "codexOutcome (Text_result t) = Tool_answer (toolCallResponse (JStr t) True)"
| "codexOutcome (Park r) = Tool_parked r"

section \<open>Which thread\<close>

definition thread_params :: "json_obj \<Rightarrow> json \<Rightarrow> jstring \<Rightarrow> json_obj" where
  "thread_params spec cwd mode =
     (let policy = approvalPolicyFor (JStr mode)
      in [(js ''cwd'', cwd), (js ''approvalPolicy'', JStr (fst policy)), (js ''sandbox'', JStr (snd policy))] @
         (if truthy (jprop spec (js ''model'')) then [(js ''model'', jprop spec (js ''model''))] else []) @
         (if truthy (jprop spec (js ''append_system_prompt''))
          then [(js ''developerInstructions'', jprop spec (js ''append_system_prompt''))] else []) @
         [(js ''config'', JObj ((js ''skip_git_repo_check'', JBool True) # sandboxConfigFor (JStr mode)))])"

definition start_params :: "json_obj \<Rightarrow> json_obj list \<Rightarrow> json_obj" where
  "start_params params specs = params @ (if specs = [] then [] else [(js ''dynamicTools'', JArr (map JObj specs))])"

definition session_scope :: "json_obj \<Rightarrow> json" where
  "session_scope spec = (case jprop spec (js ''instructions_scope'') of
       JStr t \<Rightarrow> if t = [] then JUndef else JStr t
     | _ \<Rightarrow> JUndef)"

text \<open>The records file: what each thread was made for. \<open>None\<close> is a file that cannot be read.\<close>

definition readRecords :: "(jstring \<Rightarrow> json option) \<Rightarrow> jstring option \<Rightarrow> json_obj" where
  "readRecords parse file = (case Option.bind file parse of Some (JObj kvs) \<Rightarrow> kvs | _ \<Rightarrow> [])"

datatype thread_plan = Fresh_thread | Resume_thread jstring | Rebuild_thread jstring

definition resume_plan :: "json_obj \<Rightarrow> jstring \<Rightarrow> json \<Rightarrow> jstring \<Rightarrow> thread_plan \<times> json" where
  "resume_plan records handle scope fingerprint =
     (let recorded = threadRecord (jprop records handle);
          tools = (case recorded of None \<Rightarrow> JUndef | Some r \<Rightarrow> tr_tools r);
          made_for = (case recorded of None \<Rightarrow> JUndef | Some r \<Rightarrow> tr_scope r)
      in if handle = [] then (Fresh_thread, scope)
         else if tools \<noteq> JUndef \<and> tools \<noteq> JStr fingerprint then (Fresh_thread, scope)
         else if (if made_for \<noteq> JUndef then made_for \<noteq> scope else isSharedScope scope) then (Rebuild_thread handle, scope)
         else (Resume_thread handle, made_for))"

definition MAX_RECORDS :: nat where "MAX_RECORDS = 50"

definition thread_entry :: "jstring \<Rightarrow> json \<Rightarrow> json" where
  "thread_entry fingerprint scope =
     JObj ((js ''tools'', JStr fingerprint) # (if scope \<noteq> JUndef then [(js ''scope'', scope)] else []))"

definition record_thread :: "jstring \<Rightarrow> json \<Rightarrow> jstring \<Rightarrow> json_obj \<Rightarrow> json_obj" where
  "record_thread fingerprint scope threadId records =
     (let all = AList.delete threadId records @ [(threadId, thread_entry fingerprint scope)]
      in drop (length all - MAX_RECORDS) all)"

section \<open>Opening it\<close>

datatype thread_call =
    Call_read jstring
  | Call_start json_obj
  | Call_resume jstring json_obj
  | Call_inject json "json list"

text \<open>What the app-server answers to each.\<close>

record thread_answers =
  ta_read :: "json option"
  ta_start :: "js_error + json"
  ta_resume :: "js_error + json"

text \<open>The conversation of another thread, read from its rollouts.\<close>

record rollout_store =
  ro_bytes :: "jstring \<Rightarrow> jstring + nat list"
  ro_entries :: "jstring \<Rightarrow> jstring list"
  ro_exists :: "jstring \<Rightarrow> bool"
  ro_home :: jstring

definition old_conversation :: "(jstring \<Rightarrow> json option) \<Rightarrow> rollout_store \<Rightarrow> json option \<Rightarrow> jstring \<Rightarrow> jstring + json list" where
  "old_conversation parse st read threadId =
     (case locateRollout (ro_exists st) (ro_entries st) (ro_home st) read threadId of
        Inl e \<Rightarrow> Inl e
      | Inr path \<Rightarrow>
          (case readCodexRolloutLineage parse (ro_bytes st) (ro_entries st) (ro_home st) path of
             Inl e \<Rightarrow> Inl e
           | Inr segments \<Rightarrow> codexRolloutHistory parse segments threadId))"

definition thread_of :: "json \<Rightarrow> json" where
  "thread_of started = jget (jget started (js ''thread'')) (js ''id'')"

definition rebuildThread ::
    "(jstring \<Rightarrow> json option) \<Rightarrow> rollout_store \<Rightarrow> thread_answers \<Rightarrow> json_obj \<Rightarrow> jstring \<Rightarrow> (js_error + json) \<times> thread_call list" where
  "rebuildThread parse st a params old =
     (case old_conversation parse st (ta_read a) old of
        Inl e \<Rightarrow> (ta_start a, [Call_read old, Call_start params])
      | Inr items \<Rightarrow>
          (case ta_start a of
             Inl e \<Rightarrow> (Inl e, [Call_read old, Call_start params])
           | Inr fresh \<Rightarrow>
               (Inr fresh, [Call_read old, Call_start params] @
                  (if truthy (thread_of fresh) \<and> items \<noteq> [] then [Call_inject (thread_of fresh) items] else []))))"

definition open_thread ::
    "(jstring \<Rightarrow> json option) \<Rightarrow> rollout_store \<Rightarrow> thread_answers \<Rightarrow> json_obj \<Rightarrow> json_obj list \<Rightarrow> json \<Rightarrow> thread_plan \<times> json \<Rightarrow>
     (js_error + json) \<times> json \<times> thread_call list" where
  "open_thread parse st a params specs scope plan =
     (let fresh = start_params params specs
      in case plan of
           (Fresh_thread, made_for) \<Rightarrow> (ta_start a, made_for, [Call_start fresh])
         | (Rebuild_thread old, made_for) \<Rightarrow>
             (let (r, calls) = rebuildThread parse st a fresh old in (r, made_for, calls))
         | (Resume_thread old, made_for) \<Rightarrow>
             (case ta_resume a of
                Inr started \<Rightarrow> (Inr started, made_for, [Call_resume old params])
              | Inl e \<Rightarrow> (ta_start a, scope, [Call_resume old params, Call_start fresh])))"

text \<open>The thread the session ends up on, and the records as they are written.\<close>

definition codex_thread ::
    "(jstring \<Rightarrow> json option) \<Rightarrow> rollout_store \<Rightarrow> thread_answers \<Rightarrow> json_obj \<Rightarrow> json \<Rightarrow> jstring \<Rightarrow> json_obj list \<Rightarrow> json_obj \<Rightarrow>
     (http_error + jstring \<times> json_obj) \<times> thread_call list" where
  "codex_thread parse st a spec cwd mode specs records =
     (let fingerprint = connectorFingerprint (payload_of (jprop spec (js ''mcp_servers'')));
          scope = session_scope spec;
          plan = resume_plan records (string_or_empty (jprop spec (js ''resume_sdk_session_id''))) scope fingerprint;
          (started, made_for, calls) = open_thread parse st a (thread_params spec cwd mode) specs scope plan
      in (case started of
            Inl e \<Rightarrow> Inl (http_err 502 (js ''failed to start codex thread: '' @ error_short e))
          | Inr r \<Rightarrow>
              (let threadId = string_or_empty (thread_of r)
               in if threadId = [] then Inl (http_err 502 (js ''codex app-server returned a thread without an id''))
                  else Inr (threadId, record_thread fingerprint made_for threadId records)), calls))"

section \<open>A login the platform wrote is revoked, no other\<close>

lemma split_spaces_two:
  assumes "list_all (\<lambda>u. \<not> is_space u) a" and "list_all (\<lambda>u. \<not> is_space u) b"
  shows "split_spaces (a @ 0x20 # b) = [a, b]"
proof -
  have tw: "takeWhile (\<lambda>u. \<not> is_space u) (a @ 0x20 # b) = a" "dropWhile (\<lambda>u. \<not> is_space u) (a @ 0x20 # b) = 0x20 # b"
    using assms(1) by (simp_all add: list_all_iff takeWhile_append2 dropWhile_append2 is_space_def)
  have "dropWhile is_space (0x20 # b) = b"
    using assms(2) by (cases b) (simp_all add: is_space_def)
  moreover have "split_spaces b = [b]"
    using assms(2) by (subst split_spaces.simps) (simp add: Let_def list_all_iff takeWhile_eq_all_conv dropWhile_eq_Nil_conv)
  ultimately show ?thesis by (subst split_spaces.simps) (simp add: Let_def tw)
qed

lemma trim_words:
  assumes "a \<noteq> []" and "b \<noteq> []" and "\<not> is_space (hd a)" and "\<not> is_space (last b)"
  shows "trim (a @ m @ b @ [10]) = a @ m @ b"
proof -
  have "dropWhile is_space (a @ m @ b @ [10]) = a @ m @ b @ [10]" using assms(1,3) by (cases a) simp_all
  moreover have "dropWhile is_space (rev (a @ m @ b @ [10])) = rev (a @ m @ b)"
    using assms(2,4) by (cases b rule: rev_cases) (simp_all add: is_space_def)
  ultimately show ?thesis by (simp add: trim_def)
qed

definition wordy :: "(jstring \<Rightarrow> jstring) \<Rightarrow> bool" where
  "wordy digest \<longleftrightarrow> (\<forall>t. digest t \<noteq> [] \<and> list_all (\<lambda>u. \<not> is_space u) (digest t))"

lemma our_login_written:
  assumes "wordy digest" and "source \<in> {js ''OPENAI_CODEX_AUTH'', js ''OPENAI_API_KEY''}"
  shows "our_login digest \<lparr>cf_auth = Some a, cf_marker = Some (marker_text digest body source)\<rparr> = (digest body = digest a)"
proof -
  have d: "digest body \<noteq> []" "list_all (\<lambda>u. \<not> is_space u) (digest body)" using assms(1) by (auto simp: wordy_def)
  have s: "source \<noteq> []" "list_all (\<lambda>u. \<not> is_space u) source"
    using assms(2) by (auto simp: js_def is_space_def)
  have "trim (source @ [0x20] @ digest body @ [10]) = source @ [0x20] @ digest body"
    using d s by (intro trim_words) (auto simp: list_all_iff)
  with split_spaces_two [OF s(2) d(2)] d(1) show ?thesis by (auto simp: our_login_def marker_text_def)
qed

abbreviation no_failure :: io_failures where "no_failure \<equiv> \<lambda>_. None"

lemma login_without_credential:
  "cf_auth (snd (codex_login parse digest no_failure path config [] [] g)) = (if our_login digest g then None else cf_auth g)"
  by (simp add: codex_login_def update_login_def revokeAuth_def remove_marker_def Let_def)

lemma login_with_credential:
  assumes "codex_login parse digest no_failure path config subscription apiKey f = (None, f1)" and "subscription \<noteq> [] \<or> apiKey \<noteq> []"
  shows "\<exists>r source. f1 = \<lparr>cf_auth = Some (json_text r @ [10]), cf_marker = Some (marker_text digest (json_text r @ [10]) source)\<rparr> \<and>
    source \<in> {js ''OPENAI_CODEX_AUTH'', js ''OPENAI_API_KEY''} \<and>
    (if subscription = [] then r = api_key_record apiKey else parse subscription = Some r \<and> codex_auth_record r)"
proof (cases "subscription = []")
  case True
  with assms show ?thesis
    by (cases f) (auto simp: codex_login_def update_login_def writeAuth_def Let_def split: if_splits)
next
  case False
  with assms(1) obtain r where r: "parse subscription = Some r" "codex_auth_record r"
    by (auto simp: codex_login_def Let_def split: if_splits option.splits prod.splits)
  with False assms(1) show ?thesis
    by (cases f) (auto simp: codex_login_def update_login_def writeAuth_def Let_def split: if_splits)
qed

text \<open>
  C22: A login the platform wrote goes with its credential, and no other does: a session started
  with a credential leaves codex the very record of it, the subscription's before the API key's;
  one started later without any removes that file if it is still what was written, and keeps
  one the user has put in its place, or codex has refreshed, whatever it says.
\<close>

theorem platform_login_revoked:
  assumes "wordy digest" and "codex_login parse digest no_failure path config subscription apiKey f = (None, f1)"
    and "subscription \<noteq> [] \<or> apiKey \<noteq> []"
  shows "\<exists>r. cf_auth f1 = Some (json_text r @ [10]) \<and>
    (if subscription = [] then r = api_key_record apiKey else parse subscription = Some r \<and> codex_auth_record r) \<and>
    cf_auth (snd (codex_login parse digest no_failure path config [] [] f1)) = None \<and>
    (\<forall>login. digest login \<noteq> digest (json_text r @ [10]) \<longrightarrow>
       cf_auth (snd (codex_login parse digest no_failure path config [] [] (f1\<lparr>cf_auth := Some login\<rparr>))) = Some login)"
proof -
  from login_with_credential [OF assms(2,3)] obtain r source where
    f1: "f1 = \<lparr>cf_auth = Some (json_text r @ [10]), cf_marker = Some (marker_text digest (json_text r @ [10]) source)\<rparr>"
      "source \<in> {js ''OPENAI_CODEX_AUTH'', js ''OPENAI_API_KEY''}"
      "if subscription = [] then r = api_key_record apiKey else parse subscription = Some r \<and> codex_auth_record r"
    by blast
  note ours = our_login_written [OF assms(1) f1(2)]
  show ?thesis
    using f1(3) by (intro exI [of _ r]) (auto simp: f1(1) login_without_credential ours)
qed

theorem platform_login_revoked_witness:
  "let digest = (\<lambda>t. if t = [] then js ''e'' else js ''d''); f = \<lparr>cf_auth = None, cf_marker = None\<rparr>;
       f1 = snd (codex_login (\<lambda>_. None) digest no_failure [] None [] (js ''key'') f)
   in cf_auth f1 \<noteq> None \<and> cf_auth (snd (codex_login (\<lambda>_. None) digest no_failure [] None [] [] f1)) = None"
proof -
  let ?digest = "\<lambda>t :: jstring. if t = [] then js ''e'' else js ''d''" and ?f = "\<lparr>cf_auth = None, cf_marker = None\<rparr>"
  have w: "wordy ?digest" by (simp add: wordy_def js_def is_space_def)
  have "fst (codex_login (\<lambda>_. None) ?digest no_failure [] None [] (js ''key'') ?f) = None"
    by (simp add: codex_login_def update_login_def writeAuth_def Let_def)
  then have "codex_login (\<lambda>_. None) ?digest no_failure [] None [] (js ''key'') ?f =
      (None, snd (codex_login (\<lambda>_. None) ?digest no_failure [] None [] (js ''key'') ?f))" by (simp add: prod_eq_iff)
  from platform_login_revoked [OF w this] show ?thesis by (auto simp: Let_def)
qed

section \<open>Instructions stay with whom they were written for\<close>

text \<open>A call that hands the model nothing of another scope's instructions.\<close>

definition scope_fits :: "json \<Rightarrow> thread_record option \<Rightarrow> bool" where
  "scope_fits scope recorded = (case recorded of
       None \<Rightarrow> \<not> isSharedScope scope
     | Some r \<Rightarrow> if tr_scope r = JUndef then \<not> isSharedScope scope else tr_scope r = scope)"

definition tools_fit :: "jstring \<Rightarrow> thread_record option \<Rightarrow> bool" where
  "tools_fit fingerprint recorded = (case recorded of
       None \<Rightarrow> True
     | Some r \<Rightarrow> tr_tools r \<in> {JUndef, JStr fingerprint})"

fun call_fits :: "json_obj \<Rightarrow> json_obj \<Rightarrow> thread_call \<Rightarrow> bool" where
  "call_fits spec records (Call_resume t params) =
     (scope_fits (session_scope spec) (threadRecord (jprop records t)) \<and>
      tools_fit (connectorFingerprint (payload_of (jprop spec (js ''mcp_servers'')))) (threadRecord (jprop records t)))"
| "call_fits spec records (Call_inject t items) = list_all carried items"
| "call_fits spec records _ = True"

lemma resume_fits:
  "fst (resume_plan records handle scope fingerprint) = Resume_thread t \<Longrightarrow>
   scope_fits scope (threadRecord (jprop records t)) \<and> tools_fit fingerprint (threadRecord (jprop records t))"
  by (auto simp: resume_plan_def Let_def scope_fits_def tools_fit_def split: if_splits option.splits)

lemma old_conversation_carried: "old_conversation parse st read old = Inr items \<Longrightarrow> list_all carried items"
  using rebuilt_items_carried by (auto simp: old_conversation_def split: sum.splits)


lemma recorded_entry:
  "jprop (record_thread fingerprint scope t records) t = thread_entry fingerprint scope"
proof -
  let ?xs = "AList.delete t records"
  have drop: "drop (length (?xs @ [x]) - MAX_RECORDS) (?xs @ [x]) = drop (length ?xs + 1 - MAX_RECORDS) ?xs @ [x]" for x
    by (simp add: MAX_RECORDS_def)
  have "t \<notin> fst ` set (drop n ?xs)" for n
    using set_drop_subset [of n ?xs] by (auto simp: AList.delete_eq)
  then have "map_of (drop n ?xs) t = None" for n by (simp add: map_of_eq_None_iff)
  then show ?thesis
    unfolding record_thread_def Let_def drop jprop_def by (simp add: map_add_def)
qed

text \<open>
  A thread remembers what it was made for: after a session that opened a new thread, a later
  one that names it resumes it only on the same connectors and, where the scope was known, for
  the very same scope; on another scope it is rebuilt, on other connectors left behind. The
  records never grow beyond their bound and the others kept are the ones used last.
\<close>

theorem thread_remembers_scope:
  assumes "codex_thread parse st a spec cwd mode specs records = (Inr (t, records'), calls)"
    and "string_or_empty (jprop spec (js ''resume_sdk_session_id'')) = []"
  shows "resume_plan records' t scope fingerprint =
      (let made_for = session_scope spec
       in if fingerprint \<noteq> connectorFingerprint (payload_of (jprop spec (js ''mcp_servers''))) then (Fresh_thread, scope)
          else if (if made_for \<noteq> JUndef then made_for \<noteq> scope else isSharedScope scope) then (Rebuild_thread t, scope)
          else (Resume_thread t, made_for)) \<and>
    length records' \<le> MAX_RECORDS \<and> suffix (butlast records') (AList.delete t records)"
proof -
  let ?fp = "connectorFingerprint (payload_of (jprop spec (js ''mcp_servers'')))"
  have scope: "session_scope spec = JUndef \<or> is_str (session_scope spec) \<and> truthy (session_scope spec)"
    by (auto simp: session_scope_def split: json.splits)
  have r: "t \<noteq> []" "records' = record_thread ?fp (session_scope spec) t records"
    using assms by (auto simp: codex_thread_def open_thread_def resume_plan_def Let_def split: sum.splits if_splits)
  have "threadRecord (jprop records' t) = Some \<lparr>tr_tools = JStr ?fp, tr_scope = session_scope spec\<rparr>"
    using scope by (auto simp: r(2) recorded_entry thread_entry_def threadRecord_def js_eq_iff)
  moreover have "length records' \<le> MAX_RECORDS"
    by (simp add: r(2) record_thread_def Let_def)
  moreover have "suffix (butlast records') (AList.delete t records)"
    by (simp add: r(2) record_thread_def Let_def MAX_RECORDS_def butlast_append drop_Cons' suffix_drop)
  ultimately show ?thesis using r(1) by (auto simp: resume_plan_def Let_def)
qed

definition sample_store :: rollout_store where
  "sample_store = \<lparr>ro_bytes = \<lambda>_. Inl [], ro_entries = \<lambda>_. [], ro_exists = \<lambda>_. False, ro_home = []\<rparr>"

definition sample_answers :: thread_answers where
  "sample_answers = \<lparr>ta_read = None, ta_start = Inr (JObj [(js ''thread'', JObj [(js ''id'', JStr (js ''t''))])]),
     ta_resume = Inr JNull\<rparr>"

theorem thread_remembers_scope_witness:
  "let spec = [(js ''instructions_scope'', JStr (js ''member:1''))];
       opened = codex_thread (\<lambda>_. None) sample_store sample_answers spec JNull (js ''default'') [] []
   in \<exists>records. fst opened = Inr (js ''t'', records) \<and> resume_plan records (js ''t'') (JStr (js ''shared'')) [] = (Rebuild_thread (js ''t''), JStr (js ''shared''))"
proof -
  let ?spec = "[(js ''instructions_scope'', JStr (js ''member:1''))]"
  let ?opened = "codex_thread (\<lambda>_. None) sample_store sample_answers ?spec JNull (js ''default'') [] []"
  have empty: "connectorFingerprint [] = []" by (simp add: connectorFingerprint_def)
  then have fp: "connectorFingerprint (payload_of (jprop ?spec (js ''mcp_servers''))) = []" by (simp add: js_eq_iff)
  have none: "string_or_empty (jprop ?spec (js ''resume_sdk_session_id'')) = []"
    by (simp add: string_or_empty_def js_eq_iff)
  have "\<exists>records. fst ?opened = Inr (js ''t'', records)"
    by (simp add: codex_thread_def open_thread_def resume_plan_def fp none sample_answers_def thread_of_def string_or_empty_def Let_def)
  then obtain records where o: "?opened = (Inr (js ''t'', records), snd ?opened)" by (auto simp: prod_eq_iff)
  have scope: "session_scope ?spec = JStr (js ''member:1'')" by (simp add: session_scope_def)
  from thread_remembers_scope [OF o none, of "JStr (js ''shared'')" "[]"] have
    "resume_plan records (js ''t'') (JStr (js ''shared'')) [] = (Rebuild_thread (js ''t''), JStr (js ''shared''))"
    by (simp add: scope fp empty Let_def js_eq_iff)
  with o show ?thesis by (auto simp: Let_def prod_eq_iff)
qed

end
