(* ===== verification/CodexGate.thy ===== *)
theory CodexGate
  imports CodexStart
begin

text \<open>
  What the app-server asks of the daemon (\<^verbatim>\<open>gate\<close> and \<^verbatim>\<open>onRequest\<close> of \<^verbatim>\<open>drivers/codex.mjs\<close>):
  approvals of commands, patches and wider permissions, questions to the user, and the calls of
  the tools this daemon runs. A request is split at its wait: first what it comes to at once,
  then what is answered once a person has decided.
\<close>

section \<open>The gate\<close>

datatype codex_verdict = Go | Stop jstring | Ask

definition codex_gate :: "bool \<Rightarrow> jstring \<Rightarrow> json_obj \<Rightarrow> jstring \<Rightarrow> bool \<Rightarrow> codex_verdict" where
  "codex_gate ending mode spec tool question =
     (let escalated = isEscalatedTool tool (jprop spec (js ''escalate_servers''))
      in if ending then Stop (js ''session ended'')
         else if \<not> question \<and> mode = js ''bypassPermissions'' \<and> \<not> escalated then Go
         else if \<not> question \<and> truthy (jprop spec (js ''auto_approve'')) \<and> \<not> escalated then Go
         else Ask)"

text \<open>What the gate lets through, with the input the person may have changed, or why it does not.\<close>

definition codex_decided :: "decision \<Rightarrow> jstring + json" where
  "codex_decided d = (case d of
       Allow updated \<Rightarrow> Inr updated
     | Deny m \<Rightarrow> Inl (if m \<noteq> [] then m else js ''denied by user''))"

section \<open>Requests\<close>

datatype codex_ask =
    Ask_command
  | Ask_patch
  | Ask_permissions
  | Ask_user
  | Ask_tool

definition ask_of :: "jstring \<Rightarrow> codex_ask option" where
  "ask_of meth =
     (if meth = js ''item/commandExecution/requestApproval'' then Some Ask_command
      else if meth = js ''item/fileChange/requestApproval'' then Some Ask_patch
      else if meth = js ''item/permissions/requestApproval'' then Some Ask_permissions
      else if meth = js ''item/tool/requestUserInput'' then Some Ask_user
      else if meth = js ''item/tool/call'' then Some Ask_tool
      else None)"

definition or_text :: "json \<Rightarrow> jstring \<Rightarrow> json" where
  "or_text params k = or_nullish (jget params k) (JStr [])"

definition requested_permissions :: "json \<Rightarrow> json" where
  "requested_permissions params = or_nullish (jget params (js ''permissions'')) (JObj [])"

definition tool_arguments :: "json \<Rightarrow> json" where
  "tool_arguments params = or_nullish (jget params (js ''arguments'')) (JObj [])"

text \<open>The name a request is judged under, what is shown of it, and the id of its item.\<close>

fun gated_name :: "codex_ask \<Rightarrow> json \<Rightarrow> jstring" where
  "gated_name Ask_command params = js ''shell''"
| "gated_name Ask_patch params = js ''apply_patch''"
| "gated_name Ask_permissions params = js ''request_permissions''"
| "gated_name Ask_user params = js ''request_user_input''"
| "gated_name Ask_tool params = canonicalToolName (or_text params (js ''tool''))"

fun gated_input :: "codex_ask \<Rightarrow> json \<Rightarrow> json" where
  "gated_input Ask_command params = JObj [(js ''command'', or_text params (js ''command'')), (js ''cwd'', or_text params (js ''cwd'')),
     (js ''reason'', or_text params (js ''reason''))]"
| "gated_input Ask_patch params = JObj [(js ''reason'', or_text params (js ''reason'')), (js ''grant_root'', or_text params (js ''grantRoot''))]"
| "gated_input Ask_permissions params = JObj [(js ''reason'', or_text params (js ''reason'')), (js ''cwd'', or_text params (js ''cwd'')),
     (js ''requested_permissions'', requested_permissions params)]"
| "gated_input Ask_user params = questions_json (codexQuestionInput (jget params (js ''questions'')))"
| "gated_input Ask_tool params = tool_arguments params"

definition gated_questions :: "codex_ask \<Rightarrow> json \<Rightarrow> question list option" where
  "gated_questions a params = (if a = Ask_user then Some (codexQuestionInput (jget params (js ''questions''))) else None)"

definition gated_use :: "codex_ask \<Rightarrow> json \<Rightarrow> json" where
  "gated_use a params = jget params (if a = Ask_tool then js ''callId'' else js ''itemId'')"

text \<open>A request is answered with an error or a result, or runs a tool whose outcome is the answer.\<close>

datatype codex_answer = Answer "jstring + json_obj" | Call_handler tool_handler json

definition granted :: "json \<Rightarrow> json \<Rightarrow> json_obj" where
  "granted requested approved =
     (if truthy (jget requested (js ''network'')) \<and> truthy (jget approved (js ''network''))
      then [(js ''network'', jget approved (js ''network''))] else []) @
     (if truthy (jget requested (js ''fileSystem'')) \<and> truthy (jget approved (js ''fileSystem''))
      then [(js ''fileSystem'', jget approved (js ''fileSystem''))] else [])"

definition permissions_reply :: "json_obj \<Rightarrow> json_obj" where
  "permissions_reply p = [(js ''permissions'', JObj p), (js ''scope'', JStr (js ''turn''))]"

definition decision_reply :: "bool \<Rightarrow> json_obj" where
  "decision_reply allowed = [(js ''decision'', JStr (if allowed then js ''accept'' else js ''decline''))]"

definition no_answers :: jstring where "no_answers = js ''no answers were supplied''"

fun codex_answered :: "(jstring, tool_handler) jmap \<Rightarrow> codex_ask \<Rightarrow> json \<Rightarrow> jstring + json \<Rightarrow> codex_answer" where
  "codex_answered hs Ask_command params d = Answer (Inr (decision_reply (case d of Inr u \<Rightarrow> True | Inl m \<Rightarrow> False)))"
| "codex_answered hs Ask_patch params d = Answer (Inr (decision_reply (case d of Inr u \<Rightarrow> True | Inl m \<Rightarrow> False)))"
| "codex_answered hs Ask_permissions params d = Answer (Inr (permissions_reply (case d of
       Inl m \<Rightarrow> []
     | Inr u \<Rightarrow> granted (requested_permissions params)
         (or_nullish (jget u (js ''requested_permissions'')) (requested_permissions params)))))"
| "codex_answered hs Ask_user params d = Answer (case d of
       Inl m \<Rightarrow> Inl (if m \<noteq> [] then m else no_answers)
     | Inr u \<Rightarrow> (case codexQuestionReply (codexQuestionInput (jget params (js ''questions''))) (jget u (js ''answers'')) of
           None \<Rightarrow> Inl no_answers
         | Some reply \<Rightarrow> Inr reply))"
| "codex_answered hs Ask_tool params d = (case d of
       Inl m \<Rightarrow> Answer (Inr (toolCallResponse (JStr m) False))
     | Inr u \<Rightarrow> (case map_of hs (js_String (or_text params (js ''tool''))) of
           None \<Rightarrow> Answer (Inr (toolCallResponse (JStr []) False))
         | Some h \<Rightarrow> Call_handler h (or_nullish u (tool_arguments params))))"

definition gone_tool :: "jstring \<Rightarrow> jstring" where
  "gone_tool wire = js ''The tool '' @ wire @ js '' is no longer available in this session. Do not retry it; continue '' @
     js ''without it or report that it is unavailable.''"

definition unattended :: jstring where
  "unattended = js ''this session is unattended; ask no questions and proceed with your best judgement''"

text \<open>
  What a request comes to at once, or \<open>None\<close> when a person is asked. The gate judges the name,
  not the wire name; the platform's own tools park the turn and are never asked about.
\<close>

definition codex_asked ::
    "(jstring, tool_handler) jmap \<Rightarrow> bool \<Rightarrow> jstring \<Rightarrow> json_obj \<Rightarrow> jstring \<Rightarrow> json \<Rightarrow> codex_answer option" where
  "codex_asked hs ending mode spec meth params =
     (case ask_of meth of
        None \<Rightarrow> Some (Answer (Inl (js ''unsupported codex server request '' @ meth)))
      | Some a \<Rightarrow>
          (let wire = js_String (or_text params (js ''tool'')); tool = gated_name a params
           in if a = Ask_user \<and> \<not> asksQuestions (JObj spec) then Some (Answer (Inl unattended))
              else if a = Ask_tool \<and> map_of hs wire = None
              then Some (Answer (Inr (toolCallResponse (JStr (gone_tool wire)) False)))
              else if a = Ask_tool \<and> tool \<in> set (platformToolNames (JObj spec) (js ''mcp__platform__''))
              then Some (codex_answered hs a params (Inr JUndef))
              else (case codex_gate ending mode spec tool (a = Ask_user) of
                  Go \<Rightarrow> Some (codex_answered hs a params (Inr JUndef))
                | Stop m \<Rightarrow> Some (codex_answered hs a params (Inl m))
                | Ask \<Rightarrow> None)))"

section \<open>Nothing goes ahead unasked that should not\<close>

text \<open>An answer that lets something happen.\<close>

definition lets_through :: "codex_answer \<Rightarrow> bool" where
  "lets_through r = (case r of
       Answer (Inl m) \<Rightarrow> False
     | Answer (Inr reply) \<Rightarrow> jprop reply (js ''decision'') = JStr (js ''accept'') \<or>
         (case jprop reply (js ''permissions'') of JObj p \<Rightarrow> p \<noteq> [] | _ \<Rightarrow> False)
     | Call_handler h args \<Rightarrow> True)"

definition platform_call :: "json_obj \<Rightarrow> jstring \<Rightarrow> json \<Rightarrow> bool" where
  "platform_call spec meth params \<longleftrightarrow> meth = js ''item/tool/call'' \<and>
     canonicalToolName (or_text params (js ''tool'')) \<in> set (platformToolNames (JObj spec) (js ''mcp__platform__''))"

lemma stopped_blocks: "\<not> lets_through (codex_answered hs a params (Inl m))"
  by (cases a) (simp_all add: lets_through_def decision_reply_def permissions_reply_def toolCallResponse_def js_eq_iff)

lemma gate_go: "codex_gate ending mode spec tool question = Go \<Longrightarrow>
    \<not> ending \<and> \<not> question \<and> \<not> isEscalatedTool tool (jprop spec (js ''escalate_servers'')) \<and>
    (mode = js ''bypassPermissions'' \<or> truthy (jprop spec (js ''auto_approve'')))"
  by (auto simp: codex_gate_def Let_def split: if_splits)




end
