(* ===== verification/PiTranslate.thy ===== *)
theory PiTranslate
  imports CodexTranslate Decisions HostFiles
begin

text \<open>
  \<^verbatim>\<open>drivers/pi-translate.mjs\<close> and \<^verbatim>\<open>drivers/pi-provider.mjs\<close>: pi's messages as transcript
  payloads, its errors, which provider owns a model, and when a session compacts. Token counts
  are the integers pi reports; reading and parsing the catalogue are arguments.
\<close>

section \<open>Transcript\<close>

definition pi_init :: "json \<Rightarrow> json \<Rightarrow> json_obj" where
  "pi_init sessionFile model =
     [(js ''type'', JStr (js ''system'')), (js ''subtype'', JStr (js ''init'')), (js ''session_id'', or_falsy sessionFile (JStr [])),
      (js ''model'', or_falsy model (JStr [])), (js ''harness'', JStr (js ''pi''))]"

definition content_block :: "json \<Rightarrow> json list" where
  "content_block c =
     (if \<not> is_object_type c then []
      else if jget c (js ''type'') = JStr (js ''text'')
      then [JObj [(js ''type'', JStr (js ''text'')), (js ''text'', text_field c (js ''text''))]]
      else if jget c (js ''type'') = JStr (js ''thinking'')
      then [JObj [(js ''type'', JStr (js ''thinking'')),
             (js ''thinking'', or_nullish (jget c (js ''thinking'')) (text_field c (js ''text'')))]]
      else if jget c (js ''type'') = JStr (js ''toolCall'')
      then [JObj [(js ''type'', JStr (js ''tool_use'')), (js ''id'', text_field c (js ''id'')),
             (js ''name'', text_field c (js ''name'')), (js ''input'', or_nullish (jget c (js ''arguments'')) (JObj []))]]
      else [])"

definition contentBlocks :: "json \<Rightarrow> json list" where
  "contentBlocks content = concat (map content_block (arr_or_nil content))"

definition pi_usage :: "json \<Rightarrow> json" where
  "pi_usage u =
     (if \<not> is_object_type u then JUndef
      else JObj [(js ''input_tokens'', or_nullish (jget u (js ''input'')) (JInt 0)),
        (js ''output_tokens'', or_nullish (jget u (js ''output'')) (JInt 0)),
        (js ''cache_read_input_tokens'', or_nullish (jget u (js ''cacheRead'')) (JInt 0)),
        (js ''cache_creation_input_tokens'', or_nullish (jget u (js ''cacheWrite'')) (JInt 0))])"

definition assistantPayload :: "json \<Rightarrow> json_obj" where
  "assistantPayload msg =
     [(js ''type'', JStr (js ''assistant'')),
      (js ''message'', JObj (
         [(js ''role'', JStr (js ''assistant'')), (js ''content'', JArr (contentBlocks (jget msg (js ''content'')))),
          (js ''model'', text_field msg (js ''model''))] @
         (if truthy (jget msg (js ''usage'')) then [(js ''usage'', pi_usage (jget msg (js ''usage'')))] else []) @
         (if truthy (jget msg (js ''stopReason'')) then [(js ''stop_reason'', jget msg (js ''stopReason''))] else []) @
         (if truthy (jget msg (js ''errorMessage'')) then [(js ''error_message'', jget msg (js ''errorMessage''))] else [])))]"

definition toolResultsPayload :: "json \<Rightarrow> json_obj" where
  "toolResultsPayload toolResults =
     [(js ''type'', JStr (js ''user'')),
      (js ''message'', JObj [(js ''role'', JStr (js ''user'')),
         (js ''content'', JArr (map (\<lambda>r. JObj (
            [(js ''type'', JStr (js ''tool_result'')), (js ''tool_use_id'', text_field r (js ''toolCallId'')),
             (js ''content'', JStr (mcpContentText (or_nullish (jget r (js ''content'')) (jget r (js ''output'')))))] @
            (if truthy (jget r (js ''isError'')) then [(js ''is_error'', JBool True)] else []))) (arr_or_nil toolResults)))])]"

definition pi_partial :: "json \<Rightarrow> json_obj option" where
  "pi_partial ev =
     (if jget ev (js ''type'') \<noteq> JStr (js ''text_delta'') \<or> str_or [] (jget ev (js ''delta'')) = [] then None
      else Some [(js ''type'', JStr (js ''stream_event'')),
        (js ''event'', JObj [(js ''type'', JStr (js ''content_block_delta'')),
           (js ''delta'', JObj [(js ''type'', JStr (js ''text_delta'')), (js ''text'', jget ev (js ''delta''))])])])"

definition is_assistant :: "json \<Rightarrow> bool" where
  "is_assistant m \<longleftrightarrow> jget m (js ''role'') = JStr (js ''assistant'')"

record token_sum =
  ts_input :: int
  ts_output :: int
  ts_cacheRead :: int
  ts_cacheWrite :: int

fun add_usage :: "json list \<Rightarrow> token_sum option \<Rightarrow> token_sum option" where
  "add_usage [] acc = acc"
| "add_usage (m # ms) acc =
     (if \<not> is_assistant m \<or> \<not> truthy (jget m (js ''usage'')) then add_usage ms acc
      else (let u = jget m (js ''usage'');
                t = (case acc of Some t \<Rightarrow> t | None \<Rightarrow> \<lparr>ts_input = 0, ts_output = 0, ts_cacheRead = 0, ts_cacheWrite = 0\<rparr>)
            in add_usage ms (Some \<lparr>ts_input = ts_input t + count_of u (js ''input''),
                 ts_output = ts_output t + count_of u (js ''output''),
                 ts_cacheRead = ts_cacheRead t + count_of u (js ''cacheRead''),
                 ts_cacheWrite = ts_cacheWrite t + count_of u (js ''cacheWrite'')\<rparr>)))"

definition sumAssistantUsage :: "json \<Rightarrow> token_sum option" where
  "sumAssistantUsage messages = add_usage (arr_or_nil messages) None"

definition text_parts :: "json \<Rightarrow> jstring list" where
  "text_parts m =
     map (\<lambda>c. js_String (jget c (js ''text'')))
       (filter (\<lambda>c. jget c (js ''type'') = JStr (js ''text'') \<and> truthy (jget c (js ''text''))) (arr_or_nil (jget m (js ''content''))))"

text \<open>The messages from the last one back.\<close>

fun last_text :: "json list \<Rightarrow> jstring" where
  "last_text [] = []"
| "last_text (m # ms) =
     (if \<not> is_assistant m then last_text ms
      else if text_parts m \<noteq> [] then join [10] (text_parts m) else last_text ms)"

definition lastAssistantText :: "json \<Rightarrow> jstring" where
  "lastAssistantText messages = last_text (rev (arr_or_nil messages))"

fun last_error :: "json list \<Rightarrow> json" where
  "last_error [] = JNull"
| "last_error (m # ms) =
     (if \<not> is_assistant m then last_error ms
      else if jget m (js ''stopReason'') \<noteq> JStr (js ''error'') then JNull
      else or_falsy (jget m (js ''errorMessage'')) (JStr (js ''the model call failed with no error text'')))"

definition turnErrorMessage :: "json \<Rightarrow> json" where
  "turnErrorMessage messages = last_error (rev (arr_or_nil messages))"

definition pi_result :: "jstring \<Rightarrow> json \<Rightarrow> json \<Rightarrow> json \<Rightarrow> json \<Rightarrow> json \<Rightarrow> json_obj" where
  "pi_result subtype result_text cost usage numTurns durationMS =
     [(js ''type'', JStr (js ''result'')), (js ''subtype'', JStr subtype), (js ''result'', result_text)] @
     (if subtype \<noteq> js ''success'' then [(js ''is_error'', JBool True)] else []) @
     [(js ''total_cost_usd'', cost), (js ''num_turns'', numTurns), (js ''duration_ms'', durationMS)] @
     (if truthy usage then [(js ''usage'', pi_usage usage)] else [])"

section \<open>Errors and effort\<close>

definition pi_auth :: re where
  "pi_auth = any_of (word ''401'') [seq [word ''invalid'', gap, word ''api'', gap, word ''key''], word ''authentication'']"

definition pi_billing :: re where
  "pi_billing = any_of (seq [word ''insufficient'', gap, word ''credit'']) [word ''billing'', word ''payment'']"

definition classifyPiError :: "js_error \<Rightarrow> jstring option \<Rightarrow> diagnosis" where
  "classifyPiError e provider =
     (let raw = error_raw e; named = (case provider of None \<Rightarrow> [] | Some p \<Rightarrow> p)
      in if re_test pi_auth raw
         then diagnose ''auth'' (js ''Model gateway authentication failed '' @ [0x2014] @ js '' this session'' @ [0x27] @
                js ''s platform token was rejected'' @ (if named \<noteq> [] then js '' (model served by '' @ named @ js '')'' else []) @
                js ''. Start a new session to mint a fresh one; if it persists, contact support.'') e
         else if re_test rate_error raw
         then diagnose ''rate_limited'' (js ''The model API rate-limited the session. Retry shortly.'') e
         else if re_test pi_billing raw
         then diagnose ''billing'' (js ''The model API rejected the request for billing reasons '' @ [0x2014] @ js '' check the '' @
                (if named \<noteq> [] then named else js ''model provider'') @ js '' account balance.'') e
         else diagnose ''error'' (error_short e) e)"

definition PI_EFFORTS :: "jstring list" where
  "PI_EFFORTS = [js ''minimal'', js ''low'', js ''medium'', js ''high'', js ''xhigh'', js ''max'']"

definition pi_effort :: "json \<Rightarrow> json" where
  "pi_effort effort = (if effort \<in> JStr ` set PI_EFFORTS then effort else JUndef)"

section \<open>The model catalogue\<close>

text \<open>The rest of a text after a block comment ends.\<close>

fun after_block :: "jstring \<Rightarrow> jstring" where
  "after_block (a # b # r) = (if a = 0x2A \<and> b = 0x2F then r else after_block (b # r))"
| "after_block _ = []"

definition after_line :: "jstring \<Rightarrow> jstring" where
  "after_line s = drop 1 (dropWhile (\<lambda>c. c \<noteq> 10) s)"

lemma length_after_block: "length (after_block s) \<le> length s"
  by (induction s rule: after_block.induct) auto

lemma length_after_line: "length (after_line s) \<le> length s"
  by (simp add: after_line_def) (meson diff_le_self le_trans length_dropWhile_le)

datatype scan = Outside | In_string bool

function strip_from :: "scan \<Rightarrow> jstring \<Rightarrow> jstring" where
  "strip_from m [] = []"
| "strip_from (In_string escaped) (c # s) =
     c # strip_from (if escaped then In_string False else if c = 0x5C then In_string True
                     else if c = 0x22 then Outside else In_string False) s"
| "strip_from Outside (c # s) =
     (if c = 0x22 then c # strip_from (In_string False) s
      else if c = 0x2F \<and> starts_with s [0x2F] then 10 # strip_from Outside (after_line s)
      else if c = 0x2F \<and> starts_with s [0x2A] then strip_from Outside (after_block (drop 1 s))
      else c # strip_from Outside s)"
  by pat_completeness auto

termination
  by (relation "measure (\<lambda>(m, s). length s)")
    (auto simp: less_Suc_eq_le length_after_line intro: le_trans [OF length_after_block])

definition stripJsonComments :: "jstring \<Rightarrow> jstring" where
  "stripJsonComments = strip_from Outside"

definition readProviders :: "(jstring \<Rightarrow> json option) \<Rightarrow> jstring option \<Rightarrow> json_obj option" where
  "readProviders parse file =
     (case file of
       None \<Rightarrow> None
     | Some t \<Rightarrow>
         (case parse (stripJsonComments t) of
           None \<Rightarrow> None
         | Some doc \<Rightarrow> (case jget doc (js ''providers'') of JObj kvs \<Rightarrow> Some kvs | _ \<Rightarrow> None)))"

definition serves :: "json \<Rightarrow> jstring \<Rightarrow> bool" where
  "serves provider modelId \<longleftrightarrow> (\<exists>m \<in> set (arr_or_nil (jget provider (js ''models''))). jget m (js ''id'') = JStr modelId)"

definition providerForModel :: "(jstring \<Rightarrow> json option) \<Rightarrow> jstring option \<Rightarrow> jstring \<Rightarrow> jstring option" where
  "providerForModel parse file modelId =
     (if modelId = [] then None
      else (case readProviders parse file of
          None \<Rightarrow> None
        | Some providers \<Rightarrow> map_option fst (find (\<lambda>(name, provider). serves provider modelId) providers)))"

definition COMPACT_AT_TOKENS :: int where "COMPACT_AT_TOKENS = 256000"
definition PI_DEFAULT_RESERVE_TOKENS :: int where "PI_DEFAULT_RESERVE_TOKENS = 16384"

definition safe_integer :: "json \<Rightarrow> int option" where
  "safe_integer v = (case v of JInt i \<Rightarrow> if \<bar>i\<bar> < 2 ^ 53 then Some i else None | _ \<Rightarrow> None)"

definition reserve_key :: "jstring \<Rightarrow> jstring \<Rightarrow> jstring" where
  "reserve_key provider model = provider @ [0x2F] @ model"

fun add_reserves :: "jstring \<Rightarrow> json list \<Rightarrow> (jstring \<times> int) list \<Rightarrow> (jstring \<times> int) list" where
  "add_reserves name [] acc = acc"
| "add_reserves name (m # ms) acc =
     add_reserves name ms
       (case (jget m (js ''id''), safe_integer (jget m (js ''contextWindow''))) of
         (JStr i, Some w) \<Rightarrow>
           if w - COMPACT_AT_TOKENS > PI_DEFAULT_RESERVE_TOKENS
           then AList.update (reserve_key name i) (w - COMPACT_AT_TOKENS) acc else acc
       | _ \<Rightarrow> acc)"

definition compactionReserves :: "(jstring \<Rightarrow> json option) \<Rightarrow> jstring option \<Rightarrow> (jstring \<times> int) list" where
  "compactionReserves parse file =
     fold (\<lambda>(name, provider). add_reserves name (arr_or_nil (jget provider (js ''models''))))
       (case readProviders parse file of None \<Rightarrow> [] | Some kvs \<Rightarrow> kvs) []"

text \<open>pi's own reserve of a model (its provider and id), if there is one, made to hold the platform's.\<close>

definition keepCompactionReserves :: "(jstring \<times> int) list \<Rightarrow> ((jstring \<times> jstring) option \<Rightarrow> int) \<Rightarrow> (jstring \<times> jstring) option \<Rightarrow> int" where
  "keepCompactionReserves reserves own model =
     (case (case model of None \<Rightarrow> None | Some (p, i) \<Rightarrow> map_of reserves (reserve_key p i)) of
       None \<Rightarrow> own model
     | Some platform \<Rightarrow> max (own model) platform)"

section \<open>Comments go, the catalogue stays\<close>

text \<open>A text that the scan passes through as it is, from outside a string to outside again.\<close>

definition kept :: "jstring \<Rightarrow> bool" where
  "kept t \<longleftrightarrow> (\<forall>rest. strip_from Outside (t @ rest) = t @ strip_from Outside rest)"

definition kept_inside :: "jstring \<Rightarrow> bool" where
  "kept_inside t \<longleftrightarrow> (\<forall>rest. strip_from (In_string False) (t @ rest) = t @ strip_from (In_string False) rest)"

lemma kept_Nil [simp]: "kept []" "kept_inside []"
  by (simp_all add: kept_def kept_inside_def)

lemma kept_append [intro]: "kept a \<Longrightarrow> kept b \<Longrightarrow> kept (a @ b)" "kept_inside a \<Longrightarrow> kept_inside b \<Longrightarrow> kept_inside (a @ b)"
  by (simp_all add: kept_def kept_inside_def)

definition plain :: "jstring \<Rightarrow> bool" where
  "plain t \<longleftrightarrow> 0x22 \<notin> set t \<and> 0x2F \<notin> set t"

lemma kept_plain: "plain t \<Longrightarrow> kept t"
proof (induction t)
  case (Cons c t)
  then have "kept t" by (simp add: plain_def)
  moreover have "c \<noteq> 0x22" "c \<noteq> 0x2F" using Cons.prems by (auto simp: plain_def)
  ultimately show ?case by (simp add: kept_def)
qed simp

lemma kept_inside_unit: "u \<noteq> 0x22 \<Longrightarrow> u \<noteq> 0x5C \<Longrightarrow> kept_inside [u]"
  by (simp add: kept_inside_def)

lemma kept_inside_plain: "list_all (\<lambda>u. u \<noteq> 0x22 \<and> u \<noteq> 0x5C) t \<Longrightarrow> kept_inside t"
  by (induction t) (auto simp: kept_inside_def)

lemma kept_inside_escaped: "kept_inside (0x5C # u # [])"
  by (simp add: kept_inside_def)

lemma hex_plain: "n < 16 \<Longrightarrow> hex_digit n \<noteq> 0x22 \<and> hex_digit n \<noteq> 0x5C"
proof -
  have "\<forall>n \<in> set [0..<16]. hex_digit n \<noteq> 0x22 \<and> hex_digit n \<noteq> 0x5C" by (simp add: hex_digit_def upt_rec)
  then show "n < 16 \<Longrightarrow> hex_digit n \<noteq> 0x22 \<and> hex_digit n \<noteq> 0x5C" by simp
qed

lemma kept_inside_unicode: "kept_inside (unicode_escape u)"
proof -
  have "kept_inside ([0x5C, 0x75] @ [hex_digit (unat u div 4096 mod 16), hex_digit (unat u div 256 mod 16),
      hex_digit (unat u div 16 mod 16), hex_digit (unat u mod 16)])"
    by (intro kept_append kept_inside_escaped kept_inside_plain) (simp add: hex_plain)
  then show ?thesis by (simp add: unicode_escape_def)
qed

lemma kept_inside_escape_unit: "kept_inside (escape_unit u)"
  by (simp add: escape_unit_def kept_inside_escaped kept_inside_unicode kept_inside_unit)

lemma surrogate_plain: "high_surrogate u \<or> low_surrogate u \<Longrightarrow> kept_inside [u]"
  by (rule kept_inside_unit) (auto simp: high_surrogate_def low_surrogate_def)

lemma kept_inside_escape: "kept_inside (escape s)"
proof (induction s rule: escape.induct)
  case (2 u)
  then show ?case by (simp add: kept_inside_unicode kept_inside_escape_unit)
next
  case (3 u v s)
  have "high_surrogate u \<Longrightarrow> low_surrogate v \<Longrightarrow> kept_inside ([u] @ [v] @ escape s)"
    using 3 by (intro kept_append surrogate_plain) auto
  with 3 show ?case by (auto intro!: kept_append kept_inside_unicode kept_inside_escape_unit)
qed simp

lemma kept_quote: "kept (quote s)"
  using kept_inside_escape [of s] by (simp add: quote_def kept_def kept_inside_def)

lemma plain_dec: "plain (dec n)"
  using dec_digits [of n] by (auto simp: plain_def list_all_iff is_digit_def)

lemma plain_texts: "plain (int_text i)" "plain (js ''null'')" "plain (js ''true'')" "plain (js ''false'')"
  using plain_dec by (auto simp: int_text_def plain_def js_Cons)

lemma kept_join: "list_all kept ts \<Longrightarrow> kept (join [0x2C] ts)"
proof (induction ts rule: induct_list012)
  case (3 x y zs)
  have "kept (x @ [0x2C] @ join [0x2C] (y # zs))"
    using 3 by (intro kept_append kept_plain [of "[0x2C]"]) (simp_all add: plain_def)
  then show ?case by simp
qed simp_all

text \<open>A number's text has neither quotes nor slashes.\<close>

fun numbers_plain :: "json \<Rightarrow> bool"
  and numbers_plain_list :: "json list \<Rightarrow> bool"
  and numbers_plain_props :: "json_obj \<Rightarrow> bool" where
  "numbers_plain (JFrac t) = plain t"
| "numbers_plain (JArr xs) = numbers_plain_list xs"
| "numbers_plain (JObj kvs) = numbers_plain_props kvs"
| "numbers_plain _ = True"
| "numbers_plain_list [] = True"
| "numbers_plain_list (x # xs) = (numbers_plain x \<and> numbers_plain_list xs)"
| "numbers_plain_props [] = True"
| "numbers_plain_props ((k, v) # kvs) = (numbers_plain v \<and> numbers_plain_props kvs)"

lemma kept_literal: "plain t \<Longrightarrow> kept u \<Longrightarrow> kept (t @ u)" "plain t \<Longrightarrow> kept u \<Longrightarrow> kept (u @ t)"
  by (simp_all add: kept_append kept_plain)

lemma kept_json:
  "numbers_plain v \<Longrightarrow> kept (json_text v)"
  "numbers_plain_list xs \<Longrightarrow> list_all kept (item_texts xs)"
  "numbers_plain_props kvs \<Longrightarrow> list_all kept (prop_texts kvs)"
proof (induction v and xs and kvs rule: json_text_item_texts_prop_texts.induct)
  case (8 xs)
  have "kept ([0x5B] @ join [0x2C] (item_texts xs) @ [0x5D])"
    by (intro kept_append kept_plain kept_join) (use 8 in \<open>simp_all add: plain_def\<close>)
  then show ?case by simp
next
  case (9 kvs)
  have "kept ([0x7B] @ join [0x2C] (prop_texts kvs) @ [0x7D])"
    by (intro kept_append kept_plain kept_join) (use 9 in \<open>simp_all add: plain_def\<close>)
  then show ?case by simp
next
  case (13 k v kvs)
  have "kept (quote k @ [0x3A] @ json_text v)" if "v \<noteq> JUndef"
    by (intro kept_append kept_quote kept_plain [of "[0x3A]"]) (use 13 that in \<open>simp_all add: plain_def\<close>)
  with 13 show ?case by simp
qed (simp_all add: kept_quote kept_plain plain_texts)

text \<open>
  Reading the catalogue forgives comments and touches nothing else: the JSON text of any
  value goes through unchanged, slashes in its strings included, and a line comment after such
  a text is dropped up to the end of its line.
\<close>

theorem catalogue_text_kept:
  assumes "numbers_plain v"
  shows "stripJsonComments (json_text v) = json_text v \<and>
    (10 \<notin> set comment \<longrightarrow>
      stripJsonComments (json_text v @ [0x2F, 0x2F] @ comment @ [10] @ rest) = json_text v @ [10] @ stripJsonComments rest)"
proof -
  have k: "strip_from Outside (json_text v @ r) = json_text v @ strip_from Outside r" for r
    using kept_json(1) [OF assms] by (simp add: kept_def)
  have "10 \<notin> set comment \<Longrightarrow> strip_from Outside ([0x2F, 0x2F] @ comment @ [10] @ rest) = 10 # strip_from Outside rest"
    by (simp add: starts_with_def after_line_def dropWhile_append)
  with k [of "[]"] k show ?thesis by (simp add: stripJsonComments_def)
qed

theorem catalogue_text_kept_witness:
  "stripJsonComments (json_text (JObj [(js ''url'', JStr (js ''https://x/y''))])) = json_text (JObj [(js ''url'', JStr (js ''https://x/y''))])"
  using catalogue_text_kept [of "JObj [(js ''url'', JStr (js ''https://x/y''))]"] by simp

section \<open>Owners and reserves\<close>

lemma find_split: "find P xs = Some x \<Longrightarrow> \<exists>as bs. xs = as @ x # bs \<and> P x \<and> (\<forall>a \<in> set as. \<not> P a)"
proof (induction xs)
  case (Cons y ys)
  show ?case
  proof (cases "P y")
    case True
    with Cons.prems show ?thesis by (intro exI [of _ "[]"] exI [of _ ys]) simp
  next
    case False
    with Cons.prems have "find P ys = Some x" by simp
    then obtain as bs where "ys = as @ x # bs" "P x" "\<forall>a \<in> set as. \<not> P a" using Cons.IH by blast
    with False show ?thesis by (intro exI [of _ "y # as"] exI [of _ bs]) simp
  qed
qed simp

text \<open>
  A model goes to the provider that owns it: the provider named is the first of the
  catalogue that lists the model, and there is none exactly when the catalogue cannot be read
  or no provider lists it.
\<close>

theorem model_owner_found:
  assumes "modelId \<noteq> []"
  shows "case providerForModel parse file modelId of
      Some name \<Rightarrow> \<exists>before provider after. readProviders parse file = Some (before @ (name, provider) # after) \<and>
        serves provider modelId \<and> list_all (\<lambda>(n, p). \<not> serves p modelId) before
    | None \<Rightarrow> (case readProviders parse file of None \<Rightarrow> True | Some ps \<Rightarrow> list_all (\<lambda>(n, p). \<not> serves p modelId) ps)"
proof (cases "readProviders parse file")
  case (Some ps)
  show ?thesis
  proof (cases "find (\<lambda>(name, provider). serves provider modelId) ps")
    case None
    then have "list_all (\<lambda>(n, p). \<not> serves p modelId) ps" by (auto simp: find_None_iff list_all_iff)
    with None Some assms show ?thesis by (simp add: providerForModel_def)
  next
    case (Some x)
    obtain n p where x: "x = (n, p)" by fastforce
    obtain as bs where s: "ps = as @ (n, p) # bs" "serves p modelId" "\<forall>a \<in> set as. \<not> (case a of (n, p) \<Rightarrow> serves p modelId)"
      using find_split [OF Some] x by auto
    have "list_all (\<lambda>(n, p). \<not> serves p modelId) as" using s(3) by (auto simp: list_all_iff)
    moreover have "providerForModel parse file modelId = Some n"
      using Some x \<open>readProviders parse file = Some ps\<close> assms by (simp add: providerForModel_def)
    ultimately show ?thesis using s(1,2) \<open>readProviders parse file = Some ps\<close> by auto
  qed
qed (simp add: providerForModel_def)

definition owns_reserve :: "json_obj \<Rightarrow> jstring \<times> int \<Rightarrow> bool" where
  "owns_reserve providers = (\<lambda>(k, r). \<exists>(name, provider) \<in> set providers. \<exists>m \<in> set (arr_or_nil (jget provider (js ''models''))).
     \<exists>i w. jget m (js ''id'') = JStr i \<and> jget m (js ''contextWindow'') = JInt w \<and> k = reserve_key name i \<and>
       w - r = COMPACT_AT_TOKENS \<and> r > PI_DEFAULT_RESERVE_TOKENS)"

lemma add_reserves_owned:
  assumes "list_all (owns_reserve providers) acc" and "(name, provider) \<in> set providers"
    and "set ms \<subseteq> set (arr_or_nil (jget provider (js ''models'')))"
  shows "list_all (owns_reserve providers) (add_reserves name ms acc)"
  using assms
proof (induction ms arbitrary: acc)
  case (Cons m ms)
  have new: "owns_reserve providers (reserve_key name i, w - COMPACT_AT_TOKENS)"
    if "jget m (js ''id'') = JStr i" "jget m (js ''contextWindow'') = JInt w" "w - COMPACT_AT_TOKENS > PI_DEFAULT_RESERVE_TOKENS" for i w
    unfolding owns_reserve_def prod.case using Cons.prems(2,3) that
    by (intro bexI [of _ "(name, provider)"]) (auto intro!: bexI [of _ m])
  have upd: "list_all (owns_reserve providers) (AList.update k v acc)" if "owns_reserve providers (k, v)" for k v
    using Cons.prems(1) that by (induction acc) auto
  show ?case using Cons upd new
    by (auto simp: safe_integer_def split: json.splits option.splits if_splits)
qed simp

text \<open>
  A managed pi session compacts in time. Every reserve the platform keeps is that of a model
  of the catalogue whose window leaves more than pi's default, it makes that model compact at
  the platform's size, and the reserve in force is never below it nor below pi's own.
\<close>

theorem compacts_in_time:
  assumes "map_of (compactionReserves parse file) (reserve_key p i) = Some r"
  shows "\<exists>providers name provider m w j. readProviders parse file = Some providers \<and> (name, provider) \<in> set providers \<and>
      m \<in> set (arr_or_nil (jget provider (js ''models''))) \<and> jget m (js ''id'') = JStr j \<and>
      jget m (js ''contextWindow'') = JInt w \<and> reserve_key p i = reserve_key name j \<and>
      w - keepCompactionReserves (compactionReserves parse file) own (Some (p, i)) \<le> COMPACT_AT_TOKENS \<and>
      PI_DEFAULT_RESERVE_TOKENS < r \<and> own (Some (p, i)) \<le> keepCompactionReserves (compactionReserves parse file) own (Some (p, i))"
proof -
  have fold: "list_all (owns_reserve ps) acc \<Longrightarrow> set qs \<subseteq> set ps \<Longrightarrow>
      list_all (owns_reserve ps) (fold (\<lambda>(name, provider). add_reserves name (arr_or_nil (jget provider (js ''models'')))) qs acc)"
    for ps qs acc
    by (induction qs arbitrary: acc) (auto simp: add_reserves_owned)
  obtain ps where ps: "readProviders parse file = Some ps"
    using assms by (cases "readProviders parse file") (simp_all add: compactionReserves_def)
  have "list_all (owns_reserve ps) (compactionReserves parse file)" using fold [of ps "[]" ps] by (simp add: compactionReserves_def ps)
  with assms have "owns_reserve ps (reserve_key p i, r)" by (auto simp: list_all_iff dest: map_of_SomeD)
  then obtain name provider m j w where own: "(name, provider) \<in> set ps" "m \<in> set (arr_or_nil (jget provider (js ''models'')))"
      "jget m (js ''id'') = JStr j" "jget m (js ''contextWindow'') = JInt w" "reserve_key p i = reserve_key name j"
      "w - r = COMPACT_AT_TOKENS" "r > PI_DEFAULT_RESERVE_TOKENS"
    by (auto simp: owns_reserve_def)
  moreover have "keepCompactionReserves (compactionReserves parse file) own (Some (p, i)) = max (own (Some (p, i))) r"
    by (simp add: keepCompactionReserves_def assms)
  moreover have "w - max (own (Some (p, i))) r \<le> COMPACT_AT_TOKENS" "own (Some (p, i)) \<le> max (own (Some (p, i))) r"
    using own(6) by auto
  ultimately show ?thesis using ps by metis
qed

definition sample_catalogue :: json where
  "sample_catalogue = JObj [(js ''providers'', JObj [(js ''zwrm'', JObj [(js ''models'', JArr [JObj [
     (js ''id'', JStr (js ''m'')), (js ''contextWindow'', JInt 1050000)]])])])]"

lemma sample_providers: "readProviders (\<lambda>_. Some sample_catalogue) (Some []) =
    Some [(js ''zwrm'', JObj [(js ''models'', JArr [JObj [(js ''id'', JStr (js ''m'')), (js ''contextWindow'', JInt 1050000)]])])]"
  by (simp add: readProviders_def sample_catalogue_def)

theorem model_owner_found_witness:
  "\<exists>before provider after. readProviders (\<lambda>_. Some sample_catalogue) (Some []) = Some (before @ (js ''zwrm'', provider) # after) \<and>
     serves provider (js ''m'')"
proof -
  have "providerForModel (\<lambda>_. Some sample_catalogue) (Some []) (js ''m'') = Some (js ''zwrm'')"
    by (simp add: providerForModel_def sample_providers serves_def)
  with model_owner_found [of "js ''m''" "\<lambda>_. Some sample_catalogue" "Some []"] show ?thesis by auto
qed

lemma sample_reserve:
  "map_of (compactionReserves (\<lambda>_. Some sample_catalogue) (Some [])) (reserve_key (js ''zwrm'') (js ''m'')) = Some 794000"
  by (simp add: compactionReserves_def sample_providers safe_integer_def COMPACT_AT_TOKENS_def PI_DEFAULT_RESERVE_TOKENS_def)

theorem compacts_in_time_witness:
  "20000 \<le> keepCompactionReserves (compactionReserves (\<lambda>_. Some sample_catalogue) (Some [])) (\<lambda>_. 20000) (Some (js ''zwrm'', js ''m''))"
  using compacts_in_time [OF sample_reserve, of "\<lambda>_. 20000"] by auto

end
