(* ===== verification/PiDriver.thy ===== *)
theory PiDriver
  imports PiTranslate McpBridge SessionServe
begin

text \<open>
  \<^verbatim>\<open>drivers/pi.mjs\<close>: the driver of a pi session. The SDK's events drive the transcript at once
  and results, idling and winding down through a chain of reactions, one at a time, each of
  which may wait for the disk; between its start and the end of its sync anything else may
  happen. What the driver asks of the SDK and the bridge is a log. The costs of the SDK are an
  argument: the difference to the baseline is a floating-point number.
\<close>

section \<open>What a session is built from\<close>

definition SUPPORTED_PERMISSION_MODES :: "jstring list" where
  "SUPPORTED_PERMISSION_MODES = [js ''default'', js ''bypassPermissions'']"

definition DEFAULT_PI_MODEL :: jstring where "DEFAULT_PI_MODEL = js ''qwen/qwen3-235b-instruct''"
definition TOOL_SEARCH :: jstring where "TOOL_SEARCH = js ''tool_search''"
definition TOOL_SEARCH_DEFAULT_LIMIT :: int where "TOOL_SEARCH_DEFAULT_LIMIT = 5"
definition TOOL_SEARCH_MAX_LIMIT :: int where "TOOL_SEARCH_MAX_LIMIT = 8"

definition pi_mode_error :: "jstring \<Rightarrow> http_error" where
  "pi_mode_error mode = bad_request (js ''the pi harness supports permission modes '' @ [0x27] @ js ''default'' @ [0x27] @
     js '' and '' @ [0x27] @ js ''bypassPermissions'' @ [0x27] @ js '', not '' @ [0x27] @ mode @ [0x27])"

definition pi_mode :: "json \<Rightarrow> http_error + jstring" where
  "pi_mode requested =
     (let mode = (if truthy requested then js_String requested else js ''bypassPermissions'')
      in if mode \<in> set SUPPORTED_PERMISSION_MODES then Inr mode else Inl (pi_mode_error mode))"

text \<open>The resume handle is the path of a session file; \<open>opened\<close> is what the SDK says of it.\<close>

definition sessions_root :: "jstring \<Rightarrow> jstring" where
  "sessions_root home = pathResolve home (js ''.pi/agent/sessions'')"

definition resume_file :: "jstring \<Rightarrow> jstring \<Rightarrow> (jstring \<Rightarrow> jstring option) \<Rightarrow> jstring \<Rightarrow> http_error + jstring" where
  "resume_file home cwd opened handle =
     (let p = pathResolve cwd handle
      in if \<not> inside (sessions_root home) p then Inl (bad_request (js ''resume handle is not a pi session file''))
         else case opened p of
           Some m \<Rightarrow> Inl (bad_request (js ''resume failed: '' @ m))
         | None \<Rightarrow> Inr p)"

definition model_missing :: "jstring \<Rightarrow> http_error" where
  "model_missing m = bad_request (js ''model '' @ m @ js '' is not in this VM'' @ [0x27] @
     js ''s catalog (~/.pi/agent/models.json); restart the workspace VM to pick up the current catalog'')"

definition pi_provider :: "(jstring \<Rightarrow> json option) \<Rightarrow> jstring option \<Rightarrow> json \<Rightarrow> http_error + jstring \<times> jstring" where
  "pi_provider parse file requested =
     (let m = (if truthy requested then js_String requested else DEFAULT_PI_MODEL)
      in case providerForModel parse file m of
           Some p \<Rightarrow> if p = [] then Inl (model_missing m) else Inr (p, m)
         | None \<Rightarrow> Inl (model_missing m))"

text \<open>The session's environment goes to the daemon's, its home apart.\<close>

fun session_environment :: "json_obj \<Rightarrow> json_obj \<Rightarrow> json_obj" where
  "session_environment [] env = env"
| "session_environment ((k, v) # kvs) env =
     session_environment kvs (if k = js ''HOME'' then env else jput k v env)"

definition pi_environment :: "json_obj \<Rightarrow> json_obj \<Rightarrow> json_obj" where
  "pi_environment spec_env env =
     jput (js ''ZWRM_GATEWAY_TOKEN'') (JStr (js ''broker''))
       (session_environment spec_env
         (jput (js ''PI_CODING_AGENT'') (JStr (js ''true'')) (jput (js ''PI_SKIP_VERSION_CHECK'') (JStr (js ''1'')) env)))"

fun search_limit :: "json \<Rightarrow> int" where
  "search_limit (JInt n) = min (if n > 0 then n else TOOL_SEARCH_DEFAULT_LIMIT) TOOL_SEARCH_MAX_LIMIT"
| "search_limit _ = min TOOL_SEARCH_DEFAULT_LIMIT TOOL_SEARCH_MAX_LIMIT"

text \<open>Which tools a session has active: what the SDK has, the search, and what a resumed one had loaded.\<close>

definition is_deferred :: "json_obj \<Rightarrow> bool" where
  "is_deferred t \<longleftrightarrow> jprop t (js ''exposure'') = JStr (js ''deferred'')"

definition active_tools :: "json_obj list \<Rightarrow> deferred_server list \<Rightarrow> json list \<Rightarrow> jstring list \<Rightarrow> jstring list" where
  "active_tools tools deferred branch active =
     (if deferred = [] then active
      else let names = map (\<lambda>t. jprop t (js ''name'')) (filter is_deferred tools);
               loaded = filter (\<lambda>n. JStr n \<in> set names) (searchLoadedToolNames branch TOOL_SEARCH);
               wanted = fold set_add (active @ TOOL_SEARCH # loaded) []
           in if length wanted \<noteq> length active then wanted else active)"

section \<open>The gate\<close>

datatype gate = Pass | Refuse jstring | Ask_person

definition pi_gate :: "bool \<Rightarrow> json_obj \<Rightarrow> jstring \<Rightarrow> jstring \<Rightarrow> json \<Rightarrow> gate" where
  "pi_gate ending spec mode tool input =
     (if ending then Refuse (js ''session ended'')
      else let policy = jprop spec (js ''tool_policy'');
               verdict = (if truthy policy
                 then evaluateToolPolicy (js_String policy) tool input (JBool (truthy (jprop spec (js ''interactive''))))
                 else Allowed);
               escalated = isEscalatedTool tool (jprop spec (js ''escalate_servers''));
               forced = (case verdict of Confirm r \<Rightarrow> True | _ \<Rightarrow> False)
           in case verdict of
                ToolPolicy.Blocked reason \<Rightarrow> Refuse reason
              | _ \<Rightarrow>
                if tool \<in> set (platformToolNames (JObj spec) [] @ [TOOL_SEARCH]) \<and> \<not> forced then Pass
                else if mode = js ''bypassPermissions'' \<and> \<not> forced \<and> \<not> escalated then Pass
                else if truthy (jprop spec (js ''auto_approve'')) \<and> \<not> forced \<and> \<not> escalated then Pass
                else Ask_person)"

text \<open>What a decided call goes on with: its input, the approved one in its place, or the reason it is refused.\<close>

definition gate_decided :: "decision \<Rightarrow> json \<Rightarrow> jstring + json" where
  "gate_decided d input = (case d of
       Allow updated \<Rightarrow> Inr (if is_object_type updated then updated else input)
     | Deny m \<Rightarrow> Inl (if m \<noteq> [] then m else js ''denied by user''))"

section \<open>The session over its life\<close>

text \<open>
  A reaction on the chain, and what one that waits for the disk does when it is there. A prompt
  handed to the SDK may come back as a failure; \<open>First r\<close> has \<open>r\<close> retries left.
\<close>

datatype reaction = Emit_result json nat int | Settle | Finish | Fail js_error | Compacted json

datatype sync_wait = Result_sync json_obj "json option" | Finish_sync | Fail_sync diagnosis

datatype prompt_try = First nat | Follow_up nat

record pi_prompt =
  pp_text :: jstring
  pp_gen :: nat
  pp_try :: prompt_try

datatype pi_out =
    Sdk_prompt jstring bool
  | Sdk_abort
  | Sdk_dispose
  | Bridge_close
  | Result_told jstring
  | Ended_told
  | Error_told

record pi_config =
  pc_model :: jstring
  pc_window :: "int option"
  pc_provider :: jstring

record pi_state =
  pd_live :: session
  pd_mode :: jstring
  pd_closed :: bool
  pd_finished :: bool
  pd_retiring :: "bool option"
  pd_abortGen :: nat
  pd_turnEnds :: nat
  pd_cycleGen :: nat
  pd_cycleStartMS :: int
  pd_cycleStartTurns :: nat
  pd_compacting :: bool
  pd_serial :: "reaction list"
  pd_waiting :: "sync_wait option"
  pd_prompts :: "(nat, pi_prompt) jmap"
  pd_nextPrompt :: nat
  pd_out :: "pi_out list"

definition new_pi :: "session \<Rightarrow> jstring \<Rightarrow> pi_state" where
  "new_pi s mode = \<lparr>pd_live = s, pd_mode = mode, pd_closed = False, pd_finished = False, pd_retiring = None,
     pd_abortGen = 0, pd_turnEnds = 0, pd_cycleGen = 0, pd_cycleStartMS = 0, pd_cycleStartTurns = 0,
     pd_compacting = False, pd_serial = [], pd_waiting = None, pd_prompts = [], pd_nextPrompt = 0, pd_out = []\<rparr>"

definition pi_tell :: "pi_out list \<Rightarrow> pi_state \<Rightarrow> pi_state" where
  "pi_tell es d = d\<lparr>pd_out := pd_out d @ es\<rparr>"

definition chain :: "reaction \<Rightarrow> pi_state \<Rightarrow> pi_state" where
  "chain r d = d\<lparr>pd_serial := pd_serial d @ [r]\<rparr>"

definition on_live :: "(session \<Rightarrow> session) \<Rightarrow> pi_state \<Rightarrow> pi_state" where
  "on_live f d = d\<lparr>pd_live := f (pd_live d)\<rparr>"

definition pi_emit :: "env \<Rightarrow> string \<Rightarrow> json_obj \<Rightarrow> pi_state \<Rightarrow> pi_state" where
  "pi_emit env type payload = on_live (emits env (js type) payload)"

definition emits_ephemeral :: "env \<Rightarrow> jstring \<Rightarrow> json_obj \<Rightarrow> session \<Rightarrow> session" where
  "emits_ephemeral env type payload = with_pusher (\<lambda>p. fst (emit (en_clk env) type (JObj payload) Implicit True p))"

definition wind_down :: "sync_wait \<Rightarrow> pi_state \<Rightarrow> pi_state" where
  "wind_down w d = pi_tell [Bridge_close, Sdk_dispose] (d\<lparr>pd_finished := True, pd_waiting := Some w\<rparr>)"

definition pi_finish :: "pi_state \<Rightarrow> pi_state" where
  "pi_finish d = (if pd_finished d then d else wind_down Finish_sync d)"

definition resolve_retire :: "pi_state \<Rightarrow> pi_state" where
  "resolve_retire d = d\<lparr>pd_retiring := map_option (\<lambda>_. True) (pd_retiring d)\<rparr>"

text \<open>
  A result's fields; \<open>cost\<close> and \<open>tokens\<close> are the SDK's figures. Its subtype is told with it.
\<close>

definition usage_json :: "token_sum \<Rightarrow> json" where
  "usage_json t = JObj [(js ''input'', JInt (ts_input t)), (js ''output'', JInt (ts_output t)),
     (js ''cacheRead'', JInt (ts_cacheRead t)), (js ''cacheWrite'', JInt (ts_cacheWrite t))]"

definition last_usage :: "json \<Rightarrow> json option" where
  "last_usage messages = map_option (\<lambda>m. jget m (js ''usage''))
     (find (\<lambda>m. is_assistant m \<and> truthy (jget m (js ''usage''))) (rev (arr_or_nil messages)))"

definition result_context :: "pi_config \<Rightarrow> json \<Rightarrow> json option" where
  "result_context cfg messages = (case last_usage messages of
       None \<Rightarrow> None
     | Some u \<Rightarrow> contextUsagePayload (contextTokensFromUsage (pi_usage u)) (pc_window cfg))"

definition emitResult_start :: "env \<Rightarrow> pi_config \<Rightarrow> json \<Rightarrow> json \<Rightarrow> json \<Rightarrow> nat \<Rightarrow> int \<Rightarrow> pi_state \<Rightarrow> pi_state" where
  "emitResult_start env cfg cost tokens messages startTurns startMS d =
     (let usage = (case sumAssistantUsage messages of Some t \<Rightarrow> usage_json t | None \<Rightarrow> tokens);
          turnError = turnErrorMessage messages;
          subtype = (if truthy turnError then js ''error_during_execution'' else js ''success'');
          turns = JInt (max 1 (int (pd_turnEnds d) - int startTurns));
          duration = JInt (en_now env - startMS);
          lastResult = JObj [(js ''subtype'', JStr subtype), (js ''duration_ms'', duration), (js ''num_turns'', turns),
            (js ''total_cost_usd'', cost), (js ''usage'', pi_usage usage)];
          payload = pi_result subtype (or_falsy turnError (JStr (lastAssistantText messages))) cost usage turns duration
      in if pd_finished d then d
         else on_live (\<lambda>s. s\<lparr>ss_lastResult := lastResult\<rparr>)
                (d\<lparr>pd_waiting := Some (Result_sync payload (result_context cfg messages))\<rparr>))"

definition fail_start :: "pi_config \<Rightarrow> js_error \<Rightarrow> pi_state \<Rightarrow> pi_state" where
  "fail_start cfg e d = (if pd_finished d then d else wind_down (Fail_sync (classifyPiError e (Some (pc_provider cfg)))) d)"

definition settle_idle :: "env \<Rightarrow> pi_state \<Rightarrow> pi_state" where
  "settle_idle env d =
     (if pd_finished d then d
      else if pd_closed d \<or> ss_ending (pd_live d) then pi_finish d
      else on_live (setState env Idle []) d)"

definition finite_tokens :: "json \<Rightarrow> int option" where
  "finite_tokens v = (case v of JInt n \<Rightarrow> Some n | _ \<Rightarrow> None)"

definition compactionTokens :: "json \<Rightarrow> json_obj" where
  "compactionTokens res =
     (case finite_tokens (jget res (js ''tokensBefore'')) of Some n \<Rightarrow> [(js ''pre_tokens'', JInt n)] | None \<Rightarrow> []) @
     (case finite_tokens (jget res (js ''estimatedTokensAfter'')) of Some n \<Rightarrow> [(js ''post_tokens'', JInt n)] | None \<Rightarrow> [])"

definition emitCompactedUsage :: "env \<Rightarrow> pi_config \<Rightarrow> json \<Rightarrow> pi_state \<Rightarrow> pi_state" where
  "emitCompactedUsage env cfg res d =
     (case contextUsagePayload (finite_tokens (jget res (js ''estimatedTokensAfter''))) (pc_window cfg) of
       Some (JObj u) \<Rightarrow> on_live (emits_outside env (js ''context.usage'') u) d
     | _ \<Rightarrow> d)"

definition react :: "env \<Rightarrow> pi_config \<Rightarrow> json \<Rightarrow> json \<Rightarrow> pi_state \<Rightarrow> pi_state" where
  "react env cfg cost tokens d =
     (if pd_waiting d \<noteq> None then d
      else case pd_serial d of
        [] \<Rightarrow> d
      | r # rs \<Rightarrow>
          let d1 = d\<lparr>pd_serial := rs\<rparr>
          in case r of
            Emit_result messages startTurns startMS \<Rightarrow> emitResult_start env cfg cost tokens messages startTurns startMS d1
          | Settle \<Rightarrow> settle_idle env d1
          | Finish \<Rightarrow> pi_finish d1
          | Fail e \<Rightarrow> fail_start cfg e d1
          | Compacted res \<Rightarrow> emitCompactedUsage env cfg res d1)"

definition result_subtype :: "json_obj \<Rightarrow> jstring" where
  "result_subtype payload = str_or [] (jprop payload (js ''subtype''))"

definition synced :: "env \<Rightarrow> pi_state \<Rightarrow> pi_state" where
  "synced env d =
     (let d1 = d\<lparr>pd_waiting := None\<rparr>
      in case pd_waiting d of
           None \<Rightarrow> d
         | Some (Result_sync payload usage) \<Rightarrow>
             (let d2 = pi_tell [Result_told (result_subtype payload)] (pi_emit env ''sdk.result'' payload d1)
              in case usage of Some (JObj u) \<Rightarrow> on_live (emits_outside env (js ''context.usage'') u) d2 | _ \<Rightarrow> d2)
         | Some Finish_sync \<Rightarrow>
             (if pd_retiring d \<noteq> None then resolve_retire d1
              else pi_tell [Ended_told] (pi_emit env ''session.ended''
                [(js ''sdk_session_id'', JStr (ss_sdkSessionId (pd_live d))), (js ''last_result'', ss_lastResult (pd_live d))]
                (on_live (\<lambda>s. s\<lparr>ss_state := Ended\<rparr>) d1)))
         | Some (Fail_sync c) \<Rightarrow>
             (if pd_retiring d \<noteq> None then resolve_retire d1
              else pi_tell [Error_told] (pi_emit env ''session.error''
                [(js ''message'', JStr (di_message c)), (js ''cause'', JStr (di_cause c)), (js ''detail'', JStr (di_detail c))]
                (on_live (\<lambda>s. s\<lparr>ss_state := Errored\<rparr>) d1))))"

section \<open>The SDK's events\<close>

datatype sdk_event =
    Agent_start
  | Message_update json
  | Message_end json
  | Turn_end json
  | Agent_end json bool
  | Agent_settled
  | Compaction_end json json bool

definition message_content :: "json_obj \<Rightarrow> json list" where
  "message_content payload = arr_or_nil (jget (jprop payload (js ''message'')) (js ''content''))"

fun on_sdk :: "env \<Rightarrow> sdk_event \<Rightarrow> pi_state \<Rightarrow> pi_state" where
  "on_sdk env Agent_start d =
     d\<lparr>pd_cycleGen := pd_abortGen d, pd_cycleStartMS := en_now env, pd_cycleStartTurns := pd_turnEnds d\<rparr>"
| "on_sdk env (Message_update ev) d = (case pi_partial ev of
       Some p \<Rightarrow> on_live (emits_ephemeral env (js ''sdk.partial'') p) d
     | None \<Rightarrow> d)"
| "on_sdk env (Message_end m) d =
     (if is_assistant m \<and> (message_content (assistantPayload m) \<noteq> [] \<or> jget m (js ''stopReason'') \<noteq> JStr (js ''error''))
      then pi_emit env ''sdk.assistant'' (assistantPayload m) d else d)"
| "on_sdk env (Turn_end toolResults) d =
     (let d1 = d\<lparr>pd_turnEnds := pd_turnEnds d + 1\<rparr>
      in if is_arr toolResults \<and> arr_or_nil toolResults \<noteq> []
         then pi_emit env ''sdk.user'' (toolResultsPayload toolResults) d1 else d1)"
| "on_sdk env (Agent_end messages willRetry) d =
     (if willRetry \<or> pd_cycleGen d \<noteq> pd_abortGen d then d
      else chain (Emit_result messages (pd_cycleStartTurns d)
             (if pd_cycleStartMS d \<noteq> 0 then pd_cycleStartMS d else en_now env)) d)"
| "on_sdk env Agent_settled d = chain Settle d"
| "on_sdk env (Compaction_end res errorMessage aborted) d =
     (if pd_compacting d \<or> aborted \<or> truthy errorMessage then d
      else chain (Compacted res)
             (pi_emit env ''context.compacted'' ((js ''trigger'', JStr (js ''auto'')) # compactionTokens res) d))"

text \<open>A finished driver has unsubscribed.\<close>

definition sdk_says :: "env \<Rightarrow> sdk_event \<Rightarrow> pi_state \<Rightarrow> pi_state" where
  "sdk_says env ev d = (if pd_finished d then d else on_sdk env ev d)"

section \<open>Prompts\<close>

definition hand_prompt :: "jstring \<Rightarrow> bool \<Rightarrow> prompt_try \<Rightarrow> pi_state \<Rightarrow> pi_state" where
  "hand_prompt t followUp try d =
     pi_tell [Sdk_prompt t followUp]
       (d\<lparr>pd_prompts := pd_prompts d @ [(pd_nextPrompt d, \<lparr>pp_text = t, pp_gen = pd_abortGen d, pp_try = try\<rparr>)],
          pd_nextPrompt := pd_nextPrompt d + 1\<rparr>)"

definition doPrompt :: "jstring \<Rightarrow> nat \<Rightarrow> bool \<Rightarrow> pi_state \<Rightarrow> pi_state" where
  "doPrompt t retriesLeft streaming = hand_prompt t streaming (First retriesLeft)"

definition still_busy :: re where
  "still_busy = any_of (word ''already processing'') [word ''streamingbehavior'']"

definition prompt_failed :: "nat \<Rightarrow> js_error \<Rightarrow> bool \<Rightarrow> pi_state \<Rightarrow> pi_state" where
  "prompt_failed i e streaming d = (case map_of (pd_prompts d) i of
       None \<Rightarrow> d
     | Some p \<Rightarrow>
         (let d1 = d\<lparr>pd_prompts := AList.delete i (pd_prompts d)\<rparr>; busy = re_test still_busy (error_short e)
          in if pp_gen p \<noteq> pd_abortGen d \<or> pd_finished d then d1
             else case pp_try p of
               First r \<Rightarrow>
                 if r > 0 \<and> busy then pi_tell [Sdk_prompt (pp_text p) True]
                   (d1\<lparr>pd_prompts := pd_prompts d1 @ [(pd_nextPrompt d, p\<lparr>pp_try := Follow_up r\<rparr>)],
                       pd_nextPrompt := pd_nextPrompt d + 1\<rparr>)
                 else chain (Fail e) d1
             | Follow_up r \<Rightarrow> if r > 1 \<and> busy then doPrompt (pp_text p) 0 streaming d1 else chain (Fail e) d1))"

definition prompt_taken :: "nat \<Rightarrow> pi_state \<Rightarrow> pi_state" where
  "prompt_taken i d = d\<lparr>pd_prompts := AList.delete i (pd_prompts d)\<rparr>"

section \<open>The driver's operations\<close>

definition pi_start :: "env \<Rightarrow> pi_config \<Rightarrow> pi_state \<Rightarrow> pi_state" where
  "pi_start env cfg d =
     pi_emit env ''sdk.system'' (pi_init (JStr (ss_sdkSessionId (pd_live d))) (JStr (pc_model cfg))) d"

definition pi_queueMessage :: "env \<Rightarrow> jstring \<Rightarrow> bool \<Rightarrow> pi_state \<Rightarrow> pi_state \<times> bool" where
  "pi_queueMessage env t streaming d =
     (if pd_closed d \<or> pd_finished d then (d, False)
      else (doPrompt t 2 streaming (on_live (setState env Working []) d), True))"

definition pi_interrupt_start :: "env \<Rightarrow> pi_state \<Rightarrow> pi_state" where
  "pi_interrupt_start env d =
     pi_tell [Sdk_abort] (on_live (cancelPendingPermissions env (js ''interrupted'')) (d\<lparr>pd_abortGen := pd_abortGen d + 1\<rparr>))"

definition pi_interrupt_finish :: "env \<Rightarrow> bool \<Rightarrow> pi_state \<Rightarrow> pi_state" where
  "pi_interrupt_finish env sdk_idle d =
     (if \<not> pd_finished d \<and> sdk_idle then on_live (setState env Idle []) d else d)"

definition pi_setPermissionMode :: "jstring \<Rightarrow> pi_state \<Rightarrow> http_error option \<times> pi_state" where
  "pi_setPermissionMode mode d =
     (if mode \<notin> set SUPPORTED_PERMISSION_MODES then (Some (pi_mode_error mode), d) else (None, d\<lparr>pd_mode := mode\<rparr>))"

definition pi_compact_start :: "pi_state \<Rightarrow> http_error option \<times> pi_state" where
  "pi_compact_start d =
     (if pd_compacting d then (Some (http_err 409 (js ''a compaction is already in flight'')), d)
      else (None, d\<lparr>pd_compacting := True\<rparr>))"

definition nothing_to_compact :: re where
  "nothing_to_compact = any_of (word ''nothing to compact'') [word ''already compacted'']"

definition pi_compact_finish :: "env \<Rightarrow> pi_config \<Rightarrow> jstring \<Rightarrow> js_error + json \<Rightarrow> pi_state \<Rightarrow> (http_error + json_obj) \<times> pi_state" where
  "pi_compact_finish env cfg instructions outcome d =
     (let d1 = d\<lparr>pd_compacting := False\<rparr>
      in case outcome of
        Inr res \<Rightarrow>
          (let payload = (js ''trigger'', JStr (js ''manual'')) #
                 (if instructions \<noteq> [] then [(js ''instructions'', JStr instructions)] else []) @ compactionTokens res
           in (Inr payload, emitCompactedUsage env cfg res (on_live (emits_outside env (js ''context.compacted'') payload) d1)))
      | Inl e \<Rightarrow>
          (let message = error_short e
           in (Inl (if re_test nothing_to_compact message then http_err 409 (js ''the harness did not compact: '' @ message)
                    else http_err 502 (js ''pi compaction failed: '' @ message)), d1)))"

definition pi_beginEnd :: "bool \<Rightarrow> pi_state \<Rightarrow> pi_state" where
  "pi_beginEnd sdk_idle d = (let d1 = d\<lparr>pd_closed := True\<rparr> in if sdk_idle then chain Finish d1 else d1)"

definition pi_retire :: "bool \<Rightarrow> pi_state \<Rightarrow> pi_state" where
  "pi_retire sdk_idle d =
     (let d1 = d\<lparr>pd_retiring := Some False, pd_closed := True\<rparr>
      in if pd_finished d then resolve_retire d1 else if sdk_idle then chain Finish d1 else d1)"

definition pi_forceStop :: "pi_state \<Rightarrow> pi_state" where
  "pi_forceStop d =
     (let d1 = d\<lparr>pd_closed := True, pd_abortGen := pd_abortGen d + 1\<rparr>
      in resolve_retire (if pd_finished d then d1
           else pi_tell [Bridge_close, Sdk_abort, Sdk_dispose] (d1\<lparr>pd_finished := True\<rparr>)))"

definition pi_shutdownStop :: "pi_state \<Rightarrow> pi_state" where
  "pi_shutdownStop d = pi_tell [Sdk_abort] (d\<lparr>pd_closed := True, pd_abortGen := pd_abortGen d + 1\<rparr>)"

text \<open>Once the abort is over, whether it worked or not, the wind-down joins the chain.\<close>

definition pi_shutdown_aborted :: "pi_state \<Rightarrow> pi_state" where
  "pi_shutdown_aborted d = chain Finish d"

definition pi_tool_call :: "env \<Rightarrow> json_obj \<Rightarrow> jstring \<Rightarrow> json \<Rightarrow> json \<Rightarrow> pi_state \<Rightarrow> gate \<times> pi_state" where
  "pi_tool_call env spec tool input use d =
     (let g = pi_gate (ss_ending (pd_live d)) spec (pd_mode d) tool input
      in (g, if g = Ask_person then on_live (askPermission env tool input None use JUndef) d else d))"

section \<open>A driver over time\<close>

text \<open>\<open>Daemon\<close> is whatever the daemon does to the session meanwhile.\<close>

datatype pi_event =
    Sdk sdk_event
  | React json json
  | Synced
  | Queue jstring bool
  | Prompt_failed nat js_error bool
  | Prompt_taken nat
  | Interrupt
  | Interrupted bool
  | Mode jstring
  | Compact
  | Compact_done jstring "js_error + json"
  | Begin_end bool
  | Retire bool
  | Force_stop
  | Shutdown
  | Shutdown_aborted
  | Tool_call json_obj jstring json json
  | Daemon session

fun pi_step :: "pi_config \<Rightarrow> env \<times> pi_event \<Rightarrow> pi_state \<Rightarrow> pi_state" where
  "pi_step cfg (env, Sdk ev) d = sdk_says env ev d"
| "pi_step cfg (env, React cost tokens) d = react env cfg cost tokens d"
| "pi_step cfg (env, Synced) d = synced env d"
| "pi_step cfg (env, Queue t streaming) d = fst (pi_queueMessage env t streaming d)"
| "pi_step cfg (env, Prompt_failed i e streaming) d = prompt_failed i e streaming d"
| "pi_step cfg (env, Prompt_taken i) d = prompt_taken i d"
| "pi_step cfg (env, Interrupt) d = pi_interrupt_start env d"
| "pi_step cfg (env, Interrupted idle) d = pi_interrupt_finish env idle d"
| "pi_step cfg (env, Mode mode) d = snd (pi_setPermissionMode mode d)"
| "pi_step cfg (env, Compact) d = snd (pi_compact_start d)"
| "pi_step cfg (env, Compact_done instructions out) d = snd (pi_compact_finish env cfg instructions out d)"
| "pi_step cfg (env, Begin_end idle) d = pi_beginEnd idle d"
| "pi_step cfg (env, Retire idle) d = pi_retire idle d"
| "pi_step cfg (env, Force_stop) d = pi_forceStop d"
| "pi_step cfg (env, Shutdown) d = pi_shutdownStop d"
| "pi_step cfg (env, Shutdown_aborted) d = pi_shutdown_aborted d"
| "pi_step cfg (env, Tool_call spec tool input use) d = snd (pi_tool_call env spec tool input use d)"
| "pi_step cfg (env, Daemon s) d = d\<lparr>pd_live := s\<rparr>"

definition pi_run :: "pi_config \<Rightarrow> (env \<times> pi_event) list \<Rightarrow> pi_state \<Rightarrow> pi_state" where
  "pi_run cfg evs d = fold (pi_step cfg) evs d"

lemmas pi_ops = sdk_says_def pi_queueMessage_def prompt_failed_def prompt_taken_def pi_interrupt_start_def
  pi_interrupt_finish_def pi_setPermissionMode_def pi_compact_start_def pi_compact_finish_def pi_beginEnd_def
  pi_retire_def pi_forceStop_def pi_shutdownStop_def pi_shutdown_aborted_def pi_tool_call_def
lemmas pi_prims = pi_tell_def chain_def on_live_def pi_emit_def wind_down_def pi_finish_def resolve_retire_def
  doPrompt_def hand_prompt_def
lemmas pi_reactions = react_def emitResult_start_def fail_start_def settle_idle_def emitCompactedUsage_def

subsection \<open>Winding down once\<close>

definition terminals :: "pi_state \<Rightarrow> nat" where
  "terminals d = count_list (pd_out d) Ended_told + count_list (pd_out d) Error_told"

fun winding :: "sync_wait option \<Rightarrow> nat" where
  "winding (Some Finish_sync) = 1"
| "winding (Some (Fail_sync c)) = 1"
| "winding _ = 0"

definition wound_down :: "pi_state \<Rightarrow> bool" where
  "wound_down d \<longleftrightarrow> count_list (pd_out d) Bridge_close = (if pd_finished d then 1 else 0) \<and>
     count_list (pd_out d) Sdk_dispose = (if pd_finished d then 1 else 0) \<and>
     terminals d + winding (pd_waiting d) \<le> (if pd_finished d then 1 else 0) \<and>
     (pd_retiring d = Some True \<longrightarrow> pd_finished d)"

lemma wound_same:
  assumes "wound_down d" and "pd_finished d' = pd_finished d" and "pd_retiring d' = pd_retiring d"
    and "winding (pd_waiting d') = winding (pd_waiting d)" and "pd_out d' = pd_out d @ es"
    and "set es \<inter> {Bridge_close, Sdk_dispose, Ended_told, Error_told} = {}"
  shows "wound_down d'"
proof -
  have "count_list es Bridge_close = 0" "count_list es Sdk_dispose = 0" "count_list es Ended_told = 0" "count_list es Error_told = 0"
    using assms(6) by (simp_all add: count_list_0_iff)
  with assms show ?thesis by (simp add: wound_down_def terminals_def)
qed

lemma on_sdk_frame:
  "pd_finished (on_sdk env ev d) = pd_finished d" "pd_retiring (on_sdk env ev d) = pd_retiring d"
  "pd_waiting (on_sdk env ev d) = pd_waiting d" "pd_out (on_sdk env ev d) = pd_out d"
  by (cases ev; simp add: pi_prims Let_def split: option.split)+

lemma wound_sdk: "wound_down d \<Longrightarrow> wound_down (sdk_says env ev d)"
  by (auto simp: sdk_says_def on_sdk_frame intro: wound_same [where es = "[]"])

lemma wound_wind: "wound_down d \<Longrightarrow> \<not> pd_finished d \<Longrightarrow> winding (Some w) \<le> 1 \<Longrightarrow> wound_down (wind_down w d)"
  by (auto simp: wound_down_def terminals_def pi_prims)

lemma wound_finish: "wound_down d \<Longrightarrow> wound_down (pi_finish d)"
  by (simp add: pi_finish_def wound_wind)

lemma wound_fail: "wound_down d \<Longrightarrow> wound_down (fail_start cfg e d)"
  by (simp add: fail_start_def wound_wind)

lemma wound_live [simp]: "wound_down (on_live f d) = wound_down d"
  by (simp add: wound_down_def terminals_def on_live_def)

lemma wound_serial [simp]: "wound_down (d\<lparr>pd_serial := rs\<rparr>) = wound_down d" "wound_down (chain r d) = wound_down d"
  by (simp_all add: wound_down_def terminals_def chain_def)

lemma wound_react: "wound_down d \<Longrightarrow> wound_down (react env cfg cost tokens d)"
proof (cases "pd_waiting d = None")
  case True
  assume w: "wound_down d"
  have "wound_down (emitResult_start env cfg cost tokens messages n t (d\<lparr>pd_serial := rs\<rparr>))" for messages n t rs
    using w True by (auto simp: emitResult_start_def Let_def wound_down_def terminals_def on_live_def)
  moreover have "wound_down (settle_idle env (d\<lparr>pd_serial := rs\<rparr>))" for rs
    using w by (simp add: settle_idle_def wound_finish)
  moreover have "wound_down (emitCompactedUsage env cfg res (d\<lparr>pd_serial := rs\<rparr>))" for res rs
    using w by (auto simp: emitCompactedUsage_def split: option.split json.split)
  ultimately show ?thesis
    using w by (simp add: react_def Let_def wound_finish wound_fail split: list.split reaction.split)
qed (simp add: react_def)

lemma winding_out:
  assumes "wound_down d" and "winding (pd_waiting d) = 1"
  shows "pd_finished d" and "terminals d = 0"
  using assms by (auto simp: wound_down_def split: if_splits)

lemma wound_synced: "wound_down d \<Longrightarrow> wound_down (synced env d)"
proof -
  assume w: "wound_down d"
  let ?d = "d\<lparr>pd_waiting := None\<rparr>"
  have told: "wound_down (pi_tell [Ended_told] (pi_emit env ty p (on_live f ?d)))"
    "wound_down (pi_tell [Error_told] (pi_emit env ty p (on_live f ?d)))" "wound_down (resolve_retire ?d)"
    if "winding (pd_waiting d) = 1" for ty p f
    using winding_out [OF w that] w by (auto simp: wound_down_def terminals_def pi_prims)
  have res: "wound_down (pi_tell [Result_told st] (pi_emit env ty p ?d))" for st ty p
    using w by (auto simp: wound_down_def terminals_def pi_prims)
  show ?thesis
    using w told res by (auto simp: synced_def Let_def split: option.split sync_wait.split json.split)
qed

lemma wound_prompt: "wound_down d \<Longrightarrow> wound_down (prompt_failed i e streaming d)"
  by (auto simp: prompt_failed_def Let_def pi_prims split: option.split prompt_try.split intro: wound_same [where es = "[]"]
      wound_same [where es = "[Sdk_prompt t b]" for t b])

lemma wound_ops:
  "wound_down d \<Longrightarrow> wound_down (fst (pi_queueMessage env t streaming d))"
  "wound_down d \<Longrightarrow> wound_down (prompt_taken i d)"
  "wound_down d \<Longrightarrow> wound_down (pi_interrupt_start env d)"
  "wound_down d \<Longrightarrow> wound_down (pi_interrupt_finish env idle d)"
  "wound_down d \<Longrightarrow> wound_down (snd (pi_setPermissionMode mode d))"
  "wound_down d \<Longrightarrow> wound_down (snd (pi_compact_start d))"
  "wound_down d \<Longrightarrow> wound_down (pi_beginEnd idle d)"
  "wound_down d \<Longrightarrow> wound_down (pi_retire idle d)"
  "wound_down d \<Longrightarrow> wound_down (pi_forceStop d)"
  "wound_down d \<Longrightarrow> wound_down (pi_shutdownStop d)"
  "wound_down d \<Longrightarrow> wound_down (snd (pi_tool_call env spec tool input use d))"
  by (auto simp: pi_ops pi_prims wound_down_def terminals_def Let_def split: if_splits)

lemma wound_compacted: "wound_down d \<Longrightarrow> wound_down (snd (pi_compact_finish env cfg instructions out d))"
  by (auto simp: pi_compact_finish_def emitCompactedUsage_def Let_def split: sum.split option.split json.split)
    (auto simp: wound_down_def terminals_def)

lemma wound_step: "wound_down d \<Longrightarrow> wound_down (pi_step cfg (env, ev) d)"
  by (cases ev) (simp_all add: wound_sdk wound_react wound_synced wound_prompt wound_ops wound_compacted
      pi_shutdown_aborted_def wound_down_def [of "d\<lparr>pd_live := s\<rparr>" for s] wound_down_def [of d] terminals_def)

lemma wound_run: "wound_down (pi_run cfg evs (new_pi s mode))"
proof -
  have "wound_down d \<Longrightarrow> wound_down (fold (pi_step cfg) evs d)" for d
    by (induction evs arbitrary: d) (auto simp: wound_step)
  moreover have "wound_down (new_pi s mode)" by (simp add: wound_down_def terminals_def new_pi_def)
  ultimately show ?thesis by (simp add: pi_run_def)
qed

text \<open>
  However the SDK's events, failing prompts, interrupts, ends, retirements, forced stops and
  the daemon's own doings interleave, a pi session is wound down once: its bridge is closed and
  its SDK session disposed of exactly when the driver is finished, it tells its end or its
  failure at most once and only then, and a retirement is answered only by a finished driver.
\<close>

theorem pi_winds_down_once:
  "let d = pi_run cfg evs (new_pi s mode)
   in count_list (pd_out d) Bridge_close = (if pd_finished d then 1 else 0) \<and>
      count_list (pd_out d) Sdk_dispose = (if pd_finished d then 1 else 0) \<and>
      terminals d \<le> (if pd_finished d then 1 else 0) \<and>
      (if pd_finished d then True else pd_retiring d \<noteq> Some True)"
  using wound_run [of cfg evs s mode] by (auto simp: wound_down_def Let_def)

subsection \<open>Winding down completes\<close>

definition drain :: "env \<Rightarrow> pi_config \<Rightarrow> json \<Rightarrow> json \<Rightarrow> nat \<Rightarrow> pi_state \<Rightarrow> pi_state" where
  "drain env cfg cost tokens n d = ((\<lambda>x. synced env (react env cfg cost tokens x)) ^^ n) d"

definition ends :: "reaction \<Rightarrow> bool" where
  "ends r = (case r of Settle \<Rightarrow> True | Finish \<Rightarrow> True | Fail e \<Rightarrow> True | _ \<Rightarrow> False)"

definition gone :: "pi_state \<Rightarrow> bool" where
  "gone d \<longleftrightarrow> pd_finished d \<and> pd_waiting d = None \<and>
     (if pd_retiring d = None then terminals d = 1 \<and> isDone (pd_live d) else pd_retiring d = Some True)"

lemma drain_Suc: "drain env cfg cost tokens (Suc n) d = drain env cfg cost tokens n (synced env (react env cfg cost tokens d))"
  by (simp add: drain_def funpow_Suc_right del: funpow.simps)

definition going :: "pi_state \<Rightarrow> bool" where
  "going d \<longleftrightarrow> \<not> pd_finished d \<and> pd_closed d \<and> pd_waiting d = None \<and> terminals d = 0"

lemma done_emits [simp]: "isDone (emits env t p s) = isDone s" "isDone (emits_outside env t p s) = isDone s"
  by (simp_all add: isDone_def emits_def emits_outside_def with_pusher_def)

lemma round_ends:
  assumes "going d" and "pd_serial d = r # rs" and "ends r"
  shows "gone (synced env (react env cfg cost tokens d)) \<and> pd_serial (synced env (react env cfg cost tokens d)) = rs"
proof -
  have "gone (synced env (wind_down w (d\<lparr>pd_serial := rs\<rparr>))) \<and> pd_serial (synced env (wind_down w (d\<lparr>pd_serial := rs\<rparr>))) = rs"
    if "winding (Some w) = 1" for w
    using assms(1) that by (cases w)
      (auto simp: going_def gone_def synced_def terminals_def pi_prims isDone_def emits_def with_pusher_def Let_def)
  with assms show ?thesis
    by (auto simp: react_def going_def ends_def settle_idle_def pi_finish_def fail_start_def split: reaction.splits)
qed

definition same_course :: "pi_state \<Rightarrow> pi_state \<Rightarrow> bool" where
  "same_course d d' \<longleftrightarrow> pd_finished d' = pd_finished d \<and> pd_closed d' = pd_closed d \<and> pd_retiring d' = pd_retiring d \<and>
     pd_serial d' = pd_serial d \<and> terminals d' = terminals d \<and> isDone (pd_live d') = isDone (pd_live d)"

lemma compacted_course: "same_course d (emitCompactedUsage env cfg res d) \<and> pd_waiting (emitCompactedUsage env cfg res d) = pd_waiting d"
  by (simp add: emitCompactedUsage_def same_course_def terminals_def on_live_def split: option.split json.split)

lemma result_course:
  assumes "\<not> pd_finished d"
  shows "same_course d (emitResult_start env cfg cost tokens messages n t d) \<and>
    (\<exists>p u. pd_waiting (emitResult_start env cfg cost tokens messages n t d) = Some (Result_sync p u))"
  using assms by (simp add: emitResult_start_def same_course_def terminals_def on_live_def Let_def isDone_def)

lemma synced_course: "pd_waiting d = Some (Result_sync p u) \<Longrightarrow> same_course d (synced env d) \<and> pd_waiting (synced env d) = None"
  by (simp add: synced_def Let_def same_course_def terminals_def pi_prims split: option.split json.split)

lemma round_goes:
  assumes "going d" and "pd_serial d = r # rs" and "\<not> ends r"
  shows "going (synced env (react env cfg cost tokens d)) \<and> pd_serial (synced env (react env cfg cost tokens d)) = rs \<and>
    pd_retiring (synced env (react env cfg cost tokens d)) = pd_retiring d"
proof -
  let ?d = "d\<lparr>pd_serial := rs\<rparr>"
  have d: "going ?d" "pd_waiting ?d = None" "pd_retiring ?d = pd_retiring d" "pd_serial ?d = rs"
    using assms(1) by (simp_all add: going_def terminals_def)
  show ?thesis
  proof (cases r)
    case (Emit_result messages n t)
    then have r: "react env cfg cost tokens d = emitResult_start env cfg cost tokens messages n t ?d"
      using assms(1,2) by (simp add: react_def going_def)
    have "\<not> pd_finished ?d" using d(1) unfolding going_def by blast
    from result_course [OF this, of env cfg cost tokens messages n t] obtain p u where
      "same_course ?d (react env cfg cost tokens d)" "pd_waiting (react env cfg cost tokens d) = Some (Result_sync p u)"
      unfolding r by blast
    with synced_course [OF this(2), of env] d show ?thesis by (simp add: same_course_def going_def)
  next
    case (Compacted res)
    then have r: "react env cfg cost tokens d = emitCompactedUsage env cfg res ?d"
      using assms(1,2) by (simp add: react_def going_def)
    have w: "pd_waiting (react env cfg cost tokens d) = None" "same_course ?d (react env cfg cost tokens d)"
      unfolding r using compacted_course [of ?d env cfg res] d(2) by simp_all
    then have "synced env (react env cfg cost tokens d) = react env cfg cost tokens d" by (simp add: synced_def)
    with w d show ?thesis by (simp add: same_course_def going_def)
  qed (use assms(3) in \<open>simp_all add: ends_def\<close>)
qed

lemma gone_course: "gone d \<Longrightarrow> same_course d d' \<Longrightarrow> pd_waiting d' = None \<Longrightarrow> gone d'"
  by (simp add: gone_def same_course_def)

lemma round_gone:
  assumes "gone d"
  shows "gone (synced env (react env cfg cost tokens d))"
proof -
  have f: "pd_finished d" "pd_waiting d = None" using assms by (simp_all add: gone_def)
  have g: "gone (d\<lparr>pd_serial := rs\<rparr>)" for rs using assms by (auto simp: gone_def terminals_def)
  have "gone (react env cfg cost tokens d)"
  proof (cases "pd_serial d")
    case (Cons r rs)
    have "gone (emitCompactedUsage env cfg res (d\<lparr>pd_serial := rs\<rparr>))" for res
      using compacted_course [of "d\<lparr>pd_serial := rs\<rparr>" env cfg res] g f(2) by (intro gone_course [OF g [of rs]]) simp_all
    then show ?thesis using f g Cons
      by (simp add: react_def Let_def emitResult_start_def settle_idle_def pi_finish_def fail_start_def split: reaction.split)
  qed (use assms f in \<open>simp add: react_def\<close>)
  moreover from this have "synced env (react env cfg cost tokens d) = react env cfg cost tokens d"
    by (simp add: synced_def gone_def)
  ultimately show ?thesis by simp
qed

lemma drained_gone: "gone d \<Longrightarrow> gone (drain env cfg cost tokens n d)"
  by (induction n arbitrary: d) (simp_all add: drain_Suc round_gone, simp add: drain_def)

lemma drain_completes:
  "going d \<Longrightarrow> list_ex ends (pd_serial d) \<Longrightarrow> gone (drain env cfg cost tokens (length (pd_serial d)) d)"
proof (induction "pd_serial d" arbitrary: d)
  case (Cons r rs)
  let ?d = "synced env (react env cfg cost tokens d)"
  have len: "length (pd_serial d) = Suc (length rs)" using Cons.hyps(2) [symmetric] by simp
  show ?case
  proof (cases "ends r")
    case True
    with round_ends [OF Cons.prems(1) Cons.hyps(2) [symmetric]] show ?thesis by (simp add: len drain_Suc drained_gone)
  next
    case False
    note goes = round_goes [OF Cons.prems(1) Cons.hyps(2) [symmetric] False, of env cfg cost tokens]
    moreover have "list_ex ends rs" using Cons.prems(2) Cons.hyps(2) [symmetric] False by simp
    ultimately show ?thesis using Cons.hyps(1) [of ?d] by (simp add: len drain_Suc)
  qed
qed simp

text \<open>
  A wind-down that has been asked for comes to its end: from any reachable state of a closed
  driver with an ending reaction on its chain, once the chain has run and the disk has answered
  the driver is finished, and the session has told its end or its failure, or the retirement
  that waits for it is answered.
\<close>

theorem pi_wind_down_completes:
  assumes "d = pi_run cfg evs (new_pi s mode)" and "pd_closed d" and "\<not> pd_finished d" and "pd_waiting d = None"
    and "list_ex ends (pd_serial d)"
  shows "gone (drain env cfg cost tokens (length (pd_serial d)) d)"
proof -
  have "terminals d = 0" using wound_run [of cfg evs s mode] assms(1,3) by (simp add: wound_down_def)
  with assms show ?thesis by (simp add: going_def drain_completes)
qed

definition sample_env :: env where
  "sample_env = \<lparr>en_clk = (\<lambda>n. dec n), en_now = 1000, en_id = js ''i'', en_parse = (\<lambda>_. None)\<rparr>"

definition sample_config :: pi_config where
  "sample_config = \<lparr>pc_model = js ''m'', pc_window = None, pc_provider = js ''p''\<rparr>"

theorem pi_wind_down_completes_witness:
  "gone (drain sample_env sample_config (JInt 0) JNull 1
     (pi_run sample_config [(sample_env, Begin_end True)] (new_pi (new_session []) (js ''default''))))"
proof -
  let ?d = "pi_run sample_config [(sample_env, Begin_end True)] (new_pi (new_session []) (js ''default''))"
  have d: "pd_closed ?d" "\<not> pd_finished ?d" "pd_waiting ?d = None" "pd_serial ?d = [Finish]"
    by (simp_all add: pi_run_def pi_beginEnd_def chain_def new_pi_def)
  then have "list_ex ends (pd_serial ?d)" by (simp add: ends_def)
  from pi_wind_down_completes [OF refl d(1-3) this, of sample_env "JInt 0" JNull] show ?thesis by (simp add: d(4))
qed

subsection \<open>An interrupted cycle\<close>

fun is_result :: "reaction \<Rightarrow> bool" where
  "is_result (Emit_result m n t) = True"
| "is_result _ = False"

fun is_told :: "pi_out \<Rightarrow> bool" where
  "is_told (Result_told st) = True"
| "is_told _ = False"

fun result_waits :: "sync_wait option \<Rightarrow> nat" where
  "result_waits (Some (Result_sync p u)) = 1"
| "result_waits _ = 0"

text \<open>The results told, being told and due on the chain.\<close>

definition results :: "pi_state \<Rightarrow> nat" where
  "results d = length (filter is_result (pd_serial d)) + result_waits (pd_waiting d) + length (filter is_told (pd_out d))"

definition interrupted :: "pi_state \<Rightarrow> bool" where
  "interrupted d \<longleftrightarrow> pd_cycleGen d < pd_abortGen d"

lemma sdk_results: "interrupted d \<Longrightarrow> ev \<noteq> Agent_start \<Longrightarrow> results (sdk_says env ev d) = results d \<and> interrupted (sdk_says env ev d)"
  by (cases ev) (auto simp: sdk_says_def results_def interrupted_def pi_prims Let_def split: option.split)

lemma react_results: "results (react env cfg cost tokens d) \<le> results d"
  by (auto simp: react_def emitResult_start_def fail_start_def settle_idle_def emitCompactedUsage_def results_def pi_prims Let_def
      split: list.split reaction.split option.split json.split)

lemma synced_results: "results (synced env d) = results d"
  by (auto simp: synced_def results_def pi_prims Let_def split: option.split sync_wait.split json.split)

lemma gen_frame:
  "pd_cycleGen (react env cfg cost tokens d) = pd_cycleGen d" "pd_abortGen (react env cfg cost tokens d) = pd_abortGen d"
  "pd_cycleGen (synced env d) = pd_cycleGen d" "pd_abortGen (synced env d) = pd_abortGen d"
  by (auto simp: react_def emitResult_start_def fail_start_def settle_idle_def emitCompactedUsage_def synced_def pi_prims Let_def
      split: list.split reaction.split option.split json.split sync_wait.split)

fun is_start :: "pi_event \<Rightarrow> bool" where
  "is_start (Sdk Agent_start) = True"
| "is_start _ = False"

lemma prompt_results: "results (prompt_failed i e streaming d) = results d"
  "pd_cycleGen (prompt_failed i e streaming d) = pd_cycleGen d" "pd_abortGen (prompt_failed i e streaming d) = pd_abortGen d"
  by (auto simp: prompt_failed_def results_def pi_prims Let_def split: option.split prompt_try.split)

lemma compact_results: "results (snd (pi_compact_finish env cfg instructions out d)) = results d"
  "pd_cycleGen (snd (pi_compact_finish env cfg instructions out d)) = pd_cycleGen d"
  "pd_abortGen (snd (pi_compact_finish env cfg instructions out d)) = pd_abortGen d"
  by (auto simp: pi_compact_finish_def emitCompactedUsage_def results_def on_live_def Let_def split: sum.split option.split json.split)

lemmas pi_simple_ops = pi_queueMessage_def prompt_taken_def pi_interrupt_start_def pi_interrupt_finish_def
  pi_setPermissionMode_def pi_compact_start_def pi_beginEnd_def pi_retire_def pi_forceStop_def pi_shutdownStop_def
  pi_shutdown_aborted_def pi_tool_call_def

definition calmer :: "pi_state \<Rightarrow> pi_state \<Rightarrow> bool" where
  "calmer d d' \<longleftrightarrow> results d' \<le> results d \<and> interrupted d'"

lemma simple_results:
  assumes "interrupted d"
  shows "calmer d (fst (pi_queueMessage env t streaming d))"
    "calmer d (prompt_taken i d)"
    "calmer d (pi_interrupt_start env d)"
    "calmer d (pi_interrupt_finish env idle d)"
    "calmer d (snd (pi_setPermissionMode mode d))"
    "calmer d (snd (pi_compact_start d))"
    "calmer d (pi_beginEnd idle d)"
    "calmer d (pi_retire idle d)"
    "calmer d (pi_forceStop d)"
    "calmer d (pi_shutdownStop d)"
    "calmer d (pi_shutdown_aborted d)"
    "calmer d (snd (pi_tool_call env spec tool input use d))"
    "calmer d (d\<lparr>pd_live := s\<rparr>)"
  using assms by (auto simp: calmer_def pi_simple_ops results_def interrupted_def pi_prims Let_def)

lemma step_results:
  assumes "interrupted d" and "\<not> is_start ev"
  shows "calmer d (pi_step cfg (env, ev) d)"
proof (cases ev)
  case (Sdk x)
  with assms sdk_results [OF assms(1), of x env] show ?thesis by (cases x) (simp_all add: calmer_def)
qed (use assms in \<open>simp_all add: simple_results\<close>, use assms in \<open>simp_all add: calmer_def react_results synced_results
      gen_frame prompt_results compact_results interrupted_def\<close>)

lemma gens_run: "pd_cycleGen (pi_run cfg evs (new_pi s mode)) \<le> pd_abortGen (pi_run cfg evs (new_pi s mode))"
proof -
  have step: "pd_cycleGen d \<le> pd_abortGen d \<Longrightarrow> pd_cycleGen (pi_step cfg (env, ev) d) \<le> pd_abortGen (pi_step cfg (env, ev) d)" for d env ev
  proof (cases ev)
    case (Sdk x)
    then show "pd_cycleGen d \<le> pd_abortGen d \<Longrightarrow> ?thesis"
      by (cases x) (auto simp: sdk_says_def pi_prims Let_def split: option.split)
  qed (auto simp: gen_frame prompt_results compact_results pi_simple_ops pi_prims Let_def)
  have "pd_cycleGen d \<le> pd_abortGen d \<Longrightarrow> pd_cycleGen (fold (pi_step cfg) evs d) \<le> pd_abortGen (fold (pi_step cfg) evs d)" for d
    by (induction evs arbitrary: d) (auto simp: step)
  then show ?thesis by (simp add: pi_run_def new_pi_def)
qed

text \<open>
  An interrupted cycle tells no result: from an interrupt until the SDK starts another cycle,
  whatever else happens, no result is told but those already due when the interrupt came.
\<close>

theorem pi_interrupt_tells_no_result:
  assumes "d = pi_run cfg before (new_pi s mode)" and "list_all (\<lambda>(env, ev). \<not> is_start ev) after"
  shows "results (pi_run cfg after (pi_interrupt_start env d)) \<le> results d"
proof -
  have "interrupted (pi_interrupt_start env d)"
    using gens_run [of cfg before s mode] assms(1) by (simp add: interrupted_def pi_interrupt_start_def pi_prims)
  moreover have "results (pi_interrupt_start env d) = results d"
    by (simp add: results_def pi_interrupt_start_def pi_prims)
  moreover have "interrupted x \<Longrightarrow> results (fold (pi_step cfg) after x) \<le> results x" for x
    using assms(2)
  proof (induction after arbitrary: x)
    case (Cons a "after")
    obtain e v where a: "a = (e, v)" by (cases a)
    with Cons.prems have "results (pi_step cfg a x) \<le> results x" "interrupted (pi_step cfg a x)"
      using step_results [of x v cfg e] by (auto simp: calmer_def)
    with Cons.IH [of "pi_step cfg a x"] Cons.prems(2) show ?case by simp
  qed simp
  ultimately show ?thesis by (metis pi_run_def)
qed

theorem pi_interrupt_tells_no_result_witness:
  "results (pi_run sample_config [(sample_env, Sdk (Agent_end (JArr []) False))]
     (pi_interrupt_start sample_env (pi_run sample_config [(sample_env, Sdk Agent_start)] (new_pi (new_session []) (js ''default''))))) = 0"
proof -
  let ?d = "pi_run sample_config [(sample_env, Sdk Agent_start)] (new_pi (new_session []) (js ''default''))"
  have "results ?d = 0" by (simp add: pi_run_def sdk_says_def new_pi_def results_def)
  with pi_interrupt_tells_no_result [OF refl, where cfg = sample_config and before = "[(sample_env, Sdk Agent_start)]" and
      s = "new_session []" and mode = "js ''default''" and env = sample_env and
      after = "[(sample_env, Sdk (Agent_end (JArr []) False))]"]
  show ?thesis by simp
qed

subsection \<open>Every prompt is handed over a bounded number of times\<close>

fun is_prompt :: "pi_out \<Rightarrow> bool" where
  "is_prompt (Sdk_prompt t b) = True"
| "is_prompt _ = False"

fun budget :: "prompt_try \<Rightarrow> nat" where
  "budget (First r) = (if r = 0 then 0 else if r = 1 then 1 else 2)"
| "budget (Follow_up r) = (if r > 1 then 1 else 0)"

definition handed :: "pi_state \<Rightarrow> nat" where
  "handed d = length (filter is_prompt (pd_out d))"

definition prompt_budget :: "pi_state \<Rightarrow> nat" where
  "prompt_budget d = handed d + sum_list (map (\<lambda>(i, p). budget (pp_try p)) (pd_prompts d))"

lemma sum_delete: "map_of xs i = Some p \<Longrightarrow>
    sum_list (map (\<lambda>(i, p). budget (pp_try p)) (AList.delete i xs)) + budget (pp_try p) \<le>
    sum_list (map (\<lambda>(i, p). budget (pp_try p)) xs)"
proof (induction xs)
  case (Cons x xs)
  have "sum_list (map (\<lambda>(i, p). budget (pp_try p)) (AList.delete i ys)) \<le> sum_list (map (\<lambda>(i, p). budget (pp_try p)) ys)" for ys
    by (induction ys) auto
  from this [of xs] Cons show ?case by (cases x) (auto split: if_splits)
qed simp

lemma sum_delete_le: "sum_list (map (\<lambda>(i, p). budget (pp_try p)) (AList.delete i ys)) \<le> sum_list (map (\<lambda>(i, p). budget (pp_try p)) ys)"
  by (induction ys) auto

lemma failed_budget: "prompt_budget (prompt_failed i e streaming d) \<le> prompt_budget d"
proof (cases "map_of (pd_prompts d) i")
  case (Some p)
  note sum_delete [OF Some]
  then show ?thesis using Some
    by (auto simp: prompt_failed_def prompt_budget_def handed_def pi_prims Let_def split: prompt_try.split)
qed (simp add: prompt_failed_def)

lemma budget_frame:
  "prompt_budget (sdk_says env ev d) = prompt_budget d"
  "prompt_budget (react env cfg cost tokens d) = prompt_budget d"
  "prompt_budget (synced env d) = prompt_budget d"
  "prompt_budget (snd (pi_compact_finish env cfg instructions out d)) = prompt_budget d"
proof -
  show "prompt_budget (sdk_says env ev d) = prompt_budget d"
    by (cases ev) (auto simp: sdk_says_def prompt_budget_def handed_def pi_prims Let_def split: option.split)
  have same: "prompt_budget (emitCompactedUsage env cfg res x) = prompt_budget x" for res x
    by (simp add: emitCompactedUsage_def prompt_budget_def handed_def on_live_def split: option.split json.split)
  show "prompt_budget (snd (pi_compact_finish env cfg instructions out d)) = prompt_budget d"
    by (simp add: pi_compact_finish_def Let_def same split: sum.split) (simp add: prompt_budget_def handed_def on_live_def)
  have "prompt_budget (emitResult_start env cfg cost tokens messages n t x) = prompt_budget x" for messages n t x
    by (simp add: emitResult_start_def prompt_budget_def handed_def on_live_def Let_def)
  moreover have "prompt_budget (fail_start cfg e x) = prompt_budget x" "prompt_budget (settle_idle env x) = prompt_budget x"
      "prompt_budget (pi_finish x) = prompt_budget x" for e x
    by (simp_all add: fail_start_def settle_idle_def prompt_budget_def handed_def pi_prims)
  ultimately show "prompt_budget (react env cfg cost tokens d) = prompt_budget d"
    by (simp add: react_def Let_def same split: list.split reaction.split) (simp add: prompt_budget_def handed_def)
  show "prompt_budget (synced env d) = prompt_budget d"
    by (simp add: synced_def prompt_budget_def handed_def pi_prims Let_def split: option.split sync_wait.split json.split)
qed

fun queues :: "pi_event \<Rightarrow> nat" where
  "queues (Queue t b) = 1"
| "queues _ = 0"

lemma step_budget: "prompt_budget (pi_step cfg (env, ev) d) \<le> prompt_budget d + 3 * queues ev"
  by (cases ev) (simp_all add: budget_frame failed_budget,
    simp_all add: pi_simple_ops prompt_budget_def handed_def pi_prims Let_def sum_delete_le)

text \<open>
  A message is handed to the SDK at most three times, however often the SDK calls itself
  busy: over any history the prompts handed over are at most three for each message queued.
\<close>

theorem pi_prompts_bounded:
  "handed (pi_run cfg evs (new_pi s mode)) \<le> 3 * sum_list (map (\<lambda>(env, ev). queues ev) evs)"
proof -
  have "prompt_budget (fold (pi_step cfg) evs d) \<le> prompt_budget d + 3 * sum_list (map (\<lambda>(env, ev). queues ev) evs)" for d
  proof (induction evs arbitrary: d)
    case (Cons x evs)
    obtain env ev where x: "x = (env, ev)" by (cases x)
    show ?case using Cons [of "pi_step cfg x d"] step_budget [of cfg env ev d] by (simp add: x)
  qed simp
  from this [of "new_pi s mode"] show ?thesis by (simp add: pi_run_def prompt_budget_def handed_def new_pi_def)
qed

section \<open>The gate guards\<close>

lemma platform_not_escalated:
  assumes "tool \<in> set (platformToolNames spec [] @ [TOOL_SEARCH])"
  shows "\<not> isEscalatedTool tool servers"
proof -
  have "isEscalatedTool tool servers \<Longrightarrow> starts_with tool (js ''mcp__'')"
    by (auto simp: isEscalatedTool_def Let_def starts_with_prefix split: json.splits dest: append_prefixD)
  moreover have "\<not> starts_with tool (js ''mcp__'')"
    using assms by (auto simp: platformToolNames_def SLEEP_def SLEEP_UNTIL_def WAIT_FOR_TASK_def TOOL_SEARCH_def split: if_splits)
  ultimately show ?thesis by blast
qed

text \<open>
  No tool call of a pi session goes ahead unasked that should not: none while the session
  ends, none of a connector on the escalation list, none that the tool policy blocks or wants
  confirmed, in whatever permission mode; and without a mode or a rule that lets calls through
  only the platform's own tools do.
\<close>

theorem pi_gate_guards:
  assumes "pi_gate ending spec mode tool input = Pass"
  shows "\<not> ending \<and> \<not> isEscalatedTool tool (jprop spec (js ''escalate_servers'')) \<and>
    (truthy (jprop spec (js ''tool_policy'')) \<longrightarrow>
       evaluateToolPolicy (js_String (jprop spec (js ''tool_policy''))) tool input (JBool (truthy (jprop spec (js ''interactive'')))) = Allowed) \<and>
    (mode = js ''bypassPermissions'' \<or> truthy (jprop spec (js ''auto_approve'')) \<or>
       tool \<in> set (platformToolNames (JObj spec) [] @ [TOOL_SEARCH]))"
  using assms platform_not_escalated [of tool "JObj spec" "jprop spec (js ''escalate_servers'')"]
  unfolding pi_gate_def Let_def by (simp split: if_splits verdict.splits)

theorem pi_gate_guards_witness:
  "pi_gate False [(js ''escalate_servers'', JArr [JStr (js ''mail'')])] (js ''bypassPermissions'') (js ''bash'') (JObj []) = Pass \<and>
   \<not> isEscalatedTool (js ''bash'') (JArr [JStr (js ''mail'')])"
proof -
  let ?s = "[(js ''escalate_servers'', JArr [JStr (js ''mail'')])]"
  have "pi_gate False ?s (js ''bypassPermissions'') (js ''bash'') (JObj []) = Pass" by code_simp
  with pi_gate_guards [OF this] show ?thesis by simp
qed

section \<open>The driver the routes see\<close>

text \<open>
  The driver of \<^verbatim>\<open>server.mjs\<close>'s interface that a pi session \<open>d\<close> is, as far as the live session
  goes. A shutdown waits for the chain.
\<close>

definition pi_harness :: "pi_config \<Rightarrow> pi_state \<Rightarrow> driver" where
  "pi_harness cfg d =
     \<lparr>dr_methods = \<lparr>has_listCommands = False, has_invokeCommand = False, has_setModel = False, has_compact = True\<rparr>,
      dr_retires = True,
      dr_queueMessage = (\<lambda>env t s. let (d1, taken) = pi_queueMessage env t False (d\<lparr>pd_live := s\<rparr>) in (pd_live d1, taken)),
      dr_beginEnd = (\<lambda>env s. pd_live (pi_beginEnd False (d\<lparr>pd_live := s\<rparr>))),
      dr_shutdownStop = (\<lambda>env s. pd_live (drain env cfg (JInt 0) JNull (length (pd_serial d) + 1)
         (pi_shutdown_aborted (pi_shutdownStop (d\<lparr>pd_live := s\<rparr>)))))\<rparr>"

locale quiet_pi =
  fixes cfg :: pi_config and d :: pi_state
  assumes quiet: "pd_serial d = []" "pd_waiting d = None"
begin

lemma shutdown_live:
  "dr_shutdownStop (pi_harness cfg d) env s =
    (if pd_finished d \<or> pd_retiring d \<noteq> None then s
     else emits env (js ''session.ended'') [(js ''sdk_session_id'', JStr (ss_sdkSessionId s)), (js ''last_result'', ss_lastResult s)]
       (s\<lparr>ss_state := Ended\<rparr>))"
  using quiet by (simp add: pi_harness_def drain_def pi_shutdown_aborted_def pi_shutdownStop_def react_def synced_def pi_prims Let_def)

end

sublocale quiet_pi \<subseteq> settled_harness "pi_harness cfg d"
proof
  fix s env t
  have ended: "moves s (emits env ty p (s\<lparr>ss_state := Ended\<rparr>))" for ty p
    by (rule moves_trans [OF moves_state(1) moves_emits(1)])
  show "driver_keeps s (fst (dr_queueMessage (pi_harness cfg d) env t s))" "driver_keeps s (dr_beginEnd (pi_harness cfg d) env s)"
    "driver_keeps s (dr_shutdownStop (pi_harness cfg d) env s)"
    by (simp_all add: shutdown_live driver_keeps_moves ended)
      (simp_all add: pi_harness_def pi_queueMessage_def pi_beginEnd_def pi_prims Let_def driver_keeps_moves)
  show "isDone s \<Longrightarrow> isDone (fst (dr_queueMessage (pi_harness cfg d) env t s))" "isDone s \<Longrightarrow> isDone (dr_beginEnd (pi_harness cfg d) env s)"
    "isDone s \<Longrightarrow> isDone (dr_shutdownStop (pi_harness cfg d) env s)"
    by (simp_all add: shutdown_live isDone_def) (auto simp: pi_harness_def pi_queueMessage_def pi_beginEnd_def pi_prims
      setState_def isDone_def Let_def)
qed

interpretation fresh_pi: quiet_pi cfg "new_pi s mode" for cfg s mode
  by unfold_locales (simp_all add: new_pi_def)

end
