(* ===== verification/McpCalls.thy ===== *)
theory McpCalls
  imports McpBridge
begin

text \<open>
  \<^verbatim>\<open>drivers/mcp-bridge.mjs\<close>, the calls of one bridged server: the reconnection parallel calls
  share, the one retry after a lost connection, and the closing of the clients. Clients are
  numbered as they connect; the answers of the client library are events. The log says what was
  sent on which client, what each call was answered, and which clients were closed.
\<close>

section \<open>Operations\<close>

datatype call_phase = First_try | Reconnecting js_error | Resuming js_error | Second_try

datatype call_out =
    Call_sent nat nat
  | Call_answered nat "js_error + json"
  | Connection_failed nat js_error
  | Client_closed nat

record bridge =
  br_client :: nat
  br_fresh :: nat
  br_reconnecting :: bool
  br_closed :: bool
  br_listed :: bool
  br_calls :: "(nat, call_phase) jmap"
  br_next :: nat
  br_log :: "call_out list"

definition connected :: bridge where
  "connected = \<lparr>br_client = 0, br_fresh = 1, br_reconnecting = False, br_closed = False, br_listed = True,
     br_calls = [], br_next = 0, br_log = []\<rparr>"

definition logged :: "call_out \<Rightarrow> bridge \<Rightarrow> bridge" where
  "logged e s = s\<lparr>br_log := br_log s @ [e]\<rparr>"

definition in_phase :: "nat \<Rightarrow> call_phase \<Rightarrow> bridge \<Rightarrow> bridge" where
  "in_phase i p s = s\<lparr>br_calls := AList.update i p (br_calls s)\<rparr>"

definition answer_call :: "js_error + json \<Rightarrow> nat \<Rightarrow> bridge \<Rightarrow> bridge" where
  "answer_call r i s = logged (Call_answered i r) (s\<lparr>br_calls := AList.delete i (br_calls s)\<rparr>)"

definition plain_js_error :: "jstring \<Rightarrow> js_error" where
  "plain_js_error m = \<lparr>je_stack = JUndef, je_message = JStr m, je_name = JStr (js ''Error''), je_code = JUndef,
     je_data = JUndef, je_info = JUndef, je_string = js ''Error: '' @ m\<rparr>"

definition callOn :: "nat \<Rightarrow> call_phase \<Rightarrow> bridge \<Rightarrow> bridge" where
  "callOn i p s = logged (Call_sent i (br_client s)) (in_phase i p s)"

definition call_tool :: "bridge \<Rightarrow> bridge" where
  "call_tool s =
     (let i = br_next s; s1 = s\<lparr>br_next := i + 1\<rparr>
      in if br_closed s then answer_call (Inl (plain_js_error (js ''bridge closed''))) i s1
         else callOn i First_try s1)"

definition start_reconnect :: "bridge \<Rightarrow> bridge" where
  "start_reconnect s =
     (if br_reconnecting s then s else logged (Client_closed (br_client s)) (s\<lparr>br_reconnecting := True\<rparr>))"

definition call_fails :: "int \<Rightarrow> nat \<Rightarrow> js_error \<Rightarrow> bool \<Rightarrow> bridge \<Rightarrow> bridge" where
  "call_fails closed_code i e aborted s = (case map_of (br_calls s) i of
       Some First_try \<Rightarrow>
         if br_closed s \<or> aborted \<or> \<not> isConnectionError closed_code e then answer_call (Inl e) i s
         else start_reconnect (in_phase i (Reconnecting e) (logged (Connection_failed i e) s))
     | Some Second_try \<Rightarrow> answer_call (Inl e) i s
     | _ \<Rightarrow> s)"

definition call_returns :: "nat \<Rightarrow> json \<Rightarrow> bridge \<Rightarrow> bridge" where
  "call_returns i v s = (case map_of (br_calls s) i of
       Some First_try \<Rightarrow> answer_call (Inr v) i s
     | Some Second_try \<Rightarrow> answer_call (Inr v) i s
     | _ \<Rightarrow> s)"

fun resumed :: "call_phase \<Rightarrow> call_phase" where
  "resumed (Reconnecting e) = Resuming e"
| "resumed p = p"

definition reconnected :: "bridge \<Rightarrow> bridge" where
  "reconnected s =
     (if \<not> br_reconnecting s then s
      else let fresh = br_fresh s;
               s1 = s\<lparr>br_fresh := fresh + 1, br_reconnecting := False, br_calls := map (\<lambda>(i, p). (i, resumed p)) (br_calls s)\<rparr>
           in if br_closed s then logged (Client_closed fresh) s1 else s1\<lparr>br_client := fresh\<rparr>)"

fun waits_reconnect :: "nat \<times> call_phase \<Rightarrow> bool" where
  "waits_reconnect (i, Reconnecting e) = True"
| "waits_reconnect _ = False"

definition reconnect_fails :: "js_error \<Rightarrow> bridge \<Rightarrow> bridge" where
  "reconnect_fails e s =
     (if \<not> br_reconnecting s then s
      else fold (answer_call (Inl e)) (map fst (filter waits_reconnect (br_calls s))) (s\<lparr>br_reconnecting := False\<rparr>))"

definition resume_call :: "nat \<Rightarrow> bool \<Rightarrow> bridge \<Rightarrow> bridge" where
  "resume_call i aborted s = (case map_of (br_calls s) i of
       Some (Resuming e) \<Rightarrow> if br_closed s \<or> aborted then answer_call (Inl e) i s else callOn i Second_try s
     | _ \<Rightarrow> s)"

definition close_bridge :: "bridge \<Rightarrow> bridge" where
  "close_bridge s =
     (let s1 = s\<lparr>br_closed := True, br_listed := False\<rparr>
      in if br_listed s then logged (Client_closed (br_client s)) s1 else s1)"

section \<open>A bridge over time\<close>

datatype call_event =
    Called
  | Failed nat js_error bool
  | Returned nat json
  | Reconnected
  | Reconnect_failed js_error
  | Resumed nat bool
  | Bridge_closed

fun bridge_step :: "int \<Rightarrow> call_event \<Rightarrow> bridge \<Rightarrow> bridge" where
  "bridge_step cc Called = call_tool"
| "bridge_step cc (Failed i e aborted) = call_fails cc i e aborted"
| "bridge_step cc (Returned i v) = call_returns i v"
| "bridge_step cc Reconnected = reconnected"
| "bridge_step cc (Reconnect_failed e) = reconnect_fails e"
| "bridge_step cc (Resumed i aborted) = resume_call i aborted"
| "bridge_step cc Bridge_closed = close_bridge"

definition bridge_run :: "int \<Rightarrow> call_event list \<Rightarrow> bridge \<Rightarrow> bridge" where
  "bridge_run cc evs = fold (bridge_step cc) evs"

definition sent_ids :: "call_out list \<Rightarrow> nat list" where
  "sent_ids = List.map_filter (\<lambda>e. case e of Call_sent i c \<Rightarrow> Some i | _ \<Rightarrow> None)"

definition answered_ids :: "call_out list \<Rightarrow> nat list" where
  "answered_ids = List.map_filter (\<lambda>e. case e of Call_answered i r \<Rightarrow> Some i | _ \<Rightarrow> None)"

definition lost_calls :: "call_out list \<Rightarrow> (nat \<times> js_error) list" where
  "lost_calls = List.map_filter (\<lambda>e. case e of Connection_failed i x \<Rightarrow> Some (i, x) | _ \<Rightarrow> None)"

definition closed_clients :: "call_out list \<Rightarrow> nat list" where
  "closed_clients = List.map_filter (\<lambda>e. case e of Client_closed c \<Rightarrow> Some c | _ \<Rightarrow> None)"

lemma map_filter_append [simp]: "List.map_filter f (xs @ ys) = List.map_filter f xs @ List.map_filter f ys"
  by (induction xs) (simp_all add: map_filter_simps split: option.splits)

lemma log_append [simp]:
  "sent_ids (es @ fs) = sent_ids es @ sent_ids fs"
  "answered_ids (es @ fs) = answered_ids es @ answered_ids fs"
  "lost_calls (es @ fs) = lost_calls es @ lost_calls fs"
  "closed_clients (es @ fs) = closed_clients es @ closed_clients fs"
  by (simp_all add: sent_ids_def answered_ids_def lost_calls_def closed_clients_def)

lemma log_one [simp]:
  "sent_ids [e] = (case e of Call_sent i c \<Rightarrow> [i] | _ \<Rightarrow> [])"
  "answered_ids [e] = (case e of Call_answered i r \<Rightarrow> [i] | _ \<Rightarrow> [])"
  "lost_calls [e] = (case e of Connection_failed i x \<Rightarrow> [(i, x)] | _ \<Rightarrow> [])"
  "closed_clients [e] = (case e of Client_closed c \<Rightarrow> [c] | _ \<Rightarrow> [])"
  by (simp_all add: sent_ids_def answered_ids_def lost_calls_def closed_clients_def map_filter_simps split: call_out.splits)

section \<open>Invariants\<close>

definition calls_ok :: "bridge \<Rightarrow> bool" where
  "calls_ok s \<longleftrightarrow> distinct (map fst (br_calls s)) \<and> distinct (answered_ids (br_log s)) \<and>
     set (answered_ids (br_log s)) \<inter> dom (map_of (br_calls s)) = {} \<and>
     set (answered_ids (br_log s)) \<union> dom (map_of (br_calls s)) = {..<br_next s}"

definition sends_of :: "bridge \<Rightarrow> nat \<Rightarrow> nat \<times> nat" where
  "sends_of s i = (count_list (sent_ids (br_log s)) i, count_list (map fst (lost_calls (br_log s))) i)"

fun phase_sends :: "call_phase option \<Rightarrow> nat \<times> nat \<Rightarrow> bool" where
  "phase_sends (Some First_try) (n, l) = (n = 1 \<and> l = 0)"
| "phase_sends (Some Second_try) (n, l) = (n = 2 \<and> l = 1)"
| "phase_sends (Some p) (n, l) = (n = 1 \<and> l = 1)"
| "phase_sends None (n, l) = (n \<le> 1 + l \<and> l \<le> 1)"

definition sends_ok :: "int \<Rightarrow> bridge \<Rightarrow> bool" where
  "sends_ok cc s \<longleftrightarrow> (\<forall>i. phase_sends (map_of (br_calls s) i) (sends_of s i)) \<and>
     (\<forall>i \<ge> br_next s. sends_of s i = (0, 0)) \<and>
     list_all (\<lambda>(i, e). isConnectionError cc e) (lost_calls (br_log s))"

definition clients_ok :: "bridge \<Rightarrow> bool" where
  "clients_ok s \<longleftrightarrow> {..<br_fresh s} \<subseteq> insert (br_client s) (set (closed_clients (br_log s))) \<and>
     (br_reconnecting s \<or> br_closed s \<longrightarrow> br_client s \<in> set (closed_clients (br_log s))) \<and>
     (br_listed s \<longleftrightarrow> \<not> br_closed s) \<and> set (closed_clients (br_log s)) \<subseteq> {..<br_fresh s} \<and> br_client s < br_fresh s"

definition bridge_inv :: "int \<Rightarrow> bridge \<Rightarrow> bool" where
  "bridge_inv cc s \<longleftrightarrow> calls_ok s \<and> sends_ok cc s \<and> clients_ok s"

lemmas bridge_invs = bridge_inv_def calls_ok_def sends_ok_def clients_ok_def sends_of_def
lemmas bridge_prims = answer_call_def callOn_def logged_def in_phase_def

lemma phase_sends_None: "phase_sends p x \<Longrightarrow> phase_sends None x"
  by (cases "(p, x)" rule: phase_sends.cases) auto

lemma phase_sends_simps:
  "phase_sends (Some First_try) x \<longleftrightarrow> x = (1, 0)" "phase_sends (Some Second_try) x \<longleftrightarrow> x = (2, 1)"
  "phase_sends (Some (Reconnecting e)) x \<longleftrightarrow> x = (1, 1)" "phase_sends (Some (Resuming e)) x \<longleftrightarrow> x = (1, 1)"
  by (cases x; simp)+

lemma after_prims:
  "map_of (br_calls (answer_call r i s)) = (map_of (br_calls s))(i := None)"
  "map_of (br_calls (callOn i p s)) = (map_of (br_calls s))(i \<mapsto> p)"
  "sends_of (answer_call r i s) = sends_of s"
  "sends_of (callOn i p s) j = (if j = i then (Suc (fst (sends_of s j)), snd (sends_of s j)) else sends_of s j)"
  "br_next (answer_call r i s) = br_next s" "br_next (callOn i p s) = br_next s"
  "lost_calls (br_log (answer_call r i s)) = lost_calls (br_log s)"
  "lost_calls (br_log (callOn i p s)) = lost_calls (br_log s)"
  by (simp_all add: bridge_prims sends_of_def delete_conv' update_conv' fun_eq_iff)

lemma clients_prims: "clients_ok (answer_call r i s) = clients_ok s" "clients_ok (callOn i p s) = clients_ok s"
  by (simp_all add: bridge_prims clients_ok_def)

lemma inv_answer:
  assumes "bridge_inv cc s" and "map_of (br_calls s) i = Some p"
  shows "bridge_inv cc (answer_call r i s)"
proof -
  have "phase_sends None (sends_of s i)"
    using assms(1) by (auto simp: bridge_inv_def sends_ok_def intro: phase_sends_None)
  then have "sends_ok cc (answer_call r i s)" using assms(1) by (simp add: bridge_inv_def sends_ok_def after_prims)
  moreover have "calls_ok (answer_call r i s)"
    using assms by (auto simp: bridge_inv_def calls_ok_def bridge_prims delete_conv' distinct_delete)
  ultimately show ?thesis using assms(1) by (simp add: bridge_inv_def clients_prims)
qed

lemma inv_answers:
  assumes "bridge_inv cc s" and "distinct is" and "set is \<subseteq> dom (map_of (br_calls s))"
  shows "bridge_inv cc (fold (answer_call r) is s)"
  using assms
proof (induction "is" arbitrary: s)
  case (Cons i "is")
  then obtain p where p: "map_of (br_calls s) i = Some p" by auto
  have "set is \<subseteq> dom (map_of (br_calls (answer_call r i s)))" using Cons.prems by (auto simp: after_prims)
  with Cons.IH [of "answer_call r i s"] Cons.prems inv_answer [OF _ p] show ?case by simp
qed simp

lemma fresh_call:
  assumes "bridge_inv cc s"
  shows "map_of (br_calls s) (br_next s) = None" "br_next s \<notin> set (answered_ids (br_log s))"
    "sends_of s (br_next s) = (0, 0)"
proof -
  have "br_next s \<notin> {..<br_next s}" by simp
  then have "br_next s \<notin> set (answered_ids (br_log s)) \<union> dom (map_of (br_calls s))"
    using assms by (simp add: bridge_inv_def calls_ok_def)
  then show "map_of (br_calls s) (br_next s) = None" "br_next s \<notin> set (answered_ids (br_log s))" by auto
  show "sends_of s (br_next s) = (0, 0)" using assms by (simp add: bridge_inv_def sends_ok_def)
qed

lemma inv_call:
  assumes "bridge_inv cc s"
  shows "bridge_inv cc (call_tool s)"
proof -
  note fresh = fresh_call [OF assms]
  let ?s = "s\<lparr>br_next := Suc (br_next s)\<rparr>"
  have same: "sends_of ?s = sends_of s" by (simp add: sends_of_def fun_eq_iff)
  have "sends_ok cc (answer_call r (br_next s) ?s)" for r
    using assms fresh by (auto simp: bridge_inv_def sends_ok_def after_prims same)
  moreover have "calls_ok (answer_call r (br_next s) ?s)" for r
    using assms fresh by (auto simp: bridge_inv_def calls_ok_def bridge_prims delete_conv' distinct_delete lessThan_Suc)
  moreover have "sends_ok cc (callOn (br_next s) First_try ?s)"
    using assms fresh by (auto simp: bridge_inv_def sends_ok_def after_prims same phase_sends_simps)
  moreover have "calls_ok (callOn (br_next s) First_try ?s)"
    using assms fresh by (auto simp: bridge_inv_def calls_ok_def bridge_prims update_conv' distinct_update lessThan_Suc)
  moreover have "clients_ok ?s" using assms by (simp add: bridge_inv_def clients_ok_def)
  ultimately show ?thesis by (simp add: call_tool_def Let_def bridge_inv_def clients_prims)
qed

lemma inv_start: "bridge_inv cc s \<Longrightarrow> bridge_inv cc (start_reconnect s)"
  by (auto simp: start_reconnect_def bridge_invs logged_def)

lemma inv_lost:
  assumes "bridge_inv cc s" and "map_of (br_calls s) i = Some First_try" and "isConnectionError cc e"
  shows "bridge_inv cc (in_phase i (Reconnecting e) (logged (Connection_failed i e) s))"
proof -
  let ?t = "in_phase i (Reconnecting e) (logged (Connection_failed i e) s)"
  have calls: "map_of (br_calls ?t) = (map_of (br_calls s))(i \<mapsto> Reconnecting e)" by (simp add: bridge_prims update_conv')
  have sends: "sends_of ?t j = (if j = i then (fst (sends_of s j), Suc (snd (sends_of s j))) else sends_of s j)" for j
    by (simp add: bridge_prims sends_of_def)
  have "phase_sends (Some First_try) (sends_of s i)"
    using assms(1,2) unfolding bridge_inv_def sends_ok_def by metis
  then have one: "sends_of s i = (1, 0)" by (simp only: phase_sends_simps)
  have "i < br_next s" using assms(1,2) by (auto simp: bridge_inv_def calls_ok_def)
  then have "sends_ok cc ?t" using assms(1,3) one
    by (auto simp: bridge_inv_def sends_ok_def calls sends phase_sends_simps) (simp_all add: bridge_prims)
  moreover have "calls_ok ?t" using assms(1,2)
    by (auto simp: bridge_inv_def calls_ok_def bridge_prims update_conv' distinct_update)
  ultimately show ?thesis using assms(1) by (simp add: bridge_inv_def clients_ok_def bridge_prims)
qed

lemma inv_fails: "bridge_inv cc s \<Longrightarrow> bridge_inv cc (call_fails cc i e aborted s)"
  by (auto simp: call_fails_def inv_answer inv_lost inv_start split: option.split call_phase.split)

lemma inv_returns: "bridge_inv cc s \<Longrightarrow> bridge_inv cc (call_returns i v s)"
  by (auto simp: call_returns_def inv_answer split: option.split call_phase.split)

lemma phase_sends_resumed: "phase_sends (map_option resumed p) x = phase_sends p x"
  by (cases p; simp; cases "the p"; simp add: phase_sends_simps)

lemma map_of_resumed: "map_of (map (\<lambda>(i, p). (i, resumed p)) cs) = map_option resumed \<circ> map_of cs"
  by (induction cs) (auto simp: fun_eq_iff)

lemma inv_reconnected:
  assumes "bridge_inv cc s"
  shows "bridge_inv cc (reconnected s)"
proof (cases "br_reconnecting s")
  case True
  let ?t = "reconnected s"
  have calls: "map_of (br_calls ?t) = map_option resumed \<circ> map_of (br_calls s)"
    and keys: "map fst (br_calls ?t) = map fst (br_calls s)"
    and same: "sends_of ?t = sends_of s" "br_next ?t = br_next s" "answered_ids (br_log ?t) = answered_ids (br_log s)"
      "lost_calls (br_log ?t) = lost_calls (br_log s)"
    using True by (simp_all add: reconnected_def Let_def logged_def sends_of_def fun_eq_iff map_of_resumed comp_def case_prod_beta)
  have doms: "dom (map_of (br_calls ?t)) = dom (map_of (br_calls s))" unfolding calls by (auto simp: dom_def)
  have "sends_ok cc ?t" using assms by (simp add: bridge_inv_def sends_ok_def calls same phase_sends_resumed)
  moreover have "calls_ok ?t" using assms by (simp only: bridge_inv_def calls_ok_def doms keys same)
  moreover have "clients_ok ?t" using assms True
    by (auto simp: bridge_inv_def clients_ok_def reconnected_def Let_def logged_def lessThan_Suc)
  ultimately show ?thesis by (simp add: bridge_inv_def)
qed (simp add: reconnected_def assms)

lemma inv_reconnect_fails:
  assumes "bridge_inv cc s"
  shows "bridge_inv cc (reconnect_fails e s)"
proof -
  let ?s = "s\<lparr>br_reconnecting := False\<rparr>" and ?is = "map fst (filter waits_reconnect (br_calls s))"
  have "bridge_inv cc ?s" using assms by (auto simp: bridge_invs)
  moreover have "distinct ?is" using assms by (simp add: bridge_inv_def calls_ok_def distinct_map_filter)
  moreover have "set ?is \<subseteq> dom (map_of (br_calls ?s))" by (auto simp: dom_map_of_conv_image_fst)
  ultimately show ?thesis using assms by (simp add: reconnect_fails_def inv_answers)
qed

lemma inv_resume:
  assumes "bridge_inv cc s"
  shows "bridge_inv cc (resume_call i aborted s)"
proof (cases "\<exists>e. map_of (br_calls s) i = Some (Resuming e)")
  case True
  then obtain e where e: "map_of (br_calls s) i = Some (Resuming e)" ..
  then have "phase_sends (Some (Resuming e)) (sends_of s i)"
    using assms unfolding bridge_inv_def sends_ok_def by metis
  then have one: "sends_of s i = (1, 1)" by (simp only: phase_sends_simps)
  have "i < br_next s" using assms e by (auto simp: bridge_inv_def calls_ok_def)
  then have "sends_ok cc (callOn i Second_try s)" using assms one
    by (auto simp: bridge_inv_def sends_ok_def after_prims phase_sends_simps)
  moreover have "calls_ok (callOn i Second_try s)" using assms e
    by (auto simp: bridge_inv_def calls_ok_def bridge_prims update_conv' distinct_update)
  ultimately have "bridge_inv cc (callOn i Second_try s)" using assms by (simp add: bridge_inv_def clients_prims)
  with assms e show ?thesis by (simp add: resume_call_def inv_answer)
next
  case False
  then have "resume_call i aborted s = s" by (auto simp: resume_call_def split: option.split call_phase.split)
  with assms show ?thesis by simp
qed

lemma inv_close: "bridge_inv cc s \<Longrightarrow> bridge_inv cc (close_bridge s)"
  by (auto simp: close_bridge_def bridge_invs logged_def Let_def)

lemmas bridge_ops = inv_call inv_fails inv_returns inv_reconnected inv_reconnect_fails inv_resume inv_close

lemma inv_bridge_run: "bridge_inv cc (bridge_run cc evs connected)"
proof -
  have step: "bridge_inv cc s \<Longrightarrow> bridge_inv cc (bridge_step cc ev s)" for ev s by (cases ev) (simp_all add: bridge_ops)
  have "bridge_inv cc s \<Longrightarrow> bridge_inv cc (fold (bridge_step cc) evs s)" for s by (induction evs arbitrary: s) (simp_all add: step)
  moreover have "bridge_inv cc connected"
    by (auto simp: bridge_invs connected_def sent_ids_def answered_ids_def lost_calls_def closed_clients_def map_filter_simps)
  ultimately show ?thesis by (simp add: bridge_run_def)
qed

text \<open>
  C26: Over every interleaving of calls, failures, reconnections and the close of the bridge, each
  call is answered once or still in flight, and is sent to the server at most once more than it
  lost its connection, which it does at most once: a timeout or an error of the server never
  sends a call again.
\<close>

theorem bridge_never_repeats_a_call:
  "let s = bridge_run cc evs connected
   in distinct (answered_ids (br_log s) @ map fst (br_calls s)) \<and>
      set (answered_ids (br_log s) @ map fst (br_calls s)) = {..<br_next s} \<and>
      distinct (map fst (lost_calls (br_log s))) \<and>
      count_list (sent_ids (br_log s)) i \<le> 1 + count_list (map fst (lost_calls (br_log s))) i \<and>
      list_all (\<lambda>(i, e). isConnectionError cc e) (lost_calls (br_log s))"
proof -
  define s where "s = bridge_run cc evs connected"
  have inv: "bridge_inv cc s" unfolding s_def by (rule inv_bridge_run)
  then have "phase_sends None (sends_of s j)" for j
    by (auto simp: bridge_inv_def sends_ok_def intro: phase_sends_None)
  then have sends: "count_list (sent_ids (br_log s)) j \<le> 1 + count_list (map fst (lost_calls (br_log s))) j"
    "count_list (map fst (lost_calls (br_log s))) j \<le> 1" for j by (simp_all add: sends_of_def)
  then have "distinct (map fst (lost_calls (br_log s)))"
    by (metis count_mset distinct_count_atmost_1 le_SucE le_zero_eq One_nat_def count_eq_zero_iff set_mset_mset)
  with inv sends show ?thesis unfolding s_def [symmetric] Let_def
    by (simp add: bridge_inv_def calls_ok_def sends_ok_def dom_map_of_conv_image_fst)
qed

text \<open>
  No client is left behind: a client that is not the current one has been closed, and once
  the bridge is closed all are, one that was still connecting then included.
\<close>

theorem bridge_leaks_no_client:
  "let s = bridge_run cc evs connected
   in {..<br_fresh s} \<subseteq> insert (br_client s) (set (closed_clients (br_log s))) \<and>
      (if br_closed s then {..<br_fresh s} \<subseteq> set (closed_clients (br_log s)) else br_client s < br_fresh s)"
  using inv_bridge_run [of cc evs] by (auto simp: Let_def bridge_inv_def clients_ok_def)

end
