(* ===== verification/CodexDriver.thy ===== *)
theory CodexDriver
  imports CodexGate PiDriver McpCalls
begin

text \<open>
  The turns of \<^verbatim>\<open>drivers/codex.mjs\<close>, from a constructed thread to its end: what the app-server
  notifies drives the transcript at once, results and winding down go through a chain of
  reactions, one at a time, each of which may wait for the disk. A request to the app-server is
  out until its answer comes; between the two anything else may happen. What the driver sends,
  answers and closes is a log.
\<close>

section \<open>The driver's state\<close>

text \<open>Requests to the app-server that are out, by number, with what their answer is handled with.\<close>

datatype cx_call =
    Turn_start jstring nat
  | Turn_steer jstring nat nat
  | Turn_interrupt nat
  | Interrupt_sync nat
  | Stop_interrupt
  | Compact_start

datatype cx_reaction =
    Turn_done nat json
  | Turn_failed nat bool
  | Cx_finish
  | Cx_fail js_error
  | Cx_exit js_error

datatype cx_wait = Cx_result_sync jstring int | Cx_finish_sync | Cx_fail_sync diagnosis

datatype cx_out =
    Sent cx_call json_obj
  | Late_interrupt json_obj
  | Replied json "jstring + json_obj"
  | Tool_called json tool_handler json
  | Tools_aborted
  | Compact_answered nat "http_error + json_obj"
  | Rpc_closed
  | Rpc_killed
  | Cx_bridge_close
  | Cx_result jstring
  | Cx_ended
  | Cx_errored

record codex_config =
  cc_cwd :: json
  cc_thread :: jstring
  cc_handlers :: "(jstring, tool_handler) jmap"

text \<open>
  \<open>cx_opening\<close> holds the turns still being opened, by the number of their request and the
  generation they were requested in; \<open>cx_gates\<close> and \<open>cx_asked\<close> the requests of the app-server a
  person is asked about; \<open>cx_slots\<close> the compactions not answered yet, with whether their request
  was acknowledged and what became of them.
\<close>

record cx_state =
  cx_live :: session
  cx_mode :: jstring
  cx_currentModel :: json
  cx_closed :: bool
  cx_finished :: bool
  cx_retiring :: "bool option"
  cx_abortGen :: nat
  cx_turnActive :: bool
  cx_currentTurn :: json
  cx_steers :: "jstring list"
  cx_turnStartMS :: int
  cx_turnGen :: nat
  cx_opening :: "(nat \<times> nat) list"
  cx_lastText :: json
  cx_lastUsage :: json
  cx_turnError :: json
  cx_emitted :: bool
  cx_gates :: "(json, jstring) jmap"
  cx_asked :: "(jstring, codex_ask \<times> json \<times> json) jmap"
  cx_compacting :: "nat option"
  cx_instructions :: jstring
  cx_owed :: bool
  cx_compactTurn :: json
  cx_window :: "int option"
  cx_slots :: "(nat, bool \<times> (http_error + json_obj) option) jmap"
  cx_calls :: "(nat, cx_call) jmap"
  cx_next :: nat
  cx_serial :: "cx_reaction list"
  cx_waiting :: "cx_wait option"
  cx_out :: "cx_out list"

definition new_codex :: "session \<Rightarrow> jstring \<Rightarrow> json \<Rightarrow> cx_state" where
  "new_codex s mode model =
     \<lparr>cx_live = s, cx_mode = mode, cx_currentModel = model, cx_closed = False, cx_finished = False,
      cx_retiring = None, cx_abortGen = 0, cx_turnActive = False, cx_currentTurn = JNull, cx_steers = [],
      cx_turnStartMS = 0, cx_turnGen = 0, cx_opening = [], cx_lastText = JStr [], cx_lastUsage = JNull,
      cx_turnError = JNull, cx_emitted = False, cx_gates = [], cx_asked = [], cx_compacting = None,
      cx_instructions = [], cx_owed = False, cx_compactTurn = JNull, cx_window = None, cx_slots = [], cx_calls = [],
      cx_next = 0, cx_serial = [], cx_waiting = None, cx_out = []\<rparr>"

definition cx_tell :: "cx_out list \<Rightarrow> cx_state \<Rightarrow> cx_state" where
  "cx_tell es d = d\<lparr>cx_out := cx_out d @ es\<rparr>"

definition cx_chain :: "cx_reaction \<Rightarrow> cx_state \<Rightarrow> cx_state" where
  "cx_chain r d = d\<lparr>cx_serial := cx_serial d @ [r]\<rparr>"

definition cx_on_live :: "(session \<Rightarrow> session) \<Rightarrow> cx_state \<Rightarrow> cx_state" where
  "cx_on_live f d = d\<lparr>cx_live := f (cx_live d)\<rparr>"

definition cx_emit :: "env \<Rightarrow> string \<Rightarrow> json_obj \<Rightarrow> cx_state \<Rightarrow> cx_state" where
  "cx_emit env type payload = cx_on_live (emits env (js type) payload)"

text \<open>The spec is the session's own object: what the routes change of it, the driver sees.\<close>

definition cx_spec :: "cx_state \<Rightarrow> json_obj" where
  "cx_spec d = ss_spec (cx_live d)"

definition spec_put :: "string \<Rightarrow> json \<Rightarrow> cx_state \<Rightarrow> cx_state" where
  "spec_put k v = cx_on_live (\<lambda>s. s\<lparr>ss_spec := jput (js k) v (ss_spec s)\<rparr>)"

definition cx_request :: "cx_call \<Rightarrow> json_obj \<Rightarrow> cx_state \<Rightarrow> cx_state" where
  "cx_request c params d =
     cx_tell [Sent c params] (d\<lparr>cx_calls := cx_calls d @ [(cx_next d, c)], cx_next := cx_next d + 1\<rparr>)"

definition no_turn :: "cx_state \<Rightarrow> cx_state" where
  "no_turn d = d\<lparr>cx_turnActive := False, cx_currentTurn := JNull\<rparr>"

section \<open>Sending messages\<close>

definition textInput :: "jstring \<Rightarrow> json" where
  "textInput t = JArr [JObj [(js ''type'', JStr (js ''text'')), (js ''text'', JStr t), (js ''text_elements'', JArr [])]]"

definition turn_params :: "codex_config \<Rightarrow> jstring \<Rightarrow> cx_state \<Rightarrow> json_obj" where
  "turn_params cfg t d =
     (let model = jprop (cx_spec d) (js ''model''); effort = mapEffort (jprop (cx_spec d) (js ''effort''))
      in [(js ''threadId'', JStr (cc_thread cfg)), (js ''input'', textInput t)] @
         (if truthy model then [(js ''model'', model)] else []) @
         (if truthy effort then [(js ''effort'', effort)] else []) @
         [(js ''approvalPolicy'', JStr (fst (approvalPolicyFor (JStr (cx_mode d))))),
          (js ''sandboxPolicy'', JObj (sandboxPolicyFor (JStr (cx_mode d)) (cc_cwd cfg)))])"

definition startTurn :: "env \<Rightarrow> codex_config \<Rightarrow> jstring \<Rightarrow> cx_state \<Rightarrow> cx_state" where
  "startTurn env cfg t d =
     cx_request (Turn_start t (cx_abortGen d)) (turn_params cfg t d)
       (d\<lparr>cx_turnActive := True, cx_currentTurn := JNull, cx_turnStartMS := en_now env,
          cx_opening := cx_opening d @ [(cx_next d, cx_abortGen d)]\<rparr>)"

definition steer_params :: "codex_config \<Rightarrow> jstring \<Rightarrow> cx_state \<Rightarrow> json_obj" where
  "steer_params cfg t d = [(js ''threadId'', JStr (cc_thread cfg)), (js ''input'', textInput t),
     (js ''expectedTurnId'', cx_currentTurn d)]"

definition sendSteer :: "env \<Rightarrow> codex_config \<Rightarrow> jstring \<Rightarrow> nat \<Rightarrow> cx_state \<Rightarrow> cx_state" where
  "sendSteer env cfg t retriesLeft d =
     (if \<not> truthy (cx_currentTurn d) then startTurn env cfg t d
      else cx_request (Turn_steer t (cx_abortGen d) retriesLeft) (steer_params cfg t d) d)"

definition flushSteers :: "env \<Rightarrow> codex_config \<Rightarrow> cx_state \<Rightarrow> cx_state" where
  "flushSteers env cfg d =
     (if \<not> truthy (cx_currentTurn d) then d
      else fold (\<lambda>t. sendSteer env cfg t 1) (cx_steers d) (d\<lparr>cx_steers := []\<rparr>))"

definition cx_dispatch :: "env \<Rightarrow> codex_config \<Rightarrow> jstring \<Rightarrow> cx_state \<Rightarrow> cx_state" where
  "cx_dispatch env cfg t d =
     (if \<not> cx_turnActive d then startTurn env cfg t d
      else if truthy (cx_currentTurn d) then sendSteer env cfg t 1 d
      else d\<lparr>cx_steers := cx_steers d @ [t]\<rparr>)"

definition turn_ids :: "codex_config \<Rightarrow> json \<Rightarrow> json_obj" where
  "turn_ids cfg turn = [(js ''threadId'', JStr (cc_thread cfg)), (js ''turnId'', turn)]"

section \<open>Results and the end\<close>

definition cx_resolve_retire :: "cx_state \<Rightarrow> cx_state" where
  "cx_resolve_retire d = d\<lparr>cx_retiring := map_option (\<lambda>_. True) (cx_retiring d)\<rparr>"

definition cx_wind_down :: "cx_wait \<Rightarrow> cx_state \<Rightarrow> cx_state" where
  "cx_wind_down w d = cx_tell [Rpc_closed, Cx_bridge_close] (d\<lparr>cx_finished := True, cx_waiting := Some w\<rparr>)"

definition cx_finish :: "cx_state \<Rightarrow> cx_state" where
  "cx_finish d = (if cx_finished d then d else cx_wind_down Cx_finish_sync d)"

definition cx_fail :: "js_error \<Rightarrow> cx_state \<Rightarrow> cx_state" where
  "cx_fail e d = (if cx_finished d then d else cx_wind_down (Cx_fail_sync (classifyCodexError e)) d)"

definition emitResult :: "env \<Rightarrow> jstring \<Rightarrow> cx_state \<Rightarrow> cx_state" where
  "emitResult env subtype d =
     (if cx_finished d \<or> cx_emitted d then d
      else let duration = (if cx_turnStartMS d \<noteq> 0 then en_now env - cx_turnStartMS d else 0);
               lastResult = JObj [(js ''subtype'', JStr subtype), (js ''duration_ms'', JInt duration), (js ''num_turns'', JInt 1),
                 (js ''total_cost_usd'', JInt 0), (js ''usage'', usagePayload (cx_lastUsage d))]
           in cx_on_live (\<lambda>s. s\<lparr>ss_lastResult := lastResult\<rparr>)
                (d\<lparr>cx_emitted := True, cx_waiting := Some (Cx_result_sync subtype duration)\<rparr>))"

definition emitContextUsage :: "env \<Rightarrow> cx_state \<Rightarrow> cx_state" where
  "emitContextUsage env d =
     (case contextUsagePayload (finite_tokens (jget (cx_lastUsage d) (js ''totalTokens''))) (cx_window d) of
       Some (JObj u) \<Rightarrow> cx_on_live (emits_outside env (js ''context.usage'') u) d
     | _ \<Rightarrow> d)"

definition cx_react :: "env \<Rightarrow> cx_state \<Rightarrow> cx_state" where
  "cx_react env d =
     (if cx_waiting d \<noteq> None then d
      else case cx_serial d of
        [] \<Rightarrow> d
      | r # rs \<Rightarrow>
          let d1 = d\<lparr>cx_serial := rs\<rparr>
          in case r of
            Turn_done gen status \<Rightarrow>
              if gen \<noteq> cx_abortGen d \<or> status = JStr (js ''interrupted'') then d1
              else emitResult env (if status = JStr (js ''failed'') then js ''error_during_execution'' else js ''success'') d1
          | Turn_failed gen wasActive \<Rightarrow>
              if gen \<noteq> cx_abortGen d \<or> \<not> wasActive then d1 else emitResult env (js ''error_during_execution'') d1
          | Cx_finish \<Rightarrow> cx_finish d1
          | Cx_fail e \<Rightarrow> cx_fail e d1
          | Cx_exit e \<Rightarrow> if cx_closed d then cx_finish d1 else cx_fail e d1)"

text \<open>
  A result's text and usage are read once the disk is there, not when the turn ended: see
  \<open>result_text_lost\<close> in \<^verbatim>\<open>CodexLife\<close>.
\<close>

definition result_text :: "jstring \<Rightarrow> cx_state \<Rightarrow> json" where
  "result_text subtype d =
     (if subtype = js ''success'' then cx_lastText d
      else JStr (js_String (or_falsy (jget (cx_turnError d) (js ''message'')) (JStr (js ''turn failed'')))))"

definition result_synced :: "env \<Rightarrow> jstring \<Rightarrow> int \<Rightarrow> cx_state \<Rightarrow> cx_state" where
  "result_synced env subtype duration d =
     (let d1 = emitContextUsage env (cx_tell [Cx_result subtype] (cx_emit env ''sdk.result''
                 (resultPayload subtype (result_text subtype d) (cx_lastUsage d) (JInt 1) (JInt duration)) d))
      in if cx_finished d then d1
         else if cx_closed d \<or> ss_ending (cx_live d) then cx_finish d1
         else if \<not> cx_turnActive d then cx_on_live (setState env Idle []) d1
         else d1)"

definition cx_synced :: "env \<Rightarrow> cx_state \<Rightarrow> cx_state" where
  "cx_synced env d =
     (let d1 = d\<lparr>cx_waiting := None\<rparr>
      in case cx_waiting d of
           None \<Rightarrow> d
         | Some (Cx_result_sync subtype duration) \<Rightarrow> result_synced env subtype duration d1
         | Some Cx_finish_sync \<Rightarrow>
             (if cx_retiring d \<noteq> None then cx_resolve_retire d1
              else cx_tell [Cx_ended] (cx_emit env ''session.ended''
                [(js ''sdk_session_id'', JStr (ss_sdkSessionId (cx_live d))), (js ''last_result'', ss_lastResult (cx_live d))]
                (cx_on_live (\<lambda>s. s\<lparr>ss_state := Ended\<rparr>) d1)))
         | Some (Cx_fail_sync c) \<Rightarrow>
             (if cx_retiring d \<noteq> None then cx_resolve_retire d1
              else cx_tell [Cx_errored] (cx_emit env ''session.error''
                [(js ''message'', JStr (di_message c)), (js ''cause'', JStr (di_cause c)), (js ''detail'', JStr (di_detail c))]
                (cx_on_live (\<lambda>s. s\<lparr>ss_state := Errored\<rparr>) d1))))"

section \<open>Compaction\<close>

text \<open>A settled slot ignores what comes later; a call that was acknowledged gets its outcome at once.\<close>

definition answer_slot :: "nat \<Rightarrow> http_error + json_obj \<Rightarrow> cx_state \<Rightarrow> cx_state" where
  "answer_slot n out d =
     cx_tell [Compact_answered n out]
       (d\<lparr>cx_slots := AList.delete n (cx_slots d),
          cx_compacting := (if cx_compacting d = Some n then None else cx_compacting d)\<rparr>)"

definition settle_slot :: "nat \<Rightarrow> http_error + json_obj \<Rightarrow> cx_state \<Rightarrow> cx_state" where
  "settle_slot n out d = (case map_of (cx_slots d) n of
       Some (acknowledged, None) \<Rightarrow>
         if acknowledged then answer_slot n out d
         else d\<lparr>cx_slots := AList.update n (False, Some out) (cx_slots d)\<rparr>
     | _ \<Rightarrow> d)"

definition pick :: "json \<Rightarrow> string list \<Rightarrow> int option" where
  "pick source ks = (case find (\<lambda>k. finite_tokens (jget source (js k)) \<noteq> None) ks of
       None \<Rightarrow> None
     | Some k \<Rightarrow> finite_tokens (jget source (js k)))"

definition cx_compactionTokens :: "json \<Rightarrow> json_obj" where
  "cx_compactionTokens source =
     (case pick source [''tokensBefore'', ''tokens_before'', ''activeContextTokensBefore'', ''active_context_tokens_before''] of
        Some n \<Rightarrow> [(js ''pre_tokens'', JInt n)] | None \<Rightarrow> []) @
     (case pick source [''tokensAfter'', ''tokens_after'', ''activeContextTokensAfter'', ''active_context_tokens_after'',
          ''textTokensAfter'', ''text_tokens_after''] of
        Some n \<Rightarrow> [(js ''post_tokens'', JInt n)] | None \<Rightarrow> [])"

definition onCompacted :: "env \<Rightarrow> json_obj \<Rightarrow> bool \<Rightarrow> cx_state \<Rightarrow> cx_state" where
  "onCompacted env tokens fromItem d =
     (if cx_owed d then d\<lparr>cx_owed := False\<rparr>
      else case cx_compacting d of
        Some n \<Rightarrow>
          (let payload = (js ''trigger'', JStr (js ''manual'')) #
                 (if cx_instructions d \<noteq> [] then [(js ''instructions'', JStr (cx_instructions d))] else []) @ tokens
           in settle_slot n (Inr payload) (emitContextUsage env
                (cx_on_live (emits_outside env (js ''context.compacted'') payload)
                  (d\<lparr>cx_compacting := None, cx_owed := True\<rparr>))))
      | None \<Rightarrow>
          if fromItem then emitContextUsage env (cx_emit env ''context.compacted'' ((js ''trigger'', JStr (js ''auto'')) # tokens) d)
          else d)"

definition failCompaction :: "jstring \<Rightarrow> cx_state \<Rightarrow> cx_state" where
  "failCompaction message d = (case cx_compacting d of
       None \<Rightarrow> d
     | Some n \<Rightarrow> settle_slot n (Inl (http_err 502 message)) (d\<lparr>cx_compacting := None\<rparr>))"

definition compaction_failed :: "json \<Rightarrow> jstring \<Rightarrow> jstring" where
  "compaction_failed message default_text =
     js ''codex compaction failed: '' @ js_String (or_nullish message (JStr default_text))"

section \<open>What the app-server notifies\<close>

definition isStaleCodexTurnCompletion :: "json \<Rightarrow> json \<Rightarrow> bool \<Rightarrow> bool" where
  "isStaleCodexTurnCompletion doneId currentTurnId turnActive =
     (if \<not> truthy doneId then False
      else if truthy currentTurnId then doneId \<noteq> currentTurnId
      else turnActive)"

definition turn_id :: "json \<Rightarrow> json" where
  "turn_id params = or_nullish (jget (jget params (js ''turn'')) (js ''id'')) JNull"

definition turn_started :: "env \<Rightarrow> codex_config \<Rightarrow> json \<Rightarrow> cx_state \<Rightarrow> cx_state" where
  "turn_started env cfg params d =
     (let startedId = turn_id params
      in if cx_compacting d \<noteq> None \<and> cx_opening d = [] then d\<lparr>cx_compactTurn := startedId\<rparr>
         else let d1 = d\<lparr>cx_owed := False, cx_opening := tl (cx_opening d)\<rparr>
              in case cx_opening d of
                   (i, gen) # rest \<Rightarrow>
                     if gen = cx_abortGen d
                     then flushSteers env cfg (cx_on_live (setState env Working [])
                            (d1\<lparr>cx_turnActive := True, cx_currentTurn := startedId, cx_turnStartMS := en_now env,
                                cx_turnGen := gen, cx_turnError := JNull, cx_emitted := False, cx_lastText := JStr [],
                                cx_lastUsage := JNull\<rparr>))
                     else if truthy startedId then cx_tell [Late_interrupt (turn_ids cfg startedId)] d1 else d1
                 | [] \<Rightarrow> if truthy startedId then cx_tell [Late_interrupt (turn_ids cfg startedId)] d1 else d1)"

definition item_started :: "env \<Rightarrow> json \<Rightarrow> cx_state \<Rightarrow> cx_state" where
  "item_started env params d =
     (let item = jget params (js ''item'')
      in if isToolItem item then cx_emit env ''sdk.assistant'' (toolUsePayload item (cx_currentModel d)) d else d)"

definition todo_json :: "todo \<Rightarrow> json" where
  "todo_json t = JObj ([(js ''content'', JStr (td_content t)), (js ''status'', JStr (td_status t))] @
     (case td_priority t of Some p \<Rightarrow> [(js ''priority'', JStr p)] | None \<Rightarrow> []))"

definition item_completed :: "env \<Rightarrow> json \<Rightarrow> cx_state \<Rightarrow> cx_state" where
  "item_completed env params d =
     (let item = jget params (js ''item'')
      in if isToolItem item then cx_emit env ''sdk.user'' (toolResultPayload item) d
         else if item_is ''agentMessage'' item
         then cx_emit env ''sdk.assistant'' (messagePayload item (cx_currentModel d))
                (d\<lparr>cx_lastText := or_nullish (jget item (js ''text'')) (JStr [])\<rparr>)
         else if item_is ''reasoning'' item then cx_emit env ''sdk.assistant'' (messagePayload item (cx_currentModel d)) d
         else if item_is ''todoList'' item
         then (case todosFromCodexItem item of
                 Some todos \<Rightarrow> cx_emit env ''todo.updated'' [(js ''todos'', JArr (map todo_json todos))] d
               | None \<Rightarrow> d)
         else if item_is ''contextCompaction'' item then onCompacted env (cx_compactionTokens item) True d
         else d)"

definition usage_updated :: "json \<Rightarrow> cx_state \<Rightarrow> cx_state" where
  "usage_updated params d =
     (let usage = jget params (js ''tokenUsage''); window = finite_tokens (jget usage (js ''modelContextWindow''))
      in d\<lparr>cx_lastUsage := or_nullish (jget usage (js ''last'')) JNull,
           cx_window := (if window \<noteq> None then window else cx_window d)\<rparr>)"

definition turn_completed :: "json \<Rightarrow> cx_state \<Rightarrow> cx_state" where
  "turn_completed params d =
     (let doneId = turn_id params; turn = jget params (js ''turn''); st = jget turn (js ''status'')
      in if truthy doneId \<and> doneId = cx_compactTurn d
         then (if st = JStr (js ''failed'')
               then failCompaction (compaction_failed (jget (jget turn (js ''error'')) (js ''message'')) (js ''turn failed''))
                      (d\<lparr>cx_compactTurn := JNull\<rparr>)
               else d\<lparr>cx_compactTurn := JNull\<rparr>)
         else if isStaleCodexTurnCompletion doneId (cx_currentTurn d) (cx_turnActive d) then d
         else cx_chain (Turn_done (cx_turnGen d) st) (no_turn
                (if st = JStr (js ''failed'') \<and> \<not> truthy (cx_turnError d)
                 then d\<lparr>cx_turnError := or_nullish (jget turn (js ''error'')) JNull\<rparr> else d)))"

definition turn_errored :: "json \<Rightarrow> cx_state \<Rightarrow> cx_state" where
  "turn_errored params d =
     (let errTurnId = or_nullish (jget params (js ''turnId'')) JNull; error = jget params (js ''error'')
      in if truthy (jget params (js ''willRetry'')) then d
         else if cx_compacting d \<noteq> None \<and> (\<not> truthy errTurnId \<or> errTurnId = cx_compactTurn d)
         then failCompaction (compaction_failed (jget error (js ''message'')) (js ''error'')) d
         else if truthy errTurnId \<and> truthy (cx_currentTurn d) \<and> errTurnId \<noteq> cx_currentTurn d then d
         else cx_chain (Turn_failed (cx_turnGen d) (cx_turnActive d)) (no_turn (d\<lparr>cx_turnError := or_nullish error JNull\<rparr>)))"

text \<open>An approval codex withdraws is cancelled; the call that waits for it goes on, refused.\<close>

definition withdraw :: "env \<Rightarrow> jstring \<Rightarrow> session \<Rightarrow> session" where
  "withdraw env i s =
     (if map_of (ss_pending s) i = None then s
      else resumeIfUnblocked env (eff (Decide i (Deny (js ''withdrawn'')))
             (emits_decision env i (cancel_body (js ''withdrawn by codex'')) (s\<lparr>ss_pending := AList.delete i (ss_pending s)\<rparr>))))"

definition request_resolved :: "env \<Rightarrow> json \<Rightarrow> cx_state \<Rightarrow> cx_state" where
  "request_resolved env params d =
     (let rid = jget params (js ''requestId'')
      in case map_of (cx_gates d) rid of
           None \<Rightarrow> d
         | Some i \<Rightarrow> cx_on_live (withdraw env i) (d\<lparr>cx_gates := AList.delete rid (cx_gates d)\<rparr>))"

definition SYSTEM_ERROR :: jstring where
  "SYSTEM_ERROR = js ''codex reported a system error; this usually means OpenAI rejected the '' @
     js ''agent'' @ [0x27] @ js ''s credential: check its OPENAI_API_KEY or OPENAI_CODEX_AUTH secret''"

definition onNotification :: "env \<Rightarrow> codex_config \<Rightarrow> jstring \<Rightarrow> json \<Rightarrow> cx_state \<Rightarrow> cx_state" where
  "onNotification env cfg meth params d =
     (if meth = js ''turn/started'' then turn_started env cfg params d
      else if meth = js ''item/agentMessage/delta''
      then (case partialPayload params of Some p \<Rightarrow> cx_on_live (emits_ephemeral env (js ''sdk.partial'') p) d | None \<Rightarrow> d)
      else if meth = js ''item/started'' then item_started env params d
      else if meth = js ''item/completed'' then item_completed env params d
      else if meth = js ''thread/tokenUsage/updated'' then usage_updated params d
      else if meth = js ''turn/completed'' then turn_completed params d
      else if meth = js ''error'' then turn_errored params d
      else if meth = js ''serverRequest/resolved'' then request_resolved env params d
      else if meth = js ''thread/compacted''
      then (if \<not> truthy (jget params (js ''threadId'')) \<or> jget params (js ''threadId'') = JStr (cc_thread cfg)
            then onCompacted env (cx_compactionTokens params) False d else d)
      else if meth = js ''thread/status/changed'' \<and> jget (jget params (js ''status'')) (js ''type'') = JStr (js ''systemError'')
      then cx_chain (Cx_fail (plain_js_error SYSTEM_ERROR)) d
      else d)"

definition cx_onExit :: "js_error \<Rightarrow> cx_state \<Rightarrow> cx_state" where
  "cx_onExit e d = (if cx_finished d then d else cx_chain (Cx_exit e) d)"

section \<open>What the app-server asks\<close>

definition cx_answer :: "json \<Rightarrow> codex_answer \<Rightarrow> cx_state \<Rightarrow> cx_state" where
  "cx_answer rid a d = (case a of
       Answer r \<Rightarrow> cx_tell [Replied rid r] d
     | Call_handler th args \<Rightarrow> cx_tell [Tool_called rid th args] d)"

definition cx_onRequest :: "env \<Rightarrow> codex_config \<Rightarrow> json \<Rightarrow> jstring \<Rightarrow> json \<Rightarrow> cx_state \<Rightarrow> cx_state" where
  "cx_onRequest env cfg rid meth params d =
     (case codex_asked (cc_handlers cfg) (ss_ending (cx_live d)) (cx_mode d) (cx_spec d) meth params of
        Some a \<Rightarrow> cx_answer rid a d
      | None \<Rightarrow> (case ask_of meth of
           None \<Rightarrow> d
         | Some a \<Rightarrow>
             cx_on_live (askPermission env (gated_name a params) (gated_input a params) (gated_questions a params)
                 (gated_use a params) JUndef)
               (d\<lparr>cx_gates := (if rid \<noteq> JUndef then AList.update rid (en_id env) (cx_gates d) else cx_gates d),
                  cx_asked := AList.update (en_id env) (a, params, rid) (cx_asked d)\<rparr>)))"

definition cx_decided :: "codex_config \<Rightarrow> jstring \<Rightarrow> decision \<Rightarrow> cx_state \<Rightarrow> cx_state" where
  "cx_decided cfg i v d = (case map_of (cx_asked d) i of
       None \<Rightarrow> d
     | Some (a, params, rid) \<Rightarrow>
         cx_answer rid (codex_answered (cc_handlers cfg) a params (codex_decided v))
           (d\<lparr>cx_asked := AList.delete i (cx_asked d),
              cx_gates := (if rid \<noteq> JUndef then AList.delete rid (cx_gates d) else cx_gates d)\<rparr>))"

definition cx_tool_done :: "json \<Rightarrow> js_error + json_obj \<Rightarrow> cx_state \<Rightarrow> cx_state" where
  "cx_tool_done rid out =
     cx_tell [Replied rid (Inr (case out of Inr reply \<Rightarrow> reply | Inl e \<Rightarrow> toolCallResponse (JStr (error_short e)) False))]"

section \<open>The answers to the driver's requests\<close>

definition cx_replied :: "env \<Rightarrow> codex_config \<Rightarrow> nat \<Rightarrow> js_error + json \<Rightarrow> cx_state \<Rightarrow> cx_state" where
  "cx_replied env cfg i out d = (case map_of (cx_calls d) i of
       None \<Rightarrow> d
     | Some c \<Rightarrow>
         (let d1 = d\<lparr>cx_calls := AList.delete i (cx_calls d)\<rparr>
          in case c of
            Turn_start t gen \<Rightarrow>
              (case out of
                 Inr resp \<Rightarrow>
                   if cx_abortGen d \<noteq> gen \<or> cx_finished d then d1
                   else if \<not> truthy (cx_currentTurn d) \<and> truthy (turn_id resp)
                   then flushSteers env cfg (d1\<lparr>cx_currentTurn := turn_id resp\<rparr>) else d1
               | Inl e \<Rightarrow>
                   (let d2 = d1\<lparr>cx_opening := filter (\<lambda>p. fst p \<noteq> i) (cx_opening d)\<rparr>
                    in if cx_abortGen d \<noteq> gen \<or> cx_finished d then d2 else cx_chain (Cx_fail e) (no_turn d2)))
          | Turn_steer t gen retries \<Rightarrow>
              (case out of
                 Inr resp \<Rightarrow> d1
               | Inl e \<Rightarrow>
                   if cx_abortGen d \<noteq> gen \<or> cx_finished d then d1
                   else if retries > 0 then startTurn env cfg t (no_turn d1)
                   else cx_chain (Cx_fail e) d1)
          | Turn_interrupt gen \<Rightarrow> d1\<lparr>cx_calls := cx_calls d1 @ [(i, Interrupt_sync gen)]\<rparr>
          | Interrupt_sync gen \<Rightarrow> d
          | Stop_interrupt \<Rightarrow> cx_chain Cx_finish d1
          | Compact_start \<Rightarrow>
              (case out of
                 Inl e \<Rightarrow> cx_tell [Compact_answered i (Inl (http_err 502 (js ''codex compaction failed: '' @ error_short e)))]
                   (d1\<lparr>cx_compacting := None, cx_slots := AList.delete i (cx_slots d)\<rparr>)
               | Inr resp \<Rightarrow>
                   (case map_of (cx_slots d) i of
                      Some (acknowledged, Some r) \<Rightarrow> answer_slot i r d1
                    | Some (acknowledged, None) \<Rightarrow> d1\<lparr>cx_slots := AList.update i (True, None) (cx_slots d)\<rparr>
                    | None \<Rightarrow> d1))))"

section \<open>The driver's operations\<close>

definition cx_start :: "env \<Rightarrow> codex_config \<Rightarrow> cx_state \<Rightarrow> cx_state" where
  "cx_start env cfg d = cx_emit env ''sdk.system'' (initPayload (JStr (cc_thread cfg)) (cx_currentModel d)) d"

definition cx_queueMessage :: "env \<Rightarrow> codex_config \<Rightarrow> jstring \<Rightarrow> cx_state \<Rightarrow> cx_state \<times> bool" where
  "cx_queueMessage env cfg t d =
     (if cx_closed d \<or> cx_finished d then (d, False)
      else (cx_dispatch env cfg t (cx_on_live (setState env Working []) d), True))"

text \<open>
  An interrupt waits for the app-server, where a turn was running, then for the disk; the entry
  it leaves among the calls is then in its second wait.
\<close>

definition cx_interrupt_start :: "env \<Rightarrow> codex_config \<Rightarrow> cx_state \<Rightarrow> cx_state" where
  "cx_interrupt_start env cfg d =
     (let gen = cx_abortGen d + 1; turn = cx_currentTurn d;
          d1 = no_turn (cx_tell [Tools_aborted] (cx_on_live (cancelPendingPermissions env (js ''interrupted''))
                 (d\<lparr>cx_abortGen := gen, cx_gates := [], cx_steers := []\<rparr>)))
      in if truthy turn then cx_request (Turn_interrupt gen) (turn_ids cfg turn) d1
         else d1\<lparr>cx_calls := cx_calls d1 @ [(cx_next d1, Interrupt_sync gen)], cx_next := cx_next d1 + 1\<rparr>)"

definition cx_interrupt_synced :: "env \<Rightarrow> nat \<Rightarrow> cx_state \<Rightarrow> cx_state" where
  "cx_interrupt_synced env i d = (case map_of (cx_calls d) i of
       Some (Interrupt_sync gen) \<Rightarrow>
         (let d1 = d\<lparr>cx_calls := AList.delete i (cx_calls d)\<rparr>
          in if \<not> cx_finished d \<and> cx_abortGen d = gen \<and> \<not> cx_turnActive d then cx_on_live (setState env Idle []) d1 else d1)
     | _ \<Rightarrow> d)"

definition cx_setPermissionMode :: "jstring \<Rightarrow> cx_state \<Rightarrow> http_error option \<times> cx_state" where
  "cx_setPermissionMode mode d =
     (if mode \<notin> set codex_modes then (Some (codex_mode_error mode), d) else (None, d\<lparr>cx_mode := mode\<rparr>))"

definition cx_setModel :: "json \<Rightarrow> json \<Rightarrow> cx_state \<Rightarrow> cx_state" where
  "cx_setModel model effort d =
     (let d1 = (if truthy model then spec_put ''model'' model (d\<lparr>cx_currentModel := model\<rparr>) else d)
      in if truthy effort then spec_put ''effort'' effort d1 else d1)"

definition cx_compact_start :: "codex_config \<Rightarrow> jstring \<Rightarrow> cx_state \<Rightarrow> http_error option \<times> cx_state" where
  "cx_compact_start cfg instructions d =
     (if cx_compacting d \<noteq> None then (Some (http_err 409 (js ''a compaction is already in flight'')), d)
      else (None, cx_request Compact_start [(js ''threadId'', JStr (cc_thread cfg))]
        (d\<lparr>cx_compacting := Some (cx_next d), cx_instructions := instructions, cx_compactTurn := JNull, cx_owed := False,
           cx_slots := cx_slots d @ [(cx_next d, (False, None))]\<rparr>)))"

definition compaction_timed_out :: "nat \<Rightarrow> cx_state \<Rightarrow> cx_state" where
  "compaction_timed_out n = settle_slot n (Inl (http_err 504 (js ''compaction timed out'')))"

definition cx_beginEnd :: "cx_state \<Rightarrow> cx_state" where
  "cx_beginEnd d = (let d1 = d\<lparr>cx_closed := True\<rparr> in if \<not> cx_turnActive d then cx_chain Cx_finish d1 else d1)"

definition cx_retire :: "cx_state \<Rightarrow> cx_state" where
  "cx_retire d =
     (let d1 = d\<lparr>cx_retiring := Some False, cx_closed := True\<rparr>
      in if cx_finished d then cx_resolve_retire d1 else if \<not> cx_turnActive d then cx_chain Cx_finish d1 else d1)"

definition cx_forceStop :: "cx_state \<Rightarrow> cx_state" where
  "cx_forceStop d =
     (let d1 = cx_tell [Rpc_killed] (d\<lparr>cx_closed := True, cx_abortGen := cx_abortGen d + 1\<rparr>)
      in cx_resolve_retire (if cx_finished d then d1 else cx_tell [Cx_bridge_close] (d1\<lparr>cx_finished := True\<rparr>)))"

definition cx_shutdownStop :: "codex_config \<Rightarrow> cx_state \<Rightarrow> cx_state" where
  "cx_shutdownStop cfg d =
     (let turn = cx_currentTurn d; d1 = no_turn (d\<lparr>cx_closed := True, cx_abortGen := cx_abortGen d + 1\<rparr>)
      in if truthy turn then cx_request Stop_interrupt (turn_ids cfg turn) d1 else cx_chain Cx_finish d1)"

section \<open>A driver over time\<close>

text \<open>\<open>Cx_daemon\<close> is whatever the daemon does to the session meanwhile.\<close>

datatype cx_event =
    Cx_notified jstring json
  | Cx_asks json jstring json
  | Cx_decision jstring decision
  | Cx_tool_done json "js_error + json_obj"
  | Cx_reply nat "js_error + json"
  | Cx_exited js_error
  | Cx_react
  | Cx_synced
  | Cx_queue jstring
  | Cx_interrupt
  | Cx_interrupt_synced nat
  | Cx_mode jstring
  | Cx_model json json
  | Cx_compact jstring
  | Cx_compact_late nat
  | Cx_begin_end
  | Cx_retire
  | Cx_force_stop
  | Cx_shutdown
  | Cx_daemon session

fun cx_step :: "codex_config \<Rightarrow> env \<times> cx_event \<Rightarrow> cx_state \<Rightarrow> cx_state" where
  "cx_step cfg (env, Cx_notified meth params) d = onNotification env cfg meth params d"
| "cx_step cfg (env, Cx_asks rid meth params) d = cx_onRequest env cfg rid meth params d"
| "cx_step cfg (env, Cx_decision i v) d = cx_decided cfg i v d"
| "cx_step cfg (env, Cx_tool_done rid out) d = cx_tool_done rid out d"
| "cx_step cfg (env, Cx_reply i out) d = cx_replied env cfg i out d"
| "cx_step cfg (env, Cx_exited e) d = cx_onExit e d"
| "cx_step cfg (env, Cx_react) d = cx_react env d"
| "cx_step cfg (env, Cx_synced) d = cx_synced env d"
| "cx_step cfg (env, Cx_queue t) d = fst (cx_queueMessage env cfg t d)"
| "cx_step cfg (env, Cx_interrupt) d = cx_interrupt_start env cfg d"
| "cx_step cfg (env, Cx_interrupt_synced i) d = cx_interrupt_synced env i d"
| "cx_step cfg (env, Cx_mode mode) d = snd (cx_setPermissionMode mode d)"
| "cx_step cfg (env, Cx_model model effort) d = cx_setModel model effort d"
| "cx_step cfg (env, Cx_compact instructions) d = snd (cx_compact_start cfg instructions d)"
| "cx_step cfg (env, Cx_compact_late n) d = compaction_timed_out n d"
| "cx_step cfg (env, Cx_begin_end) d = cx_beginEnd d"
| "cx_step cfg (env, Cx_retire) d = cx_retire d"
| "cx_step cfg (env, Cx_force_stop) d = cx_forceStop d"
| "cx_step cfg (env, Cx_shutdown) d = cx_shutdownStop cfg d"
| "cx_step cfg (env, Cx_daemon s) d = d\<lparr>cx_live := s\<rparr>"

definition cx_run :: "codex_config \<Rightarrow> (env \<times> cx_event) list \<Rightarrow> cx_state \<Rightarrow> cx_state" where
  "cx_run cfg evs d = fold (cx_step cfg) evs d"

end
