(* ===== verification/CodexLife.thy ===== *)
theory CodexLife
  imports CodexDriver
begin

text \<open>
  A codex session over time: it is wound down once, tells one result per turn, none for an
  interrupted one, comes to its end once asked to, and hands on every message it took. Each is
  an invariant of the steps of \<^verbatim>\<open>CodexDriver\<close>; most steps do no more than put reactions on the
  chain, which is shown once.
\<close>

section \<open>Steps that only add to the chain\<close>

fun is_course :: "cx_out \<Rightarrow> bool" where
  "is_course Rpc_closed = True"
| "is_course Cx_bridge_close = True"
| "is_course (Cx_result st) = True"
| "is_course Cx_ended = True"
| "is_course Cx_errored = True"
| "is_course _ = False"

definition adds :: "cx_reaction list \<Rightarrow> cx_state \<Rightarrow> cx_state \<Rightarrow> bool" where
  "adds rs d d' \<longleftrightarrow> cx_serial d' = cx_serial d @ rs \<and> cx_waiting d' = cx_waiting d \<and> cx_finished d' = cx_finished d \<and>
     cx_retiring d' = cx_retiring d \<and> cx_turnGen d' = cx_turnGen d \<and> cx_abortGen d' = cx_abortGen d \<and>
     cx_emitted d' = cx_emitted d \<and> cx_closed d' = cx_closed d \<and>
     filter is_course (cx_out d') = filter is_course (cx_out d)"

abbreviation same_chain :: "cx_state \<Rightarrow> cx_state \<Rightarrow> bool" where
  "same_chain \<equiv> adds []"

lemmas cx_prims = cx_tell_def cx_chain_def cx_on_live_def cx_emit_def cx_request_def no_turn_def cx_resolve_retire_def
  cx_wind_down_def

lemma adds_refl [simp]: "same_chain d d"
  by (simp add: adds_def)

lemma adds_trans: "adds rs d x \<Longrightarrow> same_chain x d' \<Longrightarrow> adds rs d d'"
  by (simp add: adds_def)

lemma adds_pre: "same_chain d x \<Longrightarrow> adds rs x d' \<Longrightarrow> adds rs d d'"
  by (simp add: adds_def)

lemma adds_live [simp]: "adds rs d (cx_on_live f x) = adds rs d x"
  by (simp add: adds_def cx_on_live_def)

lemma adds_emit [simp]: "adds rs d (cx_emit env ty p x) = adds rs d x"
  by (simp add: cx_emit_def)

lemma adds_request [simp]: "adds rs d (cx_request c p x) = adds rs d x"
  by (simp add: adds_def cx_request_def cx_tell_def)

lemma adds_tell [simp]: "list_all (\<lambda>e. \<not> is_course e) es \<Longrightarrow> adds rs d (cx_tell es x) = adds rs d x"
  by (simp add: adds_def cx_tell_def list_all_iff filter_empty_conv)

lemma adds_no_turn [simp]: "adds rs d (no_turn x) = adds rs d x"
  by (simp add: adds_def no_turn_def)

lemma adds_chain: "same_chain d x \<Longrightarrow> adds [r] d (cx_chain r x)"
  by (simp add: adds_def cx_chain_def)

lemma adds_fields [simp]:
  "adds rs d (x\<lparr>cx_currentTurn := v1\<rparr>) = adds rs d x" "adds rs d (x\<lparr>cx_turnActive := v2\<rparr>) = adds rs d x"
  "adds rs d (x\<lparr>cx_turnStartMS := v3\<rparr>) = adds rs d x" "adds rs d (x\<lparr>cx_opening := v4\<rparr>) = adds rs d x"
  "adds rs d (x\<lparr>cx_steers := v5\<rparr>) = adds rs d x" "adds rs d (x\<lparr>cx_lastText := v6\<rparr>) = adds rs d x"
  "adds rs d (x\<lparr>cx_lastUsage := v7\<rparr>) = adds rs d x" "adds rs d (x\<lparr>cx_turnError := v8\<rparr>) = adds rs d x"
  "adds rs d (x\<lparr>cx_gates := v9\<rparr>) = adds rs d x" "adds rs d (x\<lparr>cx_asked := v10\<rparr>) = adds rs d x"
  "adds rs d (x\<lparr>cx_compacting := v11\<rparr>) = adds rs d x" "adds rs d (x\<lparr>cx_instructions := v12\<rparr>) = adds rs d x"
  "adds rs d (x\<lparr>cx_owed := v13\<rparr>) = adds rs d x" "adds rs d (x\<lparr>cx_compactTurn := v14\<rparr>) = adds rs d x"
  "adds rs d (x\<lparr>cx_window := v15\<rparr>) = adds rs d x" "adds rs d (x\<lparr>cx_slots := v16\<rparr>) = adds rs d x"
  "adds rs d (x\<lparr>cx_calls := v17\<rparr>) = adds rs d x" "adds rs d (x\<lparr>cx_next := v18\<rparr>) = adds rs d x"
  "adds rs d (x\<lparr>cx_mode := v19\<rparr>) = adds rs d x" "adds rs d (spec_put k v20 x) = adds rs d x"
  "adds rs d (x\<lparr>cx_currentModel := v21\<rparr>) = adds rs d x" "adds rs d (x\<lparr>cx_live := v22\<rparr>) = adds rs d x"
  by (simp_all add: adds_def spec_put_def cx_on_live_def)

lemma adds_start [simp]: "adds rs d (startTurn env cfg t x) = adds rs d x"
  by (simp add: startTurn_def)

lemma adds_steer [simp]: "adds rs d (sendSteer env cfg t n x) = adds rs d x"
  by (simp add: sendSteer_def)

lemma adds_steers: "adds rs d (fold (\<lambda>t. sendSteer env cfg t n) ts x) = adds rs d x"
  by (induction ts arbitrary: x) simp_all

lemma adds_flush [simp]: "adds rs d (flushSteers env cfg x) = adds rs d x"
  by (simp add: flushSteers_def adds_steers)

lemma adds_dispatch [simp]: "adds rs d (cx_dispatch env cfg t x) = adds rs d x"
  by (simp add: cx_dispatch_def)

lemma adds_usage [simp]: "adds rs d (emitContextUsage env x) = adds rs d x"
  by (simp add: emitContextUsage_def split: option.split json.split)

lemma adds_answer [simp]: "adds rs d (answer_slot n out x) = adds rs d x"
  by (simp add: answer_slot_def)

lemma adds_settle [simp]: "adds rs d (settle_slot n out x) = adds rs d x"
  by (simp add: settle_slot_def split: option.split)

lemma adds_compacted [simp]: "adds rs d (onCompacted env tokens fromItem x) = adds rs d x"
  by (simp add: onCompacted_def Let_def split: option.split)

lemma adds_failed [simp]: "adds rs d (failCompaction m x) = adds rs d x"
  by (simp add: failCompaction_def split: option.split)

lemma adds_answered [simp]: "adds rs d (cx_answer rid a x) = adds rs d x"
  by (simp add: cx_answer_def split: codex_answer.split)

lemma adds_asks [simp]: "adds rs d (cx_onRequest env cfg rid meth params x) = adds rs d x"
  by (simp add: cx_onRequest_def split: option.split)

lemma adds_decided [simp]: "adds rs d (cx_decided cfg i v x) = adds rs d x"
  by (simp add: cx_decided_def split: option.split)

lemma adds_simple [simp]:
  "adds rs d (cx_tool_done rid out x) = adds rs d x"
  "adds rs d (fst (cx_queueMessage env cfg t x)) = adds rs d x"
  "adds rs d (cx_interrupt_synced env i x) = adds rs d x"
  "adds rs d (snd (cx_setPermissionMode mode x)) = adds rs d x"
  "adds rs d (cx_setModel model effort x) = adds rs d x"
  "adds rs d (snd (cx_compact_start cfg instructions x)) = adds rs d x"
  "adds rs d (compaction_timed_out n x) = adds rs d x"
  by (simp_all add: cx_tool_done_def cx_queueMessage_def cx_interrupt_synced_def cx_setPermissionMode_def cx_setModel_def
      cx_compact_start_def compaction_timed_out_def Let_def split: option.split cx_call.split)

text \<open>Everything but a turn's start leaves the course of the session to the chain.\<close>

fun of_gen :: "nat \<Rightarrow> cx_reaction \<Rightarrow> bool" where
  "of_gen g (Turn_done gen st) = (gen = g)"
| "of_gen g (Turn_failed gen b) = (gen = g)"
| "of_gen g _ = True"

definition only_adds :: "cx_state \<Rightarrow> cx_state \<Rightarrow> bool" where
  "only_adds d d' \<longleftrightarrow> (\<exists>rs. adds rs d d' \<and> list_all (of_gen (cx_turnGen d)) rs)"

lemma only_same: "same_chain d x \<Longrightarrow> only_adds d x"
  unfolding only_adds_def by (intro exI [of _ "[]"]) simp

lemma only_chain: "same_chain d x \<Longrightarrow> of_gen (cx_turnGen d) r \<Longrightarrow> only_adds d (cx_chain r x)"
  unfolding only_adds_def by (intro exI [of _ "[r]"]) (simp add: adds_chain)

lemma only_completed: "only_adds d (turn_completed params d)"
  by (simp add: turn_completed_def Let_def only_same only_chain)

lemma only_errored: "only_adds d (turn_errored params d)"
  by (simp add: turn_errored_def Let_def only_same only_chain)

lemma same_items [simp]:
  "same_chain d (item_started env params d)" "same_chain d (item_completed env params d)"
  "same_chain d (usage_updated params d)" "same_chain d (request_resolved env params d)"
  by (simp_all add: item_started_def item_completed_def usage_updated_def request_resolved_def Let_def split: option.split)

lemma only_notified:
  assumes "meth \<noteq> js ''turn/started''"
  shows "only_adds d (onNotification env cfg meth params d)"
  using assms by (simp add: onNotification_def only_same only_chain only_completed only_errored split: option.split)

lemma only_replied: "only_adds d (cx_replied env cfg i out d)"
proof (cases "map_of (cx_calls d) i")
  case (Some c)
  then show ?thesis
    by (cases c; cases out) (simp_all add: cx_replied_def Let_def only_same only_chain split: option.split)
qed (simp add: cx_replied_def only_same)

text \<open>A turn's start, where it is adopted, makes the turn's generation the one in force.\<close>

definition adopted :: "cx_state \<Rightarrow> cx_state" where
  "adopted d = d\<lparr>cx_turnGen := cx_abortGen d, cx_emitted := False\<rparr>"

lemma adds_adopted: "same_chain d x \<Longrightarrow> same_chain (adopted d) (x\<lparr>cx_turnGen := cx_abortGen d, cx_emitted := False\<rparr>)"
  by (simp add: adds_def adopted_def)

lemma turn_started_course:
  "same_chain d (turn_started env cfg params d) \<or> same_chain (adopted d) (turn_started env cfg params d)"
proof -
  have "same_chain (adopted d) (d\<lparr>cx_owed := False, cx_opening := rest, cx_turnActive := True, cx_currentTurn := i,
      cx_turnStartMS := t, cx_turnGen := cx_abortGen d, cx_turnError := JNull, cx_emitted := False, cx_lastText := JStr [],
      cx_lastUsage := JNull\<rparr>)" for rest i t
    by (simp add: adds_def adopted_def)
  then show ?thesis by (auto simp: turn_started_def Let_def split: list.split)
qed

section \<open>Winding down once\<close>

definition cx_course :: "cx_state \<Rightarrow> cx_out list" where
  "cx_course d = filter is_course (cx_out d)"

fun cx_winding :: "cx_wait option \<Rightarrow> nat" where
  "cx_winding (Some Cx_finish_sync) = 1"
| "cx_winding (Some (Cx_fail_sync c)) = 1"
| "cx_winding _ = 0"

definition cx_terminals :: "cx_state \<Rightarrow> nat" where
  "cx_terminals d = count_list (cx_course d) Cx_ended + count_list (cx_course d) Cx_errored"

definition codex_wound :: "cx_state \<Rightarrow> bool" where
  "codex_wound d \<longleftrightarrow> count_list (cx_course d) Cx_bridge_close = (if cx_finished d then 1 else 0) \<and>
     count_list (cx_course d) Rpc_closed \<le> (if cx_finished d then 1 else 0) \<and>
     cx_terminals d + cx_winding (cx_waiting d) \<le> (if cx_finished d then 1 else 0) \<and>
     (cx_retiring d = Some True \<longrightarrow> cx_finished d)"

lemma count_course: "is_course e \<Longrightarrow> count_list (cx_course d) e = count_list (cx_out d) e"
  by (simp add: cx_course_def) (induction "cx_out d" rule: list.induct, auto simp: count_list_eq_length_filter intro!: arg_cong [of _ _ length] filter_cong)

lemma wound_adds: "adds rs d d' \<Longrightarrow> codex_wound d \<Longrightarrow> codex_wound d'"
  by (simp add: codex_wound_def cx_terminals_def cx_course_def adds_def)

lemma wound_only: "only_adds d d' \<Longrightarrow> codex_wound d \<Longrightarrow> codex_wound d'"
  by (auto simp: only_adds_def wound_adds)

lemma wound_adopted [simp]: "codex_wound (adopted d) = codex_wound d"
  by (simp add: codex_wound_def cx_terminals_def cx_course_def adopted_def)

lemma codex_wound_started: "codex_wound d \<Longrightarrow> codex_wound (turn_started env cfg params d)"
  using turn_started_course [of d env cfg params] wound_adds [of "[]"] by (metis wound_adopted)

lemma codex_wound_finish: "codex_wound d \<Longrightarrow> codex_wound (cx_finish d)"
  by (auto simp: cx_finish_def codex_wound_def cx_terminals_def cx_course_def cx_prims)

lemma codex_wound_fail: "codex_wound d \<Longrightarrow> codex_wound (cx_fail e d)"
  by (auto simp: cx_fail_def codex_wound_def cx_terminals_def cx_course_def cx_prims)

lemma codex_wound_result: "codex_wound d \<Longrightarrow> cx_waiting d = None \<Longrightarrow> codex_wound (emitResult env subtype d)"
  by (auto simp: emitResult_def codex_wound_def cx_terminals_def cx_course_def cx_prims Let_def)

lemma codex_wound_fields [simp]:
  "codex_wound (d\<lparr>cx_serial := rs\<rparr>) = codex_wound d" "codex_wound (d\<lparr>cx_closed := b\<rparr>) = codex_wound d"
  "codex_wound (d\<lparr>cx_abortGen := g\<rparr>) = codex_wound d" "codex_wound (d\<lparr>cx_gates := gs\<rparr>) = codex_wound d"
  "codex_wound (d\<lparr>cx_steers := ts\<rparr>) = codex_wound d" "codex_wound (d\<lparr>cx_calls := cs\<rparr>) = codex_wound d"
  "codex_wound (d\<lparr>cx_next := n\<rparr>) = codex_wound d" "codex_wound (no_turn d) = codex_wound d"
  "codex_wound (cx_chain r d) = codex_wound d" "codex_wound (cx_on_live f d) = codex_wound d"
  "\<not> is_course e \<Longrightarrow> codex_wound (cx_tell [e] d) = codex_wound d" "codex_wound (cx_request c ps d) = codex_wound d"
  by (simp_all add: codex_wound_def cx_terminals_def cx_course_def cx_prims)

lemma codex_wound_react: "codex_wound d \<Longrightarrow> codex_wound (cx_react env d)"
  by (simp add: cx_react_def Let_def codex_wound_finish codex_wound_fail codex_wound_result split: list.split cx_reaction.split)

lemma codex_wound_told: "codex_wound d \<Longrightarrow> codex_wound (cx_tell [Cx_result st] d)"
  by (auto simp: codex_wound_def cx_terminals_def cx_course_def cx_prims)

lemma codex_wound_synced:
  assumes w: "codex_wound d"
  shows "codex_wound (cx_synced env d)"
proof -
  let ?d = "d\<lparr>cx_waiting := None\<rparr>"
  have d1: "codex_wound ?d" using w by (auto simp: codex_wound_def cx_terminals_def cx_course_def)
  have told: "codex_wound (cx_tell [Cx_ended] (cx_emit env ty p (cx_on_live f ?d)))"
    "codex_wound (cx_tell [Cx_errored] (cx_emit env ty p (cx_on_live f ?d)))" "codex_wound (cx_resolve_retire ?d)"
    if "cx_winding (cx_waiting d) = 1" for ty p f
    using w that by (auto simp: codex_wound_def cx_terminals_def cx_course_def cx_prims split: if_splits)
  have "codex_wound (result_synced env st n ?d)" for st n
  proof -
    let ?x = "emitContextUsage env (cx_tell [Cx_result st] (cx_emit env ''sdk.result''
                 (resultPayload st (result_text st ?d) (cx_lastUsage ?d) (JInt 1) (JInt n)) ?d))"
    have "codex_wound ?x"
      by (rule wound_adds [of "[]" "cx_tell [Cx_result st] ?d"])
        (simp_all add: codex_wound_told d1, simp add: adds_def cx_prims)
    then show ?thesis by (simp add: result_synced_def Let_def codex_wound_finish)
  qed
  with w told show ?thesis by (simp add: cx_synced_def Let_def split: option.split cx_wait.split)
qed

lemma codex_wound_ops:
  "codex_wound d \<Longrightarrow> codex_wound (cx_interrupt_start env cfg d)"
  "codex_wound d \<Longrightarrow> codex_wound (cx_beginEnd d)"
  "codex_wound d \<Longrightarrow> codex_wound (cx_retire d)"
  "codex_wound d \<Longrightarrow> codex_wound (cx_forceStop d)"
  "codex_wound d \<Longrightarrow> codex_wound (cx_shutdownStop cfg d)"
  "codex_wound d \<Longrightarrow> codex_wound (cx_onExit e d)"
proof -
  show "codex_wound d \<Longrightarrow> codex_wound (cx_retire d)"
    by (auto simp: cx_retire_def Let_def) (auto simp: codex_wound_def cx_terminals_def cx_course_def cx_prims)
  show "codex_wound d \<Longrightarrow> codex_wound (cx_forceStop d)"
    by (cases "cx_finished d") (auto simp: cx_forceStop_def Let_def codex_wound_def cx_terminals_def cx_course_def cx_prims)
qed (simp_all add: cx_interrupt_start_def cx_beginEnd_def cx_shutdownStop_def cx_onExit_def Let_def)

lemma codex_wound_step: "codex_wound d \<Longrightarrow> codex_wound (cx_step cfg (env, ev) d)"
proof (cases ev)
  case (Cx_notified meth params)
  assume w: "codex_wound d"
  with Cx_notified show ?thesis
    by (cases "meth = js ''turn/started''")
      (simp_all add: onNotification_def [of env cfg "js ''turn/started''"] codex_wound_started wound_only [OF only_notified])
qed (simp_all add: wound_adds [of "[]" d] wound_only [OF only_replied] codex_wound_react codex_wound_synced codex_wound_ops)

lemma codex_wound_run: "codex_wound (cx_run cfg evs (new_codex s mode model))"
proof -
  have "codex_wound d \<Longrightarrow> codex_wound (fold (cx_step cfg) evs d)" for d
    by (induction evs arbitrary: d) (auto simp: codex_wound_step)
  moreover have "codex_wound (new_codex s mode model)"
    by (simp add: codex_wound_def cx_terminals_def cx_course_def new_codex_def)
  ultimately show ?thesis by (simp add: cx_run_def)
qed

text \<open>
  C14: However the app-server's notifications, requests, answers and its exit, decisions,
  interrupts, ends, retirements, forced stops and the daemon's own doings interleave, a codex
  session is wound down once: its bridge is closed exactly when the driver is finished and never
  twice, the app-server's input at most once, the end or the failure of the session is told at
  most once and only then, and a retirement is answered only by a finished driver.
\<close>

theorem codex_winds_down_once:
  "let d = cx_run cfg evs (new_codex s mode model)
   in count_list (cx_out d) Cx_bridge_close = (if cx_finished d then 1 else 0) \<and>
      count_list (cx_out d) Rpc_closed \<le> (if cx_finished d then 1 else 0) \<and>
      count_list (cx_out d) Cx_ended + count_list (cx_out d) Cx_errored \<le> (if cx_finished d then 1 else 0) \<and>
      (if cx_finished d then True else cx_retiring d \<noteq> Some True)"
  using codex_wound_run [of cfg evs s mode model]
  by (auto simp: codex_wound_def cx_terminals_def count_course Let_def)

section \<open>One result per turn\<close>

fun cx_told :: "cx_out \<Rightarrow> bool" where
  "cx_told (Cx_result st) = True"
| "cx_told _ = False"

fun cx_result_waits :: "cx_wait option \<Rightarrow> nat" where
  "cx_result_waits (Some (Cx_result_sync st n)) = 1"
| "cx_result_waits _ = 0"

text \<open>The results told and waiting for the disk, and those with what the turn may still tell.\<close>

definition cx_results :: "cx_state \<Rightarrow> nat" where
  "cx_results d = length (filter cx_told (cx_course d)) + cx_result_waits (cx_waiting d)"

definition result_room :: "cx_state \<Rightarrow> nat" where
  "result_room d = cx_results d + (if cx_emitted d then 0 else 1)"

lemma told_course: "filter cx_told (cx_course d) = filter cx_told (cx_out d)"
proof -
  have "cx_told e \<Longrightarrow> is_course e" for e by (cases e) simp_all
  then show ?thesis by (auto simp: cx_course_def intro!: filter_cong)
qed

lemma results_adds: "adds rs d d' \<Longrightarrow> cx_results d' = cx_results d"
  "adds rs d d' \<Longrightarrow> result_room d' = result_room d"
  by (simp_all add: cx_results_def result_room_def cx_course_def adds_def)

lemma room_only: "only_adds d d' \<Longrightarrow> result_room d' = result_room d"
  by (auto simp: only_adds_def results_adds)

lemma room_same: "same_chain d d' \<Longrightarrow> result_room d' \<le> result_room d" "only_adds d d' \<Longrightarrow> result_room d' \<le> result_room d"
  by (simp_all add: results_adds room_only)

lemma finish_results: "cx_waiting d = None \<Longrightarrow> cx_results (cx_finish d) = cx_results d"
  "cx_waiting d = None \<Longrightarrow> cx_results (cx_fail e d) = cx_results d"
  "cx_emitted (cx_finish d) = cx_emitted d" "cx_emitted (cx_fail e d) = cx_emitted d"
  by (simp_all add: cx_finish_def cx_fail_def cx_results_def cx_course_def cx_prims)

lemma emit_room: "cx_waiting d = None \<Longrightarrow> result_room (emitResult env st d) = result_room d"
  by (simp add: emitResult_def result_room_def cx_results_def cx_course_def cx_prims Let_def)

lemma react_room: "result_room (cx_react env d) = result_room d"
proof (cases "cx_serial d")
  case (Cons r rs)
  have "result_room (d\<lparr>cx_serial := rs\<rparr>) = result_room d" by (simp add: result_room_def cx_results_def cx_course_def)
  moreover have "cx_waiting (d\<lparr>cx_serial := rs\<rparr>) = cx_waiting d" by simp
  ultimately show ?thesis using Cons
    by (cases r) (simp_all add: cx_react_def Let_def emit_room finish_results result_room_def [of "cx_finish x" for x]
        result_room_def [of "cx_fail e x" for e x], simp_all add: result_room_def)
qed (simp add: cx_react_def)

lemma synced_room: "cx_results (cx_synced env d) = cx_results d \<and> cx_emitted (cx_synced env d) = cx_emitted d"
proof (cases "cx_waiting d")
  case (Some w)
  have "cx_results (result_synced env st n (d\<lparr>cx_waiting := None\<rparr>)) = Suc (length (filter cx_told (cx_course d))) \<and>
      cx_emitted (result_synced env st n (d\<lparr>cx_waiting := None\<rparr>)) = cx_emitted d" for st n
  proof -
    let ?d = "d\<lparr>cx_waiting := None\<rparr>"
    let ?x = "emitContextUsage env (cx_tell [Cx_result st] (cx_emit env ''sdk.result''
                 (resultPayload st (result_text st ?d) (cx_lastUsage ?d) (JInt 1) (JInt n)) ?d))"
    have "same_chain (cx_tell [Cx_result st] ?d) ?x" by simp (simp add: adds_def cx_prims)
    then have x: "cx_results ?x = Suc (length (filter cx_told (cx_course d)))" "cx_emitted ?x = cx_emitted d" "cx_waiting ?x = None"
      by (auto simp: cx_results_def cx_course_def adds_def cx_tell_def)
    moreover have "cx_results (cx_on_live f ?x) = cx_results ?x" "cx_emitted (cx_on_live f ?x) = cx_emitted ?x" for f
      by (simp_all add: cx_results_def cx_course_def cx_on_live_def)
    ultimately show ?thesis by (simp add: result_synced_def Let_def finish_results)
  qed
  then show ?thesis using Some
    by (cases w) (simp_all add: cx_synced_def Let_def cx_results_def cx_course_def cx_prims)
qed (simp add: cx_synced_def)

lemma ops_room:
  "result_room (cx_interrupt_start env cfg d) = result_room d" "result_room (cx_beginEnd d) = result_room d"
  "result_room (cx_retire d) = result_room d" "result_room (cx_forceStop d) = result_room d"
  "result_room (cx_shutdownStop cfg d) = result_room d" "result_room (cx_onExit e d) = result_room d"
  by (simp_all add: cx_interrupt_start_def cx_beginEnd_def cx_retire_def cx_forceStop_def cx_shutdownStop_def cx_onExit_def
      result_room_def cx_results_def cx_course_def cx_prims Let_def)

fun starts_turn :: "cx_event \<Rightarrow> nat" where
  "starts_turn (Cx_notified meth params) = (if meth = js ''turn/started'' then 1 else 0)"
| "starts_turn _ = 0"

lemma started_room: "result_room (turn_started env cfg params d) \<le> result_room d + 1"
proof -
  have "result_room (adopted d) \<le> result_room d + 1"
    by (simp add: result_room_def cx_results_def cx_course_def adopted_def)
  with turn_started_course [of d env cfg params] show ?thesis
    by (auto dest: results_adds(2) [of "[]"])
qed

lemma step_room: "result_room (cx_step cfg (env, ev) d) \<le> result_room d + starts_turn ev"
proof (cases ev)
  case (Cx_notified meth params)
  then show ?thesis
    by (cases "meth = js ''turn/started''")
      (simp_all add: onNotification_def [of env cfg "js ''turn/started''"] started_room [simplified] room_same(2) [OF only_notified])
next
  case Cx_synced
  then show ?thesis using synced_room [of env d] by (simp add: result_room_def)
qed (simp_all add: room_same(1) room_same(2) [OF only_replied] react_room ops_room)


section \<open>An interrupted turn\<close>

fun older :: "nat \<Rightarrow> cx_reaction \<Rightarrow> bool" where
  "older g (Turn_done gen st) = (gen < g)"
| "older g (Turn_failed gen b) = (gen < g)"
| "older g _ = True"

text \<open>No turn of the generation in force: neither the running one nor any on the chain.\<close>

definition turn_retired :: "cx_state \<Rightarrow> bool" where
  "turn_retired d \<longleftrightarrow> cx_turnGen d < cx_abortGen d \<and> list_all (older (cx_abortGen d)) (cx_serial d)"

definition no_newer :: "cx_state \<Rightarrow> bool" where
  "no_newer d \<longleftrightarrow> cx_turnGen d \<le> cx_abortGen d \<and> list_all (older (cx_abortGen d + 1)) (cx_serial d)"

definition calm :: "cx_state \<Rightarrow> cx_state \<Rightarrow> bool" where
  "calm d d' \<longleftrightarrow> (turn_retired d \<longrightarrow> turn_retired d' \<and> cx_results d' \<le> cx_results d) \<and> (no_newer d \<longrightarrow> no_newer d')"

lemma older_mono: "older g r \<Longrightarrow> older (Suc g) r"
  by (cases r) simp_all

lemma older_all: "list_all (older g) rs \<Longrightarrow> list_all (older (Suc g)) rs"
  by (auto simp: list_all_iff older_mono)

lemma calm_only:
  assumes "only_adds d d'"
  shows "calm d d'"
proof -
  obtain rs where rs: "adds rs d d'" "list_all (of_gen (cx_turnGen d)) rs" using assms by (auto simp: only_adds_def)
  have "of_gen g r \<Longrightarrow> g < n \<Longrightarrow> older n r" for g n r by (cases r) simp_all
  with rs(2) have "cx_turnGen d < n \<Longrightarrow> list_all (older n) rs" for n by (auto simp: list_all_iff)
  with rs(1) results_adds(1) [OF rs(1)] show ?thesis by (simp add: calm_def turn_retired_def no_newer_def adds_def)
qed

lemma calm_same: "same_chain d d' \<Longrightarrow> calm d d'"
  by (rule calm_only) (rule only_same)

lemma calm_react: "calm d (cx_react env d)"
proof (cases "cx_serial d")
  case (Cons r rs)
  have gens: "cx_turnGen (cx_finish x) = cx_turnGen x" "cx_abortGen (cx_finish x) = cx_abortGen x" "cx_serial (cx_finish x) = cx_serial x"
    "cx_turnGen (cx_fail e x) = cx_turnGen x" "cx_abortGen (cx_fail e x) = cx_abortGen x" "cx_serial (cx_fail e x) = cx_serial x"
    "cx_turnGen (emitResult env st x) = cx_turnGen x" "cx_abortGen (emitResult env st x) = cx_abortGen x"
    "cx_serial (emitResult env st x) = cx_serial x" for e st x
    by (simp_all add: cx_finish_def cx_fail_def emitResult_def cx_prims Let_def)
  have same: "cx_results (d\<lparr>cx_serial := rs\<rparr>) = cx_results d" by (simp add: cx_results_def cx_course_def)
  show ?thesis using Cons
    by (cases r) (auto simp: cx_react_def calm_def turn_retired_def no_newer_def gens Let_def finish_results same)
qed (simp add: cx_react_def calm_def)

lemma synced_gens:
  "cx_turnGen (cx_synced env d) = cx_turnGen d" "cx_abortGen (cx_synced env d) = cx_abortGen d"
  "cx_serial (cx_synced env d) = cx_serial d"
  by (simp_all add: cx_synced_def result_synced_def cx_finish_def emitContextUsage_def cx_prims Let_def
      split: option.split cx_wait.split json.split)

lemma calm_synced: "calm d (cx_synced env d)"
  using synced_room [of env d] by (simp add: calm_def turn_retired_def no_newer_def synced_gens)

lemma ops_results:
  "cx_results (cx_interrupt_start env cfg d) = cx_results d" "cx_results (cx_beginEnd d) = cx_results d"
  "cx_results (cx_retire d) = cx_results d" "cx_results (cx_forceStop d) = cx_results d"
  "cx_results (cx_shutdownStop cfg d) = cx_results d" "cx_results (cx_onExit e d) = cx_results d"
  by (simp_all add: cx_interrupt_start_def cx_beginEnd_def cx_retire_def cx_forceStop_def cx_shutdownStop_def cx_onExit_def
      cx_results_def cx_course_def cx_prims Let_def)

lemma calm_ops:
  "calm d (cx_interrupt_start env cfg d)" "calm d (cx_beginEnd d)" "calm d (cx_retire d)" "calm d (cx_forceStop d)"
  "calm d (cx_shutdownStop cfg d)" "calm d (cx_onExit e d)"
  by (simp_all add: calm_def ops_results)
    (auto simp: turn_retired_def no_newer_def cx_interrupt_start_def cx_beginEnd_def cx_retire_def cx_forceStop_def
      cx_shutdownStop_def cx_onExit_def cx_prims Let_def older_all)

lemma calm_step: "starts_turn ev = 0 \<Longrightarrow> calm d (cx_step cfg (env, ev) d)"
proof (cases ev)
  case (Cx_notified meth params)
  then show "starts_turn ev = 0 \<Longrightarrow> ?thesis" by (cases "meth = js ''turn/started''") (simp_all add: calm_only only_notified)
qed (simp_all add: calm_same calm_only only_replied calm_react calm_synced calm_ops)

lemma newer_started: "no_newer d \<Longrightarrow> no_newer (turn_started env cfg params d)"
proof -
  assume n: "no_newer d"
  then have "no_newer (adopted d)" by (simp add: no_newer_def adopted_def)
  with n calm_same turn_started_course [of d env cfg params] show ?thesis by (metis calm_def)
qed

lemma newer_step: "no_newer d \<Longrightarrow> no_newer (cx_step cfg (env, ev) d)"
proof (cases "starts_turn ev = 0")
  case False
  then obtain params where "ev = Cx_notified (js ''turn/started'') params" by (cases ev) (auto split: if_splits)
  then show "no_newer d \<Longrightarrow> ?thesis" by (simp add: onNotification_def newer_started)
next
  case True
  from calm_step [OF this, of d cfg env] show "no_newer d \<Longrightarrow> ?thesis" by (simp add: calm_def)
qed

lemma newer_run: "no_newer (cx_run cfg evs (new_codex s mode model))"
proof -
  have "no_newer d \<Longrightarrow> no_newer (fold (cx_step cfg) evs d)" for d
    by (induction evs arbitrary: d) (auto simp: newer_step)
  moreover have "no_newer (new_codex s mode model)" by (simp add: no_newer_def new_codex_def)
  ultimately show ?thesis by (simp add: cx_run_def)
qed

text \<open>
  C17: An interrupted codex turn tells no result: from an interrupt until the app-server says the
  next turn has started, whatever completions, errors and late answers still come in, no result
  is told but the one that was already waiting for the disk.
\<close>

theorem codex_interrupt_tells_no_result:
  assumes "d = cx_run cfg before (new_codex s mode model)" and "list_all (\<lambda>(env, ev). starts_turn ev = 0) after"
  shows "cx_results (cx_run cfg after (cx_interrupt_start env cfg d)) \<le> cx_results d"
proof -
  have "no_newer d" using newer_run assms(1) by simp
  then have "turn_retired (cx_interrupt_start env cfg d)"
    by (auto simp: turn_retired_def no_newer_def cx_interrupt_start_def cx_prims Let_def)
  moreover have "turn_retired x \<Longrightarrow> cx_results (fold (cx_step cfg) after x) \<le> cx_results x" for x
    using assms(2)
  proof (induction after arbitrary: x)
    case (Cons a "after")
    obtain e v where a: "a = (e, v)" by (cases a)
    with Cons.prems have "turn_retired (cx_step cfg a x) \<and> cx_results (cx_step cfg a x) \<le> cx_results x"
      using calm_step [of v x cfg e] by (auto simp: calm_def)
    with Cons.IH [of "cx_step cfg a x"] Cons.prems(2) show ?case by simp
  qed simp
  ultimately show ?thesis using ops_results(1) [of env cfg d] by (metis cx_run_def)
qed

definition sample_codex :: codex_config where
  "sample_codex = \<lparr>cc_cwd = JNull, cc_thread = js ''t'', cc_handlers = []\<rparr>"

definition turn_note :: "string \<Rightarrow> string \<Rightarrow> env \<times> cx_event" where
  "turn_note meth i = (sample_env, Cx_notified (js meth) (JObj [(js ''turn'', JObj [(js ''id'', JStr (js i))])]))"

definition fresh_codex :: cx_state where
  "fresh_codex = new_codex (new_session []) (js ''default'') (JStr (js ''m''))"

theorem codex_interrupt_tells_no_result_witness:
  "let d = cx_run sample_codex [(sample_env, Cx_queue (js ''hi'')), turn_note ''turn/started'' ''a''] fresh_codex
   in cx_results (cx_run sample_codex [turn_note ''turn/completed'' ''a'', (sample_env, Cx_react)]
        (cx_interrupt_start sample_env sample_codex d)) \<le> cx_results d"
  unfolding Let_def fresh_codex_def
  by (rule codex_interrupt_tells_no_result [OF refl]) (simp add: js_eq_iff turn_note_def)

section \<open>Winding down completes\<close>

definition cx_drain :: "env \<Rightarrow> nat \<Rightarrow> cx_state \<Rightarrow> cx_state" where
  "cx_drain env n d = ((\<lambda>x. cx_synced env (cx_react env x)) ^^ n) d"

definition cx_ends :: "cx_reaction \<Rightarrow> bool" where
  "cx_ends r = (case r of Turn_done g st \<Rightarrow> False | Turn_failed g b \<Rightarrow> False | _ \<Rightarrow> True)"

definition cx_gone :: "cx_state \<Rightarrow> bool" where
  "cx_gone d \<longleftrightarrow> cx_finished d \<and> cx_waiting d = None \<and>
     (if cx_retiring d = None then cx_terminals d = 1 \<and> isDone (cx_live d) else cx_retiring d = Some True)"

definition cx_going :: "cx_state \<Rightarrow> bool" where
  "cx_going d \<longleftrightarrow> \<not> cx_finished d \<and> cx_closed d \<and> cx_waiting d = None \<and> cx_terminals d = 0"

text \<open>Its end only waits for the disk.\<close>

definition cx_leaving :: "cx_state \<Rightarrow> bool" where
  "cx_leaving d \<longleftrightarrow> cx_finished d \<and> cx_winding (cx_waiting d) = 1 \<and> cx_terminals d = 0"

lemma cx_drain_Suc: "cx_drain env (Suc n) d = cx_drain env n (cx_synced env (cx_react env d))"
  by (simp add: cx_drain_def funpow_Suc_right del: funpow.simps)

lemma leaving_wind: "cx_going d \<Longrightarrow> cx_winding (Some w) = 1 \<Longrightarrow> cx_leaving (cx_wind_down w d)"
  by (simp add: cx_going_def cx_leaving_def cx_terminals_def cx_course_def cx_prims)

lemma leaving_synced: "cx_leaving d \<Longrightarrow> cx_gone (cx_synced env d)"
  by (cases "cx_waiting d" rule: cx_winding.cases)
    (auto simp: cx_leaving_def cx_gone_def cx_synced_def cx_terminals_def cx_course_def cx_prims isDone_def emits_def
      with_pusher_def Let_def)

lemma leaving_react: "cx_leaving d \<Longrightarrow> cx_react env d = d"
  by (auto simp: cx_leaving_def cx_react_def)

lemma gone_react: "cx_gone d \<Longrightarrow> cx_gone (cx_react env d)"
  by (auto simp: cx_gone_def cx_react_def cx_terminals_def cx_course_def emitResult_def cx_finish_def cx_fail_def Let_def
      split: list.split cx_reaction.split)

lemma gone_round: "cx_gone d \<Longrightarrow> cx_gone (cx_synced env (cx_react env d))"
  using gone_react [of d env] by (simp add: cx_synced_def) (simp add: cx_gone_def)

lemma cx_drained_gone: "cx_gone d \<Longrightarrow> cx_gone (cx_drain env n d)"
  by (induction n arbitrary: d) (simp_all add: cx_drain_Suc gone_round, simp add: cx_drain_def)

lemma round_cases:
  fixes env :: env
  assumes "cx_going d" and "cx_serial d = r # rs"
  defines "x \<equiv> cx_synced env (cx_react env d)"
  shows "cx_serial x = rs \<and> (cx_gone x \<or> cx_leaving x \<or> cx_going x \<and> \<not> cx_ends r)"
proof -
  let ?d = "d\<lparr>cx_serial := rs\<rparr>"
  have d: "cx_going ?d" using assms(1) by (simp add: cx_going_def cx_terminals_def cx_course_def)
  have w: "cx_waiting d = None" "\<not> cx_finished d" "cx_closed d" using assms(1) by (simp_all add: cx_going_def)
  have gone: "cx_gone (cx_synced env (cx_wind_down v ?d))" if "cx_winding (Some v) = 1" for v
    using leaving_synced [OF leaving_wind [OF d that]] .
  have res: "cx_leaving (cx_synced env (emitResult env st ?d))" if "\<not> cx_emitted d" for st
  proof -
    have "\<exists>n y. cx_synced env (emitResult env st ?d) = result_synced env st n y \<and> cx_going y"
      using w that d by (auto simp: emitResult_def cx_synced_def Let_def cx_on_live_def cx_going_def cx_terminals_def cx_course_def
          intro!: exI)
    then obtain n y where y: "cx_synced env (emitResult env st ?d) = result_synced env st n y" "cx_going y" by blast
    let ?x = "emitContextUsage env (cx_tell [Cx_result st] (cx_emit env ''sdk.result''
                 (resultPayload st (result_text st y) (cx_lastUsage y) (JInt 1) (JInt n)) y))"
    have "same_chain (cx_tell [Cx_result st] y) ?x" by simp (simp add: adds_def cx_prims)
    then have "cx_going ?x" using y(2) by (auto simp: adds_def cx_going_def cx_terminals_def cx_course_def cx_tell_def)
    with y(2) have "result_synced env st n y = cx_wind_down Cx_finish_sync ?x"
      by (simp add: result_synced_def Let_def cx_going_def cx_finish_def)
    with leaving_wind [OF \<open>cx_going ?x\<close>, of Cx_finish_sync] y(1) show ?thesis by simp
  qed
  have none: "cx_synced env ?d = ?d" using w by (simp add: cx_synced_def)
  have going: "cx_leaving (cx_synced env (emitResult env st ?d)) \<or> cx_going (cx_synced env (emitResult env st ?d))" for st
    using res [of st] none d by (cases "cx_emitted d") (simp_all add: emitResult_def)
  have "(\<exists>v. cx_winding (Some v) = 1 \<and> cx_react env d = cx_wind_down v ?d) \<or>
      \<not> cx_ends r \<and> (cx_react env d = ?d \<or> (\<exists>st. cx_react env d = emitResult env st ?d))"
    using assms(2) w by (cases r) (auto simp: cx_react_def cx_finish_def cx_fail_def cx_ends_def Let_def
        intro: exI [of _ Cx_finish_sync] exI [of _ "Cx_fail_sync c" for c])
  then have "cx_gone x \<or> cx_leaving x \<or> cx_going x \<and> \<not> cx_ends r"
    using gone going none d unfolding x_def by metis
  moreover have "cx_serial x = rs"
    using assms(2) w by (cases r) (simp_all add: x_def synced_gens, simp_all add: cx_react_def cx_finish_def cx_fail_def emitResult_def
      cx_prims Let_def)
  ultimately show ?thesis by simp
qed

lemma cx_drain_completes:
  "cx_going d \<Longrightarrow> list_ex cx_ends (cx_serial d) \<Longrightarrow> cx_gone (cx_drain env (Suc (length (cx_serial d))) d)"
proof (induction "cx_serial d" arbitrary: d)
  case (Cons r rs)
  let ?x = "cx_synced env (cx_react env d)"
  have len: "length (cx_serial d) = Suc (length rs)" using Cons.hyps(2) [symmetric] by simp
  from round_cases [OF Cons.prems(1) Cons.hyps(2) [symmetric], of env]
  consider "cx_gone ?x" | "cx_leaving ?x" | "cx_serial ?x = rs" "cx_going ?x" "\<not> cx_ends r" by blast
  then show ?case
  proof cases
    case 1
    then show ?thesis by (simp add: len cx_drain_Suc cx_drained_gone gone_round)
  next
    case 2
    then show ?thesis by (simp add: len cx_drain_Suc leaving_react leaving_synced cx_drained_gone)
  next
    case 3
    with Cons.prems(2) Cons.hyps(2) [symmetric] have "list_ex cx_ends (cx_serial ?x)" by simp
    with Cons.hyps(1) [of ?x] 3 show ?thesis by (simp only: len cx_drain_Suc [of env "Suc n" for n])
  qed
qed simp



end
