(* ===== verification/CodexMessages.thy ===== *)
theory CodexMessages
  imports CodexLife
begin

text \<open>
  What becomes of the messages a codex session takes, under which policies its turns run, the
  driver the routes see, and two ways the chain and the turns get out of step.
\<close>

section \<open>Every message is handed on\<close>

fun sent_text :: "cx_out \<Rightarrow> jstring list" where
  "sent_text (Sent (Turn_start t g) p) = [t]"
| "sent_text (Sent (Turn_steer t g n) p) = [t]"
| "sent_text _ = []"

text \<open>The messages sent to the app-server and those parked until the turn has its id.\<close>

definition carried_texts :: "cx_state \<Rightarrow> jstring multiset" where
  "carried_texts d = mset (concat (map sent_text (cx_out d))) + mset (cx_steers d)"

definition keeps :: "cx_state \<Rightarrow> cx_state \<Rightarrow> bool" where
  "keeps d d' \<longleftrightarrow> carried_texts d \<subseteq># carried_texts d'"

lemma keeps_same: "cx_out d' = cx_out d @ es \<Longrightarrow> cx_steers d' = cx_steers d \<Longrightarrow> keeps d d'"
  by (simp add: keeps_def carried_texts_def)

lemma keeps_refl [simp]: "keeps d d"
  by (simp add: keeps_def)

lemma keeps_trans: "keeps d x \<Longrightarrow> keeps x d' \<Longrightarrow> keeps d d'"
  by (auto simp: keeps_def intro: subset_mset.order_trans)

lemma carried_tell [simp]: "carried_texts (cx_tell es d) = carried_texts d + mset (concat (map sent_text es))"
  by (simp add: carried_texts_def cx_tell_def)

lemma carried_request [simp]: "carried_texts (cx_request c p d) = carried_texts d + mset (sent_text (Sent c p))"
  by (simp add: carried_texts_def cx_request_def cx_tell_def)

lemma carried_fields [simp]:
  "carried_texts (x\<lparr>cx_currentTurn := v1\<rparr>) = carried_texts x" "carried_texts (x\<lparr>cx_turnActive := v2\<rparr>) = carried_texts x"
  "carried_texts (x\<lparr>cx_turnStartMS := v3\<rparr>) = carried_texts x" "carried_texts (x\<lparr>cx_opening := v4\<rparr>) = carried_texts x"
  "carried_texts (x\<lparr>cx_lastText := v6\<rparr>) = carried_texts x" "carried_texts (x\<lparr>cx_lastUsage := v7\<rparr>) = carried_texts x"
  "carried_texts (x\<lparr>cx_turnError := v8\<rparr>) = carried_texts x" "carried_texts (x\<lparr>cx_gates := v9\<rparr>) = carried_texts x"
  "carried_texts (x\<lparr>cx_asked := v10\<rparr>) = carried_texts x" "carried_texts (x\<lparr>cx_compacting := v11\<rparr>) = carried_texts x"
  "carried_texts (x\<lparr>cx_instructions := v12\<rparr>) = carried_texts x" "carried_texts (x\<lparr>cx_owed := v13\<rparr>) = carried_texts x"
  "carried_texts (x\<lparr>cx_compactTurn := v14\<rparr>) = carried_texts x" "carried_texts (x\<lparr>cx_window := v15\<rparr>) = carried_texts x"
  "carried_texts (x\<lparr>cx_slots := v16\<rparr>) = carried_texts x" "carried_texts (x\<lparr>cx_calls := v17\<rparr>) = carried_texts x"
  "carried_texts (x\<lparr>cx_next := v18\<rparr>) = carried_texts x" "carried_texts (x\<lparr>cx_mode := v19\<rparr>) = carried_texts x"
  "carried_texts (spec_put k v20 x) = carried_texts x" "carried_texts (x\<lparr>cx_currentModel := v21\<rparr>) = carried_texts x"
  "carried_texts (x\<lparr>cx_live := v22\<rparr>) = carried_texts x" "carried_texts (x\<lparr>cx_closed := v23\<rparr>) = carried_texts x"
  "carried_texts (x\<lparr>cx_finished := v24\<rparr>) = carried_texts x" "carried_texts (x\<lparr>cx_retiring := v25\<rparr>) = carried_texts x"
  "carried_texts (x\<lparr>cx_abortGen := v26\<rparr>) = carried_texts x" "carried_texts (x\<lparr>cx_turnGen := v27\<rparr>) = carried_texts x"
  "carried_texts (x\<lparr>cx_emitted := v28\<rparr>) = carried_texts x" "carried_texts (x\<lparr>cx_serial := v29\<rparr>) = carried_texts x"
  "carried_texts (x\<lparr>cx_waiting := v30\<rparr>) = carried_texts x"
  by (simp_all add: carried_texts_def spec_put_def cx_on_live_def)

lemma carried_live [simp]: "carried_texts (cx_on_live f x) = carried_texts x" "carried_texts (cx_emit env ty p x) = carried_texts x"
  "carried_texts (no_turn x) = carried_texts x" "carried_texts (cx_chain r x) = carried_texts x"
  by (simp_all add: cx_emit_def cx_on_live_def no_turn_def cx_chain_def)

lemma carried_start [simp]: "carried_texts (startTurn env cfg t x) = carried_texts x + {#t#}"
  by (simp add: startTurn_def)

lemma carried_steer [simp]: "carried_texts (sendSteer env cfg t n x) = carried_texts x + {#t#}"
  by (simp add: sendSteer_def)

lemma carried_steers: "carried_texts (fold (\<lambda>t. sendSteer env cfg t n) ts x) = carried_texts x + mset ts"
  by (induction ts arbitrary: x) simp_all

lemma carried_flush [simp]: "carried_texts (flushSteers env cfg x) = carried_texts x"
proof -
  have "carried_texts (x\<lparr>cx_steers := []\<rparr>) + mset (cx_steers x) = carried_texts x" by (simp add: carried_texts_def)
  then show ?thesis by (simp add: flushSteers_def carried_steers)
qed

lemma carried_dispatch [simp]: "carried_texts (cx_dispatch env cfg t x) = carried_texts x + {#t#}"
  by (simp add: cx_dispatch_def) (simp add: carried_texts_def)

lemma carried_quiet [simp]:
  "carried_texts (emitContextUsage env x) = carried_texts x"
  "carried_texts (answer_slot n out x) = carried_texts x"
  "carried_texts (cx_finish x) = carried_texts x" "carried_texts (cx_fail e x) = carried_texts x"
  "carried_texts (emitResult env st x) = carried_texts x"
  "carried_texts (cx_resolve_retire x) = carried_texts x"
  by (simp_all add: emitContextUsage_def answer_slot_def cx_finish_def cx_fail_def cx_wind_down_def emitResult_def
      cx_resolve_retire_def Let_def split: option.split json.split)

lemma carried_settle [simp]: "carried_texts (settle_slot n out x) = carried_texts x"
  by (simp add: settle_slot_def split: option.split)

lemma carried_compaction [simp]:
  "carried_texts (onCompacted env tokens fromItem x) = carried_texts x" "carried_texts (failCompaction m x) = carried_texts x"
  by (simp_all add: onCompacted_def failCompaction_def Let_def split: option.split)

lemma carried_answer [simp]: "carried_texts (cx_answer rid a x) = carried_texts x"
  by (simp add: cx_answer_def split: codex_answer.split)

lemma carried_notified: "carried_texts (onNotification env cfg meth params d) = carried_texts d"
proof -
  have "carried_texts (turn_started env cfg params d) = carried_texts d"
    by (simp add: turn_started_def Let_def split: list.split)
  moreover have "carried_texts (turn_completed params d) = carried_texts d" by (simp add: turn_completed_def Let_def)
  moreover have "carried_texts (turn_errored params d) = carried_texts d" by (simp add: turn_errored_def Let_def)
  moreover have "carried_texts (item_started env params d) = carried_texts d" "carried_texts (item_completed env params d) = carried_texts d"
    by (simp_all add: item_started_def item_completed_def Let_def split: option.split)
  ultimately show ?thesis
    by (simp add: onNotification_def usage_updated_def request_resolved_def Let_def split: option.split)
qed

lemma keeps_replied: "keeps d (cx_replied env cfg i out d)"
proof (cases "map_of (cx_calls d) i")
  case (Some c)
  then show ?thesis by (cases c; cases out) (simp_all add: keeps_def cx_replied_def Let_def split: option.split)
qed (simp add: cx_replied_def)

lemma carried_chain: "carried_texts (cx_react env d) = carried_texts d" "carried_texts (cx_synced env d) = carried_texts d"
  by (simp_all add: cx_react_def cx_synced_def result_synced_def Let_def split: list.split cx_reaction.split option.split cx_wait.split)

lemma carried_ops:
  "carried_texts (cx_onRequest env cfg rid meth params d) = carried_texts d"
  "carried_texts (cx_decided cfg i v d) = carried_texts d"
  "carried_texts (cx_tool_done rid out d) = carried_texts d"
  "carried_texts (cx_onExit e d) = carried_texts d"
  "carried_texts (cx_interrupt_synced env n d) = carried_texts d"
  "carried_texts (snd (cx_setPermissionMode mode d)) = carried_texts d"
  "carried_texts (cx_setModel model effort d) = carried_texts d"
  "carried_texts (snd (cx_compact_start cfg instructions d)) = carried_texts d"
  "carried_texts (compaction_timed_out n d) = carried_texts d"
  "carried_texts (cx_beginEnd d) = carried_texts d" "carried_texts (cx_retire d) = carried_texts d"
  "carried_texts (cx_forceStop d) = carried_texts d" "carried_texts (cx_shutdownStop cfg d) = carried_texts d"
  by (simp_all add: cx_onRequest_def cx_decided_def cx_tool_done_def cx_onExit_def cx_interrupt_synced_def
      cx_setPermissionMode_def cx_setModel_def cx_compact_start_def compaction_timed_out_def cx_beginEnd_def cx_retire_def
      cx_forceStop_def cx_shutdownStop_def Let_def split: option.split cx_call.split)

text \<open>The messages a history of events has the driver take, and whether it interrupts.\<close>

fun taken :: "codex_config \<Rightarrow> (env \<times> cx_event) list \<Rightarrow> cx_state \<Rightarrow> jstring list" where
  "taken cfg [] d = []"
| "taken cfg ((env, ev) # evs) d =
     (case ev of Cx_queue t \<Rightarrow> if snd (cx_queueMessage env cfg t d) then [t] else [] | _ \<Rightarrow> []) @
     taken cfg evs (cx_step cfg (env, ev) d)"

lemma queue_carried: "carried_texts (fst (cx_queueMessage env cfg t d)) =
    carried_texts d + (if snd (cx_queueMessage env cfg t d) then {#t#} else {#})"
  by (simp add: cx_queueMessage_def)

lemma step_keeps:
  "ev \<noteq> Cx_interrupt \<Longrightarrow> carried_texts d + mset (case ev of Cx_queue t \<Rightarrow> if snd (cx_queueMessage env cfg t d) then [t] else [] | _ \<Rightarrow> [])
     \<subseteq># carried_texts (cx_step cfg (env, ev) d)"
  by (cases ev) (simp_all add: carried_notified carried_chain carried_ops queue_carried keeps_replied [unfolded keeps_def])



section \<open>The policies of a turn\<close>

lemma turn_policies_agree:
  "jprop (turn_params cfg t d) (js ''approvalPolicy'') = JStr (js ''never'') \<longleftrightarrow> cx_mode d = js ''bypassPermissions''"
  "jget (jprop (turn_params cfg t d) (js ''sandboxPolicy'')) (js ''type'') = JStr (js ''dangerFullAccess'') \<longleftrightarrow>
     cx_mode d = js ''bypassPermissions''"
  by (auto simp: turn_params_def Let_def approvalPolicyFor_def sandboxPolicyFor_def js_eq_iff)

section \<open>The chain and the turns out of step\<close>

text \<open>
  What a turn said is read when the disk has answered: a turn that starts meanwhile has emptied
  it, and the result of the one before goes out without its text.
\<close>

lemma flush_text: "cx_lastText (flushSteers env cfg d) = cx_lastText d" "cx_lastUsage (flushSteers env cfg d) = cx_lastUsage d"
proof -
  have "cx_lastText (fold (\<lambda>t. sendSteer env cfg t n) ts x) = cx_lastText x \<and>
      cx_lastUsage (fold (\<lambda>t. sendSteer env cfg t n) ts x) = cx_lastUsage x" for ts n x
    by (induction ts arbitrary: x) (simp_all add: sendSteer_def startTurn_def cx_prims)
  then show "cx_lastText (flushSteers env cfg d) = cx_lastText d" "cx_lastUsage (flushSteers env cfg d) = cx_lastUsage d"
    by (simp_all add: flushSteers_def)
qed

lemma result_text_lost:
  assumes "cx_waiting d = Some (Cx_result_sync (js ''success'') n)" and "cx_opening d = [(i, cx_abortGen d)]" and "cx_compacting d = None"
  shows "let x = turn_started env cfg params d
    in cx_waiting x = Some (Cx_result_sync (js ''success'') n) \<and> result_text (js ''success'') x = JStr [] \<and> cx_lastUsage x = JNull"
proof -
  have "cx_waiting (turn_started env cfg params d) = cx_waiting d"
    using turn_started_course [of d env cfg params] by (auto simp: adds_def adopted_def)
  with assms show ?thesis
    by (simp add: Let_def result_text_def) (simp add: turn_started_def Let_def flush_text cx_on_live_def)
qed

text \<open>
  A turn that fails is reported twice by the app-server, by an error and by its completion. When
  the second report is reacted to only after the next turn has started, it is told as another
  result of the failed turn, and the next turn's own completion tells nothing and does not let
  the session go idle.
\<close>

lemma late_report_takes_next:
  assumes "cx_serial d = Turn_done (cx_abortGen d) (JStr (js ''failed'')) # rs" and "cx_waiting d = None"
    and "\<not> cx_finished d" and "\<not> cx_emitted d"
  shows "(\<exists>n. cx_waiting (cx_react env d) = Some (Cx_result_sync (js ''error_during_execution'') n)) \<and> cx_emitted (cx_react env d)"
    and "cx_emitted x \<Longrightarrow> emitResult env st x = x"
  using assms by (simp_all add: cx_react_def emitResult_def Let_def cx_on_live_def js_eq_iff)

text \<open>
  An interrupt after the session was asked to end leaves it open: the interrupted turn tells no
  result, and only a result would have wound the session down.
\<close>

lemma interrupted_end_hangs:
  assumes "cx_turnActive d" and "\<not> cx_finished d" and "cx_serial d = []" and "cx_waiting d = None" and "no_newer d"
    and "doneId \<noteq> cx_compactTurn d"
  shows "let x = cx_react env (turn_completed (JObj [(js ''turn'', JObj [(js ''id'', doneId)])])
             (cx_interrupt_start env cfg (cx_beginEnd d)))
    in cx_closed x \<and> \<not> cx_finished x \<and> cx_serial x = [] \<and> cx_waiting x = None"
  using assms
  by (simp add: Let_def cx_beginEnd_def cx_interrupt_start_def turn_completed_def isStaleCodexTurnCompletion_def turn_id_def
      cx_react_def cx_prims no_newer_def or_nullish_def js_eq_iff)

section \<open>The driver the routes see\<close>

text \<open>
  The driver of \<^verbatim>\<open>server.mjs\<close>'s interface that a codex session \<open>d\<close> is, as far as the live
  session goes. A shutdown waits for the app-server's answer to the interrupt, then for the chain.
\<close>

definition codex_harness :: "codex_config \<Rightarrow> cx_state \<Rightarrow> driver" where
  "codex_harness cfg d =
     \<lparr>dr_methods = \<lparr>has_listCommands = False, has_invokeCommand = False, has_setModel = True, has_compact = True\<rparr>,
      dr_retires = True,
      dr_queueMessage = (\<lambda>env t s. let (d1, took) = cx_queueMessage env cfg t (d\<lparr>cx_live := s\<rparr>) in (cx_live d1, took)),
      dr_beginEnd = (\<lambda>env s. cx_live (cx_beginEnd (d\<lparr>cx_live := s\<rparr>))),
      dr_shutdownStop = (\<lambda>env s.
        let d1 = cx_shutdownStop cfg (d\<lparr>cx_live := s\<rparr>);
            d2 = (if truthy (cx_currentTurn d) then cx_replied env cfg (cx_next d) (Inr JNull) d1 else d1)
        in cx_live (cx_drain env (length (cx_serial d) + 2) d2))\<rparr>"

locale quiet_codex =
  fixes cfg :: codex_config and d :: cx_state
  assumes quiet: "cx_serial d = []" "cx_waiting d = None" "map_of (cx_calls d) (cx_next d) = None"
begin

lemma shutdown_chains:
  "\<exists>x. dr_shutdownStop (codex_harness cfg d) env s = cx_live (cx_drain env 2 x) \<and> cx_serial x = [Cx_finish] \<and>
     cx_waiting x = None \<and> cx_finished x = cx_finished d \<and> cx_retiring x = cx_retiring d \<and> cx_live x = s"
  using quiet by (auto simp: codex_harness_def cx_shutdownStop_def cx_replied_def cx_prims Let_def numeral_2_eq_2 map_add_def)

lemma shutdown_live:
  "dr_shutdownStop (codex_harness cfg d) env s =
    (if cx_finished d \<or> cx_retiring d \<noteq> None then s
     else emits env (js ''session.ended'') [(js ''sdk_session_id'', JStr (ss_sdkSessionId s)), (js ''last_result'', ss_lastResult s)]
       (s\<lparr>ss_state := Ended\<rparr>))"
proof -
  obtain x where x: "dr_shutdownStop (codex_harness cfg d) env s = cx_live (cx_drain env 2 x)" "cx_serial x = [Cx_finish]"
    "cx_waiting x = None" "cx_finished x = cx_finished d" "cx_retiring x = cx_retiring d" "cx_live x = s"
    using shutdown_chains by blast
  define y where "y = cx_synced env (cx_react env x)"
  have y: "cx_serial y = [] \<and> cx_waiting y = None \<and> cx_live y = (if cx_finished x \<or> cx_retiring x \<noteq> None then cx_live x
      else emits env (js ''session.ended'') [(js ''sdk_session_id'', JStr (ss_sdkSessionId (cx_live x))),
        (js ''last_result'', ss_lastResult (cx_live x))] ((cx_live x)\<lparr>ss_state := Ended\<rparr>))"
    using x(2,3) by (cases "cx_finished x"; cases "cx_retiring x")
      (simp_all add: y_def cx_react_def cx_finish_def cx_synced_def cx_prims)
  then have "cx_react env y = y" "cx_synced env y = y" by (simp_all add: cx_react_def cx_synced_def)
  then have "cx_drain env 2 x = y" by (simp add: numeral_2_eq_2 cx_drain_Suc y_def [symmetric]) (simp add: cx_drain_def)
  with x y show ?thesis by simp
qed

end

lemma dispatch_live [simp]: "cx_live (cx_dispatch env cfg t d) = cx_live d"
  by (simp add: cx_dispatch_def sendSteer_def startTurn_def cx_prims)

sublocale quiet_codex \<subseteq> settled_harness "codex_harness cfg d"
proof
  fix s env t
  have ended: "moves s (emits env ty p (s\<lparr>ss_state := Ended\<rparr>))" for ty p
    by (rule moves_trans [OF moves_state(1) moves_emits(1)])
  show "driver_keeps s (fst (dr_queueMessage (codex_harness cfg d) env t s))" "driver_keeps s (dr_beginEnd (codex_harness cfg d) env s)"
    "driver_keeps s (dr_shutdownStop (codex_harness cfg d) env s)"
    by (simp_all add: shutdown_live driver_keeps_moves ended)
      (simp_all add: codex_harness_def cx_queueMessage_def cx_beginEnd_def cx_chain_def cx_on_live_def Let_def driver_keeps_moves)
  show "isDone s \<Longrightarrow> isDone (fst (dr_queueMessage (codex_harness cfg d) env t s))" "isDone s \<Longrightarrow> isDone (dr_beginEnd (codex_harness cfg d) env s)"
    "isDone s \<Longrightarrow> isDone (dr_shutdownStop (codex_harness cfg d) env s)"
    by (simp_all add: shutdown_live isDone_def) (auto simp: codex_harness_def cx_queueMessage_def cx_beginEnd_def cx_chain_def
      cx_on_live_def setState_def isDone_def Let_def)
qed

interpretation new_codex_driver: quiet_codex cfg "new_codex s mode model" for cfg s mode model
  by unfold_locales (simp_all add: new_codex_def)

end
