(* ===== verification/ClaudeSession.thy ===== *)
theory ClaudeSession
  imports PiDriver CodexHistory
begin

text \<open>
  What a claude session is built from, of \<^verbatim>\<open>drivers/claude.mjs\<close>: the executable, the options the
  SDK is given, the permission callback, the permission mode it follows the CLI in, and what a
  dead CLI is reported as. The kernel log and the accessibility of a file are arguments.
\<close>

section \<open>The executable and the options\<close>

definition resolveClaudeExecutable :: "json \<Rightarrow> jstring \<Rightarrow> (jstring \<Rightarrow> bool) \<Rightarrow> jstring + jstring" where
  "resolveClaudeExecutable override home executable =
     (let p = (if truthy override then js_String override else pathResolve home (js ''.local/bin/claude''))
      in if executable p then Inr p
         else Inl (js ''claude executable not found or not executable at '' @ p @ [0x20, 0x2014, 0x20] @
           js ''the workspace'' @ [0x27] @ js ''s native claude install is missing or broken '' @
           js ''(set ZWRM_CLAUDE_BIN to point at an alternative binary)''))"

definition CLAUDE_SESSION_ENV :: json_obj where
  "CLAUDE_SESSION_ENV = [(js ''CLAUDE_CODE_ENABLE_TODO_TOOLS'', JStr (js ''1'')), (js ''CLAUDE_CODE_ENABLE_TASKS'', JStr (js ''0'')),
     (js ''BASH_MAX_TIMEOUT_MS'', JStr (dec (24 * 60 * 60 * 1000)))]"

definition PLATFORM_PREFIX :: jstring where "PLATFORM_PREFIX = js ''mcp__platform__''"

definition claude_env :: "json_obj \<Rightarrow> json_obj \<Rightarrow> json_obj" where
  "claude_env daemon_env spec = spread (spread CLAUDE_SESSION_ENV daemon_env) (props_or_nil (jprop spec (js ''env'')))"

text \<open>Full access with tools that ask runs the CLI in its default mode, where it asks.\<close>

definition cliMode :: "json_obj \<Rightarrow> jstring \<Rightarrow> jstring" where
  "cliMode spec mode =
     (if mode = js ''bypassPermissions'' \<and> (case jprop spec (js ''escalate_servers'') of JArr xs \<Rightarrow> xs \<noteq> [] | JStr t \<Rightarrow> t \<noteq> [] | _ \<Rightarrow> False)
      then js ''default'' else mode)"

definition initial_mode :: "json_obj \<Rightarrow> jstring" where
  "initial_mode spec = js_String (or_falsy (jprop spec (js ''permission_mode'')) (JStr (js ''bypassPermissions'')))"

definition system_prompt :: "json_obj \<Rightarrow> json" where
  "system_prompt spec = JObj ([(js ''type'', JStr (js ''preset'')), (js ''preset'', JStr (js ''claude_code''))] @
     (if truthy (jprop spec (js ''append_system_prompt'')) then [(js ''append'', jprop spec (js ''append_system_prompt''))] else []) @
     [(js ''snapshot'', JBool False)])"

definition mcp_servers :: "json \<Rightarrow> json_obj \<Rightarrow> json_obj" where
  "mcp_servers platform spec =
     (let servers = props_or_nil (jprop spec (js ''mcp_servers''))
      in if platformToolNames (JObj spec) [] \<noteq> [] then jput (js ''platform'') platform servers else servers)"

text \<open>The callbacks apart; \<open>platform\<close> is the in-process server of the parking tools.\<close>

definition claude_options :: "json \<Rightarrow> jstring \<Rightarrow> json \<Rightarrow> json_obj \<Rightarrow> json_obj \<Rightarrow> json_obj" where
  "claude_options platform executable home daemon_env spec =
     (let tools = platformToolNames (JObj spec) PLATFORM_PREFIX; opt = (\<lambda>k. jprop spec (js k))
      in [(js ''cwd'', or_falsy (opt ''cwd'') (or_falsy home (JStr (js ''/home/agent'')))),
          (js ''env'', JObj (claude_env daemon_env spec)),
          (js ''pathToClaudeCodeExecutable'', JStr executable), (js ''includePartialMessages'', JBool True),
          (js ''permissionMode'', JStr (cliMode spec (initial_mode spec))), (js ''allowDangerouslySkipPermissions'', JBool True)] @
         (if asksQuestions (JObj spec) then [] else [(js ''disallowedTools'', JArr [JStr (js ''AskUserQuestion'')])]) @
         (if tools \<noteq> [] then [(js ''allowedTools'', JArr (map JStr tools))] else []) @
         [(js ''systemPrompt'', system_prompt spec), (js ''settingSources'', JArr [JStr (js ''user''), JStr (js ''project'')])] @
         (if truthy (opt ''model'') then [(js ''model'', opt ''model'')] else []) @
         (if truthy (opt ''resume_sdk_session_id'') then [(js ''resume'', opt ''resume_sdk_session_id'')] else []) @
         (if truthy (opt ''effort'') then [(js ''extraArgs'', JObj [(js ''effort'', opt ''effort'')])] else []) @
         [(js ''mcpServers'', JObj (mcp_servers platform spec))])"

section \<open>The permission callback\<close>

definition PERSON_TOOLS :: "jstring list" where
  "PERSON_TOOLS = [js ''AskUserQuestion'', js ''ExitPlanMode'']"

definition is_question :: "jstring \<Rightarrow> bool" where
  "is_question tool \<longleftrightarrow> tool = js ''AskUserQuestion''"

datatype claude_verdict = Let_through | Turn_down jstring | Ask_someone

definition canUseTool :: "bool \<Rightarrow> json_obj \<Rightarrow> jstring \<Rightarrow> bool \<Rightarrow> jstring \<Rightarrow> claude_verdict" where
  "canUseTool ending spec mode matchedAskRule tool =
     (let escalated = isEscalatedTool tool (jprop spec (js ''escalate_servers''))
      in if ending then Turn_down (js ''session ended'')
         else if tool \<in> set (platformToolNames (JObj spec) PLATFORM_PREFIX) then Let_through
         else if mode = js ''bypassPermissions'' \<and> tool \<notin> set PERSON_TOOLS \<and> \<not> matchedAskRule \<and> \<not> escalated then Let_through
         else if \<not> is_question tool \<and> truthy (jprop spec (js ''auto_approve'')) \<and> \<not> escalated then Let_through
         else Ask_someone)"

definition claude_asks :: "env \<Rightarrow> jstring \<Rightarrow> json \<Rightarrow> json \<Rightarrow> json \<Rightarrow> session \<Rightarrow> session" where
  "claude_asks env tool input use reason =
     askPermission env tool input (if is_question tool then Some (claudeQuestionInput input) else None) use reason"

definition claude_decided :: "jstring \<Rightarrow> json_obj \<Rightarrow> decision \<Rightarrow> decision" where
  "claude_decided tool input d =
     (if is_question tool then claudeQuestionDecision input (claudeQuestionInput (JObj input)) d else d)"

text \<open>
  No tool call of a claude session goes ahead unasked that should not: none while it ends,
  none of a connector on the escalation list unless the daemon's own parking tools are meant, no
  question in any mode, and a plan or a call one of the user's ask rules names only by a run's
  own rule; a question a person answered goes ahead only with an answer to each.
\<close>

theorem claude_gate_guards:
  assumes "canUseTool ending spec mode matchedAskRule tool = Let_through"
  shows "\<not> ending \<and> (tool \<in> set (platformToolNames (JObj spec) PLATFORM_PREFIX) \<or>
    \<not> is_question tool \<and> \<not> isEscalatedTool tool (jprop spec (js ''escalate_servers'')) \<and>
    (truthy (jprop spec (js ''auto_approve'')) \<or>
     mode = js ''bypassPermissions'' \<and> \<not> matchedAskRule \<and> tool \<noteq> js ''ExitPlanMode''))"
  using assms by (auto simp: canUseTool_def PERSON_TOOLS_def is_question_def Let_def split: if_splits)

theorem claude_gate_guards_witness:
  "canUseTool False [(js ''escalate_servers'', JArr [JStr (js ''mail'')])] (js ''bypassPermissions'') False (js ''Bash'') = Let_through \<and>
   \<not> isEscalatedTool (js ''Bash'') (JArr [JStr (js ''mail'')])"
proof -
  let ?s = "[(js ''escalate_servers'', JArr [JStr (js ''mail'')])]"
  have "canUseTool False ?s (js ''bypassPermissions'') False (js ''Bash'') = Let_through" by code_simp
  moreover have "js ''Bash'' \<notin> set (platformToolNames (JObj ?s) PLATFORM_PREFIX)" by code_simp
  ultimately show ?thesis using claude_gate_guards [of False ?s "js ''bypassPermissions''" False "js ''Bash''"] by simp
qed

section \<open>The mode of the CLI\<close>

text \<open>
  The mode the callback works with and, in plan mode, the one it was entered from. The CLI moves
  itself into and out of plan mode and reports the mode it runs in.
\<close>

definition followCliMode :: "json_obj \<Rightarrow> jstring \<Rightarrow> jstring \<times> jstring option \<Rightarrow> jstring \<times> jstring option" where
  "followCliMode spec reported m = (case m of (mode, planFrom) \<Rightarrow>
     if reported = cliMode spec mode then (mode, planFrom)
     else if reported = js ''plan'' then (js ''plan'', Some mode)
     else (case planFrom of
         Some old \<Rightarrow> (if reported = cliMode spec old \<and> mode = js ''plan'' then old else reported, None)
       | None \<Rightarrow> (reported, None)))"

text \<open>
  Planning changes nothing: when the CLI goes into plan mode and comes back to what it ran in,
  the callback is back in the mode it was in before, full access behind tools that ask included;
  and no report of the CLI's takes it to full access but one that says so itself.
\<close>

theorem plan_mode_returns:
  assumes "mode \<noteq> js ''plan''"
  shows "followCliMode spec (cliMode spec mode) (followCliMode spec (js ''plan'') (mode, planFrom)) = (mode, None)"
    and "fst (followCliMode spec reported (mode, planFrom)) = js ''bypassPermissions'' \<Longrightarrow>
      mode = js ''bypassPermissions'' \<or> reported = js ''bypassPermissions''"
proof -
  have "cliMode spec (js ''plan'') = js ''plan''" "cliMode spec mode \<noteq> js ''plan''"
    using assms by (auto simp: cliMode_def js_eq_iff)
  with assms show "followCliMode spec (cliMode spec mode) (followCliMode spec (js ''plan'') (mode, planFrom)) = (mode, None)"
    by (auto simp: followCliMode_def split: option.split)
  show "fst (followCliMode spec reported (mode, planFrom)) = js ''bypassPermissions'' \<Longrightarrow>
      mode = js ''bypassPermissions'' \<or> reported = js ''bypassPermissions''"
    using assms by (auto simp: followCliMode_def js_eq_iff split: if_splits option.splits)
qed

theorem plan_mode_returns_witness:
  "let spec = [(js ''escalate_servers'', JArr [JStr (js ''mail'')])]
   in followCliMode spec (cliMode spec (js ''bypassPermissions''))
        (followCliMode spec (js ''plan'') (js ''bypassPermissions'', None)) = (js ''bypassPermissions'', None)"
  unfolding Let_def by (rule plan_mode_returns(1)) (simp add: js_eq_iff)

section \<open>What a dead CLI is reported as\<close>

text \<open>\<^verbatim>\<open>/SIGKILL|signal\s*9\b/i\<close>\<close>

definition killed_at :: "jstring \<Rightarrow> bool" where
  "killed_at t \<longleftrightarrow> starts_with (to_lower t) (js ''sigkill'') \<or>
     starts_with (to_lower t) (js ''signal'') \<and>
     (let u = dropWhile is_space (drop 6 t) in starts_with u (js ''9'') \<and> (case tl u of [] \<Rightarrow> True | c # _ \<Rightarrow> \<not> is_word_char c))"

text \<open>\<^verbatim>\<open>/terminated by signal (\w+)/i\<close>\<close>

definition signal_at :: "jstring \<Rightarrow> jstring" where
  "signal_at t = (if starts_with (to_lower t) (js ''terminated by signal '') then takeWhile is_word_char (drop 21 t) else [])"

text \<open>\<^verbatim>\<open>/exit(?:ed)?(?:\s*(?:code|status))?\s+(\d+)/i\<close>\<close>

definition without :: "string \<Rightarrow> jstring \<Rightarrow> jstring list" where
  "without w t = (if starts_with (to_lower t) (js w) then [drop (length w) t] else [])"

definition spaced_number :: "jstring \<Rightarrow> jstring" where
  "spaced_number t = (if takeWhile is_space t = [] then [] else takeWhile is_digit (dropWhile is_space t))"

definition exit_at :: "jstring \<Rightarrow> jstring" where
  "exit_at t =
     (let rests = concat (map (\<lambda>r. without ''ed'' r @ [r]) (without ''exit'' t));
          ways = concat (map (\<lambda>r. let u = dropWhile is_space r in without ''code'' u @ without ''status'' u @ [r]) rests)
      in case find (\<lambda>n. n \<noteq> []) (map spaced_number ways) of Some n \<Rightarrow> n | None \<Rightarrow> [])"

definition first_found :: "(jstring \<Rightarrow> jstring) \<Rightarrow> jstring \<Rightarrow> jstring" where
  "first_found f raw = (case find (\<lambda>n. n \<noteq> []) (map f (tails raw)) of Some n \<Rightarrow> n | None \<Rightarrow> [])"

definition oom_record :: re where
  "oom_record = any_of (word ''out of memory'') [word ''oom-kill'', word ''killed process'']"

definition last_three :: "'a list \<Rightarrow> 'a list" where
  "last_three xs = drop (length xs - 3) xs"

definition readOOMEvidence :: "jstring list option \<Rightarrow> jstring option" where
  "readOOMEvidence records = (case records of
       None \<Rightarrow> None
     | Some rs \<Rightarrow>
         (let hits = map trim (filter (re_test oom_record) (takeWhile (\<lambda>r. r \<noteq> []) (take 2000 rs)))
          in if hits = [] then None else Some (join [10] (last_three hits))))"

definition classifyRunError :: "jstring list option \<Rightarrow> js_error \<Rightarrow> diagnosis" where
  "classifyRunError kmsg e =
     (let raw = error_raw e; sig = first_found signal_at raw; code = first_found exit_at raw
      in if list_ex killed_at (tails raw)
         then \<lparr>di_cause = js ''oom'', di_message = js ''The agent ran out of memory and was killed. Retry with a larger VM size.'',
               di_detail = (case readOOMEvidence kmsg of Some r \<Rightarrow> if r \<noteq> [] then raw @ [10] @ r else raw | None \<Rightarrow> raw)\<rparr>
         else if sig \<noteq> []
         then \<lparr>di_cause = js ''crashed'', di_message = js ''The agent process was terminated ('' @ sig @
               js ''). See the session timeline for its last action.'', di_detail = raw\<rparr>
         else if code \<noteq> [] \<and> code \<noteq> js ''0''
         then \<lparr>di_cause = js ''crashed'', di_message = js ''The agent process crashed (exit '' @ code @
               js ''). See the session timeline for its last action.'', di_detail = raw\<rparr>
         else \<lparr>di_cause = js ''error'', di_message = error_short e, di_detail = raw\<rparr>)"

end
