(* ===== verification/ClaudeDriver.thy ===== *)
theory ClaudeDriver
  imports ClaudeSession CodexDriver
begin

text \<open>
  The driver of a claude session (\<^verbatim>\<open>drivers/claude.mjs\<close>): the input queue the SDK pulls from,
  the run loop that takes the SDK's messages one at a time and may be suspended for the disk or
  for a model switch, commands, compactions, mode and model changes, and the ways out. Requests
  to the SDK are out until their answer comes; timers are armed or not, and firing is an event.
\<close>

section \<open>The driver's state\<close>

text \<open>
  An input item is a prompt or the compaction's control item. \<open>Pump_waits\<close> is an SDK that asked
  while nothing was queued, \<open>Pump_gets\<close> one that was given an item it has not looked at yet.
\<close>

datatype cl_item = Prompt_item jstring | Control_item jstring

datatype cl_pump = Pump_idle | Pump_waits | Pump_gets cl_item | Pump_over

datatype cl_cont = Loop_goes_on | Loop_fails js_error | Caller_returns

datatype cl_loop =
    Listening
  | Result_syncing json nat
  | Compact_syncing
  | Restoring
  | Failing js_error
  | End_syncing
  | Fail_syncing diagnosis
  | Loop_over

record cmd_call =
  cq_command :: jstring
  cq_arguments :: json
  cq_model :: json
  cq_contexts :: "jstring list"

datatype cl_call =
    List_commands
  | Command_list cmd_call
  | Command_usage cmd_call command
  | Command_model cmd_call command json
  | Restore_model cl_cont
  | Interrupt_out nat
  | Interrupt_disk nat
  | Mode_out jstring jstring
  | Ask_tools_out
  | Model_out json
  | Usage_out
  | Stop_out

datatype cl_out =
    Cl_asked cl_call json
  | Cl_fed cl_item
  | Cl_aborted
  | Commands_answered "js_error + command list"
  | Command_answered "jstring + (jstring \<times> jstring) option"
  | Command_failed js_error
  | Cl_compact_answered nat "http_error + json_obj"
  | Cl_mode_answered "js_error option"
  | Cl_model_answered "js_error option"
  | Cl_result json
  | Cl_ended
  | Cl_errored
  | Cl_retired

record cl_state =
  cl_live :: session
  cl_items :: "cl_item list"
  cl_pump :: cl_pump
  cl_inputClosed :: bool
  cl_consumed :: nat
  cl_commands :: "command list option"
  cl_commandTurn :: "(bool \<times> json) option"
  cl_compacting :: "nat option"
  cl_instructions :: jstring
  cl_counts :: "json_obj option"
  cl_grace :: bool
  cl_awaiting :: bool
  cl_resultSlot :: "nat option"
  cl_resultWaits :: "(nat, json_obj) jmap"
  cl_lastUsage :: json
  cl_drain :: bool
  cl_owed :: nat
  cl_retiring :: bool
  cl_todos :: todo_pending
  cl_mode :: "jstring \<times> jstring option"
  cl_modeChanges :: nat
  cl_loop :: cl_loop
  cl_calls :: "(nat, cl_call) jmap"
  cl_next :: nat
  cl_out :: "cl_out list"

definition new_claude :: "json_obj \<Rightarrow> session \<Rightarrow> cl_state" where
  "new_claude env s =
     \<lparr>cl_live = s\<lparr>ss_ledger := createTaskLedger env\<rparr>, cl_items = [], cl_pump = Pump_idle, cl_inputClosed = False,
      cl_consumed = 0, cl_commands = None, cl_commandTurn = None, cl_compacting = None, cl_instructions = [], cl_counts = None,
      cl_grace = False, cl_awaiting = False, cl_resultSlot = None, cl_resultWaits = [], cl_lastUsage = JNull, cl_drain = False, cl_owed = 0,
      cl_retiring = False, cl_todos = [], cl_mode = (initial_mode (ss_spec s), None), cl_modeChanges = 0,
      cl_loop = Listening, cl_calls = [], cl_next = 0, cl_out = []\<rparr>"

definition cl_tell :: "cl_out list \<Rightarrow> cl_state \<Rightarrow> cl_state" where
  "cl_tell es d = d\<lparr>cl_out := cl_out d @ es\<rparr>"

definition cl_on_live :: "(session \<Rightarrow> session) \<Rightarrow> cl_state \<Rightarrow> cl_state" where
  "cl_on_live f d = d\<lparr>cl_live := f (cl_live d)\<rparr>"

definition cl_ask :: "cl_call \<Rightarrow> json \<Rightarrow> cl_state \<Rightarrow> cl_state" where
  "cl_ask c arg d = cl_tell [Cl_asked c arg] (d\<lparr>cl_calls := cl_calls d @ [(cl_next d, c)], cl_next := cl_next d + 1\<rparr>)"

definition cl_emit :: "env \<Rightarrow> jstring \<Rightarrow> json_obj \<Rightarrow> cl_state \<Rightarrow> cl_state" where
  "cl_emit env type payload = cl_on_live (emits env type payload)"

section \<open>Input\<close>

definition startWorking :: "env \<Rightarrow> cl_state \<Rightarrow> cl_state" where
  "startWorking env d = cl_on_live (setState env Working []) (d\<lparr>cl_drain := False\<rparr>)"

definition queue_push :: "cl_item \<Rightarrow> cl_state \<Rightarrow> cl_state" where
  "queue_push item d =
     (if cl_inputClosed d then d
      else if cl_pump d = Pump_waits then d\<lparr>cl_pump := Pump_gets item\<rparr>
      else d\<lparr>cl_items := cl_items d @ [item]\<rparr>)"

definition queue_close :: "cl_state \<Rightarrow> cl_state" where
  "queue_close d = d\<lparr>cl_inputClosed := True, cl_pump := (if cl_pump d = Pump_waits then Pump_over else cl_pump d)\<rparr>"

definition pump_asks :: "cl_state \<Rightarrow> cl_state" where
  "pump_asks d =
     (if cl_pump d \<noteq> Pump_idle then d
      else case cl_items d of
        item # items \<Rightarrow> d\<lparr>cl_items := items, cl_pump := Pump_gets item\<rparr>
      | [] \<Rightarrow> if cl_inputClosed d then d\<lparr>cl_pump := Pump_over\<rparr> else d\<lparr>cl_pump := Pump_waits\<rparr>)"

text \<open>A prompt starts a turn, or steers one; the control item does neither.\<close>

definition pump_gets :: "env \<Rightarrow> cl_state \<Rightarrow> cl_state" where
  "pump_gets env d = (case cl_pump d of
       Pump_gets item \<Rightarrow>
         (let d1 = cl_tell [Cl_fed item] (d\<lparr>cl_pump := Pump_idle, cl_consumed := cl_consumed d + 1\<rparr>)
          in case item of
               Control_item t \<Rightarrow> d1
             | Prompt_item t \<Rightarrow> startWorking env (d1\<lparr>cl_awaiting := False\<rparr>))
     | _ \<Rightarrow> d)"

definition cl_queueMessage :: "env \<Rightarrow> jstring \<Rightarrow> cl_state \<Rightarrow> cl_state \<times> bool" where
  "cl_queueMessage env t d =
     (if cl_inputClosed d then (d, False) else (startWorking env (queue_push (Prompt_item t) d), True))"

section \<open>Background tasks\<close>

definition live_tasks :: "env \<Rightarrow> cl_state \<Rightarrow> nat" where
  "live_tasks env d = countBackgroundTasks (ss_ledger (cl_live d)) (en_now env)"

definition armDrainReemit :: "cl_state \<Rightarrow> cl_state" where
  "armDrainReemit d = d\<lparr>cl_drain := \<not> cl_retiring d\<rparr>"

definition idle_status :: "nat \<Rightarrow> json_obj" where
  "idle_status n = [(js ''state'', JStr (js ''idle'')), (js ''background_tasks'', JInt (int n))]"

definition drain_due :: "env \<Rightarrow> cl_state \<Rightarrow> cl_state" where
  "drain_due env d =
     (if \<not> cl_drain d then d
      else let d1 = d\<lparr>cl_drain := False\<rparr>
           in if ss_state (cl_live d) = Idle \<and> live_tasks env d = 0
              then cl_emit env (js ''session.status'') (idle_status 0) d1 else d1)"

definition subtype_is :: "string \<Rightarrow> json \<Rightarrow> bool" where
  "subtype_is st msg \<longleftrightarrow> jget msg (js ''subtype'') = JStr (js st)"

definition applyTaskLedger :: "env \<Rightarrow> json \<Rightarrow> cl_state \<Rightarrow> cl_state" where
  "applyTaskLedger env msg d =
     (let idle = (ss_state (cl_live d) = Idle);
          d1 = (if subtype_is ''task_notification'' msg \<and> \<not> idle then d\<lparr>cl_owed := cl_owed d + 1\<rparr> else d);
          d2 = cl_on_live (\<lambda>s. s\<lparr>ss_ledger := fst (applyTaskMessage (en_now env) msg (ss_ledger s))\<rparr>) d1
      in if live_tasks env d > 0 \<and> idle \<and> live_tasks env d2 = 0 then armDrainReemit d2 else d2)"

text \<open>The init of a turn the CLI starts on its own is the only sign of it.\<close>

definition onInit :: "env \<Rightarrow> cl_state \<Rightarrow> cl_state" where
  "onInit env d =
     (let d1 = d\<lparr>cl_owed := 0\<rparr>
      in if ss_state (cl_live d) \<noteq> Idle \<or> cl_compacting d \<noteq> None \<or> cl_awaiting d \<or> isTurnDraining (ss_pusher (cl_live d)) then d1
         else startWorking env d1)"

section \<open>Commands and the model they run on\<close>

text \<open>
  The end of a command's turn gives the model back, then the reservation; what was waiting for it
  goes on after.
\<close>

definition fail_synced_next :: "jstring list option \<Rightarrow> js_error \<Rightarrow> cl_state \<Rightarrow> cl_state" where
  "fail_synced_next kmsg e d = d\<lparr>cl_loop := Fail_syncing (classifyRunError kmsg e)\<rparr>"

definition continue :: "jstring list option \<Rightarrow> cl_cont \<Rightarrow> cl_state \<Rightarrow> cl_state" where
  "continue kmsg k d = (case k of
       Loop_goes_on \<Rightarrow> d\<lparr>cl_loop := Listening\<rparr>
     | Loop_fails e \<Rightarrow> fail_synced_next kmsg e d
     | Caller_returns \<Rightarrow> d)"

definition free_control :: "cl_state \<Rightarrow> cl_state" where
  "free_control = cl_on_live (\<lambda>s. s\<lparr>ss_controlBusy := None\<rparr>)"

definition finishCommandTurn :: "jstring list option \<Rightarrow> cl_cont \<Rightarrow> cl_state \<Rightarrow> cl_state" where
  "finishCommandTurn kmsg k d = (case cl_commandTurn d of
       None \<Rightarrow> continue kmsg k d
     | Some (restore, model) \<Rightarrow>
         (let d1 = d\<lparr>cl_commandTurn := None\<rparr>
          in if restore then cl_ask (Restore_model k) model d1 else continue kmsg k (free_control d1)))"

definition listCommands :: "cl_state \<Rightarrow> cl_state" where
  "listCommands d = (case cl_commands d of
       Some cs \<Rightarrow> cl_tell [Commands_answered (Inr cs)] d
     | None \<Rightarrow> cl_ask List_commands JUndef d)"

text \<open>The prompt is built from what was asked for; a text that is no command name cannot come here.\<close>

definition send_command :: "env \<Rightarrow> jstring list option \<Rightarrow> cmd_call \<Rightarrow> command \<Rightarrow> bool \<Rightarrow> json \<Rightarrow> cl_state \<Rightarrow> cl_state" where
  "send_command env kmsg c found restore previous d =
     (let d1 = d\<lparr>cl_commandTurn := Some (restore, previous)\<rparr>
      in case (commandPrompt (cq_command c) (cq_arguments c) (cq_contexts c), commandPrompt (cq_command c) (cq_arguments c) []) of
           (Inr prompt, Inr visible) \<Rightarrow>
             (let (d2, taken) = cl_queueMessage env prompt d1
              in if taken then cl_tell [Command_answered (Inr (Some (cmd_name found, visible)))] d2
                 else cl_tell [Command_answered (Inr None)] (finishCommandTurn kmsg Caller_returns d2))
         | (Inl e, _) \<Rightarrow> cl_tell [Command_answered (Inl e)] d1
         | (_, Inl e) \<Rightarrow> cl_tell [Command_answered (Inl e)] d1)"

definition unknown_command :: "jstring \<Rightarrow> command list \<Rightarrow> jstring" where
  "unknown_command name cs = js ''unknown command '' @ [0x27] @ name @ [0x27] @
     (if cs = [] then [] else js '' (available: '' @ join (js '', '') (map cmd_name cs) @ js '')'')"

definition command_found :: "env \<Rightarrow> jstring list option \<Rightarrow> cmd_call \<Rightarrow> command list \<Rightarrow> cl_state \<Rightarrow> cl_state" where
  "command_found env kmsg c cs d = (case resolveCommand cs (JStr (cq_command c)) of
       Inl e \<Rightarrow> cl_tell [Command_answered (Inl e)] d
     | Inr None \<Rightarrow> cl_tell [Command_answered (Inl (unknown_command (cq_command c) cs))] d
     | Inr (Some found) \<Rightarrow>
         if truthy (cq_model c) then cl_ask (Command_usage c found) JUndef d
         else send_command env kmsg c found False JUndef d)"

definition invokeCommand :: "env \<Rightarrow> jstring list option \<Rightarrow> cmd_call \<Rightarrow> cl_state \<Rightarrow> cl_state" where
  "invokeCommand env kmsg c d = (case cl_commands d of
       Some cs \<Rightarrow> command_found env kmsg c cs d
     | None \<Rightarrow> cl_ask (Command_list c) JUndef d)"

definition restore_target :: "json_obj \<Rightarrow> json \<Rightarrow> json" where
  "restore_target spec usage =
     or_falsy (or_falsy (jprop spec (js ''model'')) (jget usage (js ''model''))) JUndef"

section \<open>Compaction\<close>

definition compactedPayload :: "json \<Rightarrow> json_obj" where
  "compactedPayload msg =
     (let meta = jget msg (js ''compact_metadata'')
      in (case finite_tokens (jget meta (js ''pre_tokens'')) of Some n \<Rightarrow> [(js ''pre_tokens'', JInt n)] | None \<Rightarrow> []) @
         (case finite_tokens (jget meta (js ''post_tokens'')) of Some n \<Rightarrow> [(js ''post_tokens'', JInt n)] | None \<Rightarrow> []))"

definition onCompactBoundary :: "env \<Rightarrow> json \<Rightarrow> cl_state \<Rightarrow> cl_state" where
  "onCompactBoundary env msg d =
     (let manual = (jget (jget msg (js ''compact_metadata'')) (js ''trigger'') = JStr (js ''manual''))
      in if cl_compacting d \<noteq> None \<and> manual then d\<lparr>cl_counts := Some (compactedPayload msg), cl_grace := True\<rparr>
         else cl_emit env (js ''context.compacted'')
           ((js ''trigger'', JStr (if manual then js ''manual'' else js ''auto'')) # compactedPayload msg) d)"

definition cl_emitContextUsage :: "cl_state \<Rightarrow> cl_state" where
  "cl_emitContextUsage d = (if isDone (cl_live d) then d else cl_ask Usage_out JUndef d)"

text \<open>A compaction that succeeded waits for the CLI's result of the local command before it is answered.\<close>

definition compact_resolved :: "nat \<Rightarrow> json_obj \<Rightarrow> cl_state \<Rightarrow> cl_state" where
  "compact_resolved n payload d =
     (if cl_awaiting d then d\<lparr>cl_resultSlot := Some n, cl_resultWaits := AList.update n payload (cl_resultWaits d)\<rparr>
      else cl_tell [Cl_compact_answered n (Inr payload)] d)"

definition finishCompact :: "env \<Rightarrow> json \<Rightarrow> json \<Rightarrow> cl_state \<Rightarrow> cl_state" where
  "finishCompact env res err d =
     (let d1 = d\<lparr>cl_grace := False\<rparr>
      in case cl_compacting d of
           None \<Rightarrow> d1
         | Some n \<Rightarrow>
             (let d2 = d1\<lparr>cl_compacting := None\<rparr>
              in if res \<noteq> JStr (js ''success'')
                 then cl_tell [Cl_compact_answered n (Inl (http_err 409 (js ''the harness did not compact'' @
                        (if truthy err then js '': '' @ take 300 (js_String err) else []))))] d2
                 else (let payload = (js ''trigger'', JStr (js ''manual'')) #
                             (if cl_instructions d \<noteq> [] then [(js ''instructions'', JStr (cl_instructions d))] else []) @
                             (case cl_counts d of Some ts \<Rightarrow> ts | None \<Rightarrow> [])
                       in compact_resolved n payload (cl_emitContextUsage
                            (cl_on_live (emits_outside env (js ''context.compacted'') payload) (d2\<lparr>cl_counts := None\<rparr>))))))"

definition onCompactStatus :: "env \<Rightarrow> json \<Rightarrow> cl_state \<Rightarrow> cl_state" where
  "onCompactStatus env msg d =
     (if cl_compacting d = None \<or> \<not> truthy (jget msg (js ''compact_result'')) then d
      else finishCompact env (jget msg (js ''compact_result'')) (jget msg (js ''compact_error'')) d)"

definition grace_due :: "env \<Rightarrow> cl_state \<Rightarrow> cl_state" where
  "grace_due env d = (if cl_grace d then finishCompact env (JStr (js ''success'')) JUndef d else d)"

definition rejectPendingCompact :: "jstring \<Rightarrow> nat \<Rightarrow> cl_state \<Rightarrow> cl_state" where
  "rejectPendingCompact message st d = (case cl_compacting d of
       None \<Rightarrow> d
     | Some n \<Rightarrow> cl_tell [Cl_compact_answered n (Inl (http_err st message))] (d\<lparr>cl_grace := False, cl_compacting := None\<rparr>))"

definition compact_late :: "nat \<Rightarrow> cl_state \<Rightarrow> cl_state" where
  "compact_late n d =
     (if cl_compacting d = Some n
      then cl_tell [Cl_compact_answered n (Inl (http_err 504 (js ''compaction timed out'')))]
             (d\<lparr>cl_compacting := None, cl_awaiting := False\<rparr>)
      else d)"

definition compact_result_over :: "nat \<Rightarrow> cl_state \<Rightarrow> cl_state" where
  "compact_result_over n d = (case map_of (cl_resultWaits d) n of
       None \<Rightarrow> d
     | Some payload \<Rightarrow> cl_tell [Cl_compact_answered n (Inr payload)]
         (d\<lparr>cl_resultWaits := AList.delete n (cl_resultWaits d), cl_resultSlot := None, cl_awaiting := False\<rparr>))"

definition cl_compact :: "jstring \<Rightarrow> cl_state \<Rightarrow> http_error option \<times> cl_state" where
  "cl_compact instructions d =
     (if cl_compacting d \<noteq> None then (Some (http_err 409 (js ''a compaction is already in flight'')), d)
      else let d1 = d\<lparr>cl_compacting := Some (cl_next d), cl_next := cl_next d + 1, cl_instructions := instructions, cl_counts := None\<rparr>
           in (None, if cl_inputClosed d then rejectPendingCompact (js ''session is not accepting input'') 409 d1
                else queue_push (Control_item (js ''/compact'' @ (if instructions \<noteq> [] then [0x20] @ instructions else [])))
                  (d1\<lparr>cl_awaiting := True\<rparr>)))"

section \<open>The run loop\<close>

text \<open>
  The context window of the session's model: its own entry, then one that starts with its name,
  then the only one.
\<close>

definition sessionModelWindow :: "json_obj \<Rightarrow> json \<Rightarrow> int option" where
  "sessionModelWindow spec modelUsage =
     (let entries = fields_of modelUsage; wanted = js_String (or_falsy (jprop spec (js ''model'')) (JStr []));
          same = find (\<lambda>(k, v). k = wanted) entries; longer = find (\<lambda>(k, v). starts_with k wanted) entries;
          match = (if wanted \<noteq> [] \<and> same \<noteq> None then same
                   else if wanted \<noteq> [] \<and> longer \<noteq> None then longer
                   else case entries of [e] \<Rightarrow> Some e | _ \<Rightarrow> None)
      in case match of None \<Rightarrow> None | Some (k, v) \<Rightarrow> finite_tokens (jget v (js ''contextWindow'')))"

definition emit_todos :: "env \<Rightarrow> todo list list \<Rightarrow> cl_state \<Rightarrow> cl_state" where
  "emit_todos env = fold (\<lambda>todos. cl_emit env (js ''todo.updated'') [(js ''todos'', JArr (map todo_json todos))])"

definition init_step :: "env \<Rightarrow> json \<Rightarrow> cl_state \<Rightarrow> cl_state" where
  "init_step env msg d =
     (if \<not> subtype_is ''init'' msg then d
      else onInit env (if truthy (jget msg (js ''session_id''))
        then cl_on_live (\<lambda>s. s\<lparr>ss_sdkSessionId := js_String (jget msg (js ''session_id''))\<rparr>) d else d))"

definition commands_step :: "json \<Rightarrow> cl_state \<Rightarrow> cl_state" where
  "commands_step msg d =
     (if subtype_is ''commands_changed'' msg then d\<lparr>cl_commands := Some (normalizeCommandList (jget msg (js ''commands'')))\<rparr> else d)"

definition compact_step :: "env \<Rightarrow> json \<Rightarrow> cl_state \<Rightarrow> cl_state" where
  "compact_step env msg d =
     (if subtype_is ''compact_boundary'' msg then onCompactBoundary env msg d
      else if subtype_is ''status'' msg then onCompactStatus env msg d else d)"

definition mode_step :: "json \<Rightarrow> cl_state \<Rightarrow> cl_state" where
  "mode_step msg d = (case jget msg (js ''permissionMode'') of
       JStr m \<Rightarrow>
         if (subtype_is ''init'' msg \<or> subtype_is ''status'' msg) \<and> cl_modeChanges d = 0
         then d\<lparr>cl_mode := followCliMode (ss_spec (cl_live d)) m (cl_mode d)\<rparr> else d
     | _ \<Rightarrow> d)"

definition on_system :: "env \<Rightarrow> json \<Rightarrow> cl_state \<Rightarrow> cl_state" where
  "on_system env msg d =
     cl_emit env (js ''sdk.system'') (fields_of msg)
       (applyTaskLedger env msg (mode_step msg (compact_step env msg (commands_step msg (init_step env msg d)))))"

definition on_assistant :: "env \<Rightarrow> json \<Rightarrow> cl_state \<Rightarrow> cl_state" where
  "on_assistant env msg d =
     (let usage = jget (jget msg (js ''message'')) (js ''usage'');
          d1 = (if truthy usage \<and> \<not> truthy (jget msg (js ''parent_tool_use_id'')) then d\<lparr>cl_lastUsage := usage\<rparr> else d);
          d2 = cl_emit env (js ''sdk.assistant'') (fields_of msg) d1
      in d2\<lparr>cl_todos := todo_onAssistant msg (cl_todos d2)\<rparr>)"

definition on_user :: "env \<Rightarrow> json \<Rightarrow> cl_state \<Rightarrow> cl_state" where
  "on_user env msg d =
     (let d1 = cl_emit env (js ''sdk.user'') (fields_of msg) d; (pending, lists) = todo_onToolResult msg (cl_todos d1)
      in emit_todos env lists (d1\<lparr>cl_todos := pending\<rparr>))"

definition no_compaction :: "json \<Rightarrow> jstring" where
  "no_compaction msg = (case jget msg (js ''result'') of
       JStr t \<Rightarrow> if trim t \<noteq> [] then js ''the harness did not compact: '' @ take 300 (trim t) else js ''the harness did not compact''
     | _ \<Rightarrow> js ''the harness did not compact'')"

definition last_result_of :: "json \<Rightarrow> json" where
  "last_result_of msg = JObj (map (\<lambda>k. (js k, jget msg (js k))) [''subtype'', ''duration_ms'', ''num_turns'', ''total_cost_usd'', ''usage''])"

definition on_result :: "json \<Rightarrow> cl_state \<Rightarrow> cl_state" where
  "on_result msg d =
     (if cl_awaiting d
      then let d1 = rejectPendingCompact (no_compaction msg) 409 (d\<lparr>cl_awaiting := False\<rparr>)
           in (case cl_resultSlot d of Some n \<Rightarrow> compact_result_over n d1 | None \<Rightarrow> d1)\<lparr>cl_loop := Compact_syncing\<rparr>
      else cl_on_live (\<lambda>s. s\<lparr>ss_lastResult := last_result_of msg\<rparr>) (d\<lparr>cl_loop := Result_syncing msg (cl_consumed d)\<rparr>))"

definition on_message :: "env \<Rightarrow> json \<Rightarrow> cl_state \<Rightarrow> cl_state" where
  "on_message env msg d =
     (let type = jget msg (js ''type'')
      in if cl_loop d \<noteq> Listening then d
         else if type = JStr (js ''system'') then on_system env msg d
         else if type = JStr (js ''assistant'') then on_assistant env msg d
         else if type = JStr (js ''user'') then on_user env msg d
         else if type = JStr (js ''result'') then on_result msg d
         else if type = JStr (js ''stream_event'') then cl_on_live (emits_ephemeral env (js ''sdk.partial'') (fields_of msg)) d
         else cl_emit env (js ''sdk.'' @ js_String type) (fields_of msg) d)"

text \<open>The stopping point of a turn: idle, unless more input arrived.\<close>

definition settle_turn :: "env \<Rightarrow> nat \<Rightarrow> cl_state \<Rightarrow> cl_state" where
  "settle_turn env consumedBefore d =
     (if cl_items d = [] \<and> cl_consumed d = consumedBefore
      then let owed = cl_owed d; tasks = live_tasks env d;
               d1 = d\<lparr>cl_owed := 0\<rparr>;
               d2 = (if owed > 0 \<and> tasks = 0 then armDrainReemit d1 else d1)
           in if ss_state (cl_live d) = Idle
              then cl_emit env (js ''session.status'') (idle_status (tasks + owed)) d2
              else cl_on_live (setState env Idle [(js ''background_tasks'', JInt (int (tasks + owed)))]) d2
      else cl_on_live (with_pusher (\<lambda>p. fst (rotateTurn (en_clk env) (en_id env) (ss_harness (cl_live d)) (js ''completed'') p))) d)"

definition emit_turn_usage :: "env \<Rightarrow> json \<Rightarrow> cl_state \<Rightarrow> cl_state" where
  "emit_turn_usage env msg d =
     (let d1 = d\<lparr>cl_lastUsage := JNull\<rparr>
      in case contextUsagePayload (contextTokensFromUsage (cl_lastUsage d)) (sessionModelWindow (ss_spec (cl_live d)) (jget msg (js ''modelUsage''))) of
           Some (JObj u) \<Rightarrow> cl_on_live (emits_outside env (js ''context.usage'') u) d1
         | _ \<Rightarrow> d1)"

definition result_on_disk :: "env \<Rightarrow> jstring list option \<Rightarrow> json \<Rightarrow> nat \<Rightarrow> cl_state \<Rightarrow> cl_state" where
  "result_on_disk env kmsg msg consumedBefore d =
     (let draining = isTurnDraining (ss_pusher (cl_live d));
          d1 = emit_turn_usage env msg (cl_tell [Cl_result msg] (cl_emit env (js ''sdk.result'') (fields_of msg) d))
      in if draining then d1\<lparr>cl_loop := Listening\<rparr>
         else finishCommandTurn kmsg Loop_goes_on ((settle_turn env consumedBefore d1)\<lparr>cl_loop := Restoring\<rparr>))"

text \<open>The SDK's messages are over, or it failed.\<close>

definition loop_ended :: "cl_state \<Rightarrow> cl_state" where
  "loop_ended d = (if cl_loop d \<noteq> Listening then d
     else (rejectPendingCompact (js ''session ended'') 409 d)\<lparr>cl_loop := End_syncing\<rparr>)"

definition loop_failed :: "jstring list option \<Rightarrow> js_error \<Rightarrow> cl_state \<Rightarrow> cl_state" where
  "loop_failed kmsg e d = (if cl_loop d \<noteq> Listening then d
     else finishCommandTurn kmsg (Loop_fails e) ((rejectPendingCompact (js ''session failed'') 502 d)\<lparr>cl_loop := Failing e\<rparr>))"

definition loop_over :: "cl_state \<Rightarrow> cl_state" where
  "loop_over d = d\<lparr>cl_loop := Loop_over\<rparr>"

definition cl_synced :: "env \<Rightarrow> jstring list option \<Rightarrow> cl_state \<Rightarrow> cl_state" where
  "cl_synced env kmsg d = (case cl_loop d of
       Result_syncing msg consumedBefore \<Rightarrow> result_on_disk env kmsg msg consumedBefore d
     | Compact_syncing \<Rightarrow> d\<lparr>cl_loop := Listening\<rparr>
     | End_syncing \<Rightarrow>
         (if cl_retiring d then loop_over d
          else cl_tell [Cl_ended] (cl_emit env (js ''session.ended'')
            [(js ''sdk_session_id'', JStr (ss_sdkSessionId (cl_live d))), (js ''last_result'', ss_lastResult (cl_live d))]
            (cl_on_live (\<lambda>s. s\<lparr>ss_state := Ended, ss_ledger := clearTaskLedger (ss_ledger s)\<rparr>) (loop_over d))))
     | Fail_syncing c \<Rightarrow>
         (if cl_retiring d then loop_over d
          else cl_tell [Cl_errored] (cl_emit env (js ''session.error'')
            [(js ''message'', JStr (di_message c)), (js ''cause'', JStr (di_cause c)), (js ''detail'', JStr (di_detail c))]
            (cl_on_live (\<lambda>s. s\<lparr>ss_state := Errored, ss_ledger := clearTaskLedger (ss_ledger s)\<rparr>) (loop_over d))))
     | _ \<Rightarrow> d)"

section \<open>The driver's operations\<close>

definition cl_interrupt :: "cl_state \<Rightarrow> cl_state" where
  "cl_interrupt d =
     (let d1 = rejectPendingCompact (js ''compaction interrupted'') 409 d
      in cl_ask (Interrupt_out (cl_consumed d1)) JUndef d1)"

definition idle_after_interrupt :: "env \<Rightarrow> nat \<Rightarrow> cl_state \<Rightarrow> cl_state" where
  "idle_after_interrupt env consumedBefore d =
     (if cl_consumed d = consumedBefore
      then cl_on_live (setState env Idle [(js ''background_tasks'', JInt (int (live_tasks env d)))]) d else d)"

definition cl_setPermissionMode :: "jstring \<Rightarrow> cl_state \<Rightarrow> cl_state" where
  "cl_setPermissionMode mode d =
     (let previous = fst (cl_mode d)
      in cl_ask (Mode_out previous mode) (JStr (cliMode (ss_spec (cl_live d)) mode))
           (d\<lparr>cl_mode := (if mode \<noteq> js ''bypassPermissions'' then mode else previous,
                          if mode = js ''plan'' then Some previous else None),
              cl_modeChanges := cl_modeChanges d + 1\<rparr>))"

definition askToolsChanged :: "cl_state \<Rightarrow> cl_state" where
  "askToolsChanged d =
     (if fst (cl_mode d) = js ''bypassPermissions''
      then cl_ask Ask_tools_out (JStr (cliMode (ss_spec (cl_live d)) (fst (cl_mode d)))) d else d)"

definition cl_setModel :: "json \<Rightarrow> json \<Rightarrow> cl_state \<Rightarrow> http_error option \<times> cl_state" where
  "cl_setModel model effort d =
     (if truthy effort
      then (Some (bad_request (js ''the claude harness fixes the reasoning effort for the session'' @ [0x27] @ js ''s lifetime'')), d)
      else if truthy model then (None, cl_ask (Model_out model) model d)
      else (None, cl_tell [Cl_model_answered None] d))"

definition cl_beginEnd :: "cl_state \<Rightarrow> cl_state" where
  "cl_beginEnd d = queue_close (rejectPendingCompact (js ''session ended'') 409 d)"

definition cl_retire :: "cl_state \<Rightarrow> cl_state" where
  "cl_retire d =
     queue_close ((rejectPendingCompact (js ''the session is restarting on a new set-up'') 409 (d\<lparr>cl_retiring := True\<rparr>))\<lparr>cl_drain := False\<rparr>)"

definition cl_retired :: "cl_state \<Rightarrow> cl_state" where
  "cl_retired d = (if cl_retiring d \<and> cl_loop d = Loop_over then cl_tell [Cl_retired] (d\<lparr>cl_drain := False\<rparr>) else d)"

definition cl_forceStop :: "cl_state \<Rightarrow> cl_state" where
  "cl_forceStop d = cl_tell [Cl_aborted] (queue_close (d\<lparr>cl_retiring := True\<rparr>))"

definition cl_shutdownStop :: "cl_state \<Rightarrow> cl_state" where
  "cl_shutdownStop d = cl_ask Stop_out JUndef (queue_close (rejectPendingCompact (js ''daemon shutting down'') 409 d))"

section \<open>The SDK's answers\<close>

definition cl_replied :: "env \<Rightarrow> jstring list option \<Rightarrow> nat \<Rightarrow> js_error + json \<Rightarrow> cl_state \<Rightarrow> cl_state" where
  "cl_replied env kmsg i out d = (case map_of (cl_calls d) i of
       None \<Rightarrow> d
     | Some c \<Rightarrow>
         (let d1 = d\<lparr>cl_calls := AList.delete i (cl_calls d)\<rparr>
          in case c of
            List_commands \<Rightarrow>
              (case out of
                 Inl e \<Rightarrow> cl_tell [Commands_answered (Inl e)] d1
               | Inr v \<Rightarrow> cl_tell [Commands_answered (Inr (normalizeCommandList v))] (d1\<lparr>cl_commands := Some (normalizeCommandList v)\<rparr>))
          | Command_list q \<Rightarrow>
              (case out of
                 Inl e \<Rightarrow> cl_tell [Command_failed e] d1
               | Inr v \<Rightarrow> command_found env kmsg q (normalizeCommandList v) (d1\<lparr>cl_commands := Some (normalizeCommandList v)\<rparr>))
          | Command_usage q found \<Rightarrow>
              (case out of
                 Inl e \<Rightarrow> cl_tell [Command_failed e] d1
               | Inr v \<Rightarrow> cl_ask (Command_model q found (restore_target (ss_spec (cl_live d)) v)) (cq_model q) d1)
          | Command_model q found previous \<Rightarrow>
              (case out of
                 Inl e \<Rightarrow> cl_tell [Command_failed e] d1
               | Inr v \<Rightarrow> send_command env kmsg q found True previous d1)
          | Restore_model k \<Rightarrow> continue kmsg k (free_control d1)
          | Interrupt_out consumedBefore \<Rightarrow>
              (case out of
                 Inr v \<Rightarrow>
                   if cl_items d = [] \<and> cl_consumed d = consumedBefore
                   then d1\<lparr>cl_calls := cl_calls d1 @ [(i, Interrupt_disk consumedBefore)]\<rparr>
                   else finishCommandTurn kmsg Caller_returns d1
               | Inl e \<Rightarrow> finishCommandTurn kmsg Caller_returns d1)
          | Interrupt_disk consumedBefore \<Rightarrow> d
          | Mode_out previous mode \<Rightarrow>
              (case out of
                 Inl e \<Rightarrow> cl_tell [Cl_mode_answered (Some e)]
                   (d1\<lparr>cl_mode := (previous, snd (cl_mode d1)), cl_modeChanges := cl_modeChanges d1 - 1\<rparr>)
               | Inr v \<Rightarrow> cl_tell [Cl_mode_answered None]
                   (d1\<lparr>cl_mode := (mode, snd (cl_mode d1)), cl_modeChanges := cl_modeChanges d1 - 1\<rparr>))
          | Ask_tools_out \<Rightarrow> cl_tell [Cl_mode_answered (case out of Inl e \<Rightarrow> Some e | Inr v \<Rightarrow> None)] d1
          | Model_out model \<Rightarrow>
              (case out of
                 Inl e \<Rightarrow> cl_tell [Cl_model_answered (Some e)] d1
               | Inr v \<Rightarrow> cl_tell [Cl_model_answered None] (cl_on_live (\<lambda>s. s\<lparr>ss_spec := jput (js ''model'') model (ss_spec s)\<rparr>) d1))
          | Usage_out \<Rightarrow>
              (case out of
                 Inl e \<Rightarrow> d1
               | Inr u \<Rightarrow>
                   if isDone (cl_live d) then d1
                   else case contextUsagePayload (finite_tokens (jget u (js ''totalTokens''))) (finite_tokens (jget u (js ''maxTokens''))) of
                     Some (JObj p) \<Rightarrow> cl_on_live (emits_outside env (js ''context.usage'') p) d1
                   | _ \<Rightarrow> d1)
          | Stop_out \<Rightarrow> finishCommandTurn kmsg Caller_returns d1))"

definition interrupt_on_disk :: "env \<Rightarrow> jstring list option \<Rightarrow> nat \<Rightarrow> cl_state \<Rightarrow> cl_state" where
  "interrupt_on_disk env kmsg i d = (case map_of (cl_calls d) i of
       Some (Interrupt_disk consumedBefore) \<Rightarrow>
         finishCommandTurn kmsg Caller_returns (idle_after_interrupt env consumedBefore (d\<lparr>cl_calls := AList.delete i (cl_calls d)\<rparr>))
     | _ \<Rightarrow> d)"

section \<open>Tool calls\<close>

definition cl_tool_call :: "env \<Rightarrow> jstring \<Rightarrow> json \<Rightarrow> json \<Rightarrow> bool \<Rightarrow> json \<Rightarrow> cl_state \<Rightarrow> claude_verdict \<times> cl_state" where
  "cl_tool_call env tool input use matchedAskRule reason d =
     (let v = canUseTool (ss_ending (cl_live d)) (ss_spec (cl_live d)) (fst (cl_mode d)) matchedAskRule tool
      in (v, if v = Ask_someone then cl_on_live (claude_asks env tool input use reason) d else d))"

section \<open>A driver over time\<close>

text \<open>\<open>Cl_daemon\<close> is whatever the daemon does to the session meanwhile.\<close>

datatype cl_event =
    Cl_message json
  | Cl_over
  | Cl_failed js_error
  | Cl_synced
  | Cl_pump_asks
  | Cl_pump_gets
  | Cl_reply nat "js_error + json"
  | Cl_interrupt_synced nat
  | Cl_drain_due
  | Cl_grace_due
  | Cl_compact_late nat
  | Cl_result_late nat
  | Cl_tool jstring json json bool json
  | Cl_tool_aborted jstring
  | Cl_queue jstring
  | Cl_list
  | Cl_command cmd_call
  | Cl_interrupt
  | Cl_mode jstring
  | Cl_ask_tools
  | Cl_model json json
  | Cl_compact jstring
  | Cl_begin_end
  | Cl_retire
  | Cl_retire_over
  | Cl_force_stop
  | Cl_shutdown
  | Cl_daemon session

fun cl_step :: "jstring list option \<Rightarrow> env \<times> cl_event \<Rightarrow> cl_state \<Rightarrow> cl_state" where
  "cl_step kmsg (env, Cl_message msg) d = on_message env msg d"
| "cl_step kmsg (env, Cl_over) d = loop_ended d"
| "cl_step kmsg (env, Cl_failed e) d = loop_failed kmsg e d"
| "cl_step kmsg (env, Cl_synced) d = cl_synced env kmsg d"
| "cl_step kmsg (env, Cl_pump_asks) d = pump_asks d"
| "cl_step kmsg (env, Cl_pump_gets) d = pump_gets env d"
| "cl_step kmsg (env, Cl_reply i out) d = cl_replied env kmsg i out d"
| "cl_step kmsg (env, Cl_interrupt_synced i) d = interrupt_on_disk env kmsg i d"
| "cl_step kmsg (env, Cl_drain_due) d = drain_due env d"
| "cl_step kmsg (env, Cl_grace_due) d = grace_due env d"
| "cl_step kmsg (env, Cl_compact_late n) d = compact_late n d"
| "cl_step kmsg (env, Cl_result_late n) d = compact_result_over n d"
| "cl_step kmsg (env, Cl_tool tool input use matched reason) d = snd (cl_tool_call env tool input use matched reason d)"
| "cl_step kmsg (env, Cl_tool_aborted i) d = cl_on_live (abortPermission env i) d"
| "cl_step kmsg (env, Cl_queue t) d = fst (cl_queueMessage env t d)"
| "cl_step kmsg (env, Cl_list) d = listCommands d"
| "cl_step kmsg (env, Cl_command q) d = invokeCommand env kmsg q d"
| "cl_step kmsg (env, Cl_interrupt) d = cl_interrupt d"
| "cl_step kmsg (env, Cl_mode mode) d = cl_setPermissionMode mode d"
| "cl_step kmsg (env, Cl_ask_tools) d = askToolsChanged d"
| "cl_step kmsg (env, Cl_model model effort) d = snd (cl_setModel model effort d)"
| "cl_step kmsg (env, Cl_compact instructions) d = snd (cl_compact instructions d)"
| "cl_step kmsg (env, Cl_begin_end) d = cl_beginEnd d"
| "cl_step kmsg (env, Cl_retire) d = cl_retire d"
| "cl_step kmsg (env, Cl_retire_over) d = cl_retired d"
| "cl_step kmsg (env, Cl_force_stop) d = cl_forceStop d"
| "cl_step kmsg (env, Cl_shutdown) d = cl_shutdownStop d"
| "cl_step kmsg (env, Cl_daemon s) d = d\<lparr>cl_live := s\<rparr>"

definition cl_run :: "jstring list option \<Rightarrow> (env \<times> cl_event) list \<Rightarrow> cl_state \<Rightarrow> cl_state" where
  "cl_run kmsg evs d = fold (cl_step kmsg) evs d"

end
