(* ===== verification/ClaudeLife.thy ===== *)
theory ClaudeLife
  imports ClaudeDriver
begin

text \<open>
  A claude session over time: what is put in reaches the CLI in order and once, the session goes
  idle only when nothing is left to do, it tells its end once, and a compaction is answered
  once. Most steps touch neither the input nor the run loop, which is shown once for each.
\<close>

lemmas cl_prims = cl_tell_def cl_on_live_def cl_ask_def cl_emit_def startWorking_def free_control_def armDrainReemit_def

section \<open>Steps that leave the input alone\<close>

fun is_fed :: "cl_out \<Rightarrow> bool" where
  "is_fed (Cl_fed item) = True"
| "is_fed _ = False"

definition fed :: "cl_state \<Rightarrow> cl_item list" where
  "fed d = map (\<lambda>e. case e of Cl_fed item \<Rightarrow> item) (filter is_fed (cl_out d))"

definition same_input :: "cl_state \<Rightarrow> cl_state \<Rightarrow> bool" where
  "same_input d x \<longleftrightarrow> cl_items x = cl_items d \<and> cl_pump x = cl_pump d \<and> cl_inputClosed x = cl_inputClosed d \<and>
     cl_consumed x = cl_consumed d \<and> filter is_fed (cl_out x) = filter is_fed (cl_out d)"

fun loop_cont :: "cl_call \<Rightarrow> bool" where
  "loop_cont (Restore_model Loop_goes_on) = True"
| "loop_cont (Restore_model (Loop_fails e)) = True"
| "loop_cont _ = False"

definition loop_conts :: "cl_state \<Rightarrow> nat" where
  "loop_conts d = length (filter (\<lambda>(i, c). loop_cont c) (cl_calls d))"

fun is_end :: "cl_out \<Rightarrow> bool" where
  "is_end Cl_ended = True"
| "is_end Cl_errored = True"
| "is_end Cl_retired = True"
| "is_end _ = False"

definition ends_told :: "cl_state \<Rightarrow> cl_out list" where
  "ends_told d = filter is_end (cl_out d)"

definition same_loop :: "cl_state \<Rightarrow> cl_state \<Rightarrow> bool" where
  "same_loop d x \<longleftrightarrow> cl_loop x = cl_loop d \<and> cl_retiring x = cl_retiring d \<and> ends_told x = ends_told d \<and> loop_conts x \<le> loop_conts d"

lemma conts_delete: "loop_conts (x\<lparr>cl_calls := AList.delete i (cl_calls x)\<rparr>) \<le> loop_conts x"
proof -
  have "length (filter (\<lambda>(i, c). loop_cont c) (AList.delete i cs)) \<le> length (filter (\<lambda>(i, c). loop_cont c) cs)" for cs
    by (induction cs) auto
  then show ?thesis by (simp add: loop_conts_def)
qed

lemma same_refl [simp]: "same_input d d" "same_loop d d"
  by (simp_all add: same_input_def same_loop_def)

lemma same_trans: "same_input d x \<Longrightarrow> same_input x y \<Longrightarrow> same_input d y" "same_loop d x \<Longrightarrow> same_loop x y \<Longrightarrow> same_loop d y"
  by (simp_all add: same_input_def same_loop_def)

lemma same_live [simp]:
  "same_input d x \<Longrightarrow> same_input d (cl_on_live f x)" "same_loop d x \<Longrightarrow> same_loop d (cl_on_live f x)"
  "same_input d x \<Longrightarrow> same_input d (cl_emit env ty p x)" "same_loop d x \<Longrightarrow> same_loop d (cl_emit env ty p x)"
  "same_input d x \<Longrightarrow> same_input d (startWorking env x)" "same_loop d x \<Longrightarrow> same_loop d (startWorking env x)"
  "same_input d x \<Longrightarrow> same_input d (free_control x)" "same_loop d x \<Longrightarrow> same_loop d (free_control x)"
  "same_input d x \<Longrightarrow> same_input d (armDrainReemit x)" "same_loop d x \<Longrightarrow> same_loop d (armDrainReemit x)"
  by (simp_all add: same_input_def same_loop_def cl_prims ends_told_def loop_conts_def)

lemma same_tell [simp]:
  "same_input d x \<Longrightarrow> \<not> is_fed e \<Longrightarrow> same_input d (cl_tell [e] x)"
  "same_loop d x \<Longrightarrow> \<not> is_end e \<Longrightarrow> same_loop d (cl_tell [e] x)"
  "same_input d x \<Longrightarrow> same_input d (cl_ask c arg x)"
  "same_loop d x \<Longrightarrow> \<not> loop_cont c \<Longrightarrow> same_loop d (cl_ask c arg x)"
  by (simp_all add: same_input_def same_loop_def cl_prims ends_told_def loop_conts_def)

lemma same_fields [simp]:
  "same_input d x \<Longrightarrow> same_input d (x\<lparr>cl_commands := v1\<rparr>)" "same_loop d x \<Longrightarrow> same_loop d (x\<lparr>cl_commands := v1\<rparr>)"
  "same_input d x \<Longrightarrow> same_input d (x\<lparr>cl_commandTurn := v2\<rparr>)" "same_loop d x \<Longrightarrow> same_loop d (x\<lparr>cl_commandTurn := v2\<rparr>)"
  "same_input d x \<Longrightarrow> same_input d (x\<lparr>cl_compacting := v3\<rparr>)" "same_loop d x \<Longrightarrow> same_loop d (x\<lparr>cl_compacting := v3\<rparr>)"
  "same_input d x \<Longrightarrow> same_input d (x\<lparr>cl_instructions := v4\<rparr>)" "same_loop d x \<Longrightarrow> same_loop d (x\<lparr>cl_instructions := v4\<rparr>)"
  "same_input d x \<Longrightarrow> same_input d (x\<lparr>cl_counts := v5\<rparr>)" "same_loop d x \<Longrightarrow> same_loop d (x\<lparr>cl_counts := v5\<rparr>)"
  "same_input d x \<Longrightarrow> same_input d (x\<lparr>cl_grace := v6\<rparr>)" "same_loop d x \<Longrightarrow> same_loop d (x\<lparr>cl_grace := v6\<rparr>)"
  "same_input d x \<Longrightarrow> same_input d (x\<lparr>cl_awaiting := v7\<rparr>)" "same_loop d x \<Longrightarrow> same_loop d (x\<lparr>cl_awaiting := v7\<rparr>)"
  "same_input d x \<Longrightarrow> same_input d (x\<lparr>cl_resultSlot := v8\<rparr>)" "same_loop d x \<Longrightarrow> same_loop d (x\<lparr>cl_resultSlot := v8\<rparr>)"
  "same_input d x \<Longrightarrow> same_input d (x\<lparr>cl_resultWaits := v9\<rparr>)" "same_loop d x \<Longrightarrow> same_loop d (x\<lparr>cl_resultWaits := v9\<rparr>)"
  "same_input d x \<Longrightarrow> same_input d (x\<lparr>cl_lastUsage := v10\<rparr>)" "same_loop d x \<Longrightarrow> same_loop d (x\<lparr>cl_lastUsage := v10\<rparr>)"
  "same_input d x \<Longrightarrow> same_input d (x\<lparr>cl_drain := v11\<rparr>)" "same_loop d x \<Longrightarrow> same_loop d (x\<lparr>cl_drain := v11\<rparr>)"
  "same_input d x \<Longrightarrow> same_input d (x\<lparr>cl_owed := v12\<rparr>)" "same_loop d x \<Longrightarrow> same_loop d (x\<lparr>cl_owed := v12\<rparr>)"
  "same_input d x \<Longrightarrow> same_input d (x\<lparr>cl_todos := v13\<rparr>)" "same_loop d x \<Longrightarrow> same_loop d (x\<lparr>cl_todos := v13\<rparr>)"
  "same_input d x \<Longrightarrow> same_input d (x\<lparr>cl_mode := v14\<rparr>)" "same_loop d x \<Longrightarrow> same_loop d (x\<lparr>cl_mode := v14\<rparr>)"
  "same_input d x \<Longrightarrow> same_input d (x\<lparr>cl_modeChanges := v15\<rparr>)" "same_loop d x \<Longrightarrow> same_loop d (x\<lparr>cl_modeChanges := v15\<rparr>)"
  "same_input d x \<Longrightarrow> same_input d (x\<lparr>cl_next := v16\<rparr>)" "same_loop d x \<Longrightarrow> same_loop d (x\<lparr>cl_next := v16\<rparr>)"
  "same_input d x \<Longrightarrow> same_input d (x\<lparr>cl_live := v17\<rparr>)" "same_loop d x \<Longrightarrow> same_loop d (x\<lparr>cl_live := v17\<rparr>)"
  "same_input d x \<Longrightarrow> same_input d (x\<lparr>cl_calls := v18\<rparr>)" "same_input d x \<Longrightarrow> same_input d (x\<lparr>cl_loop := v19\<rparr>)"
  "same_input d x \<Longrightarrow> same_input d (x\<lparr>cl_retiring := v20\<rparr>)"
  "same_loop d x \<Longrightarrow> same_loop d (x\<lparr>cl_items := v21\<rparr>)" "same_loop d x \<Longrightarrow> same_loop d (x\<lparr>cl_pump := v22\<rparr>)"
  "same_loop d x \<Longrightarrow> same_loop d (x\<lparr>cl_inputClosed := v23\<rparr>)" "same_loop d x \<Longrightarrow> same_loop d (x\<lparr>cl_consumed := v24\<rparr>)"
  by (simp_all add: same_input_def same_loop_def ends_told_def loop_conts_def)

lemma same_delete [simp]: "same_loop d (d\<lparr>cl_calls := AList.delete i (cl_calls d)\<rparr>)"
  "\<not> loop_cont c \<Longrightarrow> same_loop d (d\<lparr>cl_calls := AList.delete i (cl_calls d) @ [(j, c)]\<rparr>)"
  using conts_delete [of i d] by (simp_all add: same_loop_def ends_told_def loop_conts_def)

lemma same_ledger [simp]:
  "same_input d x \<Longrightarrow> same_input d (applyTaskLedger env msg x)" "same_loop d x \<Longrightarrow> same_loop d (applyTaskLedger env msg x)"
  unfolding applyTaskLedger_def Let_def by simp_all

lemma same_small [simp]:
  "same_input d x \<Longrightarrow> same_input d (drain_due env x)" "same_loop d x \<Longrightarrow> same_loop d (drain_due env x)"
  "same_input d x \<Longrightarrow> same_input d (onInit env x)" "same_loop d x \<Longrightarrow> same_loop d (onInit env x)"
  "same_input d x \<Longrightarrow> same_input d (listCommands x)" "same_loop d x \<Longrightarrow> same_loop d (listCommands x)"
  "same_input d x \<Longrightarrow> same_input d (cl_emitContextUsage x)" "same_loop d x \<Longrightarrow> same_loop d (cl_emitContextUsage x)"
  "same_input d x \<Longrightarrow> same_input d (compact_resolved n p x)" "same_loop d x \<Longrightarrow> same_loop d (compact_resolved n p x)"
  "same_input d x \<Longrightarrow> same_input d (rejectPendingCompact m st x)" "same_loop d x \<Longrightarrow> same_loop d (rejectPendingCompact m st x)"
  "same_input d x \<Longrightarrow> same_input d (compact_late n x)" "same_loop d x \<Longrightarrow> same_loop d (compact_late n x)"
  "same_input d x \<Longrightarrow> same_input d (compact_result_over n x)" "same_loop d x \<Longrightarrow> same_loop d (compact_result_over n x)"
  "same_input d x \<Longrightarrow> same_input d (onCompactBoundary env msg x)" "same_loop d x \<Longrightarrow> same_loop d (onCompactBoundary env msg x)"
  by (simp_all add: drain_due_def onInit_def listCommands_def cl_emitContextUsage_def compact_resolved_def
      rejectPendingCompact_def compact_late_def compact_result_over_def onCompactBoundary_def Let_def split: option.split)

lemma same_compact [simp]:
  "same_input d x \<Longrightarrow> same_input d (finishCompact env r e x)" "same_loop d x \<Longrightarrow> same_loop d (finishCompact env r e x)"
  by (simp_all add: finishCompact_def Let_def split: option.split)

lemma same_status [simp]:
  "same_input d x \<Longrightarrow> same_input d (onCompactStatus env msg x)" "same_loop d x \<Longrightarrow> same_loop d (onCompactStatus env msg x)"
  "same_input d x \<Longrightarrow> same_input d (grace_due env x)" "same_loop d x \<Longrightarrow> same_loop d (grace_due env x)"
  by (simp_all add: onCompactStatus_def grace_due_def)

lemma same_todos [simp]:
  "same_input d x \<Longrightarrow> same_input d (emit_todos env ls x)" "same_loop d x \<Longrightarrow> same_loop d (emit_todos env ls x)"
  by (induction ls arbitrary: x) (simp_all add: emit_todos_def)

lemma same_steps [simp]:
  "same_input d x \<Longrightarrow> same_input d (init_step env msg x)" "same_loop d x \<Longrightarrow> same_loop d (init_step env msg x)"
  "same_input d x \<Longrightarrow> same_input d (commands_step msg x)" "same_loop d x \<Longrightarrow> same_loop d (commands_step msg x)"
  "same_input d x \<Longrightarrow> same_input d (compact_step env msg x)" "same_loop d x \<Longrightarrow> same_loop d (compact_step env msg x)"
  "same_input d x \<Longrightarrow> same_input d (mode_step msg x)" "same_loop d x \<Longrightarrow> same_loop d (mode_step msg x)"
  by (simp_all add: init_step_def commands_step_def compact_step_def mode_step_def split: json.split)

lemma same_system [simp]: "same_input d (on_system env msg d)" "same_loop d (on_system env msg d)"
  by (simp_all add: on_system_def)

lemma same_messages [simp]:
  "same_input d (on_assistant env msg d)" "same_loop d (on_assistant env msg d)"
  "same_input d (on_user env msg d)" "same_loop d (on_user env msg d)"
  by (simp_all add: on_assistant_def on_user_def Let_def split: prod.split)

lemma same_turn [simp]:
  "same_input d x \<Longrightarrow> same_input d (settle_turn env n x)" "same_loop d x \<Longrightarrow> same_loop d (settle_turn env n x)"
  "same_input d x \<Longrightarrow> same_input d (emit_turn_usage env msg x)" "same_loop d x \<Longrightarrow> same_loop d (emit_turn_usage env msg x)"
  "same_input d x \<Longrightarrow> same_input d (idle_after_interrupt env n x)" "same_loop d x \<Longrightarrow> same_loop d (idle_after_interrupt env n x)"
  by (simp_all add: settle_turn_def emit_turn_usage_def idle_after_interrupt_def Let_def split: option.split json.split)

lemma same_finish [simp]:
  "same_input d x \<Longrightarrow> same_input d (continue kmsg k x)" "same_input d x \<Longrightarrow> same_input d (finishCommandTurn kmsg k x)"
  "same_loop d x \<Longrightarrow> same_loop d (finishCommandTurn kmsg Caller_returns x)"
  by (simp_all add: continue_def finishCommandTurn_def fail_synced_next_def Let_def split: cl_cont.split option.split prod.split)

lemma same_push [simp]:
  "same_loop d x \<Longrightarrow> same_loop d (queue_push item x)" "same_loop d x \<Longrightarrow> same_loop d (queue_close x)"
  by (simp_all add: queue_push_def queue_close_def)

lemma same_queue [simp]: "same_loop d x \<Longrightarrow> same_loop d (fst (cl_queueMessage env t x))"
  by (simp add: cl_queueMessage_def)

lemma same_send [simp]: "same_loop d x \<Longrightarrow> same_loop d (send_command env kmsg c f r p x)"
proof -
  assume x: "same_loop d x"
  have q: "same_loop d (fst (cl_queueMessage env t (x\<lparr>cl_commandTurn := Some (r, p)\<rparr>)))" for t using x by simp
  show ?thesis using x q by (simp add: send_command_def Let_def case_prod_beta split: sum.split)
qed

lemma same_command [simp]: "same_loop d x \<Longrightarrow> same_loop d (command_found env kmsg c cs x)"
  "same_loop d x \<Longrightarrow> same_loop d (invokeCommand env kmsg c x)"
  by (simp_all add: command_found_def invokeCommand_def split: option.split sum.split)

lemma same_ops [simp]:
  "same_input d x \<Longrightarrow> same_input d (cl_interrupt x)" "same_loop d x \<Longrightarrow> same_loop d (cl_interrupt x)"
  "same_input d x \<Longrightarrow> same_input d (cl_setPermissionMode mode x)" "same_loop d x \<Longrightarrow> same_loop d (cl_setPermissionMode mode x)"
  "same_input d x \<Longrightarrow> same_input d (askToolsChanged x)" "same_loop d x \<Longrightarrow> same_loop d (askToolsChanged x)"
  "same_input d x \<Longrightarrow> same_input d (snd (cl_setModel m e x))" "same_loop d x \<Longrightarrow> same_loop d (snd (cl_setModel m e x))"
  "same_input d x \<Longrightarrow> same_input d (snd (cl_tool_call env tool input use b r x))"
  "same_loop d x \<Longrightarrow> same_loop d (snd (cl_tool_call env tool input use b r x))"
  "same_loop d x \<Longrightarrow> same_loop d (snd (cl_compact instructions x))"
  "same_loop d x \<Longrightarrow> same_loop d (cl_beginEnd x)" "same_loop d x \<Longrightarrow> same_loop d (cl_shutdownStop x)"
  "same_loop d x \<Longrightarrow> same_loop d (pump_asks x)" "same_loop d x \<Longrightarrow> same_loop d (pump_gets env x)"
  by (simp_all add: cl_interrupt_def cl_setPermissionMode_def askToolsChanged_def cl_setModel_def cl_tool_call_def cl_compact_def
      cl_beginEnd_def cl_shutdownStop_def pump_asks_def pump_gets_def Let_def split: list.split cl_pump.split cl_item.split)

lemma same_interrupted [simp]: "same_input d (interrupt_on_disk env kmsg i d)" "same_loop d (interrupt_on_disk env kmsg i d)"
  by (simp_all add: interrupt_on_disk_def split: option.split cl_call.split)

section \<open>The input reaches the CLI in order\<close>

definition held :: "cl_state \<Rightarrow> cl_item list" where
  "held d = (case cl_pump d of Pump_gets item \<Rightarrow> [item] | _ \<Rightarrow> [])"

text \<open>What the CLI was fed, what it is being given, and what is queued.\<close>

definition in_queue :: "cl_state \<Rightarrow> cl_item list" where
  "in_queue d = fed d @ held d @ cl_items d"

definition input_ok :: "cl_state \<Rightarrow> bool" where
  "input_ok d \<longleftrightarrow> (cl_pump d = Pump_waits \<longrightarrow> cl_items d = [] \<and> \<not> cl_inputClosed d) \<and>
     (cl_pump d = Pump_over \<longrightarrow> cl_items d = [] \<and> cl_inputClosed d) \<and> cl_consumed d = length (fed d)"

definition grows :: "cl_state \<Rightarrow> cl_state \<Rightarrow> bool" where
  "grows d x \<longleftrightarrow> (input_ok d \<longrightarrow> input_ok x \<and> prefix (in_queue d) (in_queue x))"

lemma input_same: "same_input d x \<Longrightarrow> fed x = fed d \<and> held x = held d \<and> in_queue x = in_queue d \<and> (input_ok x \<longleftrightarrow> input_ok d)"
  by (simp add: same_input_def fed_def held_def in_queue_def input_ok_def)

lemma grows_same: "same_input d x \<Longrightarrow> grows d x"
  using input_same [of d x] by (simp add: grows_def)

lemma grows_trans: "grows d x \<Longrightarrow> grows x y \<Longrightarrow> grows d y"
  by (auto simp: grows_def intro: prefix_order.trans)

lemma fed_tell [simp]: "fed (cl_tell [Cl_fed i] d) = fed d @ [i]"
  by (simp add: fed_def cl_tell_def)

lemma fed_fields [simp]: "fed (d\<lparr>cl_items := a\<rparr>) = fed d" "fed (d\<lparr>cl_pump := b\<rparr>) = fed d" "fed (d\<lparr>cl_inputClosed := c\<rparr>) = fed d"
  "fed (d\<lparr>cl_consumed := e\<rparr>) = fed d" "fed (d\<lparr>cl_awaiting := f\<rparr>) = fed d"
  by (simp_all add: fed_def)

lemma push_queue: "input_ok d \<Longrightarrow> \<not> cl_inputClosed d \<Longrightarrow> in_queue (queue_push i d) = in_queue d @ [i] \<and> input_ok (queue_push i d)"
  by (auto simp: queue_push_def in_queue_def held_def input_ok_def split: cl_pump.split)

lemma grows_push: "grows d (queue_push i d)"
  using push_queue [of d i] by (cases "cl_inputClosed d") (simp_all add: grows_def, simp add: queue_push_def)

lemma grows_close: "grows d (queue_close d)"
  by (auto simp: grows_def queue_close_def in_queue_def held_def input_ok_def split: cl_pump.split)

lemma grows_asks: "grows d (pump_asks d)"
  by (auto simp: grows_def pump_asks_def in_queue_def held_def input_ok_def split: list.split)

lemma gets_fed: "cl_pump d = Pump_gets i \<Longrightarrow> \<exists>x. same_input x (pump_gets env d) \<and>
    x = cl_tell [Cl_fed i] (d\<lparr>cl_pump := Pump_idle, cl_consumed := cl_consumed d + 1\<rparr>)"
  by (simp add: pump_gets_def Let_def split: cl_item.split)

lemma grows_gets: "grows d (pump_gets env d)"
proof (cases "\<exists>i. cl_pump d = Pump_gets i")
  case True
  then obtain i where i: "cl_pump d = Pump_gets i" by blast
  let ?x = "cl_tell [Cl_fed i] (d\<lparr>cl_pump := Pump_idle, cl_consumed := cl_consumed d + 1\<rparr>)"
  have "grows d ?x" using i by (simp add: grows_def input_ok_def in_queue_def held_def) (simp add: cl_tell_def)
  with gets_fed [OF i, of env] grows_same grows_trans show ?thesis by blast
qed (auto simp: pump_gets_def grows_def split: cl_pump.split)

lemma grows_queue: "grows d (fst (cl_queueMessage env t d))"
proof -
  have "same_input (queue_push (Prompt_item t) d) (startWorking env (queue_push (Prompt_item t) d))" by simp
  from grows_trans [OF grows_push grows_same [OF this]] show ?thesis
    by (simp add: cl_queueMessage_def) (simp add: grows_def)
qed

lemma grows_send: "grows d (send_command env kmsg c f r p d)"
proof -
  let ?d = "d\<lparr>cl_commandTurn := Some (r, p)\<rparr>"
  have d: "grows d ?d" by (rule grows_same) simp
  have q: "grows d (fst (cl_queueMessage env t ?d))" for t by (rule grows_trans [OF d grows_queue])
  have "grows d x \<Longrightarrow> grows d (cl_tell [Command_answered a] x)"
    "grows d x \<Longrightarrow> grows d (cl_tell [Command_answered a] (finishCommandTurn kmsg Caller_returns x))" for a x
    by (rule grows_trans, assumption, rule grows_same, simp)+
  with d q show ?thesis by (simp add: send_command_def Let_def case_prod_beta split: sum.split)
qed

lemma grows_found: "grows d (command_found env kmsg c cs d)"
  by (auto simp: command_found_def grows_send intro!: grows_same split: option.split sum.split)

lemma grows_invoke: "grows d (invokeCommand env kmsg c d)"
  by (auto simp: invokeCommand_def grows_found intro!: grows_same split: option.split)

lemma grows_compact: "grows d (snd (cl_compact instructions d))"
proof -
  have "grows d (queue_push i x)" if "same_input d x" for i x by (rule grows_trans [OF grows_same [OF that] grows_push])
  then show ?thesis by (auto simp: cl_compact_def Let_def intro!: grows_same)
qed

lemma grows_closed: "same_input d x \<Longrightarrow> grows d (queue_close x)"
  by (rule grows_trans [OF grows_same grows_close])

lemma grows_message: "grows d (on_message env msg d)"
  by (rule grows_same) (simp add: on_message_def on_result_def Let_def split: option.split)

lemma grows_synced: "grows d (cl_synced env kmsg d)"
  by (rule grows_same) (simp add: cl_synced_def result_on_disk_def loop_over_def Let_def split: cl_loop.split)

lemma grows_replied: "grows d (cl_replied env kmsg i out d)"
proof (cases "map_of (cl_calls d) i")
  case (Some c)
  let ?d = "d\<lparr>cl_calls := AList.delete i (cl_calls d)\<rparr>"
  have same: "same_input d ?d" "same_input d (?d\<lparr>cl_commands := cs\<rparr>)" for cs by simp_all
  have found: "grows d (command_found env kmsg q cs' (?d\<lparr>cl_commands := cs\<rparr>))" "grows d (send_command env kmsg q f r p ?d)" for q cs' cs f r p
    by (rule grows_trans [OF grows_same [OF same(2)] grows_found], rule grows_trans [OF grows_same [OF same(1)] grows_send])
  show ?thesis using Some
    by (cases c; cases out) (auto simp: cl_replied_def Let_def found intro!: grows_same split: option.split json.split)
qed (simp add: cl_replied_def grows_def)

lemma grows_after: "grows d x \<Longrightarrow> grows d (cl_tell [Cl_aborted] x)" "grows d x \<Longrightarrow> grows d (cl_ask c a x)"
  by (rule grows_trans, assumption, rule grows_same, simp)+

lemma grows_step: "grows d (cl_step kmsg (env, ev) d)"
  by (cases ev) (simp_all add: grows_message grows_synced grows_replied grows_asks grows_gets grows_queue grows_invoke
      grows_compact cl_beginEnd_def cl_retire_def cl_forceStop_def cl_shutdownStop_def grows_closed grows_after,
    auto intro!: grows_same simp: loop_ended_def loop_failed_def cl_retired_def)

lemma grows_run: "grows d (cl_run kmsg evs d)"
proof -
  have "grows d (fold (cl_step kmsg) evs d)" for d
  proof (induction evs arbitrary: d)
    case (Cons x evs)
    obtain env ev where "x = (env, ev)" by (cases x)
    with Cons [of "cl_step kmsg x d"] grows_step [of d kmsg env ev] show ?case by (auto intro: grows_trans)
  qed (simp add: grows_def)
  then show ?thesis by (simp add: cl_run_def)
qed

lemma new_input: "input_ok (new_claude env s)" "in_queue (new_claude env s) = []"
  by (simp_all add: input_ok_def in_queue_def held_def fed_def new_claude_def)

text \<open>
  C10: What is put into a claude session reaches the CLI in order and once: an accepted message
  goes behind what was accepted before it, a refused one changes nothing, and whatever happens
  after, what the CLI was fed, is being given and will be fed still begins with that.
\<close>

theorem claude_input_in_order:
  "let d = cl_run kmsg before (new_claude env0 s);
       (x, taken) = cl_queueMessage env t d
   in (if taken then in_queue x = in_queue d @ [Prompt_item t] else x = d) \<and>
      prefix (in_queue x) (in_queue (cl_run kmsg after x))"
proof -
  define d where "d = cl_run kmsg before (new_claude env0 s)"
  define x where "x = fst (cl_queueMessage env t d)"
  have d: "input_ok d" using grows_run [of "new_claude env0 s" kmsg before] new_input by (simp add: grows_def d_def)
  then have "prefix (in_queue x) (in_queue (cl_run kmsg after x))"
    using grows_queue [of d env t] grows_run [of x kmsg "after"] by (simp add: grows_def x_def)
  moreover have "if snd (cl_queueMessage env t d) then in_queue x = in_queue d @ [Prompt_item t] else x = d"
  proof (cases "cl_inputClosed d")
    case False
    have "same_input (queue_push (Prompt_item t) d) (startWorking env (queue_push (Prompt_item t) d))" by simp
    from push_queue [OF d False] False input_same [OF this] show ?thesis by (simp add: cl_queueMessage_def x_def)
  qed (simp add: cl_queueMessage_def x_def)
  ultimately show ?thesis by (simp add: Let_def case_prod_beta flip: d_def x_def)
qed

subsection \<open>A closed input drains\<close>

definition pump_round :: "env \<Rightarrow> cl_state \<Rightarrow> cl_state" where
  "pump_round env d = pump_gets env (pump_asks d)"

lemma round_feeds:
  assumes "input_ok d" and "cl_inputClosed d" and "held d @ cl_items d = i # is"
  shows "input_ok (pump_round env d) \<and> cl_inputClosed (pump_round env d) \<and> held (pump_round env d) @ cl_items (pump_round env d) = is \<and>
    fed (pump_round env d) = fed d @ [i]"
proof -
  have a: "cl_pump (pump_asks d) = Pump_gets i" "cl_items (pump_asks d) = is" "fed (pump_asks d) = fed d" "cl_inputClosed (pump_asks d)"
    using assms by (auto simp: pump_asks_def held_def input_ok_def split: cl_pump.splits)
  obtain x where x: "same_input x (pump_gets env (pump_asks d))"
    "x = cl_tell [Cl_fed i] ((pump_asks d)\<lparr>cl_pump := Pump_idle, cl_consumed := cl_consumed (pump_asks d) + 1\<rparr>)"
    using gets_fed [OF a(1)] by blast
  have "input_ok (pump_round env d)"
    using grows_asks [of d] grows_gets [of "pump_asks d" env] assms(1) by (simp add: grows_def pump_round_def)
  with x a input_same [OF x(1)] show ?thesis
    by (simp add: pump_round_def same_input_def held_def) (simp add: cl_tell_def)
qed

lemma rounds_feed:
  "input_ok d \<Longrightarrow> cl_inputClosed d \<Longrightarrow> held d @ cl_items d = is \<Longrightarrow>
    fed ((pump_round env ^^ length is) d) = fed d @ is \<and> cl_pump (pump_round env ((pump_round env ^^ length is) d)) = Pump_over \<and>
    fed (pump_round env ((pump_round env ^^ length is) d)) = fed d @ is"
proof (induction "is" arbitrary: d)
  case Nil
  then show ?case
    by (auto simp: pump_round_def pump_asks_def pump_gets_def held_def input_ok_def split: cl_pump.splits)
next
  case (Cons i "is")
  from round_feeds [OF Cons.prems, of env] Cons.IH [of "pump_round env d"] show ?case
    by (simp add: funpow_Suc_right del: funpow.simps)
qed

text \<open>
  C11: A claude session that is asked to end first does what it was told: once its input is closed,
  the CLI that keeps asking is fed all that was accepted, in order, and then told there is no more.
\<close>

theorem claude_input_drains:
  assumes "d = cl_run kmsg evs (new_claude env0 s)" and "cl_inputClosed d"
  shows "let x = (pump_round env ^^ Suc (length (held d @ cl_items d))) d
    in fed x = in_queue d \<and> cl_pump x = Pump_over"
proof -
  have "input_ok d" using grows_run [of "new_claude env0 s" kmsg evs] new_input assms(1) by (simp add: grows_def)
  from rounds_feed [OF this assms(2) refl] show ?thesis by (simp add: in_queue_def)
qed

theorem claude_input_drains_witness:
  "let d = cl_run None [(sample_env, Cl_queue (js ''hi'')), (sample_env, Cl_queue (js ''more'')), (sample_env, Cl_begin_end)]
             (new_claude [] (new_session []))
   in fed ((pump_round sample_env ^^ 3) d) = [Prompt_item (js ''hi''), Prompt_item (js ''more'')]"
proof -
  define d where "d = cl_run None [(sample_env, Cl_queue (js ''hi'')), (sample_env, Cl_queue (js ''more'')), (sample_env, Cl_begin_end)]
             (new_claude [] (new_session []))"
  have q: "cl_inputClosed d" "held d @ cl_items d = [Prompt_item (js ''hi''), Prompt_item (js ''more'')]" "fed d = []"
    by (simp_all add: d_def cl_run_def cl_queueMessage_def startWorking_def cl_on_live_def queue_push_def cl_beginEnd_def
        rejectPendingCompact_def queue_close_def new_claude_def held_def fed_def)
  from claude_input_drains [OF d_def q(1), of sample_env] q(2,3) have
    "fed ((pump_round sample_env ^^ 3) d) = [Prompt_item (js ''hi''), Prompt_item (js ''more'')]"
    by (simp add: Let_def in_queue_def numeral_3_eq_3 del: funpow.simps)
  then show ?thesis by (simp add: Let_def flip: d_def)
qed

section \<open>The session's end is told once\<close>

fun suspended :: "cl_loop \<Rightarrow> nat" where
  "suspended Restoring = 1"
| "suspended (Failing e) = 1"
| "suspended _ = 0"

definition loop_ok :: "cl_state \<Rightarrow> bool" where
  "loop_ok d \<longleftrightarrow> loop_conts d \<le> suspended (cl_loop d) \<and>
     count_list (ends_told d) Cl_ended + count_list (ends_told d) Cl_errored \<le> (if cl_loop d = Loop_over then 1 else 0) \<and>
     (Cl_retired \<in> set (ends_told d) \<longrightarrow> cl_loop d = Loop_over \<and> cl_retiring d)"

lemma loop_fields [simp]: "loop_conts (x\<lparr>cl_loop := l\<rparr>) = loop_conts x" "ends_told (x\<lparr>cl_loop := l\<rparr>) = ends_told x"
  by (simp_all add: loop_conts_def ends_told_def)

lemma ok_suspends:
  assumes "same_loop d x" and "loop_ok d" and "suspended (cl_loop d) = 0" and "cl_loop d \<noteq> Loop_over" and "l \<noteq> Loop_over"
  shows "loop_ok (x\<lparr>cl_loop := l\<rparr>) \<and> loop_conts (x\<lparr>cl_loop := l\<rparr>) = 0"
  using assms by (auto simp: loop_ok_def same_loop_def)

lemma ok_same: "same_loop d x \<Longrightarrow> loop_ok d \<Longrightarrow> loop_ok x"
  by (auto simp: loop_ok_def same_loop_def)

lemma ok_loop: "loop_ok d \<Longrightarrow> cl_loop d \<noteq> Loop_over \<Longrightarrow> l \<noteq> Loop_over \<Longrightarrow> suspended (cl_loop d) \<le> suspended l \<Longrightarrow> loop_ok (d\<lparr>cl_loop := l\<rparr>)"
  by (auto simp: loop_ok_def loop_conts_def ends_told_def)

text \<open>What goes on on the loop's behalf leaves it listening, failing to the disk, or still suspended.\<close>

lemma ok_continue:
  assumes "loop_ok d" and "loop_conts d = 0" and "cl_loop d \<noteq> Loop_over"
  shows "loop_ok (continue kmsg k d)"
  using assms by (auto simp: continue_def fail_synced_next_def loop_ok_def loop_conts_def ends_told_def split: cl_cont.split)

lemma ok_finish:
  assumes "loop_ok d" and "loop_conts d = 0" and "suspended (cl_loop d) = 1"
  shows "loop_ok (finishCommandTurn kmsg k d)"
proof -
  have over: "cl_loop d \<noteq> Loop_over" using assms(3) by auto
  show ?thesis
  proof (cases "cl_commandTurn d")
    case None
    then show ?thesis by (simp add: finishCommandTurn_def ok_continue assms over)
  next
    case (Some t)
    obtain restore model where t: "t = (restore, model)" by (cases t)
    have "loop_ok (cl_ask c model (d\<lparr>cl_commandTurn := None\<rparr>))" for c
      using assms over by (auto simp: loop_ok_def cl_prims loop_conts_def ends_told_def)
    moreover have "loop_ok (free_control (d\<lparr>cl_commandTurn := None\<rparr>)) \<and> loop_conts (free_control (d\<lparr>cl_commandTurn := None\<rparr>)) = 0 \<and>
        cl_loop (free_control (d\<lparr>cl_commandTurn := None\<rparr>)) \<noteq> Loop_over"
      using assms over by (simp add: loop_ok_def cl_prims loop_conts_def ends_told_def)
    ultimately show ?thesis by (simp add: finishCommandTurn_def Some t Let_def ok_continue)
  qed
qed

lemma ok_message: "loop_ok d \<Longrightarrow> loop_ok (on_message env msg d)"
proof -
  assume ok: "loop_ok d"
  have res: "loop_ok (on_result msg d)" if l: "cl_loop d = Listening"
  proof -
    have same: "same_loop d x \<Longrightarrow> loop_ok (x\<lparr>cl_loop := m\<rparr>)" if "m \<noteq> Loop_over" for x m
      using ok l that by (auto simp: loop_ok_def same_loop_def loop_conts_def ends_told_def)
    show ?thesis
    proof (cases "cl_awaiting d")
      case True
      have "same_loop d (case cl_resultSlot d of Some n \<Rightarrow> compact_result_over n (rejectPendingCompact m st (d\<lparr>cl_awaiting := False\<rparr>))
          | None \<Rightarrow> rejectPendingCompact m st (d\<lparr>cl_awaiting := False\<rparr>))" for m st
        by (simp split: option.split)
      from same [OF _ this, of Compact_syncing] True show ?thesis by (simp add: on_result_def Let_def)
    next
      case False
      from same [of "Result_syncing msg (cl_consumed d)" d] have "loop_ok (d\<lparr>cl_loop := Result_syncing msg (cl_consumed d)\<rparr>)" by simp
      from ok_same [OF same_live(2) this, OF same_refl(2)] False show ?thesis by (simp add: on_result_def)
    qed
  qed
  have "same_loop d x \<Longrightarrow> loop_ok x" for x using ok ok_same by blast
  with ok res show ?thesis by (auto simp: on_message_def Let_def)
qed

lemma ok_result_disk:
  assumes "loop_ok d" and l: "cl_loop d = Result_syncing msg n"
  shows "loop_ok (result_on_disk env kmsg msg n d)"
proof -
  define x where "x = emit_turn_usage env msg (cl_tell [Cl_result msg] (cl_emit env (js ''sdk.result'') (fields_of msg) d))"
  have x: "same_loop d x" by (simp add: x_def)
  have c: "loop_conts d = 0" using assms by (simp add: loop_ok_def)
  have "loop_ok (x\<lparr>cl_loop := Listening\<rparr>)" using x assms c by (auto simp: loop_ok_def same_loop_def loop_conts_def ends_told_def)
  moreover have "loop_ok ((settle_turn env n x)\<lparr>cl_loop := Restoring\<rparr>)" "loop_conts ((settle_turn env n x)\<lparr>cl_loop := Restoring\<rparr>) = 0"
    using same_turn(2) [OF x, of env n] assms c by (auto simp: loop_ok_def same_loop_def loop_conts_def ends_told_def)
  ultimately show ?thesis by (simp add: result_on_disk_def Let_def ok_finish flip: x_def)
qed

lemma ok_synced: "loop_ok d \<Longrightarrow> loop_ok (cl_synced env kmsg d)"
  by (cases "cl_loop d") (auto simp: cl_synced_def ok_result_disk loop_over_def Let_def,
    auto simp: loop_ok_def cl_prims loop_conts_def ends_told_def)

lemma ok_ended: "loop_ok d \<Longrightarrow> loop_ok (loop_ended d)"
  using ok_suspends [of d "rejectPendingCompact (js ''session ended'') 409 d" End_syncing] by (simp add: loop_ended_def)

lemma ok_failed: "loop_ok d \<Longrightarrow> loop_ok (loop_failed kmsg e d)"
  using ok_suspends [of d "rejectPendingCompact (js ''session failed'') 502 d" "Failing e"]
  by (auto simp: loop_failed_def intro: ok_finish)

lemma conts_found:
  assumes "map_of (cl_calls d) i = Some c" and "loop_cont c" and "loop_conts d \<le> 1"
  shows "loop_conts (d\<lparr>cl_calls := AList.delete i (cl_calls d)\<rparr>) = 0"
proof -
  have le: "length (filter (\<lambda>(i, c). loop_cont c) (AList.delete i cs)) \<le> length (filter (\<lambda>(i, c). loop_cont c) cs)" for cs
    by (induction cs) auto
  have "map_of cs i = Some c \<Longrightarrow> loop_cont c \<Longrightarrow>
      Suc (length (filter (\<lambda>(i, c). loop_cont c) (AList.delete i cs))) \<le> length (filter (\<lambda>(i, c). loop_cont c) cs)" for cs
  proof (induction cs)
    case (Cons p ps)
    then show ?case using le [of ps] by (cases p) (auto split: if_splits)
  qed simp
  from this [OF assms(1,2)] assms(3) have "length (filter (\<lambda>(i, c). loop_cont c) (AList.delete i (cl_calls d))) = 0"
    unfolding loop_conts_def by linarith
  then show ?thesis by (simp add: loop_conts_def)
qed

lemma ok_replied:
  assumes ok: "loop_ok d"
  shows "loop_ok (cl_replied env kmsg i out d)"
proof (cases "map_of (cl_calls d) i")
  case (Some c)
  let ?d = "d\<lparr>cl_calls := AList.delete i (cl_calls d)\<rparr>"
  have same: "same_loop d x \<Longrightarrow> loop_ok x" for x using ok ok_same by blast
  show ?thesis
  proof (cases "loop_cont c")
    case True
    then obtain k where k: "c = Restore_model k" by (cases c) simp_all
    have "suspended l \<le> 1" for l by (cases l) simp_all
    then have "loop_conts d \<le> 1" using ok by (meson loop_ok_def le_trans)
    from conts_found [OF Some True this] have c0: "loop_conts ?d = 0" .
    have "length (filter (\<lambda>(i, c). loop_cont c) cs) > 0" if "map_of cs i = Some c" for cs
      using that True by (induction cs) (auto split: if_splits)
    from this [OF Some] have "loop_conts d > 0" by (simp only: loop_conts_def)
    with ok have "suspended (cl_loop d) \<noteq> 0" unfolding loop_ok_def by linarith
    then have "cl_loop d \<noteq> Loop_over" by auto
    then have "loop_ok (free_control ?d)" "loop_conts (free_control ?d) = 0" "cl_loop (free_control ?d) \<noteq> Loop_over"
      using c0 ok by (auto simp: loop_ok_def cl_prims loop_conts_def ends_told_def)
    then show ?thesis using Some k by (simp add: cl_replied_def Let_def ok_continue)
  next
    case False
    then show ?thesis using Some
      by (cases c; cases out) (auto simp: cl_replied_def Let_def continue_def intro!: same split: option.split json.split cl_cont.split)
  qed
qed (simp add: cl_replied_def ok)

lemma ok_step: "loop_ok d \<Longrightarrow> loop_ok (cl_step kmsg (env, ev) d)"
proof (cases ev)
  case Cl_retire
  assume ok: "loop_ok d"
  have "loop_ok (d\<lparr>cl_retiring := True\<rparr>)" using ok by (auto simp: loop_ok_def loop_conts_def ends_told_def)
  from ok_same [OF _ this] Cl_retire show ?thesis by (simp add: cl_retire_def)
next
  case Cl_force_stop
  assume ok: "loop_ok d"
  have "loop_ok (d\<lparr>cl_retiring := True\<rparr>)" using ok by (auto simp: loop_ok_def loop_conts_def ends_told_def)
  from ok_same [OF _ this] Cl_force_stop show ?thesis by (simp add: cl_forceStop_def)
next
  case Cl_retire_over
  assume "loop_ok d"
  with Cl_retire_over show ?thesis by (auto simp: cl_retired_def loop_ok_def loop_conts_def ends_told_def cl_tell_def)
qed (simp_all add: ok_message ok_ended ok_failed ok_synced ok_replied ok_same [of d])

lemma ok_run: "loop_ok (cl_run kmsg evs (new_claude env s))"
proof -
  have "loop_ok d \<Longrightarrow> loop_ok (fold (cl_step kmsg) evs d)" for d
    by (induction evs arbitrary: d) (auto simp: ok_step)
  moreover have "loop_ok (new_claude env s)" by (simp add: loop_ok_def loop_conts_def ends_told_def new_claude_def)
  ultimately show ?thesis by (simp add: cl_run_def)
qed

lemma count_ends: "is_end e \<Longrightarrow> count_list (ends_told d) e = count_list (cl_out d) e"
  by (auto simp: ends_told_def count_list_eq_length_filter intro!: arg_cong [of _ _ length] filter_cong)

text \<open>
  C9: A claude session tells its end once: however messages, the disk, model switches, interrupts,
  ends, retirements and forced stops interleave, it tells its end or its failure at most once and
  only when the run loop is over, and a retirement is answered only by a loop that is over.
\<close>

theorem claude_end_told_once:
  "let d = cl_run kmsg evs (new_claude env s)
   in count_list (cl_out d) Cl_ended + count_list (cl_out d) Cl_errored \<le> (if cl_loop d = Loop_over then 1 else 0) \<and>
      (if Cl_retired \<in> set (cl_out d) then cl_loop d = Loop_over \<and> cl_retiring d else True)"
  using ok_run [of kmsg evs env s] by (auto simp: loop_ok_def count_ends Let_def) (auto simp: ends_told_def)

section \<open>Idle means nothing is left to do\<close>

lemma phase_step:
  assumes ok: "loop_ok d" and l: "cl_loop d = Result_syncing msg n" and "ev \<noteq> Cl_synced"
  shows "cl_loop (cl_step kmsg (env, ev) d) = Result_syncing msg n"
proof -
  have same: "same_loop d x \<Longrightarrow> cl_loop x = Result_syncing msg n" for x using l by (simp add: same_loop_def)
  have closed: "cl_loop (queue_close x) = cl_loop x" for x by (simp add: queue_close_def)
  have reject: "cl_loop (rejectPendingCompact m st x) = cl_loop x" for m st x
    using same_small(12) [OF same_refl(2), of x m st] by (simp add: same_loop_def)
  show ?thesis
  proof (cases ev)
    case (Cl_reply i out)
    have "cl_loop (cl_replied env kmsg i out d) = Result_syncing msg n"
    proof (cases "map_of (cl_calls d) i")
      case (Some c)
      have "length (filter (\<lambda>(i, c). loop_cont c) cs) > 0" if "map_of cs i = Some c" "loop_cont c" for cs
        using that by (induction cs) (auto split: if_splits)
      from this [OF Some] have "\<not> loop_cont c" using ok l by (auto simp: loop_ok_def loop_conts_def)
      then show ?thesis using Some
        by (cases c; cases out) (auto simp: cl_replied_def Let_def continue_def intro!: same split: option.split json.split cl_cont.split)
    qed (simp add: cl_replied_def l)
    with Cl_reply show ?thesis by simp
  qed (use assms(3) l in \<open>simp_all add: same on_message_def loop_ended_def loop_failed_def Let_def\<close>,
      simp_all add: cl_retire_def cl_forceStop_def cl_retired_def closed reject cl_tell_def l)
qed

lemma phase_run:
  assumes "loop_ok d" and "cl_loop d = Result_syncing msg n" and "list_all (\<lambda>(env, ev). ev \<noteq> Cl_synced) evs"
  shows "cl_loop (cl_run kmsg evs d) = Result_syncing msg n"
  using assms
proof (induction evs arbitrary: d)
  case (Cons x evs)
  obtain env ev where x: "x = (env, ev)" by (cases x)
  show ?case using Cons.IH [of "cl_step kmsg x d"] Cons.prems ok_step [of d kmsg env ev] phase_step [of d msg n ev kmsg env]
    by (simp add: x cl_run_def)
qed (simp add: cl_run_def)

lemma state_emits [simp]: "ss_state (emits env ty p s) = ss_state s" "ss_state (emits_outside env ty p s) = ss_state s"
  "ss_state (with_pusher f s) = ss_state s"
  by (simp_all add: emits_def emits_outside_def with_pusher_def)

lemma state_finish: "ss_state (cl_live (finishCommandTurn kmsg k d)) = ss_state (cl_live d)"
  by (simp add: finishCommandTurn_def continue_def fail_synced_next_def cl_prims Let_def split: option.split prod.split cl_cont.split)

lemma state_usage: "ss_state (cl_live (emit_turn_usage env msg d)) = ss_state (cl_live d)"
  by (simp add: emit_turn_usage_def cl_prims Let_def split: option.split json.split)

lemma idle_settles:
  assumes "cl_loop d = Result_syncing msg n" and "ss_state (cl_live d) \<noteq> Idle" and "ss_state (cl_live (cl_synced env kmsg d)) = Idle"
  shows "cl_items d = [] \<and> cl_consumed d = n \<and> \<not> isTurnDraining (ss_pusher (cl_live d))"
proof -
  define x where "x = emit_turn_usage env msg (cl_tell [Cl_result msg] (cl_emit env (js ''sdk.result'') (fields_of msg) d))"
  have x: "same_input d x" "ss_state (cl_live x) = ss_state (cl_live d)" by (simp_all add: x_def state_usage) (simp add: cl_prims)
  have "ss_state (cl_live (result_on_disk env kmsg msg n d)) = Idle" using assms(1,3) by (simp add: cl_synced_def)
  then have "\<not> isTurnDraining (ss_pusher (cl_live d)) \<and> ss_state (cl_live (settle_turn env n x)) = Idle"
    using x(2) assms(2) by (simp add: result_on_disk_def Let_def state_finish flip: x_def split: if_splits)
  moreover from this have "cl_items x = [] \<and> cl_consumed x = n"
    using x(2) assms(2) by (auto simp: settle_turn_def cl_on_live_def split: if_splits)
  ultimately show ?thesis using x(1) by (simp add: same_input_def)
qed



end
