(* ===== verification/ClaudeCalls.thy ===== *)
theory ClaudeCalls
  imports ClaudeLife
begin

text \<open>
  Every compaction of a claude session is answered once, the driver the routes see, and a race
  in the list of commands.
\<close>

section \<open>A compaction is answered once\<close>

fun answered_compaction :: "cl_out \<Rightarrow> nat list" where
  "answered_compaction (Cl_compact_answered n out) = [n]"
| "answered_compaction _ = []"

text \<open>The compactions answered, in flight, and waiting for the CLI's result of their command.\<close>

definition compactions :: "cl_state \<Rightarrow> nat list" where
  "compactions d = concat (map answered_compaction (cl_out d)) @
     (case cl_compacting d of None \<Rightarrow> [] | Some n \<Rightarrow> [n]) @ map fst (cl_resultWaits d)"

definition same_compactions :: "cl_state \<Rightarrow> cl_state \<Rightarrow> bool" where
  "same_compactions d x \<longleftrightarrow> mset (compactions x) = mset (compactions d) \<and> cl_next d \<le> cl_next x"

definition compactions_ok :: "cl_state \<Rightarrow> bool" where
  "compactions_ok d \<longleftrightarrow> distinct (compactions d) \<and> (\<forall>n \<in> set (compactions d). n < cl_next d)"

lemma ok_compactions: "same_compactions d x \<Longrightarrow> compactions_ok d \<Longrightarrow> compactions_ok x"
proof -
  assume "same_compactions d x" "compactions_ok d"
  then have "mset (compactions x) = mset (compactions d)" "cl_next d \<le> cl_next x" "distinct (compactions d)"
    "\<forall>n \<in> set (compactions d). n < cl_next d" by (simp_all add: same_compactions_def compactions_ok_def)
  moreover from this have "set (compactions x) = set (compactions d)" "distinct (compactions x)"
    by (auto dest: mset_eq_setD mset_eq_imp_distinct_iff)
  ultimately show "compactions_ok x" by (auto simp: compactions_ok_def intro: less_le_trans)
qed

lemma kept_refl [simp]: "same_compactions d d"
  by (simp add: same_compactions_def)

lemma kept_tell [simp]:
  "same_compactions d x \<Longrightarrow> answered_compaction e = [] \<Longrightarrow> same_compactions d (cl_tell [e] x)"
  "same_compactions d x \<Longrightarrow> same_compactions d (cl_ask c arg x)"
  "same_compactions d x \<Longrightarrow> same_compactions d (cl_on_live f x)"
  "same_compactions d x \<Longrightarrow> same_compactions d (cl_emit env ty p x)"
  "same_compactions d x \<Longrightarrow> same_compactions d (startWorking env x)"
  "same_compactions d x \<Longrightarrow> same_compactions d (free_control x)"
  "same_compactions d x \<Longrightarrow> same_compactions d (armDrainReemit x)"
  by (simp_all add: same_compactions_def compactions_def cl_prims)

lemma kept_fields [simp]:
  "same_compactions d x \<Longrightarrow> same_compactions d (x\<lparr>cl_commands := v1\<rparr>)"
  "same_compactions d x \<Longrightarrow> same_compactions d (x\<lparr>cl_commandTurn := v2\<rparr>)"
  "same_compactions d x \<Longrightarrow> same_compactions d (x\<lparr>cl_instructions := v4\<rparr>)"
  "same_compactions d x \<Longrightarrow> same_compactions d (x\<lparr>cl_counts := v5\<rparr>)"
  "same_compactions d x \<Longrightarrow> same_compactions d (x\<lparr>cl_grace := v6\<rparr>)"
  "same_compactions d x \<Longrightarrow> same_compactions d (x\<lparr>cl_awaiting := v7\<rparr>)"
  "same_compactions d x \<Longrightarrow> same_compactions d (x\<lparr>cl_resultSlot := v8\<rparr>)"
  "same_compactions d x \<Longrightarrow> same_compactions d (x\<lparr>cl_lastUsage := v10\<rparr>)"
  "same_compactions d x \<Longrightarrow> same_compactions d (x\<lparr>cl_drain := v11\<rparr>)"
  "same_compactions d x \<Longrightarrow> same_compactions d (x\<lparr>cl_owed := v12\<rparr>)"
  "same_compactions d x \<Longrightarrow> same_compactions d (x\<lparr>cl_todos := v13\<rparr>)"
  "same_compactions d x \<Longrightarrow> same_compactions d (x\<lparr>cl_mode := v14\<rparr>)"
  "same_compactions d x \<Longrightarrow> same_compactions d (x\<lparr>cl_modeChanges := v15\<rparr>)"
  "same_compactions d x \<Longrightarrow> same_compactions d (x\<lparr>cl_live := v17\<rparr>)"
  "same_compactions d x \<Longrightarrow> same_compactions d (x\<lparr>cl_calls := v18\<rparr>)"
  "same_compactions d x \<Longrightarrow> same_compactions d (x\<lparr>cl_loop := v19\<rparr>)"
  "same_compactions d x \<Longrightarrow> same_compactions d (x\<lparr>cl_retiring := v20\<rparr>)"
  "same_compactions d x \<Longrightarrow> same_compactions d (x\<lparr>cl_items := v21\<rparr>)"
  "same_compactions d x \<Longrightarrow> same_compactions d (x\<lparr>cl_pump := v22\<rparr>)"
  "same_compactions d x \<Longrightarrow> same_compactions d (x\<lparr>cl_inputClosed := v23\<rparr>)"
  "same_compactions d x \<Longrightarrow> same_compactions d (x\<lparr>cl_consumed := v24\<rparr>)"
  by (simp_all add: same_compactions_def compactions_def)

lemma kept_small [simp]:
  "same_compactions d x \<Longrightarrow> same_compactions d (drain_due env x)"
  "same_compactions d x \<Longrightarrow> same_compactions d (applyTaskLedger env msg x)"
  "same_compactions d x \<Longrightarrow> same_compactions d (onInit env x)"
  "same_compactions d x \<Longrightarrow> same_compactions d (listCommands x)"
  "same_compactions d x \<Longrightarrow> same_compactions d (cl_emitContextUsage x)"
  "same_compactions d x \<Longrightarrow> same_compactions d (onCompactBoundary env msg x)"
  "same_compactions d x \<Longrightarrow> same_compactions d (queue_push item x)"
  "same_compactions d x \<Longrightarrow> same_compactions d (queue_close x)"
  "same_compactions d x \<Longrightarrow> same_compactions d (fst (cl_queueMessage env t x))"
  "same_compactions d x \<Longrightarrow> same_compactions d (pump_asks x)"
  "same_compactions d x \<Longrightarrow> same_compactions d (pump_gets env x)"
  "same_compactions d x \<Longrightarrow> same_compactions d (init_step env msg x)"
  "same_compactions d x \<Longrightarrow> same_compactions d (commands_step msg x)"
  "same_compactions d x \<Longrightarrow> same_compactions d (mode_step msg x)"
  by (simp_all add: drain_due_def applyTaskLedger_def onInit_def listCommands_def cl_emitContextUsage_def onCompactBoundary_def
      queue_push_def queue_close_def cl_queueMessage_def pump_asks_def pump_gets_def init_step_def commands_step_def mode_step_def Let_def
      split: option.split list.split cl_pump.split cl_item.split json.split)

text \<open>An answer moves its compaction, in flight or waiting, to those answered.\<close>

lemma kept_reject [simp]: "same_compactions d x \<Longrightarrow> same_compactions d (rejectPendingCompact m st x)"
  by (auto simp: rejectPendingCompact_def same_compactions_def compactions_def cl_tell_def split: option.split)

lemma kept_late [simp]: "same_compactions d x \<Longrightarrow> same_compactions d (compact_late n x)"
  by (auto simp: compact_late_def same_compactions_def compactions_def cl_tell_def)

lemma delete_keys: "distinct (map fst ys) \<Longrightarrow> map_of ys n = Some p \<Longrightarrow> add_mset n (mset (map fst (AList.delete n ys))) = mset (map fst ys)"
proof (induction ys)
  case (Cons y ys)
  have "n \<notin> fst ` set ys \<Longrightarrow> AList.delete n ys = ys" by (induction ys) auto
  with Cons show ?case by (cases y) (auto split: if_splits)
qed simp

lemma ok_result_over: "compactions_ok d \<Longrightarrow> compactions_ok (compact_result_over n d)"
proof (cases "map_of (cl_resultWaits d) n")
  case (Some p)
  assume ok: "compactions_ok d"
  then have "add_mset n (mset (map fst (AList.delete n (cl_resultWaits d)))) = mset (map fst (cl_resultWaits d))"
    using Some by (intro delete_keys) (simp_all add: compactions_ok_def compactions_def)
  then have "same_compactions d (compact_result_over n d)"
    by (simp add: compact_result_over_def Some same_compactions_def compactions_def cl_tell_def)
  with ok show ?thesis by (rule ok_compactions [rotated])
qed (simp add: compact_result_over_def)

lemma update_new: "n \<notin> fst ` set ys \<Longrightarrow> AList.update n p ys = ys @ [(n, p)]"
  by (induction ys) auto

lemma ok_finishCompact:
  assumes ok: "compactions_ok d"
  shows "compactions_ok (finishCompact env r e d)"
proof (cases "cl_compacting d")
  case None
  then show ?thesis using ok ok_compactions [of d "d\<lparr>cl_grace := False\<rparr>"] by (simp add: finishCompact_def)
next
  case (Some n)
  let ?x = "d\<lparr>cl_grace := False, cl_compacting := None\<rparr>"
  have told: "compactions_ok (cl_tell [Cl_compact_answered n out] x)" and waits: "compactions_ok (x\<lparr>cl_resultSlot := Some n,
      cl_resultWaits := AList.update n p (cl_resultWaits x)\<rparr>)" if x: "same_compactions ?x x" for x out p
  proof -
    have old: "mset (compactions d) = add_mset n (mset (compactions x))" "cl_next d \<le> cl_next x"
      using x Some by (simp_all add: same_compactions_def compactions_def)
    then have new: "n \<notin> set (compactions x)" using ok
      by (metis compactions_ok_def distinct.simps(2) mset.simps(2) mset_eq_imp_distinct_iff)
    then have "AList.update n p (cl_resultWaits x) = cl_resultWaits x @ [(n, p)]"
      by (intro update_new) (simp add: compactions_def)
    with old show "compactions_ok (x\<lparr>cl_resultSlot := Some n, cl_resultWaits := AList.update n p (cl_resultWaits x)\<rparr>)"
      by (intro ok_compactions [OF _ ok]) (simp add: same_compactions_def compactions_def)
    show "compactions_ok (cl_tell [Cl_compact_answered n out] x)" using old
      by (intro ok_compactions [OF _ ok]) (simp add: same_compactions_def compactions_def cl_tell_def)
  qed
  show ?thesis using Some by (auto simp: finishCompact_def compact_resolved_def Let_def intro!: told waits)
qed

lemma ok_kept: "same_compactions d x \<Longrightarrow> compactions_ok d \<Longrightarrow> compactions_ok x"
  by (rule ok_compactions)

lemma ok_status: "compactions_ok d \<Longrightarrow> compactions_ok (compact_step env msg d)"
  by (auto simp: compact_step_def onCompactStatus_def ok_finishCompact intro: ok_kept [of d])

lemma ok_system: "compactions_ok d \<Longrightarrow> compactions_ok (on_system env msg d)"
proof -
  assume ok: "compactions_ok d"
  have "same_compactions d (commands_step msg (init_step env msg d))" by simp
  from ok_status [OF ok_kept [OF this ok], of env msg] have "compactions_ok (compact_step env msg (commands_step msg (init_step env msg d)))" .
  then show ?thesis unfolding on_system_def by (rule ok_kept [rotated]) simp
qed

lemma kept_todos [simp]: "same_compactions d x \<Longrightarrow> same_compactions d (emit_todos env ls x)"
  by (induction ls arbitrary: x) (simp_all add: emit_todos_def)

lemma kept_turn [simp]:
  "same_compactions d x \<Longrightarrow> same_compactions d (settle_turn env n x)"
  "same_compactions d x \<Longrightarrow> same_compactions d (emit_turn_usage env msg x)"
  "same_compactions d x \<Longrightarrow> same_compactions d (idle_after_interrupt env n x)"
  "same_compactions d x \<Longrightarrow> same_compactions d (continue kmsg k x)"
  "same_compactions d x \<Longrightarrow> same_compactions d (finishCommandTurn kmsg k x)"
  by (simp_all add: settle_turn_def emit_turn_usage_def idle_after_interrupt_def continue_def finishCommandTurn_def fail_synced_next_def
      Let_def split: option.split json.split cl_cont.split prod.split)

lemma ok_result: "compactions_ok d \<Longrightarrow> compactions_ok (on_result msg d)"
proof -
  assume ok: "compactions_ok d"
  let ?x = "rejectPendingCompact (no_compaction msg) 409 (d\<lparr>cl_awaiting := False\<rparr>)"
  have x: "compactions_ok ?x" by (rule ok_kept [OF _ ok]) simp
  have loop: "compactions_ok y \<Longrightarrow> compactions_ok (y\<lparr>cl_loop := l\<rparr>)" for y l by (rule ok_kept [of y]) simp
  have "compactions_ok (cl_on_live f (d\<lparr>cl_loop := l\<rparr>))" for f l by (rule ok_kept [OF _ ok]) simp
  then show ?thesis using x by (auto simp: on_result_def Let_def intro!: loop ok_result_over split: option.split)
qed

lemma ok_message_compactions: "compactions_ok d \<Longrightarrow> compactions_ok (on_message env msg d)"
proof -
  assume ok: "compactions_ok d"
  have "same_compactions d (on_assistant env msg d)" "same_compactions d (on_user env msg d)"
    by (simp_all add: on_assistant_def on_user_def Let_def split: prod.split)
  with ok have "compactions_ok (on_assistant env msg d)" "compactions_ok (on_user env msg d)" using ok_kept by blast+
  moreover have "compactions_ok (cl_emit env ty p d)" "compactions_ok (cl_on_live f d)" for ty p f
    by (rule ok_kept [OF _ ok], simp)+
  ultimately show ?thesis using ok by (simp add: on_message_def Let_def ok_system ok_result)
qed

lemma kept_calls [simp]:
  "same_compactions d x \<Longrightarrow> same_compactions d (send_command env kmsg c f r p x)"
proof -
  assume x: "same_compactions d x"
  have "same_compactions d (fst (cl_queueMessage env t (x\<lparr>cl_commandTurn := Some (r, p)\<rparr>)))" for t using x by simp
  then show ?thesis using x by (simp add: send_command_def Let_def case_prod_beta split: sum.split)
qed

lemma kept_commands [simp]:
  "same_compactions d x \<Longrightarrow> same_compactions d (command_found env kmsg c cs x)"
  "same_compactions d x \<Longrightarrow> same_compactions d (invokeCommand env kmsg c x)"
  by (simp_all add: command_found_def invokeCommand_def split: option.split sum.split)

lemma kept_replied: "same_compactions d (cl_replied env kmsg i out d)"
proof (cases "map_of (cl_calls d) i")
  case (Some c)
  then show ?thesis by (cases c; cases out) (simp_all add: cl_replied_def Let_def split: option.split json.split)
qed (simp add: cl_replied_def)

lemma kept_ops [simp]:
  "same_compactions d (cl_interrupt d)" "same_compactions d (cl_setPermissionMode mode d)" "same_compactions d (askToolsChanged d)"
  "same_compactions d (snd (cl_setModel m e d))" "same_compactions d (snd (cl_tool_call env tool input use b r d))"
  "same_compactions d (cl_beginEnd d)" "same_compactions d (cl_shutdownStop d)" "same_compactions d (cl_retire d)"
  "same_compactions d (cl_forceStop d)" "same_compactions d (cl_retired d)" "same_compactions d (loop_ended d)"
  "same_compactions d (loop_failed kmsg e' d)" "same_compactions d (interrupt_on_disk env kmsg i d)"
  "same_compactions d (cl_synced env kmsg d)"
  by (simp_all add: cl_interrupt_def cl_setPermissionMode_def askToolsChanged_def cl_setModel_def cl_tool_call_def cl_beginEnd_def
      cl_shutdownStop_def cl_retire_def cl_forceStop_def cl_retired_def loop_ended_def loop_failed_def interrupt_on_disk_def
      cl_synced_def result_on_disk_def loop_over_def Let_def split: option.split cl_call.split cl_loop.split)

lemma ok_compact:
  assumes ok: "compactions_ok d"
  shows "compactions_ok (snd (cl_compact instructions d))"
proof (cases "cl_compacting d")
  case None
  let ?x = "d\<lparr>cl_compacting := Some (cl_next d), cl_next := cl_next d + 1, cl_instructions := instructions, cl_counts := None\<rparr>"
  have x: "compactions_ok ?x" using ok None by (auto simp: compactions_ok_def compactions_def intro: less_SucI)
  have "compactions_ok (rejectPendingCompact m st ?x)" "compactions_ok (queue_push i (?x\<lparr>cl_awaiting := True\<rparr>))" for m st i
    by (rule ok_kept [OF _ x], simp)+
  then show ?thesis using None by (simp add: cl_compact_def Let_def)
qed (simp add: cl_compact_def ok)

lemma ok_step_compactions: "compactions_ok d \<Longrightarrow> compactions_ok (cl_step kmsg (env, ev) d)"
proof (cases ev)
  case (Cl_message m)
  then show "compactions_ok d \<Longrightarrow> ?thesis" by (simp add: ok_message_compactions)
next
  case Cl_grace_due
  then show "compactions_ok d \<Longrightarrow> ?thesis" by (simp add: grace_due_def ok_finishCompact)
next
  case (Cl_result_late n)
  then show "compactions_ok d \<Longrightarrow> ?thesis" by (simp add: ok_result_over)
next
  case (Cl_compact instructions)
  then show "compactions_ok d \<Longrightarrow> ?thesis" by (simp add: ok_compact)
qed (simp_all add: ok_kept [of d] kept_replied)

text \<open>
  C13: Every compaction of a claude session is answered at most once, and one that was answered is
  neither in flight any more nor waiting for the CLI's result: however boundaries, status
  messages, results, timers, interrupts and ends come in, none is answered twice and none that
  is still to be answered already was.
\<close>

theorem claude_compactions_answered_once:
  "distinct (compactions (cl_run kmsg evs (new_claude env s)))"
proof -
  have "compactions_ok d \<Longrightarrow> compactions_ok (fold (cl_step kmsg) evs d)" for d
    by (induction evs arbitrary: d) (auto simp: ok_step_compactions)
  moreover have "compactions_ok (new_claude env s)" by (simp add: compactions_ok_def compactions_def new_claude_def)
  ultimately show ?thesis by (simp add: cl_run_def compactions_ok_def)
qed

section \<open>The list of commands\<close>

text \<open>
  The CLI's newer list of commands gives way to the one it was started with when that is answered
  late: the answer is stored whatever came meanwhile.
\<close>

lemma stale_commands_win:
  assumes "map_of (cl_calls d) i = Some List_commands"
  shows "cl_commands (cl_replied env kmsg i (Inr v) (commands_step msg d)) = Some (normalizeCommandList v)"
proof -
  have "map_of (cl_calls (commands_step msg d)) i = Some List_commands" using assms by (simp add: commands_step_def)
  then show ?thesis by (simp add: cl_replied_def cl_tell_def)
qed

section \<open>The driver the routes see\<close>

text \<open>
  The driver of \<^verbatim>\<open>server.mjs\<close>'s interface that a claude session \<open>d\<close> is, as far as the live
  session goes. A shutdown waits for the SDK's answer; its run loop ends on its own later.
\<close>

definition claude_harness :: "jstring list option \<Rightarrow> cl_state \<Rightarrow> driver" where
  "claude_harness kmsg d =
     \<lparr>dr_methods = \<lparr>has_listCommands = True, has_invokeCommand = True, has_setModel = True, has_compact = True\<rparr>,
      dr_retires = True,
      dr_queueMessage = (\<lambda>env t s. let (d1, took) = cl_queueMessage env t (d\<lparr>cl_live := s\<rparr>) in (cl_live d1, took)),
      dr_beginEnd = (\<lambda>env s. cl_live (cl_beginEnd (d\<lparr>cl_live := s\<rparr>))),
      dr_shutdownStop = (\<lambda>env s.
        let d1 = cl_shutdownStop (d\<lparr>cl_live := s\<rparr>) in cl_live (cl_replied env kmsg (cl_next d) (Inr JNull) d1))\<rparr>"

locale quiet_claude =
  fixes kmsg :: "jstring list option" and d :: cl_state
  assumes quiet: "cl_commandTurn d = None" "map_of (cl_calls d) (cl_next d) = None"
begin

lemma rejected:
  "cl_commandTurn (rejectPendingCompact m st x) = cl_commandTurn x \<and> cl_calls (rejectPendingCompact m st x) = cl_calls x \<and>
   cl_next (rejectPendingCompact m st x) = cl_next x \<and> cl_live (rejectPendingCompact m st x) = cl_live x"
  by (simp add: rejectPendingCompact_def cl_tell_def split: option.split)

lemma shutdown_live: "dr_shutdownStop (claude_harness kmsg d) env s = s"
  using quiet by (simp add: claude_harness_def cl_shutdownStop_def queue_close_def cl_ask_def cl_tell_def cl_replied_def
      finishCommandTurn_def continue_def rejected Let_def map_add_def)

lemma end_live: "dr_beginEnd (claude_harness kmsg d) env s = s"
  by (simp add: claude_harness_def cl_beginEnd_def queue_close_def rejected)

lemma queue_live:
  "fst (dr_queueMessage (claude_harness kmsg d) env t s) = (if cl_inputClosed d then s else setState env Working [] s)"
  by (simp add: claude_harness_def cl_queueMessage_def startWorking_def queue_push_def cl_on_live_def)

end

sublocale quiet_claude \<subseteq> settled_harness "claude_harness kmsg d"
proof
  fix s env t
  show "driver_keeps s (fst (dr_queueMessage (claude_harness kmsg d) env t s))" "driver_keeps s (dr_beginEnd (claude_harness kmsg d) env s)"
    "driver_keeps s (dr_shutdownStop (claude_harness kmsg d) env s)"
    by (simp_all add: shutdown_live end_live queue_live driver_keeps_moves)
  show "isDone s \<Longrightarrow> isDone (fst (dr_queueMessage (claude_harness kmsg d) env t s))" "isDone s \<Longrightarrow> isDone (dr_beginEnd (claude_harness kmsg d) env s)"
    "isDone s \<Longrightarrow> isDone (dr_shutdownStop (claude_harness kmsg d) env s)"
    by (simp_all add: shutdown_live end_live queue_live) (auto simp: setState_def isDone_def)
qed

interpretation new_claude_driver: quiet_claude kmsg "new_claude env s" for kmsg env s
  by unfold_locales (simp_all add: new_claude_def)

end
