(* ===== verification/Spec2Isabelle.thy ===== *)
theory Spec2Isabelle
  imports PusherDelivery DaemonLaws Desktop OpencodeClient CodexMessages ClaudeCalls
begin

text \<open>
  \<^bold>\<open>agentd\<close>, the daemon that runs one coding agent's session in a virtual machine
  (\<^verbatim>\<open>src/agent-base/agentd\<close>). A control plane creates the session over HTTP, sends it messages,
  decides its permission requests and ends it; the daemon drives a harness (claude, codex,
  opencode or pi), and pushes everything that happens back as numbered events.

  \<^bold>\<open>The parts and how they meet.\<close> \<^verbatim>\<open>server.mjs\<close> owns the session and the routes. It uses
  \<^verbatim>\<open>session-control.mjs\<close> for the calls that need the session between turns,
  \<^verbatim>\<open>message-context.mjs\<close> for the prompt a message becomes, \<^verbatim>\<open>session-setup.mjs\<close> for the rules
  of a live set-up change, \<^verbatim>\<open>seedgate.mjs\<close> for when a harness may start,
  \<^verbatim>\<open>credential-broker.mjs\<close> for the session's identity, \<^verbatim>\<open>image-mcp.mjs\<close> for the image's tools
  and \<^verbatim>\<open>event-pusher.mjs\<close> for delivery. A pusher stamps events with the turns of
  \<^verbatim>\<open>turn-events.mjs\<close>, bounds them by \<^verbatim>\<open>event-bounds.mjs\<close> and collects the files of
  \<^verbatim>\<open>changed-files.mjs\<close>. The drivers share \<^verbatim>\<open>run-tools.mjs\<close>, \<^verbatim>\<open>tool-policy.mjs\<close>,
  \<^verbatim>\<open>questions.mjs\<close>, \<^verbatim>\<open>todos.mjs\<close> and \<^verbatim>\<open>claude-tasks.mjs\<close>.

  \<^bold>\<open>The theories.\<close>
  \<^item> JsPrelude, JsJson: strings as lists of 16 bit code units, ordered maps, HTTP errors; JSON
    trees with \<^verbatim>\<open>undefined\<close>, truthiness, UTF-8 and \<^verbatim>\<open>JSON.stringify\<close>.
  \<^item> TurnEvents, EventBounds, ChangedFiles, EventPusher: one event from the moment it is emitted
    to the batch that carries it; PusherDelivery runs the pusher against any control plane.
  \<^item> SessionControl, MessageContext, SessionSetup, RunTools, Ledgers, Decisions, ToolPolicy: the
    rules the routes and drivers call.
  \<^item> HostFiles, FileApi: the seed gate, uploads, ranges, the file search, and the file and skill
    routes behind their path jail.
  \<^item> ImageMcp, CredentialBroker: the image's servers, the harness table, the renewable identity
    and the connector routes.
  \<^item> SessionState, SessionSwap, SessionRoutes: the live session, the set-up swap, every route.
    SessionStart: creating and starting a session, the deferred start, dispatch, the shutdown.
  \<^item> SessionProps, SessionServe, SessionLaws, DaemonLaws: a session and its daemon over time.
  \<^item> JsRegex: the regular expressions the drivers match; CodexTranslate, OpencodeTranslate,
    PiTranslate: the translators of the harnesses' events, errors, tool names and configuration.
  \<^item> CodexRpc, OpencodeClient: the clients of the two harnesses that are processes, as step
    relations over what the process writes, the timers and its end.
  \<^item> McpBridge, McpCalls: connector tools in harnesses without MCP, and one server's calls,
    reconnections and close. Desktop: the desktop's manifest, control lease and routes.
  \<^item> PiDriver: the whole driver of pi, from its tool gate to winding down, as a step relation.
  \<^item> CodexHistory: rollout files, their lineage and replay, and what of one thread is carried into
    a rebuilt one. CodexStart: codex's credentials, tools and the choice between resuming,
    rebuilding and starting a thread. CodexGate: the requests codex makes of the daemon.
    CodexDriver: the turns of a codex session, its compactions and its wind-down, as a step
    relation; CodexLife, CodexMessages: what holds over every history of it.
  \<^item> ClaudeSession: what a claude session is built from, its permission callback, the mode of the CLI
    and what its death is reported as. ClaudeDriver: its input queue, run loop, commands,
    compactions and ways out, as a step relation over the messages and answers of an arbitrary
    SDK; ClaudeLife, ClaudeCalls: what holds over every history of it.

  \<^bold>\<open>How code becomes definitions.\<close> A class or session object is a record, an enumeration a
  datatype, a throw a value of a sum. An await splits a function into a start, that leaves the
  call in flight, and a finish, that gets its outcome; between the two any other operation may
  run. What the code reads from outside (clock, fresh identifiers, the file system, the answers
  of the harness and of the control plane, \<^verbatim>\<open>new URL\<close>, \<^verbatim>\<open>Date.parse\<close>) is an argument; what it
  does outside (responses, prompts, resolved promises, file operations) is a log in order. Log
  lines are left out.

  \<^bold>\<open>What is shown.\<close> The pusher loses no durable event and delivers in order, whatever the
  control plane answers (a step relation and its invariant). A session answers every waiting
  tool call once, never has two harnesses, holds input while its set-up changes, and releases
  everything when it ends: these are invariants over every history of events, proved once for
  any predicate that survives the session's primitive changes (the locales \<open>session_blocks\<close> to
  \<open>session_free\<close>) and interpreted for each invariant. What the routes rely on in a driver is the
  locale \<open>settled_harness\<close>, interpreted by the stand-in driver of the seed gate, by pi's, codex's and claude's. The other
  properties are each component's own: bounds, round trips, confinement, fail-closed policy.

  \<^bold>\<open>Bounds.\<close> No definition runs on fuel that could run out: the only bounded loops are the
  code's own (the directories of a search, the rounds of string cutting), and polling loops take
  the list of their polls.

  \<^bold>\<open>Not modelled.\<close> Sockets, child processes and the bytes of the VNC relay (\<^verbatim>\<open>desktop.mjs\<close>)
  are input and output. The driver of opencode (\<^verbatim>\<open>drivers/opencode.mjs\<close>)
  is not; its translator, client and run tools are. The texts and schemas that describe the run
  tools to a model are text.
\<close>

end
